(* ===== verification/Prelude.thy ===== *)
theory Prelude
  imports Main "HOL-Library.AList" "HOL-Library.List_Lexorder" "HOL-Library.Char_ord"
    "HOL-Library.Multiset"
begin

text \<open>
  What the components share: the types of the model, 64-bit wrap-around, the parts of Go's
  standard library the modelled code calls (package \<^verbatim>\<open>strings\<close>, \<^verbatim>\<open>sort.Slice\<close>,
  \<^verbatim>\<open>fmt.Sprintf\<close> of integers), and the generic lemmas on association lists and on
  first-match searches.

  A Go string is a sequence of bytes, here \<^typ>\<open>string\<close>. \<^verbatim>\<open>strings.ToLower\<close>,
  \<^verbatim>\<open>strings.EqualFold\<close> and \<^verbatim>\<open>strings.TrimSpace\<close> are modelled on ASCII: bytes above 127
  are left as they are, so the model is exact for ASCII text and ignores the Unicode case and
  space tables.
\<close>

named_theorems wf_intros \<open>well-formedness is preserved\<close>
named_theorems unfold_ops \<open>unfolding of the operations of a component\<close>

section \<open>Types\<close>

type_synonym bytes = string
type_synonym nanos = int

text \<open>A Go value of type \<^verbatim>\<open>any\<close> as far as the modelled code inspects one.\<close>

datatype 'a anyval = AnyString string | AnyBytes bytes | AnyOther 'a

section \<open>64-bit signed integers\<close>

definition wrap64 :: "int \<Rightarrow> int" where
  "wrap64 x = (x + 2 ^ 63) mod 2 ^ 64 - 2 ^ 63"

lemma wrap64_id: "- (2 ^ 63) \<le> x \<Longrightarrow> x < 2 ^ 63 \<Longrightarrow> wrap64 x = x"
  by (simp add: wrap64_def)

lemma wrap64_range: "- (2 ^ 63) \<le> wrap64 x" "wrap64 x < 2 ^ 63"
proof -
  have "0 \<le> (x + 2 ^ 63) mod 2 ^ 64" "(x + 2 ^ 63) mod 2 ^ 64 < 2 ^ 64"
    by (rule pos_mod_sign, simp) (rule pos_mod_bound, simp)
  then show "- (2 ^ 63) \<le> wrap64 x" "wrap64 x < 2 ^ 63"
    by (simp_all add: wrap64_def)
qed

section \<open>Package strings\<close>

definition lowerByte :: "char \<Rightarrow> char" where
  "lowerByte c = (if 65 \<le> (of_char c :: nat) \<and> (of_char c :: nat) \<le> 90
                  then char_of ((of_char c :: nat) + 32) else c)"

definition toLower :: "string \<Rightarrow> string" where
  "toLower s = map lowerByte s"

definition equalFold :: "string \<Rightarrow> string \<Rightarrow> bool" where
  "equalFold s t \<longleftrightarrow> toLower s = toLower t"

fun hasPrefix :: "string \<Rightarrow> string \<Rightarrow> bool" where
  "hasPrefix s [] = True"
| "hasPrefix [] (p # ps) = False"
| "hasPrefix (c # cs) (p # ps) = (c = p \<and> hasPrefix cs ps)"

fun strContains :: "string \<Rightarrow> string \<Rightarrow> bool" where
  "strContains [] sub = (sub = [])"
| "strContains (c # cs) sub = (hasPrefix (c # cs) sub \<or> strContains cs sub)"

definition isSpaceByte :: "char \<Rightarrow> bool" where
  "isSpaceByte c \<longleftrightarrow> (of_char c :: nat) \<in> {9, 10, 11, 12, 13, 32}"

definition trimSpace :: "string \<Rightarrow> string" where
  "trimSpace s = rev (dropWhile isSpaceByte (rev (dropWhile isSpaceByte s)))"

fun joinWith :: "string \<Rightarrow> string list \<Rightarrow> string" where
  "joinWith sep [] = []"
| "joinWith sep [s] = s"
| "joinWith sep (s # t # ts) = s @ sep @ joinWith sep (t # ts)"

fun replaceByte :: "char \<Rightarrow> string \<Rightarrow> string \<Rightarrow> string" where
  "replaceByte a b [] = []"
| "replaceByte a b (c # cs) = (if c = a then b else [c]) @ replaceByte a b cs"

lemma hasPrefix_iff: "hasPrefix s p \<longleftrightarrow> (\<exists>r. s = p @ r)"
  by (induction s p rule: hasPrefix.induct) auto

lemma hasPrefix_take: "hasPrefix s p \<longleftrightarrow> length p \<le> length s \<and> take (length p) s = p"
  by (induction s p rule: hasPrefix.induct) auto

lemma strContains_iff: "strContains s sub \<longleftrightarrow> (\<exists>a b. s = a @ sub @ b)"
proof (induction s sub rule: strContains.induct)
  case (1 sub)
  show ?case by auto
next
  case (2 c cs sub)
  show ?case (is "?l \<longleftrightarrow> ?r")
  proof
    assume ?l
    with 2 consider (pre) r where "c # cs = sub @ r" | (mid) a b where "cs = a @ sub @ b"
      by (auto simp: hasPrefix_iff)
    then show ?r
    proof cases
      case pre
      then show ?thesis by (intro exI [of _ "[]"] exI [of _ r]) simp
    next
      case mid
      then show ?thesis by (intro exI [of _ "c # a"] exI [of _ b]) simp
    qed
  next
    assume ?r
    then obtain a b where ab: "c # cs = a @ sub @ b" by blast
    show ?l
    proof (cases a)
      case Nil
      with ab have "hasPrefix (c # cs) sub" by (simp only: hasPrefix_iff) auto
      then show ?thesis by simp
    next
      case (Cons x a')
      with ab have "cs = a' @ sub @ b" by simp
      with 2 show ?thesis by auto
    qed
  qed
qed

lemma lowerByte_idem [simp]: "lowerByte (lowerByte c) = lowerByte c"
proof (cases "65 \<le> (of_char c :: nat) \<and> (of_char c :: nat) \<le> 90")
  case True
  then have "of_char (char_of ((of_char c :: nat) + 32)) = (of_char c :: nat) + 32"
    by (simp add: of_char_of)
  with True show ?thesis by (simp add: lowerByte_def)
next
  case False
  then have "lowerByte c = c" unfolding lowerByte_def by (rule if_not_P)
  then show ?thesis by simp
qed

lemma toLower_idem [simp]: "toLower (toLower s) = toLower s"
  by (simp add: toLower_def)

lemma toLower_append: "toLower (s @ t) = toLower s @ toLower t"
  by (simp add: toLower_def)

lemma length_toLower [simp]: "length (toLower s) = length s"
  by (simp add: toLower_def)

lemma toLower_eq_Nil [simp]: "toLower s = [] \<longleftrightarrow> s = []"
  by (simp add: toLower_def)

lemma equalFold_refl [simp]: "equalFold s s"
  by (simp add: equalFold_def)

lemma equalFold_sym: "equalFold s t \<longleftrightarrow> equalFold t s"
  by (auto simp: equalFold_def)

lemma equalFold_trans: "equalFold s t \<Longrightarrow> equalFold t u \<Longrightarrow> equalFold s u"
  by (simp add: equalFold_def)

section \<open>Decimal rendering of integers (\<^verbatim>\<open>%d\<close>)\<close>

fun digitsOf :: "nat \<Rightarrow> string" where
  "digitsOf n = (if n < 10 then [char_of (48 + n)]
                 else digitsOf (n div 10) @ [char_of (48 + n mod 10)])"

declare digitsOf.simps [simp del]

definition itoa :: "int \<Rightarrow> string" where
  "itoa i = (if i < 0 then CHR ''-'' # digitsOf (nat (- i)) else digitsOf (nat i))"

lemma digitsOf_chars: "c \<in> set (digitsOf n) \<Longrightarrow> of_char c \<in> {48..57 :: nat}"
proof (induction n rule: digitsOf.induct)
  case (1 n)
  have d: "of_char (char_of (48 + m) :: char) = (48 + m :: nat)" if "m < 10" for m :: nat
    using that by (simp add: of_char_of)
  show ?case
  proof (cases "n < 10")
    case True
    then show ?thesis using "1.prems" d [of n] by (simp add: digitsOf.simps [of n])
  next
    case False
    then consider "c \<in> set (digitsOf (n div 10))" | "c = char_of (48 + n mod 10)"
      using "1.prems" by (auto simp: digitsOf.simps [of n])
    then show ?thesis by cases (use "1.IH" [OF False] d [of "n mod 10"] in auto)
  qed
qed

text \<open>Reading the digits back.\<close>

definition digitsVal :: "string \<Rightarrow> nat" where
  "digitsVal s = foldl (\<lambda>n c. 10 * n + (of_char c - 48)) 0 s"

lemma digitsVal_digitsOf: "digitsVal (digitsOf n) = n"
proof (induction n rule: digitsOf.induct)
  case (1 n)
  have d: "of_char (char_of (48 + m) :: char) = (48 + m :: nat)" if "m < 10" for m :: nat
    using that by (simp add: of_char_of)
  show ?case
  proof (cases "n < 10")
    case True
    then show ?thesis using d [of n] by (simp add: digitsOf.simps [of n] digitsVal_def)
  next
    case False
    then have "digitsVal (digitsOf n) = 10 * digitsVal (digitsOf (n div 10)) + n mod 10"
      using d [of "n mod 10"] by (simp add: digitsOf.simps [of n] digitsVal_def)
    then show ?thesis using "1.IH" [OF False] by simp
  qed
qed

lemma itoa_inject [simp]: "itoa i = itoa j \<longleftrightarrow> i = j"
proof
  assume eq: "itoa i = itoa j"
  have head: "digitsOf n \<noteq> CHR ''-'' # xs" for n xs using digitsOf_chars [of "CHR ''-''" n] by auto
  have inj: "digitsOf m = digitsOf n \<Longrightarrow> m = n" for m n using digitsVal_digitsOf by metis
  show "i = j"
    using eq inj [of "nat i" "nat j"] inj [of "nat (- i)" "nat (- j)"] head [of "nat i"] head [of "nat j"]
    by (auto simp: itoa_def split: if_splits dest: sym)
qed simp

lemma itoa_no_colon: "CHR '':'' \<notin> set (itoa i)"
  using digitsOf_chars [of "CHR '':''"] by (auto simp: itoa_def)

text \<open>A text that ends with a colon and a number says which text and which number.\<close>

lemma takeWhile_stop: "x \<notin> set xs \<Longrightarrow> takeWhile (\<lambda>c. c \<noteq> x) (xs @ x # r) = xs"
  by (induction xs) auto

lemma colon_split:
  assumes "s @ '':'' @ a = t @ '':'' @ b" "CHR '':'' \<notin> set a" "CHR '':'' \<notin> set b"
  shows "s = t \<and> a = b"
proof -
  have "takeWhile (\<lambda>c. c \<noteq> CHR '':'') (rev (s @ '':'' @ a)) = rev a"
    and "takeWhile (\<lambda>c. c \<noteq> CHR '':'') (rev (t @ '':'' @ b)) = rev b"
    using assms(2,3) by (simp_all add: takeWhile_stop)
  with assms(1) have "rev a = rev b" by metis
  with assms(1) show ?thesis by simp
qed

section \<open>sort.Slice\<close>

text \<open>
  Go's \<^verbatim>\<open>sort.Slice\<close> is insertion sort on slices of at most twelve elements and pattern-defeating
  quicksort above; the result is a permutation ordered by \<open>lt\<close>, and on ties the order is
  not promised. The model is the insertion sort (an element moves left while it is \<open>lt\<close> than
  its left neighbour), which is what Go runs on short slices and gives the one possible result
  on every slice without ties.
\<close>

definition insertLeft :: "('a \<Rightarrow> 'a \<Rightarrow> bool) \<Rightarrow> 'a \<Rightarrow> 'a list \<Rightarrow> 'a list" where
  "insertLeft lt x ys =
     rev (dropWhile (lt x) (rev ys)) @ x # rev (takeWhile (lt x) (rev ys))"

definition sortSlice :: "('a \<Rightarrow> 'a \<Rightarrow> bool) \<Rightarrow> 'a list \<Rightarrow> 'a list" where
  "sortSlice lt xs = foldl (\<lambda>ys x. insertLeft lt x ys) [] xs"

lemma mset_insertLeft: "mset (insertLeft lt x ys) = add_mset x (mset ys)"
proof -
  have "mset (dropWhile (lt x) (rev ys)) + mset (takeWhile (lt x) (rev ys)) = mset ys"
    by (metis mset_append mset_rev takeWhile_dropWhile_id add.commute)
  then show ?thesis by (simp add: insertLeft_def)
qed

lemma mset_sortSlice_acc: "mset (foldl (\<lambda>ys x. insertLeft lt x ys) zs xs) = mset zs + mset xs"
  by (induction xs arbitrary: zs) (simp_all add: mset_insertLeft)

lemma mset_sortSlice [simp]: "mset (sortSlice lt xs) = mset xs"
  by (simp add: sortSlice_def mset_sortSlice_acc)

lemma set_sortSlice [simp]: "set (sortSlice lt xs) = set xs"
  by (metis mset_sortSlice set_mset_mset)

lemma length_sortSlice [simp]: "length (sortSlice lt xs) = length xs"
  by (metis mset_sortSlice size_mset)

lemma distinct_sortSlice [simp]: "distinct (sortSlice lt xs) \<longleftrightarrow> distinct xs"
  by (metis mset_sortSlice mset_eq_imp_distinct_iff)

text \<open>What \<open>lt\<close> has to be for \<^verbatim>\<open>sort.Slice\<close> to make sense: a strict weak order.\<close>

locale strict_weak_order =
  fixes lt :: "'a \<Rightarrow> 'a \<Rightarrow> bool"
  assumes asym: "lt x y \<Longrightarrow> \<not> lt y x"
    and neg_trans: "\<not> lt x y \<Longrightarrow> \<not> lt y z \<Longrightarrow> \<not> lt x z"
begin

lemma insertLeft_ordered:
  assumes "sorted_wrt (\<lambda>a b. \<not> lt b a) ys"
  shows "sorted_wrt (\<lambda>a b. \<not> lt b a) (insertLeft lt x ys)"
proof -
  let ?P = "\<lambda>a b. \<not> lt b a"
  define l where "l = rev (dropWhile (lt x) (rev ys))"
  define r where "r = rev (takeWhile (lt x) (rev ys))"
  have ys: "ys = l @ r"
    unfolding l_def r_def by (metis rev_append rev_rev_ident takeWhile_dropWhile_id)
  have r: "\<And>y. y \<in> set r \<Longrightarrow> lt x y"
    unfolding r_def by (auto dest: set_takeWhileD)
  have sl: "sorted_wrt ?P l" and sr: "sorted_wrt ?P r"
    and lr: "\<And>a b. a \<in> set l \<Longrightarrow> b \<in> set r \<Longrightarrow> \<not> lt b a"
    using assms unfolding ys by (auto simp: sorted_wrt_append)
  have lx: "\<not> lt x a" if "a \<in> set l" for a
  proof (cases "rev l")
    case Nil
    with that show ?thesis by simp
  next
    case (Cons z zs)
    then have zl: "l = rev zs @ [z]" by (metis rev.simps(2) rev_rev_ident)
    have "\<not> lt x z"
      using Cons unfolding l_def by (metis dropWhile_eq_Cons_conv rev_rev_ident)
    show ?thesis
    proof (cases "a = z")
      case True
      with \<open>\<not> lt x z\<close> show ?thesis by simp
    next
      case False
      with that zl have "a \<in> set (rev zs)" by auto
      with sl zl have "\<not> lt z a" by (auto simp: sorted_wrt_append)
      with \<open>\<not> lt x z\<close> show ?thesis by (rule neg_trans)
    qed
  qed
  have "\<not> lt y x" if "y \<in> set r" for y using r [OF that] by (rule asym)
  with sl sr lr lx show ?thesis
    unfolding insertLeft_def l_def [symmetric] r_def [symmetric]
    by (auto simp: sorted_wrt_append)
qed

lemma sortSlice_ordered: "sorted_wrt (\<lambda>a b. \<not> lt b a) (sortSlice lt xs)"
proof -
  have "sorted_wrt (\<lambda>a b. \<not> lt b a) (foldl (\<lambda>ys x. insertLeft lt x ys) zs xs)"
    if "sorted_wrt (\<lambda>a b. \<not> lt b a) zs" for zs
    using that by (induction xs arbitrary: zs) (simp_all add: insertLeft_ordered)
  then show ?thesis by (simp add: sortSlice_def)
qed

text \<open>Elements that compare equal keep their order (\<^verbatim>\<open>sort.SliceStable\<close>).\<close>

lemma filter_insertLeft:
  "filter (\<lambda>y. \<not> lt a y \<and> \<not> lt y a) (insertLeft lt x ys) =
   filter (\<lambda>y. \<not> lt a y \<and> \<not> lt y a) ys @ (if \<not> lt a x \<and> \<not> lt x a then [x] else [])"
proof -
  let ?Q = "\<lambda>y. \<not> lt a y \<and> \<not> lt y a"
  define l where "l = rev (dropWhile (lt x) (rev ys))"
  define r where "r = rev (takeWhile (lt x) (rev ys))"
  have ys: "ys = l @ r"
    unfolding l_def r_def by (metis rev_append rev_rev_ident takeWhile_dropWhile_id)
  have r: "lt x y" if "y \<in> set r" for y using that unfolding r_def by (auto dest: set_takeWhileD)
  have "filter ?Q r = []" if "?Q x"
  proof -
    have "\<not> ?Q y" if "y \<in> set r" for y
      using r [OF that] neg_trans [of x a y] \<open>?Q x\<close> by blast
    then show ?thesis by (simp add: filter_empty_conv)
  qed
  then show ?thesis unfolding insertLeft_def l_def [symmetric] r_def [symmetric] by (simp add: ys)
qed

lemma sortSlice_stable:
  "filter (\<lambda>y. \<not> lt a y \<and> \<not> lt y a) (sortSlice lt xs) = filter (\<lambda>y. \<not> lt a y \<and> \<not> lt y a) xs"
proof -
  have "filter (\<lambda>y. \<not> lt a y \<and> \<not> lt y a) (foldl (\<lambda>ys x. insertLeft lt x ys) zs xs)
      = filter (\<lambda>y. \<not> lt a y \<and> \<not> lt y a) zs @ filter (\<lambda>y. \<not> lt a y \<and> \<not> lt y a) xs" for zs
    by (induction xs arbitrary: zs) (simp_all add: filter_insertLeft)
  from this [of "[]"] show ?thesis by (simp add: sortSlice_def)
qed

end

text \<open>Byte-wise string order, Go's \<^verbatim>\<open><\<close> on strings, is one.\<close>

interpretation string_order: strict_weak_order "\<lambda>x y :: string. x < y"
  by unfold_locales auto

text \<open>Sorting by a string field (\<^verbatim>\<open>x[i].F < x[j].F\<close>).\<close>

interpretation string_key_order: strict_weak_order "\<lambda>x y :: 'a. (f x :: string) < f y" for f
  by unfold_locales auto

section \<open>Association lists\<close>

lemma map_of_update [simp]: "map_of (AList.update k v al) = (map_of al)(k \<mapsto> v)"
  by (simp add: update_conv')

lemma map_of_delete [simp]: "map_of (AList.delete k al) = (map_of al)(k := None)"
  by (simp add: delete_conv')

lemma map_of_filter_val:
  "distinct (map fst al) \<Longrightarrow>
   map_of (filter (\<lambda>(k, v). P v) al) k =
     (case map_of al k of Some v \<Rightarrow> if P v then Some v else None | None \<Rightarrow> None)"
proof (induction al)
  case Nil
  then show ?case by simp
next
  case (Cons kv al)
  obtain a v where kv: "kv = (a, v)" by force
  with Cons.prems have "a \<notin> dom (map_of al)" by (auto simp: dom_map_of_conv_image_fst)
  then have "map_of al a = None" by blast
  with Cons kv show ?case by (auto split: option.splits)
qed

lemma distinct_fst_filter: "distinct (map fst al) \<Longrightarrow> distinct (map fst (filter P al))"
  by (induction al) (auto simp: image_iff)

lemma distinct_fst_update [simp]: "distinct (map fst al) \<Longrightarrow> distinct (map fst (AList.update k v al))"
  by (rule distinct_update)

lemma distinct_fst_delete [simp]: "distinct (map fst al) \<Longrightarrow> distinct (map fst (AList.delete k al))"
  by (rule distinct_delete)

section \<open>First match\<close>

lemma find_Some_mem: "List.find P xs = Some x \<Longrightarrow> x \<in> set xs \<and> P x"
  by (induction xs) (auto split: if_splits)

lemma find_None_all: "List.find P xs = None \<longleftrightarrow> (\<forall>x \<in> set xs. \<not> P x)"
  by (induction xs) auto

end
