(* ===== verification/KVStore.thy ===== *)
theory KVStore
  imports Prelude
begin

text \<open>
  The in-memory key-value store with TTL and gossip replication of
  \<^verbatim>\<open>framework/kvstore/kvstore.go\<close>, and the interface \<^verbatim>\<open>schemas.KVStore\<close> through which
  the core uses it (\<^verbatim>\<open>core/schemas/kvstore.go\<close>).

  The record \<open>kv_store\<close> is the Go struct: the map \<^verbatim>\<open>data\<close> is an association list with
  distinct keys, the atomic flag \<^verbatim>\<open>closed\<close> and the \<^verbatim>\<open>sync.Once\<close> that guards \<^verbatim>\<open>Close\<close>
  are booleans, the notifications to the \<^verbatim>\<open>SyncDelegate\<close> are collected in \<open>kv_events\<close>.
  Every read of the clock is an argument of the operation. Each operation is one critical
  section of the Go code; \<^verbatim>\<open>Get\<close>, which takes the lock twice, is the sequence of the two
  sections \<open>kv_get_read\<close> and \<open>kv_get_evict\<close>, between which other operations may run.
\<close>

section \<open>State\<close>

datatype kv_error = ErrClosed | ErrEmptyKey | ErrNotFound | ErrInvalidTTL | ErrMarshal string

definition defaultCleanupInterval :: nanos where
  "defaultCleanupInterval = 30 * 1000000000"

definition noExpirationUnixNanos :: nanos where
  "noExpirationUnixNanos = 0"

record 'a kv_entry =
  e_value :: "'a anyval"
  e_writtenAt :: nanos
  e_expiresAt :: nanos

datatype kv_event = OnSet string bytes nanos nanos | OnDelete string nanos

type_synonym 'a type_decoder = "bytes \<Rightarrow> 'a anyval option"

record 'a kv_store =
  kv_data :: "(string \<times> 'a kv_entry) list"
  kv_defaultTTL :: nanos
  kv_cleanupInterval :: nanos
  kv_closed :: bool
  kv_stopOnce :: bool
  kv_stopCh_closed :: bool
  kv_delegate :: bool
  kv_decoders :: "(string \<times> 'a type_decoder) list"
  kv_events :: "kv_event list"

record kv_config =
  cfg_CleanupInterval :: nanos
  cfg_DefaultTTL :: nanos

section \<open>Operations\<close>

definition kv_New :: "kv_config \<Rightarrow> kv_error + 'a kv_store" where
  "kv_New cfg =
     (if cfg_DefaultTTL cfg < 0 then Inl ErrInvalidTTL
      else Inr \<lparr>kv_data = [], kv_defaultTTL = cfg_DefaultTTL cfg,
        kv_cleanupInterval = (if cfg_CleanupInterval cfg \<le> 0 then defaultCleanupInterval
                              else cfg_CleanupInterval cfg),
        kv_closed = False, kv_stopOnce = False, kv_stopCh_closed = False,
        kv_delegate = False, kv_decoders = [], kv_events = []\<rparr>)"

definition kv_SetDelegate :: "'a kv_store \<Rightarrow> bool \<Rightarrow> 'a kv_store" where
  "kv_SetDelegate s d = s\<lparr>kv_delegate := d\<rparr>"

definition kv_RegisterDecoder :: "'a kv_store \<Rightarrow> string \<Rightarrow> 'a type_decoder \<Rightarrow> 'a kv_store" where
  "kv_RegisterDecoder s keyPrefix d = s\<lparr>kv_decoders := AList.update keyPrefix d (kv_decoders s)\<rparr>"

definition isExpired :: "'a kv_entry \<Rightarrow> nanos \<Rightarrow> bool" where
  "isExpired e now \<longleftrightarrow> e_expiresAt e \<noteq> noExpirationUnixNanos \<and> e_expiresAt e \<le> now"

definition kv_validateMutable :: "'a kv_store \<Rightarrow> string \<Rightarrow> nanos \<Rightarrow> kv_error option" where
  "kv_validateMutable s key ttl =
     (if key = [] then Some ErrEmptyKey
      else if ttl < 0 then Some ErrInvalidTTL
      else if kv_closed s then Some ErrClosed
      else None)"

text \<open>The absolute expiry both setters compute; the addition is on \<^verbatim>\<open>int64\<close> and wraps.\<close>

definition kv_expiry :: "nanos \<Rightarrow> nanos \<Rightarrow> nanos" where
  "kv_expiry now ttl = (if ttl > 0 then wrap64 (now + ttl) else 0)"

definition kv_put :: "'a kv_store \<Rightarrow> string \<Rightarrow> 'a kv_entry \<Rightarrow> 'a kv_store" where
  "kv_put s key e = s\<lparr>kv_data := AList.update key e (kv_data s)\<rparr>"

definition kv_del :: "'a kv_store \<Rightarrow> string \<Rightarrow> 'a kv_store" where
  "kv_del s key = s\<lparr>kv_data := AList.delete key (kv_data s)\<rparr>"

definition kv_notify :: "'a kv_store \<Rightarrow> kv_event \<Rightarrow> 'a kv_store" where
  "kv_notify s ev = (if kv_delegate s then s\<lparr>kv_events := kv_events s @ [ev]\<rparr> else s)"

text \<open>
  \<open>marshal\<close> stands for \<^verbatim>\<open>sonic.Marshal\<close>, which is called only when a delegate is set.
\<close>

definition kv_SetWithTTL ::
  "('a anyval \<Rightarrow> string + bytes) \<Rightarrow> 'a kv_store \<Rightarrow> string \<Rightarrow> 'a anyval \<Rightarrow> nanos \<Rightarrow> nanos
   \<Rightarrow> kv_error option \<times> 'a kv_store" where
  "kv_SetWithTTL marshal s key v ttl now =
     (case kv_validateMutable s key ttl of
        Some e \<Rightarrow> (Some e, s)
      | None \<Rightarrow>
         (let expiresAt = kv_expiry now ttl;
              e = \<lparr>e_value = v, e_writtenAt = now, e_expiresAt = expiresAt\<rparr>
          in if kv_delegate s
             then (case marshal v of
                     Inl err \<Rightarrow> (Some (ErrMarshal err), s)
                   | Inr json \<Rightarrow> (None, kv_notify (kv_put s key e) (OnSet key json now expiresAt)))
             else (None, kv_put s key e)))"

definition kv_Set ::
  "('a anyval \<Rightarrow> string + bytes) \<Rightarrow> 'a kv_store \<Rightarrow> string \<Rightarrow> 'a anyval \<Rightarrow> nanos
   \<Rightarrow> kv_error option \<times> 'a kv_store" where
  "kv_Set marshal s key v now = kv_SetWithTTL marshal s key v (kv_defaultTTL s) now"

definition kv_SetNXWithTTL ::
  "('a anyval \<Rightarrow> string + bytes) \<Rightarrow> 'a kv_store \<Rightarrow> string \<Rightarrow> 'a anyval \<Rightarrow> nanos \<Rightarrow> nanos
   \<Rightarrow> (kv_error + bool) \<times> 'a kv_store" where
  "kv_SetNXWithTTL marshal s key v ttl now =
     (case kv_validateMutable s key ttl of
        Some e \<Rightarrow> (Inl e, s)
      | None \<Rightarrow>
         (let expiresAt = kv_expiry now ttl;
              e = \<lparr>e_value = v, e_writtenAt = now, e_expiresAt = expiresAt\<rparr>;
              insertNX = (\<lambda>json.
                case map_of (kv_data s) key of
                  Some existing \<Rightarrow>
                    if \<not> isExpired existing now then (Inr False, s)
                    else (Inr True, kv_notify (kv_put s key e) (OnSet key json now expiresAt))
                | None \<Rightarrow> (Inr True, kv_notify (kv_put s key e) (OnSet key json now expiresAt)))
          in if kv_delegate s
             then (case marshal v of Inl err \<Rightarrow> (Inl (ErrMarshal err), s) | Inr json \<Rightarrow> insertNX json)
             else insertNX []))"

text \<open>
  \<^verbatim>\<open>decodeValue\<close> ranges over the decoder map; Go visits it in any order, the model in the
  order of the association list (lemma \<open>kv_bestDecoder_perm\<close> shows that the order does not
  matter).
\<close>

fun kv_bestDecoder ::
  "string \<Rightarrow> (string \<times> 'd) list \<Rightarrow> string \<times> 'd option \<Rightarrow> string \<times> 'd option" where
  "kv_bestDecoder key [] best = best"
| "kv_bestDecoder key ((prefix, decode) # ds) best =
     kv_bestDecoder key ds
       (if hasPrefix key prefix \<and> length prefix > length (fst best) then (prefix, Some decode) else best)"

definition kv_decodeValue :: "'a kv_store \<Rightarrow> string \<Rightarrow> bytes \<Rightarrow> 'a anyval" where
  "kv_decodeValue s key valueJSON =
     (case snd (kv_bestDecoder key (kv_decoders s) ([], None)) of
        Some decode \<Rightarrow> (case decode valueJSON of Some v \<Rightarrow> v | None \<Rightarrow> AnyBytes valueJSON)
      | None \<Rightarrow> AnyBytes valueJSON)"

definition kv_SetRemote ::
  "'a kv_store \<Rightarrow> string \<Rightarrow> bytes \<Rightarrow> nanos \<Rightarrow> nanos \<Rightarrow> kv_error option \<times> 'a kv_store" where
  "kv_SetRemote s key valueJSON writtenAt expiresAt =
     (if key = [] then (Some ErrEmptyKey, s)
      else if kv_closed s then (Some ErrClosed, s)
      else
        let e = \<lparr>e_value = kv_decodeValue s key valueJSON, e_writtenAt = writtenAt, e_expiresAt = expiresAt\<rparr>
        in case map_of (kv_data s) key of
             Some existing \<Rightarrow> if e_writtenAt existing > writtenAt then (None, s) else (None, kv_put s key e)
           | None \<Rightarrow> (None, kv_put s key e))"

definition kv_get_read :: "'a kv_store \<Rightarrow> string \<Rightarrow> kv_error + 'a kv_entry option" where
  "kv_get_read s key =
     (if key = [] then Inl ErrEmptyKey
      else if kv_closed s then Inl ErrClosed
      else Inr (map_of (kv_data s) key))"

definition kv_get_evict :: "'a kv_store \<Rightarrow> string \<Rightarrow> nanos \<Rightarrow> 'a kv_store" where
  "kv_get_evict s key now =
     (case map_of (kv_data s) key of
        Some latest \<Rightarrow> if isExpired latest now then kv_del s key else s
      | None \<Rightarrow> s)"

definition kv_Get :: "'a kv_store \<Rightarrow> string \<Rightarrow> nanos \<Rightarrow> nanos \<Rightarrow> (kv_error + 'a anyval) \<times> 'a kv_store" where
  "kv_Get s key now now' =
     (case kv_get_read s key of
        Inl err \<Rightarrow> (Inl err, s)
      | Inr None \<Rightarrow> (Inl ErrNotFound, s)
      | Inr (Some e) \<Rightarrow>
          if isExpired e now then (Inl ErrNotFound, kv_get_evict s key now') else (Inr (e_value e), s))"

definition kv_GetAndDelete :: "'a kv_store \<Rightarrow> string \<Rightarrow> nanos \<Rightarrow> (kv_error + 'a anyval) \<times> 'a kv_store" where
  "kv_GetAndDelete s key now =
     (if key = [] then (Inl ErrEmptyKey, s)
      else if kv_closed s then (Inl ErrClosed, s)
      else case map_of (kv_data s) key of
             None \<Rightarrow> (Inl ErrNotFound, s)
           | Some e \<Rightarrow>
               if isExpired e now then (Inl ErrNotFound, kv_del s key)
               else (Inr (e_value e), kv_notify (kv_del s key) (OnDelete key now)))"

definition kv_Delete :: "'a kv_store \<Rightarrow> string \<Rightarrow> nanos \<Rightarrow> (kv_error + bool) \<times> 'a kv_store" where
  "kv_Delete s key deletedAt =
     (if key = [] then (Inl ErrEmptyKey, s)
      else if kv_closed s then (Inl ErrClosed, s)
      else case map_of (kv_data s) key of
             None \<Rightarrow> (Inr False, s)
           | Some _ \<Rightarrow> (Inr True, kv_notify (kv_del s key) (OnDelete key deletedAt)))"

definition kv_DeleteRemote :: "'a kv_store \<Rightarrow> string \<Rightarrow> nanos \<Rightarrow> kv_error option \<times> 'a kv_store" where
  "kv_DeleteRemote s key deletedAt =
     (if key = [] then (Some ErrEmptyKey, s)
      else if kv_closed s then (Some ErrClosed, s)
      else case map_of (kv_data s) key of
             Some existing \<Rightarrow> if e_writtenAt existing > deletedAt then (None, s) else (None, kv_del s key)
           | None \<Rightarrow> (None, kv_del s key))"

definition kv_Len :: "'a kv_store \<Rightarrow> nanos \<Rightarrow> nat" where
  "kv_Len s now =
     (if kv_closed s then 0 else length (filter (\<lambda>(k, v). \<not> isExpired v now) (kv_data s)))"

definition kv_Close :: "'a kv_store \<Rightarrow> 'a kv_store" where
  "kv_Close s =
     (if kv_stopOnce s then s
      else s\<lparr>kv_stopOnce := True, kv_closed := True, kv_stopCh_closed := True\<rparr>)"

definition kv_cleanupExpired :: "'a kv_store \<Rightarrow> nanos \<Rightarrow> 'a kv_store" where
  "kv_cleanupExpired s now = s\<lparr>kv_data := filter (\<lambda>(k, v). \<not> isExpired v now) (kv_data s)\<rparr>"

text \<open>
  The background goroutine: its run is the list of what its \<^verbatim>\<open>select\<close> received, ticks of the
  ticker at a time or the stop signal, which ends it.
\<close>

datatype cleanup_signal = Tick nanos | Stop

fun kv_cleanupLoop :: "cleanup_signal list \<Rightarrow> 'a kv_store \<Rightarrow> 'a kv_store" where
  "kv_cleanupLoop [] s = s"
| "kv_cleanupLoop (Tick now # sigs) s = kv_cleanupLoop sigs (kv_cleanupExpired s now)"
| "kv_cleanupLoop (Stop # sigs) s = s"

section \<open>The store as a state machine\<close>

text \<open>
  One constructor per critical section that any goroutine may run next, with the clock readings
  it makes. \<open>kv_exec\<close> is its effect on the shared store.
\<close>

datatype 'a kv_op =
    OpSet string "'a anyval" nanos nanos
  | OpSetNX string "'a anyval" nanos nanos
  | OpEvict string nanos
  | OpGetAndDelete string nanos
  | OpDelete string nanos
  | OpCleanup nanos
  | OpSetRemote string bytes nanos nanos
  | OpDeleteRemote string nanos
  | OpRegister string "'a type_decoder"
  | OpSetDelegate bool
  | OpClose

fun kv_exec :: "('a anyval \<Rightarrow> string + bytes) \<Rightarrow> 'a kv_op \<Rightarrow> 'a kv_store \<Rightarrow> 'a kv_store" where
  "kv_exec m (OpSet k v ttl now) s = snd (kv_SetWithTTL m s k v ttl now)"
| "kv_exec m (OpSetNX k v ttl now) s = snd (kv_SetNXWithTTL m s k v ttl now)"
| "kv_exec m (OpEvict k now) s = kv_get_evict s k now"
| "kv_exec m (OpGetAndDelete k now) s = snd (kv_GetAndDelete s k now)"
| "kv_exec m (OpDelete k now) s = snd (kv_Delete s k now)"
| "kv_exec m (OpCleanup now) s = kv_cleanupExpired s now"
| "kv_exec m (OpSetRemote k j w x) s = snd (kv_SetRemote s k j w x)"
| "kv_exec m (OpDeleteRemote k d) s = snd (kv_DeleteRemote s k d)"
| "kv_exec m (OpRegister p d) s = kv_RegisterDecoder s p d"
| "kv_exec m (OpSetDelegate b) s = kv_SetDelegate s b"
| "kv_exec m OpClose s = kv_Close s"

inductive kv_reachable :: "('a anyval \<Rightarrow> string + bytes) \<Rightarrow> 'a kv_store \<Rightarrow> bool"
  for m :: "'a anyval \<Rightarrow> string + bytes" where
  kv_start: "kv_New cfg = Inr s \<Longrightarrow> kv_reachable m s"
| kv_step: "kv_reachable m s \<Longrightarrow> kv_reachable m (kv_exec m op s)"

section \<open>Invariant\<close>

definition kv_inv :: "'a kv_store \<Rightarrow> bool" where
  "kv_inv s \<longleftrightarrow> distinct (map fst (kv_data s)) \<and> [] \<notin> set (map fst (kv_data s))
     \<and> kv_closed s = kv_stopOnce s \<and> kv_stopCh_closed s = kv_stopOnce s
     \<and> 0 \<le> kv_defaultTTL s \<and> 0 < kv_cleanupInterval s"

lemmas kv_op_defs = kv_SetWithTTL_def kv_SetNXWithTTL_def kv_SetRemote_def kv_get_evict_def
  kv_GetAndDelete_def kv_Delete_def kv_DeleteRemote_def kv_validateMutable_def

lemma kv_inv_put [wf_intros]: "kv_inv s \<Longrightarrow> k \<noteq> [] \<Longrightarrow> kv_inv (kv_put s k e)"
  by (auto simp: kv_inv_def kv_put_def dom_update [symmetric] simp flip: set_map)
     (auto simp: dom_update)

lemma kv_inv_del [wf_intros]: "kv_inv s \<Longrightarrow> kv_inv (kv_del s k)"
  by (auto simp: kv_inv_def kv_del_def delete_keys distinct_removeAll simp flip: set_map)

lemma kv_inv_notify [wf_intros]: "kv_inv s \<Longrightarrow> kv_inv (kv_notify s ev)"
  by (simp add: kv_inv_def kv_notify_def)

lemma kv_inv_cleanup [wf_intros]: "kv_inv s \<Longrightarrow> kv_inv (kv_cleanupExpired s now)"
  by (auto simp: kv_inv_def kv_cleanupExpired_def distinct_fst_filter)

lemma kv_inv_Close [wf_intros]: "kv_inv s \<Longrightarrow> kv_inv (kv_Close s)"
  by (simp add: kv_inv_def kv_Close_def)

lemma kv_inv_New: "kv_New cfg = Inr s \<Longrightarrow> kv_inv s"
  by (auto simp: kv_New_def kv_inv_def defaultCleanupInterval_def split: if_splits)

lemma kv_inv_exec: "kv_inv s \<Longrightarrow> kv_inv (kv_exec m op s)"
  by (cases op)
     (auto simp: kv_op_defs Let_def kv_RegisterDecoder_def kv_SetDelegate_def
       intro!: wf_intros split: option.splits sum.splits, auto simp: kv_inv_def)

text \<open>
  C2. Every store reachable from \<^verbatim>\<open>New\<close> by any interleaving of the operations, local or
  gossiped, of the evictions and of the cleanup ticks is well formed: its keys are distinct and
  never empty, and the flag \<^verbatim>\<open>closed\<close>, the \<^verbatim>\<open>sync.Once\<close> and the stop channel agree, so the
  channel is closed exactly once.
\<close>

theorem kv_reachable_inv: "kv_reachable m s \<Longrightarrow> kv_inv s"
  by (induction rule: kv_reachable.induct) (auto intro: kv_inv_New kv_inv_exec)

theorem kv_reachable_inv_witness:
  "kv_inv (kv_Close (snd (kv_SetWithTTL (\<lambda>_. Inr []) 
     (\<lparr>kv_data = [], kv_defaultTTL = 5, kv_cleanupInterval = 7, kv_closed = False, kv_stopOnce = False,
       kv_stopCh_closed = False, kv_delegate = False, kv_decoders = [], kv_events = []\<rparr> :: nat kv_store)
     ''a'' (AnyString ''x'') 10 1)))"
proof -
  let ?s = "\<lparr>kv_data = [], kv_defaultTTL = 5, kv_cleanupInterval = 7, kv_closed = False,
    kv_stopOnce = False, kv_stopCh_closed = False, kv_delegate = False, kv_decoders = [],
    kv_events = []\<rparr> :: nat kv_store"
  let ?m = "\<lambda>_ :: nat anyval. Inr [] :: string + bytes"
  have "kv_reachable ?m ?s"
    by (rule kv_start [of "\<lparr>cfg_CleanupInterval = 7, cfg_DefaultTTL = 5\<rparr>"]) (simp add: kv_New_def)
  then have "kv_reachable ?m (kv_exec ?m OpClose (kv_exec ?m (OpSet ''a'' (AnyString ''x'') 10 1) ?s))"
    by (intro kv_step)
  from kv_reachable_inv [OF this] show ?thesis by simp
qed


section \<open>What a client sees\<close>

text \<open>The abstraction: the values a store holds at a time, as a map.\<close>

definition kv_live :: "'a kv_store \<Rightarrow> nanos \<Rightarrow> string \<Rightarrow> 'a anyval option" where
  "kv_live s t k =
     (case map_of (kv_data s) k of
        Some e \<Rightarrow> if isExpired e t then None else Some (e_value e)
      | None \<Rightarrow> None)"

lemma isExpired_mono: "isExpired e now \<Longrightarrow> now \<le> t \<Longrightarrow> isExpired e t"
  by (simp add: isExpired_def)

lemma kv_live_put:
  "kv_live (kv_put s k e) t = (kv_live s t)(k := if isExpired e t then None else Some (e_value e))"
  by (rule ext) (simp add: kv_live_def kv_put_def)

lemma kv_live_del: "kv_live (kv_del s k) t = (kv_live s t)(k := None)"
  by (rule ext) (simp add: kv_live_def kv_del_def)

lemma kv_live_notify [simp]: "kv_live (kv_notify s ev) t = kv_live s t"
  by (rule ext) (simp add: kv_live_def kv_notify_def)

lemma kv_data_notify [simp]: "kv_data (kv_notify s ev) = kv_data s"
  by (simp add: kv_notify_def)

lemma kv_closed_simps [simp]:
  "kv_closed (kv_put s k e) = kv_closed s" "kv_closed (kv_del s k) = kv_closed s"
  "kv_closed (kv_notify s ev) = kv_closed s"
  by (simp_all add: kv_put_def kv_del_def kv_notify_def)

lemma kv_live_cleanup:
  "kv_inv s \<Longrightarrow> now \<le> t \<Longrightarrow> kv_live (kv_cleanupExpired s now) t = kv_live s t"
  by (rule ext)
     (auto simp: kv_live_def kv_cleanupExpired_def kv_inv_def map_of_filter_val
       dest: isExpired_mono split: option.splits)

lemma kv_live_evict: "now \<le> t \<Longrightarrow> kv_live (kv_get_evict s k now) t = kv_live s t"
  by (rule ext) (auto simp: kv_get_evict_def kv_del_def kv_live_def dest: isExpired_mono split: option.splits)

lemma kv_Get_live:
  "k \<noteq> [] \<Longrightarrow> \<not> kv_closed s \<Longrightarrow>
   fst (kv_Get s k now now') = (case kv_live s now k of Some v \<Rightarrow> Inr v | None \<Rightarrow> Inl ErrNotFound)"
  by (auto simp: kv_Get_def kv_get_read_def kv_live_def split: option.splits)

lemma kv_Get_state:
  "snd (kv_Get s k now now') = s \<or> snd (kv_Get s k now now') = kv_get_evict s k now'"
  by (auto simp: kv_Get_def split: option.splits sum.splits)

lemma kv_expiry_expired:
  "0 < now \<Longrightarrow> 0 \<le> ttl \<Longrightarrow> now + ttl < 2 ^ 63 \<Longrightarrow>
   isExpired \<lparr>e_value = v, e_writtenAt = w, e_expiresAt = kv_expiry now ttl\<rparr> t
     \<longleftrightarrow> ttl \<noteq> 0 \<and> now + ttl \<le> t"
  by (auto simp: isExpired_def kv_expiry_def wrap64_id noExpirationUnixNanos_def)

text \<open>A store a client can use: open, and able to serialise what a delegate will be told.\<close>

definition kv_usable :: "('a anyval \<Rightarrow> string + bytes) \<Rightarrow> 'a kv_store \<Rightarrow> bool" where
  "kv_usable m s \<longleftrightarrow> \<not> kv_closed s \<and> (kv_delegate s \<longrightarrow> (\<forall>v. \<exists>j. m v = Inr j))"

lemma kv_delegate_simps [simp]:
  "kv_delegate (kv_put s k e) = kv_delegate s" "kv_delegate (kv_del s k) = kv_delegate s"
  "kv_delegate (kv_notify s ev) = kv_delegate s"
  by (simp_all add: kv_put_def kv_del_def kv_notify_def)

lemma kv_usable_simps [simp]:
  "kv_usable m (kv_put s k e) = kv_usable m s" "kv_usable m (kv_del s k) = kv_usable m s"
  "kv_usable m (kv_notify s ev) = kv_usable m s"
  by (simp_all add: kv_usable_def)

lemma kv_live_put_ttl:
  "now \<le> t \<Longrightarrow> 0 < now \<Longrightarrow> 0 \<le> ttl \<Longrightarrow> now + ttl < 2 ^ 63 \<Longrightarrow>
   kv_live (kv_put s k \<lparr>e_value = v, e_writtenAt = w, e_expiresAt = kv_expiry now ttl\<rparr>) t
     = (kv_live s t)(k := if ttl = 0 \<or> t < now + ttl then Some v else None)"
  by (auto simp: kv_live_put kv_expiry_expired)

lemma kv_SetWithTTL_usable:
  assumes "kv_usable m s" "k \<noteq> []" "0 \<le> ttl"
  shows "fst (kv_SetWithTTL m s k v ttl now) = None"
    and "kv_usable m (snd (kv_SetWithTTL m s k v ttl now))"
    and "now \<le> t \<Longrightarrow> 0 < now \<Longrightarrow> now + ttl < 2 ^ 63 \<Longrightarrow>
      kv_live (snd (kv_SetWithTTL m s k v ttl now)) t
        = (kv_live s t)(k := if ttl = 0 \<or> t < now + ttl then Some v else None)"
proof -
  obtain j where "m v = Inr j \<or> \<not> kv_delegate s"
    using assms by (auto simp: kv_usable_def)
  then show "fst (kv_SetWithTTL m s k v ttl now) = None"
    "kv_usable m (snd (kv_SetWithTTL m s k v ttl now))"
    "now \<le> t \<Longrightarrow> 0 < now \<Longrightarrow> now + ttl < 2 ^ 63 \<Longrightarrow>
      kv_live (snd (kv_SetWithTTL m s k v ttl now)) t
        = (kv_live s t)(k := if ttl = 0 \<or> t < now + ttl then Some v else None)"
    using assms
    by (auto simp: kv_SetWithTTL_def kv_validateMutable_def Let_def kv_live_put_ttl kv_usable_def)
qed

lemma kv_SetNXWithTTL_usable:
  assumes "kv_usable m s" "k \<noteq> []" "0 \<le> ttl"
  shows "fst (kv_SetNXWithTTL m s k v ttl now) = Inr (kv_live s now k = None)"
    and "kv_usable m (snd (kv_SetNXWithTTL m s k v ttl now))"
    and "kv_live s now k \<noteq> None \<Longrightarrow> snd (kv_SetNXWithTTL m s k v ttl now) = s"
    and "kv_live s now k = None \<Longrightarrow> now \<le> t \<Longrightarrow> 0 < now \<Longrightarrow> now + ttl < 2 ^ 63 \<Longrightarrow>
      kv_live (snd (kv_SetNXWithTTL m s k v ttl now)) t
        = (kv_live s t)(k := if ttl = 0 \<or> t < now + ttl then Some v else None)"
proof -
  have nv: "kv_validateMutable s k ttl = None"
    using assms by (simp add: kv_validateMutable_def kv_usable_def)
  obtain j where j: "m v = Inr j \<or> \<not> kv_delegate s"
    using assms by (auto simp: kv_usable_def)
  then show "fst (kv_SetNXWithTTL m s k v ttl now) = Inr (kv_live s now k = None)"
    using nv by (auto simp: kv_SetNXWithTTL_def Let_def kv_live_def split: option.splits)
  show "kv_usable m (snd (kv_SetNXWithTTL m s k v ttl now))"
    using j nv assms by (auto simp: kv_SetNXWithTTL_def Let_def split: option.splits)
  show "kv_live s now k \<noteq> None \<Longrightarrow> snd (kv_SetNXWithTTL m s k v ttl now) = s"
    using j nv by (auto simp: kv_SetNXWithTTL_def Let_def kv_live_def split: option.splits if_splits)
  show "kv_live s now k = None \<Longrightarrow> now \<le> t \<Longrightarrow> 0 < now \<Longrightarrow> now + ttl < 2 ^ 63 \<Longrightarrow>
      kv_live (snd (kv_SetNXWithTTL m s k v ttl now)) t
        = (kv_live s t)(k := if ttl = 0 \<or> t < now + ttl then Some v else None)"
    using j nv assms(3)
    by (auto simp: kv_SetNXWithTTL_def Let_def kv_live_put_ttl kv_live_def [of s now] split: option.splits if_splits)
qed

lemma kv_Get_usable:
  assumes "kv_usable m s"
  shows "kv_usable m (snd (kv_Get s k now now'))"
    and "now' \<le> t \<Longrightarrow> kv_live (snd (kv_Get s k now now')) t = kv_live s t"
proof -
  have e: "kv_usable m (kv_get_evict s k now')"
    using assms by (auto simp: kv_get_evict_def split: option.splits)
  show "kv_usable m (snd (kv_Get s k now now'))"
    using kv_Get_state [of s k now now'] assms e by auto
  show "now' \<le> t \<Longrightarrow> kv_live (snd (kv_Get s k now now')) t = kv_live s t"
    using kv_Get_state [of s k now now'] by (auto simp: kv_live_evict)
qed

lemma kv_Delete_usable:
  assumes "kv_usable m s" "k \<noteq> []"
  shows "kv_usable m (snd (kv_Delete s k now))"
    and "kv_live (snd (kv_Delete s k now)) t = (kv_live s t)(k := None)"
proof -
  have nc: "\<not> kv_closed s" using assms by (simp add: kv_usable_def)
  show "kv_usable m (snd (kv_Delete s k now))"
    using assms nc by (auto simp: kv_Delete_def split: option.splits)
  show "kv_live (snd (kv_Delete s k now)) t = (kv_live s t)(k := None)"
  proof (cases "map_of (kv_data s) k")
    case None
    then have "kv_live s t k = None" by (simp add: kv_live_def)
    with None nc assms show ?thesis by (simp add: kv_Delete_def fun_upd_idem)
  next
    case (Some e)
    with nc assms show ?thesis by (simp add: kv_Delete_def kv_live_del)
  qed
qed

text \<open>
  A value that was set is what every key-by-key reader sees until its TTL runs out, and
  nothing else changes: after \<^verbatim>\<open>SetWithTTL\<close> at time \<open>now\<close> on an open store, at any later
  time the live contents are the old ones with the key bound to the value (unbound once the TTL
  has passed; a TTL of 0 never passes), and \<^verbatim>\<open>Get\<close> answers accordingly.
\<close>

theorem kv_set_then_get:
  assumes ok: "kv_usable m s" "k \<noteq> []" "0 \<le> ttl"
    and t: "now \<le> t" "0 < now" "now + ttl < 2 ^ 63"
  shows "fst (kv_SetWithTTL m s k v ttl now) = None
    \<and> kv_live (snd (kv_SetWithTTL m s k v ttl now)) t
           = (kv_live s t)(k := if ttl = 0 \<or> t < now + ttl then Some v else None)
    \<and> fst (kv_Get (snd (kv_SetWithTTL m s k v ttl now)) k t t')
           = (if ttl = 0 \<or> t < now + ttl then Inr v else Inl ErrNotFound)"
proof (intro conjI)
  note set = kv_SetWithTTL_usable [OF ok]
  show "fst (kv_SetWithTTL m s k v ttl now) = None" by (rule set(1))
  show live: "kv_live (snd (kv_SetWithTTL m s k v ttl now)) t
           = (kv_live s t)(k := if ttl = 0 \<or> t < now + ttl then Some v else None)"
    using t by (rule set(3))
  have "\<not> kv_closed (snd (kv_SetWithTTL m s k v ttl now))"
    using set(2) [of v now] by (simp add: kv_usable_def)
  with ok live show "fst (kv_Get (snd (kv_SetWithTTL m s k v ttl now)) k t t')
           = (if ttl = 0 \<or> t < now + ttl then Inr v else Inl ErrNotFound)"
    by (simp add: kv_Get_live)
qed

definition kv_sample :: "nat kv_store" where
  "kv_sample = \<lparr>kv_data = [], kv_defaultTTL = 0, kv_cleanupInterval = 1, kv_closed = False,
    kv_stopOnce = False, kv_stopCh_closed = False, kv_delegate = False, kv_decoders = [],
    kv_events = []\<rparr>"

lemma kv_inv_sample: "kv_inv kv_sample"
  by (simp add: kv_inv_def kv_sample_def)

lemmas kv_eval = kv_sample_def kv_SetWithTTL_def kv_validateMutable_def kv_expiry_def kv_put_def
  kv_SetNXWithTTL_def kv_notify_def Let_def

lemma kv_usable_sample: "kv_usable m kv_sample"
  by (simp add: kv_usable_def kv_sample_def)

theorem kv_set_then_get_witness:
  "fst (kv_Get (snd (kv_SetWithTTL (\<lambda>_. Inr []) kv_sample ''k'' (AnyOther 3) 10 5)) ''k'' 14 14) = Inr (AnyOther 3)
   \<and> fst (kv_Get (snd (kv_SetWithTTL (\<lambda>_. Inr []) kv_sample ''k'' (AnyOther 3) 10 5)) ''k'' 15 15) = Inl ErrNotFound"
  using kv_set_then_get [of "\<lambda>_. Inr []" kv_sample "''k''" 10 5 14 "AnyOther 3" 14]
    kv_set_then_get [of "\<lambda>_. Inr []" kv_sample "''k''" 10 5 15 "AnyOther 3" 15]
  by (simp add: kv_usable_sample)



text \<open>
  C3. Reading never loses a live value: whatever other goroutines did between the two critical
  sections of \<^verbatim>\<open>Get\<close> (the store is then any store \<open>s'\<close>), the eviction deletes the key only
  if the entry now stored has itself expired, so the live contents at that time and later are
  unchanged. The same holds of a cleanup tick.
\<close>

theorem kv_evict_safe:
  assumes "kv_inv s'" "now' \<le> t"
  shows "kv_live (kv_get_evict s' k now') t = kv_live s' t
    \<and> kv_live (kv_cleanupExpired s' now') t = kv_live s' t
    \<and> kv_Len (kv_cleanupExpired s' now') t = kv_Len s' t"
proof (intro conjI)
  show "kv_live (kv_get_evict s' k now') t = kv_live s' t"
    using assms by (simp add: kv_live_evict)
  show "kv_live (kv_cleanupExpired s' now') t = kv_live s' t"
    using assms by (simp add: kv_live_cleanup)
  have "filter (\<lambda>(k, v). \<not> isExpired v t) (filter (\<lambda>(k, v). \<not> isExpired v now') al)
        = filter (\<lambda>(k, v). \<not> isExpired v t) al" for al :: "(string \<times> 'a kv_entry) list"
    using assms(2) by (induction al) (auto dest: isExpired_mono)
  then show "kv_Len (kv_cleanupExpired s' now') t = kv_Len s' t"
    by (simp add: kv_Len_def kv_cleanupExpired_def del: filter_filter)
qed

theorem kv_evict_safe_witness:
  "kv_live (kv_get_evict (kv_put kv_sample ''k'' \<lparr>e_value = AnyOther 1, e_writtenAt = 3, e_expiresAt = 9\<rparr>) ''k'' 5) 6
   = kv_live (kv_put kv_sample ''k'' \<lparr>e_value = AnyOther 1, e_writtenAt = 3, e_expiresAt = 9\<rparr>) 6"
  by (rule kv_evict_safe [THEN conjunct1]) (simp_all add: kv_inv_put kv_inv_sample)

text \<open>
  A TTL that the validation accepts can be lost to overflow: when \<open>now + ttl\<close> passes
  \<^verbatim>\<open>math.MaxInt64\<close> nanoseconds the computed expiry is negative, \<^verbatim>\<open>SetWithTTL\<close> still reports
  success and the key reads as absent at once.
\<close>

theorem kv_ttl_overflow:
  assumes "k \<noteq> []" "\<not> kv_closed s" "\<not> kv_delegate s"
    and "0 < now" "now < 2 ^ 63" "0 < ttl" "ttl < 2 ^ 63" "2 ^ 63 \<le> now + ttl" "0 \<le> t"
  shows "fst (kv_SetWithTTL m s k v ttl now) = None
    \<and> fst (kv_Get (snd (kv_SetWithTTL m s k v ttl now)) k t t') = Inl ErrNotFound"
proof (intro conjI)
  have w: "wrap64 (now + ttl) = now + ttl - 2 ^ 64"
  proof -
    have "(now + ttl + 2 ^ 63) mod 2 ^ 64 = (now + ttl + 2 ^ 63 - 2 ^ 64) mod 2 ^ 64"
      by (metis mod_diff_right_eq mod_self diff_zero)
    also have "\<dots> = now + ttl + 2 ^ 63 - 2 ^ 64"
      using assms by (intro mod_pos_pos_trivial) simp_all
    finally show ?thesis by (simp add: wrap64_def)
  qed
  show "fst (kv_SetWithTTL m s k v ttl now) = None"
    using assms by (simp add: kv_SetWithTTL_def kv_validateMutable_def Let_def)
  let ?s = "kv_put s k \<lparr>e_value = v, e_writtenAt = now, e_expiresAt = wrap64 (now + ttl)\<rparr>"
  have s': "snd (kv_SetWithTTL m s k v ttl now) = ?s"
    using assms by (simp add: kv_SetWithTTL_def kv_validateMutable_def kv_expiry_def Let_def)
  have "isExpired \<lparr>e_value = v, e_writtenAt = now, e_expiresAt = wrap64 (now + ttl)\<rparr> t"
    using assms unfolding w by (simp add: isExpired_def noExpirationUnixNanos_def)
  with assms show "fst (kv_Get (snd (kv_SetWithTTL m s k v ttl now)) k t t') = Inl ErrNotFound"
    unfolding s' by (simp add: kv_Get_live kv_live_put)
qed

theorem kv_ttl_overflow_witness:
  "fst (kv_Get (snd (kv_SetWithTTL (\<lambda>_. Inr []) kv_sample ''k'' (AnyOther 1) 9000000000000000000 1800000000000000000))
     ''k'' 1800000000000000001 1800000000000000002) = Inl ErrNotFound"
  by (rule kv_ttl_overflow [THEN conjunct2]) (simp_all add: kv_sample_def)

section \<open>Gossip\<close>

type_synonym remote_set = "string \<times> bytes \<times> nanos \<times> nanos"

definition kv_applyRemote :: "remote_set \<Rightarrow> 'a kv_store \<Rightarrow> 'a kv_store" where
  "kv_applyRemote = (\<lambda>(k, j, w, x) s. snd (kv_SetRemote s k j w x))"

text \<open>What one gossiped set does to the map of entries (\<open>d\<close> is the decoding).\<close>

definition kv_remote_map ::
  "(string \<Rightarrow> bytes \<Rightarrow> 'a anyval) \<Rightarrow> remote_set \<Rightarrow> (string \<Rightarrow> 'a kv_entry option) \<Rightarrow> string \<Rightarrow> 'a kv_entry option" where
  "kv_remote_map d = (\<lambda>(k, j, w, x) m.
     if k = [] \<or> (case m k of Some e \<Rightarrow> e_writtenAt e > w | None \<Rightarrow> False) then m
     else m(k \<mapsto> \<lparr>e_value = d k j, e_writtenAt = w, e_expiresAt = x\<rparr>))"

lemma kv_decoders_applyRemote [simp]:
  "kv_decoders (kv_applyRemote r s) = kv_decoders s" "kv_closed (kv_applyRemote r s) = kv_closed s"
  by (cases r; auto simp: kv_applyRemote_def kv_SetRemote_def Let_def kv_put_def split: option.splits)+

lemma kv_applyRemote_map:
  "\<not> kv_closed s \<Longrightarrow>
   map_of (kv_data (kv_applyRemote r s)) = kv_remote_map (kv_decodeValue s) r (map_of (kv_data s))"
  by (cases r)
     (auto simp: kv_applyRemote_def kv_SetRemote_def kv_remote_map_def Let_def kv_put_def split: option.splits)

lemma kv_fold_applyRemote_map:
  "\<not> kv_closed s \<Longrightarrow>
   map_of (kv_data (fold kv_applyRemote rs s)) = fold (kv_remote_map (kv_decodeValue s)) rs (map_of (kv_data s))"
proof (induction rs arbitrary: s)
  case Nil
  then show ?case by simp
next
  case (Cons r rs)
  have "kv_decodeValue (kv_applyRemote r s) = kv_decodeValue s"
    by (intro ext) (simp add: kv_decodeValue_def)
  with Cons show ?case by (simp add: kv_applyRemote_map)
qed

definition kv_stamp :: "remote_set \<Rightarrow> string \<times> nanos" where
  "kv_stamp = (\<lambda>(k, j, w, x). (k, w))"

lemma kv_remote_map_commute:
  assumes "kv_stamp r \<noteq> kv_stamp r' \<or> r = r'"
  shows "kv_remote_map d r \<circ> kv_remote_map d r' = kv_remote_map d r' \<circ> kv_remote_map d r"
proof -
  obtain k j w x k' j' w' x' where r: "r = (k, j, w, x)" "r' = (k', j', w', x')"
    by (metis prod_cases4)
  have older: "kv_remote_map d (k, j1, w1, x1) (kv_remote_map d (k, j2, w2, x2) m) =
      kv_remote_map d (k, j2, w2, x2) (kv_remote_map d (k, j1, w1, x1) m)" if "w1 < w2" for k j1 w1 x1 j2 w2 x2 m
    using that by (cases "m k") (simp_all add: kv_remote_map_def)
  show ?thesis
  proof (cases "k = k'")
    case False
    then show ?thesis unfolding r kv_remote_map_def o_def by (auto simp: fun_upd_twist)
  next
    case True
    consider "r = r'" | "w < w'" | "w' < w"
      using assms True unfolding r kv_stamp_def by fastforce
    then show ?thesis
    proof cases
      case 1
      then show ?thesis by simp
    next
      case 2
      then show ?thesis unfolding r o_def by (simp add: True older [of w w'])
    next
      case 3
      then show ?thesis unfolding r o_def by (simp add: True older [of w' w])
    qed
  qed
qed

text \<open>
  C4. Gossiped sets converge: two nodes that start from the same store and receive the same
  gossiped sets in any two orders hold the same entries afterwards, provided that no two
  different sets carry the same key and write time.
\<close>

theorem kv_remote_sets_converge:
  assumes perm: "mset rs = mset rs'" and open_s: "\<not> kv_closed s"
    and stamps: "inj_on kv_stamp (set rs)"
  shows "map_of (kv_data (fold kv_applyRemote rs s)) = map_of (kv_data (fold kv_applyRemote rs' s))"
proof -
  have "fold (kv_remote_map (kv_decodeValue s)) rs = fold (kv_remote_map (kv_decodeValue s)) rs'"
  proof (rule fold_multiset_equiv)
    fix r r'
    assume "r \<in> set rs" "r' \<in> set rs"
    with stamps have "kv_stamp r \<noteq> kv_stamp r' \<or> r = r'" by (auto dest: inj_onD)
    then show "kv_remote_map (kv_decodeValue s) r \<circ> kv_remote_map (kv_decodeValue s) r' =
               kv_remote_map (kv_decodeValue s) r' \<circ> kv_remote_map (kv_decodeValue s) r"
      by (rule kv_remote_map_commute)
  qed (use perm in simp)
  then show ?thesis using open_s by (simp add: kv_fold_applyRemote_map)
qed

theorem kv_remote_sets_converge_witness:
  "map_of (kv_data (fold kv_applyRemote [(''k'', ''a'', 1, 0), (''k'', ''b'', 2, 0)] kv_sample))
   = map_of (kv_data (fold kv_applyRemote [(''k'', ''b'', 2, 0), (''k'', ''a'', 1, 0)] kv_sample))"
  by (rule kv_remote_sets_converge) (simp_all add: kv_sample_def kv_stamp_def)

text \<open>
  Deletes do not take part in last-write-wins: a gossiped delete leaves no tombstone, so an
  older set that arrives after it is applied, although the same two messages in write order
  leave the key absent.
\<close>

theorem kv_delete_loses_to_older_set:
  assumes "k \<noteq> []" "\<not> kv_closed s" "w < d" "map_of (kv_data s) k = None"
  shows "map_of (kv_data (snd (kv_SetRemote (snd (kv_DeleteRemote s k d)) k j w x))) k
           = Some \<lparr>e_value = kv_decodeValue s k j, e_writtenAt = w, e_expiresAt = x\<rparr>
    \<and> map_of (kv_data (snd (kv_DeleteRemote (snd (kv_SetRemote s k j w x)) k d))) k = None"
  using assms
  by (auto simp: kv_SetRemote_def kv_DeleteRemote_def Let_def kv_put_def kv_del_def kv_decodeValue_def)

theorem kv_delete_loses_to_older_set_witness:
  "map_of (kv_data (snd (kv_SetRemote (snd (kv_DeleteRemote kv_sample ''k'' 5)) ''k'' ''old'' 3 0))) ''k''
     = Some \<lparr>e_value = kv_decodeValue kv_sample ''k'' ''old'', e_writtenAt = 3, e_expiresAt = 0\<rparr>"
  by (rule kv_delete_loses_to_older_set [THEN conjunct1]) (simp_all add: kv_sample_def)


section \<open>The interface of the core\<close>

text \<open>
  \<^verbatim>\<open>schemas.KVStore\<close>: the four operations the core calls, and the contract it relies on,
  stated over the values a store holds at a time (\<open>view\<close>).
\<close>

locale kv_interface =
  fixes get :: "'s \<Rightarrow> string \<Rightarrow> nanos \<Rightarrow> nanos \<Rightarrow> (kv_error + 'a anyval) \<times> 's"
    and setTTL :: "'s \<Rightarrow> string \<Rightarrow> 'a anyval \<Rightarrow> nanos \<Rightarrow> nanos \<Rightarrow> kv_error option \<times> 's"
    and setNX :: "'s \<Rightarrow> string \<Rightarrow> 'a anyval \<Rightarrow> nanos \<Rightarrow> nanos \<Rightarrow> (kv_error + bool) \<times> 's"
    and del :: "'s \<Rightarrow> string \<Rightarrow> nanos \<Rightarrow> (kv_error + bool) \<times> 's"
    and view :: "'s \<Rightarrow> nanos \<Rightarrow> string \<Rightarrow> 'a anyval option"
    and usable :: "'s \<Rightarrow> bool"
  assumes get_result: "usable s \<Longrightarrow> k \<noteq> [] \<Longrightarrow>
      fst (get s k t t') = (case view s t k of Some v \<Rightarrow> Inr v | None \<Rightarrow> Inl ErrNotFound)"
    and get_usable: "usable s \<Longrightarrow> usable (snd (get s k t t'))"
    and get_view: "usable s \<Longrightarrow> t' \<le> u \<Longrightarrow> view (snd (get s k t t')) u = view s u"
    and set_usable: "usable s \<Longrightarrow> k \<noteq> [] \<Longrightarrow> 0 \<le> ttl \<Longrightarrow> usable (snd (setTTL s k v ttl t))"
    and set_view: "usable s \<Longrightarrow> k \<noteq> [] \<Longrightarrow> 0 \<le> ttl \<Longrightarrow> t \<le> u \<Longrightarrow> 0 < t \<Longrightarrow> t + ttl < 2 ^ 63 \<Longrightarrow>
      view (snd (setTTL s k v ttl t)) u = (view s u)(k := if ttl = 0 \<or> u < t + ttl then Some v else None)"
    and setNX_usable: "usable s \<Longrightarrow> k \<noteq> [] \<Longrightarrow> 0 \<le> ttl \<Longrightarrow> usable (snd (setNX s k v ttl t))"
    and setNX_result: "usable s \<Longrightarrow> k \<noteq> [] \<Longrightarrow> 0 \<le> ttl \<Longrightarrow>
      fst (setNX s k v ttl t) = Inr (view s t k = None)"
    and setNX_taken: "usable s \<Longrightarrow> k \<noteq> [] \<Longrightarrow> 0 \<le> ttl \<Longrightarrow> view s t k \<noteq> None \<Longrightarrow>
      snd (setNX s k v ttl t) = s"
    and setNX_free: "usable s \<Longrightarrow> k \<noteq> [] \<Longrightarrow> 0 \<le> ttl \<Longrightarrow> view s t k = None \<Longrightarrow>
      t \<le> u \<Longrightarrow> 0 < t \<Longrightarrow> t + ttl < 2 ^ 63 \<Longrightarrow>
      view (snd (setNX s k v ttl t)) u = (view s u)(k := if ttl = 0 \<or> u < t + ttl then Some v else None)"
    and del_usable: "usable s \<Longrightarrow> k \<noteq> [] \<Longrightarrow> usable (snd (del s k t))"
    and del_view: "usable s \<Longrightarrow> k \<noteq> [] \<Longrightarrow> view (snd (del s k t)) u = (view s u)(k := None)"

interpretation kvi: kv_interface kv_Get "kv_SetWithTTL m" "kv_SetNXWithTTL m" kv_Delete kv_live "kv_usable m"
  for m :: "'a anyval \<Rightarrow> string + bytes"
  by unfold_locales
     (simp_all add: kv_Get_live kv_Get_usable kv_SetWithTTL_usable kv_SetNXWithTTL_usable kv_Delete_usable
       kv_usable_def [of m, THEN iffD1])

section \<open>Decoders and shutdown\<close>

lemma kv_bestDecoder_spec:
  "kv_bestDecoder key ds (p0, d0) = (p, d) \<Longrightarrow> length p0 \<le> length p
    \<and> ((p, d) = (p0, d0) \<or> hasPrefix key p \<and> length p > length p0 \<and> (\<exists>f. d = Some f \<and> (p, f) \<in> set ds))
    \<and> (\<forall>(q, f) \<in> set ds. hasPrefix key q \<longrightarrow> length q \<le> length p)"
proof (induction ds arbitrary: p0 d0)
  case Nil
  then show ?case by simp
next
  case (Cons qf ds)
  obtain q f where qf: "qf = (q, f)" by force
  show ?case
  proof (cases "hasPrefix key q \<and> length p0 < length q")
    case True
    with Cons.prems qf have "kv_bestDecoder key ds (q, Some f) = (p, d)" by simp
    from Cons.IH [OF this] True qf show ?thesis by auto
  next
    case False
    with Cons.prems qf have "kv_bestDecoder key ds (p0, d0) = (p, d)" by (simp split: if_splits)
    from Cons.IH [OF this] False qf show ?thesis by auto
  qed
qed

text \<open>
  Decoding a gossiped value does not depend on the order in which Go visits the decoder
  map: for distinct registered prefixes any two orders choose the same decoder, the one of the
  longest non-empty registered prefix of the key.
\<close>

theorem kv_bestDecoder_order:
  assumes "set ds = set ds'" "distinct (map fst ds)"
  shows "kv_bestDecoder key ds ([], None) = kv_bestDecoder key ds' ([], None)
    \<and> ((p, f) \<in> set ds \<and> hasPrefix key p \<and> p \<noteq> [] \<longrightarrow>
      (\<exists>q g. kv_bestDecoder key ds ([], None) = (q, Some g) \<and> (q, g) \<in> set ds
        \<and> hasPrefix key q \<and> length p \<le> length q))"
proof (intro conjI impI)
  obtain p1 d1 p2 d2 where e: "kv_bestDecoder key ds ([], None) = (p1, d1)"
    "kv_bestDecoder key ds' ([], None) = (p2, d2)" by (metis surj_pair)
  have same: "p1 = p2" if "hasPrefix key p1" "hasPrefix key p2" "length p1 = length p2"
    using that by (metis hasPrefix_take)
  have eq: "d1 = d2" if "p1 = p2" "d1 = Some f1" "d2 = Some f2" "(p1, f1) \<in> set ds" "(p2, f2) \<in> set ds" for f1 f2
    using that assms(2) by (metis eq_key_imp_eq_value)
  note s1 = kv_bestDecoder_spec [OF e(1)] and s2 = kv_bestDecoder_spec [OF e(2)]
  have "length p1 \<le> length p2" using s1 s2 assms(1) by fastforce
  moreover have "length p2 \<le> length p1" using s1 s2 assms(1) by fastforce
  ultimately have "length p1 = length p2" by simp
  then have "p1 = p2 \<and> d1 = d2"
    using s1 s2 same eq assms(1) by auto
  with e show "kv_bestDecoder key ds ([], None) = kv_bestDecoder key ds' ([], None)" by simp
  show "\<exists>q g. kv_bestDecoder key ds ([], None) = (q, Some g) \<and> (q, g) \<in> set ds
        \<and> hasPrefix key q \<and> length p \<le> length q" if "(p, f) \<in> set ds \<and> hasPrefix key p \<and> p \<noteq> []"
  proof -
    have "length p \<le> length p1" using s1 that by auto
    with that have "p1 \<noteq> []" by auto
    with s1 e \<open>length p \<le> length p1\<close> show ?thesis by auto
  qed
qed

theorem kv_bestDecoder_order_witness:
  "kv_bestDecoder ''session:x'' [(''s'', 1::nat), (''session:'', 2)] ([], None)
   = kv_bestDecoder ''session:x'' [(''session:'', 2), (''s'', 1)] ([], None)"
  by (rule kv_bestDecoder_order [THEN conjunct1]) auto

text \<open>
  After \<^verbatim>\<open>Close\<close> no operation on a non-empty key succeeds or changes the store: every one
  reports \<^verbatim>\<open>ErrClosed\<close> (a negative TTL is still reported first), and \<^verbatim>\<open>Len\<close> is 0; a second
  \<^verbatim>\<open>Close\<close> changes nothing.
\<close>

theorem kv_closed_store:
  assumes "kv_inv s" "k \<noteq> []" and c_def: "c = kv_Close s"
  shows "kv_Get c k now now' = (Inl ErrClosed, c)
    \<and> kv_SetWithTTL m c k v ttl now = (Some (if ttl < 0 then ErrInvalidTTL else ErrClosed), c)
    \<and> kv_SetNXWithTTL m c k v ttl now = (Inl (if ttl < 0 then ErrInvalidTTL else ErrClosed), c)
    \<and> kv_GetAndDelete c k now = (Inl ErrClosed, c)
    \<and> kv_Delete c k now = (Inl ErrClosed, c)
    \<and> kv_SetRemote c k j w x = (Some ErrClosed, c)
    \<and> kv_DeleteRemote c k d = (Some ErrClosed, c)
    \<and> kv_Len c now = 0
    \<and> kv_Close c = c"
proof (intro conjI)
  have c: "kv_closed c" "kv_stopOnce c"
    using assms(1) by (auto simp: c_def kv_Close_def kv_inv_def)
  show "kv_Get c k now now' = (Inl ErrClosed, c)"
    "kv_SetWithTTL m c k v ttl now = (Some (if ttl < 0 then ErrInvalidTTL else ErrClosed), c)"
    "kv_SetNXWithTTL m c k v ttl now = (Inl (if ttl < 0 then ErrInvalidTTL else ErrClosed), c)"
    "kv_GetAndDelete c k now = (Inl ErrClosed, c)"
    "kv_Delete c k now = (Inl ErrClosed, c)"
    "kv_SetRemote c k j w x = (Some ErrClosed, c)"
    "kv_DeleteRemote c k d = (Some ErrClosed, c)"
    "kv_Len c now = 0" "kv_Close c = c"
    using c assms(2)
    by (simp_all add: kv_op_defs kv_Get_def kv_get_read_def kv_Len_def kv_Close_def [of c])
qed

theorem kv_closed_store_witness:
  "kv_Get (kv_Close kv_sample) ''k'' 1 2 = (Inl ErrClosed, kv_Close kv_sample)"
  by (rule kv_closed_store [OF kv_inv_sample _ refl, THEN conjunct1]) simp

end
