(* ===== verification/Schemas.thy ===== *)
theory Schemas
  imports Prelude
begin

text \<open>
  The data of \<^verbatim>\<open>core/schemas\<close>: request types, the request union \<^verbatim>\<open>BifrostRequest\<close> with its
  accessors, provider keys with their allow and deny lists, errors and their routing
  information, and the attempt and routing-log records the context carries.

  \<^verbatim>\<open>BifrostRequest\<close> has one pointer field per kind of request. Here the fields are the type
  \<open>request_slot\<close> and the struct maps a slot to its sub-request or None for nil. Of a sub-request
  the modelled code reads and writes the provider, the model (a string, or a string pointer in
  some kinds, here an option) and the fallbacks; the rest is the payload \<open>'p\<close>.
\<close>

section \<open>Request types\<close>

datatype request_type =
    ListModelsRequest | TextCompletionRequest | TextCompletionStreamRequest
  | ChatCompletionRequest | ChatCompletionStreamRequest | ResponsesRequest
  | ResponsesStreamRequest | EmbeddingRequest | SpeechRequest | SpeechStreamRequest
  | TranscriptionRequest | TranscriptionStreamRequest | ImageGenerationRequest
  | ImageGenerationStreamRequest | ImageEditRequest | ImageEditStreamRequest
  | VideoGenerationRequest | VideoRetrieveRequest | VideoDownloadRequest | VideoDeleteRequest
  | VideoListRequest | VideoRemixRequest | BatchCreateRequest | BatchListRequest
  | BatchRetrieveRequest | BatchCancelRequest | BatchResultsRequest | BatchDeleteRequest
  | FileUploadRequest | FileListRequest | FileRetrieveRequest | FileDeleteRequest
  | CachedContentCreateRequest | CachedContentListRequest | CachedContentRetrieveRequest
  | CachedContentUpdateRequest | CachedContentDeleteRequest | FileContentRequest
  | ContainerCreateRequest | ContainerListRequest | ContainerRetrieveRequest
  | ContainerDeleteRequest | ContainerFileCreateRequest | ContainerFileListRequest
  | ContainerFileRetrieveRequest | ContainerFileContentRequest | ContainerFileDeleteRequest
  | RerankRequest | OCRRequest | CountTokensRequest | CompactionRequest | PassthroughRequest
  | PassthroughStreamRequest | UnknownRequest

fun requestTypeName :: "request_type \<Rightarrow> string" where
  "requestTypeName ListModelsRequest = ''list_models''"
| "requestTypeName TextCompletionRequest = ''text_completion''"
| "requestTypeName TextCompletionStreamRequest = ''text_completion_stream''"
| "requestTypeName ChatCompletionRequest = ''chat_completion''"
| "requestTypeName ChatCompletionStreamRequest = ''chat_completion_stream''"
| "requestTypeName ResponsesRequest = ''responses''"
| "requestTypeName ResponsesStreamRequest = ''responses_stream''"
| "requestTypeName EmbeddingRequest = ''embedding''"
| "requestTypeName SpeechRequest = ''speech''"
| "requestTypeName SpeechStreamRequest = ''speech_stream''"
| "requestTypeName TranscriptionRequest = ''transcription''"
| "requestTypeName TranscriptionStreamRequest = ''transcription_stream''"
| "requestTypeName ImageGenerationRequest = ''image_generation''"
| "requestTypeName ImageGenerationStreamRequest = ''image_generation_stream''"
| "requestTypeName ImageEditRequest = ''image_edit''"
| "requestTypeName ImageEditStreamRequest = ''image_edit_stream''"
| "requestTypeName VideoGenerationRequest = ''video_generation''"
| "requestTypeName VideoRetrieveRequest = ''video_retrieve''"
| "requestTypeName VideoDownloadRequest = ''video_download''"
| "requestTypeName VideoDeleteRequest = ''video_delete''"
| "requestTypeName VideoListRequest = ''video_list''"
| "requestTypeName VideoRemixRequest = ''video_remix''"
| "requestTypeName BatchCreateRequest = ''batch_create''"
| "requestTypeName BatchListRequest = ''batch_list''"
| "requestTypeName BatchRetrieveRequest = ''batch_retrieve''"
| "requestTypeName BatchCancelRequest = ''batch_cancel''"
| "requestTypeName BatchResultsRequest = ''batch_results''"
| "requestTypeName BatchDeleteRequest = ''batch_delete''"
| "requestTypeName FileUploadRequest = ''file_upload''"
| "requestTypeName FileListRequest = ''file_list''"
| "requestTypeName FileRetrieveRequest = ''file_retrieve''"
| "requestTypeName FileDeleteRequest = ''file_delete''"
| "requestTypeName CachedContentCreateRequest = ''cached_content_create''"
| "requestTypeName CachedContentListRequest = ''cached_content_list''"
| "requestTypeName CachedContentRetrieveRequest = ''cached_content_retrieve''"
| "requestTypeName CachedContentUpdateRequest = ''cached_content_update''"
| "requestTypeName CachedContentDeleteRequest = ''cached_content_delete''"
| "requestTypeName FileContentRequest = ''file_content''"
| "requestTypeName ContainerCreateRequest = ''container_create''"
| "requestTypeName ContainerListRequest = ''container_list''"
| "requestTypeName ContainerRetrieveRequest = ''container_retrieve''"
| "requestTypeName ContainerDeleteRequest = ''container_delete''"
| "requestTypeName ContainerFileCreateRequest = ''container_file_create''"
| "requestTypeName ContainerFileListRequest = ''container_file_list''"
| "requestTypeName ContainerFileRetrieveRequest = ''container_file_retrieve''"
| "requestTypeName ContainerFileContentRequest = ''container_file_content''"
| "requestTypeName ContainerFileDeleteRequest = ''container_file_delete''"
| "requestTypeName RerankRequest = ''rerank''"
| "requestTypeName OCRRequest = ''ocr''"
| "requestTypeName CountTokensRequest = ''count_tokens''"
| "requestTypeName CompactionRequest = ''compaction''"
| "requestTypeName PassthroughRequest = ''passthrough''"
| "requestTypeName PassthroughStreamRequest = ''passthrough_stream''"
| "requestTypeName UnknownRequest = ''unknown''"

section \<open>Requests\<close>

datatype request_slot =
    SlotListModels | SlotTextCompletion | SlotChat | SlotResponses | SlotCountTokens
  | SlotCompaction | SlotEmbedding | SlotRerank | SlotOCR | SlotSpeech | SlotTranscription
  | SlotImageGeneration | SlotImageEdit | SlotVideoGeneration | SlotVideoRetrieve
  | SlotVideoDownload | SlotVideoList | SlotVideoRemix | SlotVideoDelete | SlotFileUpload
  | SlotFileList | SlotFileRetrieve | SlotFileDelete | SlotFileContent
  | SlotCachedContentCreate | SlotCachedContentList | SlotCachedContentRetrieve
  | SlotCachedContentUpdate | SlotCachedContentDelete | SlotBatchCreate | SlotBatchList
  | SlotBatchRetrieve | SlotBatchCancel | SlotBatchResults | SlotBatchDelete
  | SlotContainerCreate | SlotContainerList | SlotContainerRetrieve | SlotContainerDelete
  | SlotContainerFileCreate | SlotContainerFileList | SlotContainerFileRetrieve
  | SlotContainerFileContent | SlotContainerFileDelete | SlotPassthrough

record fallback =
  fb_Provider :: string
  fb_Model :: string

record 'p sub_request =
  sr_Provider :: string
  sr_Model :: "string option"
  sr_Fallbacks :: "fallback list"
  sr_RawRequestBody :: "string option"
  sr_payload :: 'p

record 'p bifrost_request =
  br_RequestType :: request_type
  br_sub :: "request_slot \<Rightarrow> 'p sub_request option"

text \<open>The order in which the \<^verbatim>\<open>switch\<close> of each accessor tests the fields.\<close>

definition getOrder :: "request_slot list" where
  "getOrder = [SlotListModels, SlotTextCompletion, SlotChat, SlotResponses, SlotCountTokens, 
     SlotCompaction, SlotEmbedding, SlotRerank, SlotOCR, SlotSpeech, SlotTranscription, 
     SlotImageGeneration, SlotImageEdit, SlotVideoGeneration, SlotVideoRetrieve, 
     SlotVideoDownload, SlotVideoList, SlotVideoDelete, SlotVideoRemix, SlotFileUpload, 
     SlotFileList, SlotFileRetrieve, SlotFileDelete, SlotFileContent, 
     SlotCachedContentCreate, SlotCachedContentList, SlotCachedContentRetrieve, 
     SlotCachedContentUpdate, SlotCachedContentDelete, SlotBatchCreate, SlotBatchList, 
     SlotBatchRetrieve, SlotBatchCancel, SlotBatchResults, SlotBatchDelete, 
     SlotContainerCreate, SlotContainerList, SlotContainerRetrieve, SlotContainerDelete, 
     SlotContainerFileCreate, SlotContainerFileList, SlotContainerFileRetrieve, 
     SlotContainerFileContent, SlotContainerFileDelete, SlotPassthrough]"

definition setProviderOrder :: "request_slot list" where
  "setProviderOrder = [SlotListModels, SlotTextCompletion, SlotChat, SlotResponses, SlotCountTokens, 
     SlotCompaction, SlotEmbedding, SlotRerank, SlotOCR, SlotSpeech, SlotTranscription, 
     SlotImageGeneration, SlotImageEdit, SlotVideoGeneration, SlotVideoRetrieve, 
     SlotVideoDownload, SlotVideoList, SlotVideoDelete, SlotVideoRemix, 
     SlotCachedContentCreate, SlotCachedContentList, SlotCachedContentRetrieve, 
     SlotCachedContentUpdate, SlotCachedContentDelete]"

definition setModelOrder :: "request_slot list" where
  "setModelOrder = [SlotTextCompletion, SlotChat, SlotResponses, SlotCountTokens, SlotCompaction, 
     SlotEmbedding, SlotRerank, SlotOCR, SlotSpeech, SlotTranscription, SlotImageGeneration, 
     SlotImageEdit, SlotVideoGeneration, SlotBatchCreate, SlotCachedContentCreate, 
     SlotCachedContentList, SlotCachedContentRetrieve, SlotCachedContentUpdate, 
     SlotCachedContentDelete]"

definition setFallbacksOrder :: "request_slot list" where
  "setFallbacksOrder = [SlotTextCompletion, SlotChat, SlotResponses, SlotCountTokens, SlotCompaction, 
     SlotEmbedding, SlotRerank, SlotOCR, SlotSpeech, SlotTranscription, SlotImageGeneration, 
     SlotImageEdit, SlotVideoGeneration]"

text \<open>Kinds whose accessor returns an empty model, kinds with fallbacks, kinds whose model is a
  pointer that \<^verbatim>\<open>SetModel\<close> replaces only when it is not nil.\<close>

definition providerOnlySlots :: "request_slot list" where
  "providerOnlySlots = [SlotListModels, SlotVideoRetrieve, SlotVideoDownload, SlotVideoList, SlotVideoDelete, 
     SlotVideoRemix, SlotContainerCreate, SlotContainerList, SlotContainerRetrieve, 
     SlotContainerDelete, SlotContainerFileCreate, SlotContainerFileList, 
     SlotContainerFileRetrieve, SlotContainerFileContent, SlotContainerFileDelete]"

definition fallbackSlots :: "request_slot list" where
  "fallbackSlots = [SlotTextCompletion, SlotChat, SlotResponses, SlotCountTokens, SlotCompaction, 
     SlotEmbedding, SlotRerank, SlotOCR, SlotSpeech, SlotTranscription, SlotImageGeneration, 
     SlotImageEdit, SlotVideoGeneration]"

definition pointerModelSlots :: "request_slot list" where
  "pointerModelSlots = [SlotBatchCreate, SlotCachedContentList, SlotCachedContentRetrieve, 
     SlotCachedContentUpdate, SlotCachedContentDelete]"

definition activeIn :: "request_slot list \<Rightarrow> 'p bifrost_request \<Rightarrow> request_slot option" where
  "activeIn order br = List.find (\<lambda>s. br_sub br s \<noteq> None) order"

definition GetRequestFields :: "'p bifrost_request \<Rightarrow> string \<times> string \<times> fallback list" where
  "GetRequestFields br =
     (case activeIn getOrder br of
        None \<Rightarrow> ([], [], [])
      | Some s \<Rightarrow>
          (case br_sub br s of
             None \<Rightarrow> ([], [], [])
           | Some r \<Rightarrow>
               (sr_Provider r,
                (if s \<in> set providerOnlySlots then []
                 else (case sr_Model r of None \<Rightarrow> [] | Some m \<Rightarrow> m)),
                (if s \<in> set fallbackSlots then sr_Fallbacks r else []))))"

definition updateSub ::
  "request_slot \<Rightarrow> ('p sub_request \<Rightarrow> 'p sub_request) \<Rightarrow> 'p bifrost_request \<Rightarrow> 'p bifrost_request" where
  "updateSub s f br = br\<lparr>br_sub := (br_sub br)(s := map_option f (br_sub br s))\<rparr>"

definition SetProvider :: "string \<Rightarrow> 'p bifrost_request \<Rightarrow> 'p bifrost_request" where
  "SetProvider p br =
     (case activeIn setProviderOrder br of
        None \<Rightarrow> br
      | Some s \<Rightarrow> updateSub s (\<lambda>r. r\<lparr>sr_Provider := p\<rparr>) br)"

definition SetModel :: "string \<Rightarrow> 'p bifrost_request \<Rightarrow> 'p bifrost_request" where
  "SetModel m br =
     (case activeIn setModelOrder br of
        None \<Rightarrow> br
      | Some s \<Rightarrow>
          updateSub s (\<lambda>r. if s \<in> set pointerModelSlots \<and> sr_Model r = None then r
                           else r\<lparr>sr_Model := Some m\<rparr>) br)"

definition SetFallbacks :: "fallback list \<Rightarrow> 'p bifrost_request \<Rightarrow> 'p bifrost_request" where
  "SetFallbacks fs br =
     (case activeIn setFallbacksOrder br of
        None \<Rightarrow> br
      | Some s \<Rightarrow> updateSub s (\<lambda>r. r\<lparr>sr_Fallbacks := fs\<rparr>) br)"

definition rawBodyOrder :: "request_slot list" where
  "rawBodyOrder = [SlotTextCompletion, SlotChat, SlotResponses, SlotCountTokens, SlotCompaction,
     SlotEmbedding, SlotRerank, SlotOCR, SlotSpeech, SlotTranscription, SlotImageGeneration,
     SlotImageEdit, SlotVideoGeneration, SlotVideoRemix, SlotCachedContentCreate,
     SlotCachedContentList, SlotCachedContentRetrieve, SlotCachedContentUpdate,
     SlotCachedContentDelete]"

definition SetRawRequestBody :: "string \<Rightarrow> 'p bifrost_request \<Rightarrow> 'p bifrost_request" where
  "SetRawRequestBody body br =
     (case activeIn rawBodyOrder br of
        None \<Rightarrow> br
      | Some s \<Rightarrow> updateSub s (\<lambda>r. r\<lparr>sr_RawRequestBody := Some body\<rparr>) br)"

text \<open>A request with exactly one field set, as the comment on the struct demands.\<close>

definition singleRequest :: "request_type \<Rightarrow> request_slot \<Rightarrow> 'p sub_request \<Rightarrow> 'p bifrost_request" where
  "singleRequest t s r = \<lparr>br_RequestType = t, br_sub = (\<lambda>_. None)(s := Some r)\<rparr>"

lemma getOrder_all: "s \<in> set getOrder"
  by (cases s) (simp_all add: getOrder_def)

lemma activeIn_single:
  "activeIn order (singleRequest t s r) = (if s \<in> set order then Some s else None)"
proof (induction order)
  case Nil
  then show ?case by (simp add: activeIn_def)
next
  case (Cons a order)
  then show ?case by (auto simp: activeIn_def singleRequest_def)
qed

lemma updateSub_single: "updateSub s f (singleRequest t s r) = singleRequest t s (f r)"
  by (simp add: updateSub_def singleRequest_def fun_eq_iff)

lemma GetRequestFields_single:
  "GetRequestFields (singleRequest t s r) =
     (sr_Provider r,
      (if s \<in> set providerOnlySlots then [] else (case sr_Model r of None \<Rightarrow> [] | Some m \<Rightarrow> m)),
      (if s \<in> set fallbackSlots then sr_Fallbacks r else []))"
  by (simp add: GetRequestFields_def activeIn_single getOrder_all) (simp add: singleRequest_def)

lemma fallbackSlots_settable:
  "s \<in> set fallbackSlots \<Longrightarrow>
   s \<in> set setProviderOrder \<and> s \<in> set setModelOrder \<and> s \<in> set setFallbacksOrder
     \<and> s \<notin> set providerOnlySlots \<and> s \<notin> set pointerModelSlots"
  by (cases s)
     (simp_all add: fallbackSlots_def setProviderOrder_def setModelOrder_def setFallbacksOrder_def
       providerOnlySlots_def pointerModelSlots_def)

text \<open>
  C5. The accessors are inverse to each other on every kind of request that carries fallbacks:
  after \<^verbatim>\<open>SetProvider\<close>, \<^verbatim>\<open>SetModel\<close> and \<^verbatim>\<open>SetFallbacks\<close> (how the plugins rewrite a
  request) \<^verbatim>\<open>GetRequestFields\<close> returns exactly the three values.
\<close>

theorem request_set_get:
  assumes "s \<in> set fallbackSlots"
  shows "GetRequestFields (SetFallbacks fs (SetModel m (SetProvider p (singleRequest t s r)))) = (p, m, fs)"
  using fallbackSlots_settable [OF assms] assms
  by (simp add: SetProvider_def SetModel_def SetFallbacks_def activeIn_single updateSub_single
      GetRequestFields_single)

theorem request_set_get_witness:
  "GetRequestFields (SetFallbacks [] (SetModel ''m'' (SetProvider ''openai''
     (singleRequest ChatCompletionRequest SlotChat
        \<lparr>sr_Provider = [], sr_Model = Some [], sr_Fallbacks = [], sr_RawRequestBody = None,
         sr_payload = (0::nat)\<rparr>)))) = (''openai'', ''m'', [])"
  by (rule request_set_get) (simp add: fallbackSlots_def)

section \<open>Allow and deny lists\<close>

definition wl_Contains :: "string list \<Rightarrow> string \<Rightarrow> bool" where
  "wl_Contains wl v \<longleftrightarrow> (\<exists>s \<in> set wl. equalFold s v)"

definition wl_IsUnrestricted :: "string list \<Rightarrow> bool" where
  "wl_IsUnrestricted wl \<longleftrightarrow> (length wl = 1 \<and> hd wl = ''*'')"

definition wl_IsAllowed :: "string list \<Rightarrow> string \<Rightarrow> bool" where
  "wl_IsAllowed wl v \<longleftrightarrow> wl_IsUnrestricted wl \<or> wl_Contains wl v"

definition wl_IsEmpty :: "string list \<Rightarrow> bool" where
  "wl_IsEmpty wl \<longleftrightarrow> length wl = 0"

definition wl_IsRestricted :: "string list \<Rightarrow> bool" where
  "wl_IsRestricted wl \<longleftrightarrow> \<not> wl_IsUnrestricted wl"

definition bl_IsBlockAll :: "string list \<Rightarrow> bool" where
  "bl_IsBlockAll bl \<longleftrightarrow> (length bl = 1 \<and> hd bl = ''*'')"

definition bl_Contains :: "string list \<Rightarrow> string \<Rightarrow> bool" where
  "bl_Contains bl v \<longleftrightarrow> (\<exists>s \<in> set bl. equalFold s v)"

definition bl_IsBlocked :: "string list \<Rightarrow> string \<Rightarrow> bool" where
  "bl_IsBlocked bl v \<longleftrightarrow> bl_IsBlockAll bl \<or> bl_Contains bl v"

definition bl_IsEmpty :: "string list \<Rightarrow> bool" where
  "bl_IsEmpty bl \<longleftrightarrow> length bl = 0"

datatype list_error = WildcardWithOthers | DuplicateValue string

fun firstDuplicate :: "string list \<Rightarrow> string list \<Rightarrow> string option" where
  "firstDuplicate seen [] = None"
| "firstDuplicate seen (v # vs) =
     (if toLower v \<in> set seen then Some v else firstDuplicate (toLower v # seen) vs)"

definition wl_Validate :: "string list \<Rightarrow> list_error option" where
  "wl_Validate wl =
     (if wl_Contains wl ''*'' \<and> length wl > 1 then Some WildcardWithOthers
      else map_option DuplicateValue (firstDuplicate [] wl))"

definition bl_Validate :: "string list \<Rightarrow> list_error option" where
  "bl_Validate bl =
     (if bl_Contains bl ''*'' \<and> length bl > 1 then Some WildcardWithOthers
      else map_option DuplicateValue (firstDuplicate [] bl))"

lemma firstDuplicate_None:
  "firstDuplicate seen vs = None \<longleftrightarrow>
     distinct (map toLower vs) \<and> set (map toLower vs) \<inter> set seen = {}"
  by (induction vs arbitrary: seen) auto

lemma toLower_star [simp]: "toLower ''*'' = ''*''"
  by code_simp

lemma equalFold_star: "equalFold s ''*'' \<longleftrightarrow> s = ''*''"
proof
  have h: "lowerByte c = CHR ''*'' \<Longrightarrow> c = CHR ''*''" for c
  proof (rule ccontr)
    assume l: "lowerByte c = CHR ''*''" and "c \<noteq> CHR ''*''"
    then have r: "65 \<le> (of_char c :: nat) \<and> (of_char c :: nat) \<le> 90"
      by (auto simp: lowerByte_def split: if_splits)
    then have "of_char (lowerByte c) = (of_char c :: nat) + 32"
      by (simp add: lowerByte_def of_char_of)
    with l r show False by simp
  qed
  assume "equalFold s ''*''"
  then have "map lowerByte s = [CHR ''*'']" by (simp add: equalFold_def toLower_def lowerByte_def)
  then show "s = ''*''" using h by (auto simp: map_eq_Cons_conv)
qed simp

lemma wl_Contains_iff: "wl_Contains wl v \<longleftrightarrow> toLower v \<in> toLower ` set wl"
  unfolding wl_Contains_def equalFold_def by (metis image_iff)

text \<open>
  What a validated list means: \<^verbatim>\<open>Validate\<close> accepts exactly the lists without
  case-insensitive duplicates in which \<^verbatim>\<open>*\<close> stands alone; such an allow list admits a model
  iff it is \<^verbatim>\<open>[*]\<close> or names the model up to case, the empty list admits nothing, and the deny
  list decides by the same rule, so a list used on both sides admits nothing.
\<close>

theorem whitelist_semantics:
  "(wl_Validate wl = None \<longleftrightarrow> distinct (map toLower wl) \<and> (''*'' \<in> set wl \<longrightarrow> wl = [''*'']))
    \<and> (wl_Validate wl = None \<longrightarrow> wl_IsAllowed wl v = (''*'' \<in> set wl \<or> toLower v \<in> toLower ` set wl))
    \<and> \<not> wl_IsAllowed [] v
    \<and> bl_IsBlocked wl v = wl_IsAllowed wl v"
proof (intro conjI impI)
  have star: "wl_Contains wl ''*'' \<longleftrightarrow> ''*'' \<in> set wl"
    by (auto simp: wl_Contains_def equalFold_star)
  show v: "wl_Validate wl = None \<longleftrightarrow> distinct (map toLower wl) \<and> (''*'' \<in> set wl \<longrightarrow> wl = [''*''])"
  proof (cases "''*'' \<in> set wl \<and> length wl > 1")
    case True
    then show ?thesis by (auto simp: wl_Validate_def star)
  next
    case False
    then have "''*'' \<in> set wl \<Longrightarrow> wl = [''*'']" by (cases wl) auto
    with False show ?thesis by (auto simp: wl_Validate_def star firstDuplicate_None)
  qed
  show "wl_IsAllowed wl v = (''*'' \<in> set wl \<or> toLower v \<in> toLower ` set wl)" if "wl_Validate wl = None"
    using that v by (cases wl) (auto simp: wl_IsAllowed_def wl_IsUnrestricted_def wl_Contains_iff)
  show "\<not> wl_IsAllowed [] v"
    by (simp add: wl_IsAllowed_def wl_IsUnrestricted_def wl_Contains_def)
  show "bl_IsBlocked wl v = wl_IsAllowed wl v"
    by (simp add: bl_IsBlocked_def wl_IsAllowed_def bl_IsBlockAll_def wl_IsUnrestricted_def
        bl_Contains_def wl_Contains_def)
qed

theorem whitelist_semantics_witness: "wl_IsAllowed [''GPT-4''] ''gpt-4'' \<and> \<not> wl_IsAllowed [''GPT-4''] ''o3''"
proof -
  have v: "wl_Validate [''GPT-4''] = None" by code_simp
  have "toLower ''gpt-4'' \<in> toLower ` set [''GPT-4'']" "toLower ''o3'' \<notin> toLower ` set [''GPT-4'']"
    by code_simp+
  with v whitelist_semantics [of "[''GPT-4'']" "''gpt-4''"] whitelist_semantics [of "[''GPT-4'']" "''o3''"]
  show ?thesis by simp
qed

section \<open>Provider keys\<close>

text \<open>
  Of \<^verbatim>\<open>schemas.Key\<close>, the fields that selection reads. The weight enters the code only as
  \<^verbatim>\<open>int(key.Weight * 100)\<close>; \<open>k_Weight100\<close> is that integer. A per-provider configuration is
  None for a nil pointer and otherwise holds what \<^verbatim>\<open>GetValue\<close> gives for its secret fields.
\<close>

record vllm_config =
  vllm_URL :: string
  vllm_ModelName :: string

text \<open>An alias of a key. The provider-specific parts count by their presence only.\<close>

record alias_config =
  ac_ModelID :: string
  ac_ModelName :: "string option"
  ac_ModelFamily :: "string option"
  ac_Description :: string
  ac_Region :: "string option"
  ac_Azure :: bool
  ac_Vertex :: bool
  ac_Bedrock :: bool
  ac_Replicate :: bool

record key =
  k_ID :: string
  k_Name :: string
  k_Value :: string
  k_Models :: "string list"
  k_BlacklistedModels :: "string list"
  k_Aliases :: "(string \<times> alias_config) list"
  k_Weight100 :: int
  k_AzureEndpoint :: "string option"
  k_VertexKeyConfig :: bool
  k_BedrockKeyConfig :: bool
  k_VLLMKeyConfig :: "vllm_config option"
  k_OllamaURL :: "string option"
  k_SGLURL :: "string option"
  k_Enabled :: "bool option"
  k_UseForBatchAPI :: "bool option"

definition zeroKey :: key where
  "zeroKey = \<lparr>k_ID = [], k_Name = [], k_Value = [], k_Models = [], k_BlacklistedModels = [], k_Aliases = [],
    k_Weight100 = 0, k_AzureEndpoint = None, k_VertexKeyConfig = False, k_BedrockKeyConfig = False,
    k_VLLMKeyConfig = None, k_OllamaURL = None, k_SGLURL = None, k_Enabled = None,
    k_UseForBatchAPI = None\<rparr>"

section \<open>Errors\<close>

record error_field =
  ef_Type :: "string option"
  ef_Code :: "string option"
  ef_Message :: string
  ef_Error :: "string option"

record resolved_alias =
  ra_ModelID :: string
  ra_ModelName :: "string option"
  ra_ModelFamily :: "string option"

record routing_info =
  ri_Provider :: string
  ri_Model :: string
  ri_Key :: string
  ri_ResolvedKeyAlias :: "resolved_alias option"
  ri_IsFallback :: bool
  ri_PrimaryProvider :: "string option"
  ri_PrimaryModel :: "string option"

record extra_fields =
  xf_RoutingInfo :: routing_info
  xf_Provider :: string
  xf_OriginalModelRequested :: string
  xf_ResolvedModelUsed :: string
  xf_RequestType :: "request_type option"
  xf_RawRequest :: "string option"
  xf_RawResponse :: "string option"

record bifrost_error =
  be_Type :: "string option"
  be_IsBifrostError :: bool
  be_StatusCode :: "int option"
  be_Error :: "error_field option"
  be_AllowFallbacks :: "bool option"
  be_ExtraFields :: extra_fields

definition zeroRoutingInfo :: routing_info where
  "zeroRoutingInfo = \<lparr>ri_Provider = [], ri_Model = [], ri_Key = [], ri_ResolvedKeyAlias = None,
    ri_IsFallback = False, ri_PrimaryProvider = None, ri_PrimaryModel = None\<rparr>"

definition zeroExtraFields :: extra_fields where
  "zeroExtraFields = \<lparr>xf_RoutingInfo = zeroRoutingInfo, xf_Provider = [],
    xf_OriginalModelRequested = [], xf_ResolvedModelUsed = [], xf_RequestType = None,
    xf_RawRequest = None, xf_RawResponse = None\<rparr>"

definition RequestCancelled :: string where "RequestCancelled = ''request_cancelled''"

definition RequestTimedOut :: string where "RequestTimedOut = ''request_timed_out''"

definition ErrProviderDoRequest :: string where
  "ErrProviderDoRequest = ''failed to execute HTTP request to provider API''"

definition ErrProviderNetworkError :: string where
  "ErrProviderNetworkError =
     ''network error occurred while connecting to provider API (DNS lookup, connection refused, etc.)''"

text \<open>\<^verbatim>\<open>bifrostError.Error != nil && bifrostError.Error.Type != nil && *... == RequestCancelled\<close>\<close>

definition isCancelledError :: "bifrost_error \<Rightarrow> bool" where
  "isCancelledError e \<longleftrightarrow>
     (case be_Error e of None \<Rightarrow> False | Some f \<Rightarrow> ef_Type f = Some RequestCancelled)"

definition syncDeprecatedFromRoutingInfo :: "routing_info \<Rightarrow> extra_fields \<Rightarrow> extra_fields" where
  "syncDeprecatedFromRoutingInfo info x =
     x\<lparr>xf_Provider := (if ri_Provider info \<noteq> [] then ri_Provider info else xf_Provider x),
       xf_OriginalModelRequested :=
         (case (ri_IsFallback info, ri_PrimaryModel info) of
            (True, Some (c # cs)) \<Rightarrow> c # cs
          | _ \<Rightarrow> if ri_Model info \<noteq> [] then ri_Model info else xf_OriginalModelRequested x),
       xf_ResolvedModelUsed :=
         (case ri_ResolvedKeyAlias info of
            Some a \<Rightarrow> if ra_ModelID a \<noteq> [] then ra_ModelID a
                      else if ri_Model info \<noteq> [] then ri_Model info else xf_ResolvedModelUsed x
          | None \<Rightarrow> if ri_Model info \<noteq> [] then ri_Model info else xf_ResolvedModelUsed x)\<rparr>"

definition PopulateRoutingInfo :: "routing_info \<Rightarrow> bifrost_error \<Rightarrow> bifrost_error" where
  "PopulateRoutingInfo info e =
     e\<lparr>be_ExtraFields := syncDeprecatedFromRoutingInfo info ((be_ExtraFields e)\<lparr>xf_RoutingInfo := info\<rparr>)\<rparr>"

definition setFallbackInfo :: "string \<Rightarrow> string \<Rightarrow> routing_info \<Rightarrow> routing_info" where
  "setFallbackInfo primaryProvider primaryModel info =
     info\<lparr>ri_IsFallback := True,
       ri_PrimaryProvider := (if primaryProvider \<noteq> [] then Some primaryProvider else ri_PrimaryProvider info),
       ri_PrimaryModel := (if primaryModel \<noteq> [] then Some primaryModel else ri_PrimaryModel info)\<rparr>"

definition extraSetFallbackRoutingInfo :: "string \<Rightarrow> string \<Rightarrow> extra_fields \<Rightarrow> extra_fields" where
  "extraSetFallbackRoutingInfo p m x =
     (let info = setFallbackInfo p m (xf_RoutingInfo x)
      in syncDeprecatedFromRoutingInfo info (x\<lparr>xf_RoutingInfo := info\<rparr>))"

definition errSetFallbackRoutingInfo :: "string \<Rightarrow> string \<Rightarrow> bifrost_error \<Rightarrow> bifrost_error" where
  "errSetFallbackRoutingInfo p m e =
     e\<lparr>be_ExtraFields := extraSetFallbackRoutingInfo p m (be_ExtraFields e)\<rparr>"

definition extraPopulate :: "request_type \<Rightarrow> string \<Rightarrow> string \<Rightarrow> string \<Rightarrow> extra_fields \<Rightarrow> extra_fields" where
  "extraPopulate t p original resolved x =
     x\<lparr>xf_RequestType := Some t, xf_Provider := p, xf_OriginalModelRequested := original,
       xf_ResolvedModelUsed := (if resolved \<noteq> [] then resolved else original)\<rparr>"

definition errPopulateExtraFields ::
  "request_type \<Rightarrow> string \<Rightarrow> string \<Rightarrow> string \<Rightarrow> bifrost_error \<Rightarrow> bifrost_error" where
  "errPopulateExtraFields t p original resolved e =
     e\<lparr>be_ExtraFields := extraPopulate t p original resolved (be_ExtraFields e)\<rparr>"

definition statusText :: "int \<Rightarrow> string" where
  "statusText c =
     (if c = 401 then ''unauthorized''
      else if c = 403 then ''forbidden''
      else if c = 404 then ''endpoint not found''
      else if c = 405 then ''method not allowed''
      else if c = 429 then ''rate limit exceeded''
      else if c = 500 then ''internal server error''
      else if c = 502 then ''bad gateway''
      else if c = 503 then ''service unavailable''
      else if c = 504 then ''gateway timeout''
      else ''HTTP '' @ itoa c @ '' error'')"

definition GetErrorString :: "bifrost_error option \<Rightarrow> string" where
  "GetErrorString oe =
     (case oe of
        None \<Rightarrow> []
      | Some e \<Rightarrow>
          if (case be_Error e of Some f \<Rightarrow> ef_Message f \<noteq> [] | None \<Rightarrow> False)
          then (case be_Error e of Some f \<Rightarrow> ef_Message f | None \<Rightarrow> [])
          else (case be_StatusCode e of
                  Some c \<Rightarrow> statusText c
                | None \<Rightarrow> (case be_Type e of Some t \<Rightarrow> t | None \<Rightarrow> ''unknown error'')))"

text \<open>
  After a fallback attempt the client-facing model fields are those the comments promise:
  the original model is the one the caller asked the primary for, whatever the attempt put
  there, and the resolved model is the alias target or else the attempt's own model.
\<close>

theorem fallback_routing_info:
  assumes "primaryModel \<noteq> []" "ri_Model (xf_RoutingInfo (be_ExtraFields e)) = m" "m \<noteq> []"
    and x: "x = be_ExtraFields (errSetFallbackRoutingInfo primaryProvider primaryModel e)"
  shows "xf_OriginalModelRequested x = primaryModel
    \<and> xf_ResolvedModelUsed x =
      (case ri_ResolvedKeyAlias (xf_RoutingInfo (be_ExtraFields e)) of
         Some a \<Rightarrow> if ra_ModelID a \<noteq> [] then ra_ModelID a else m
       | None \<Rightarrow> m)
    \<and> ri_IsFallback (xf_RoutingInfo x)"
  using assms(1-3)
  by (auto simp: x errSetFallbackRoutingInfo_def extraSetFallbackRoutingInfo_def Let_def
      syncDeprecatedFromRoutingInfo_def setFallbackInfo_def neq_Nil_conv split: option.splits)

theorem fallback_routing_info_witness:
  "xf_OriginalModelRequested (be_ExtraFields (errSetFallbackRoutingInfo ''openai'' ''gpt-4''
     \<lparr>be_Type = None, be_IsBifrostError = False, be_StatusCode = None, be_Error = None,
       be_AllowFallbacks = None,
       be_ExtraFields = zeroExtraFields\<lparr>xf_RoutingInfo := zeroRoutingInfo\<lparr>ri_Model := ''claude''\<rparr>\<rparr>\<rparr>)) = ''gpt-4''"
  by (rule fallback_routing_info [where m = "''claude''", OF _ _ _ refl, THEN conjunct1]) (simp_all add: zeroExtraFields_def)

section \<open>Records the context carries\<close>

record attempt_record =
  at_Attempt :: int
  at_KeyID :: string
  at_KeyName :: string
  at_FailReason :: "string option"
  at_TriggeredRotation :: bool

datatype log_level = LogLevelDebug | LogLevelInfo | LogLevelWarn | LogLevelError

record routing_log =
  rl_Engine :: string
  rl_Level :: log_level
  rl_Message :: string
  rl_Timestamp :: int

definition RoutingEngineCore :: string where "RoutingEngineCore = ''core''"

end
