(* ===== verification/Context.thy ===== *)
theory Context
  imports Schemas
begin

text \<open>
  The request context of \<^verbatim>\<open>core/schemas/context.go\<close>: the values set on it, the values it
  inherits from its parent, the guard that keeps plugins from writing reserved keys, and the
  scoped contexts handed to plugins, which delegate to the root.

  A \<open>bctx\<close> is a root \<^verbatim>\<open>BifrostContext\<close>. \<^verbatim>\<open>userValues\<close> maps a key to a value, and a cleared
  key is bound to nil (\<open>VNil\<close>), not unbound; \<open>bc_parentValues\<close> is what \<^verbatim>\<open>parent.Value\<close>
  answers (\<open>VNil\<close> for everything when there is no parent or when it is a pooled, non-cancelling
  one, which the code refuses to read). Deadlines and cancellation are not modelled here.
\<close>

section \<open>Keys and values\<close>

datatype ctxkey = CK string

abbreviation BifrostContextKeyVirtualKey :: ctxkey where
  "BifrostContextKeyVirtualKey \<equiv> CK ''x-bf-vk''"

abbreviation BifrostContextKeyAPIKeyName :: ctxkey where
  "BifrostContextKeyAPIKeyName \<equiv> CK ''x-bf-api-key''"

abbreviation BifrostContextKeyAPIKeyID :: ctxkey where
  "BifrostContextKeyAPIKeyID \<equiv> CK ''x-bf-api-key-id''"

abbreviation BifrostContextKeyDirectKey :: ctxkey where
  "BifrostContextKeyDirectKey \<equiv> CK ''x-bf-direct-key''"

abbreviation BifrostContextKeyRequestID :: ctxkey where
  "BifrostContextKeyRequestID \<equiv> CK ''request-id''"

abbreviation BifrostContextKeyFallbackRequestID :: ctxkey where
  "BifrostContextKeyFallbackRequestID \<equiv> CK ''fallback-request-id''"

abbreviation BifrostContextKeySelectedKeyID :: ctxkey where
  "BifrostContextKeySelectedKeyID \<equiv> CK ''bifrost-selected-key-id''"

abbreviation BifrostContextKeySelectedKeyName :: ctxkey where
  "BifrostContextKeySelectedKeyName \<equiv> CK ''bifrost-selected-key-name''"

abbreviation BifrostContextKeyGovernanceVirtualKeyID :: ctxkey where
  "BifrostContextKeyGovernanceVirtualKeyID \<equiv> CK ''bifrost-governance-virtual-key-id''"

abbreviation BifrostContextKeyGovernanceVirtualKeyName :: ctxkey where
  "BifrostContextKeyGovernanceVirtualKeyName \<equiv> CK ''bifrost-governance-virtual-key-name''"

abbreviation BifrostContextKeyGovernanceTeamID :: ctxkey where
  "BifrostContextKeyGovernanceTeamID \<equiv> CK ''bifrost-governance-team-id''"

abbreviation BifrostContextKeyGovernanceTeamName :: ctxkey where
  "BifrostContextKeyGovernanceTeamName \<equiv> CK ''bifrost-governance-team-name''"

abbreviation BifrostContextKeyGovernanceCustomerID :: ctxkey where
  "BifrostContextKeyGovernanceCustomerID \<equiv> CK ''bifrost-governance-customer-id''"

abbreviation BifrostContextKeyGovernanceCustomerName :: ctxkey where
  "BifrostContextKeyGovernanceCustomerName \<equiv> CK ''bifrost-governance-customer-name''"

abbreviation BifrostContextKeyGovernanceBusinessUnitID :: ctxkey where
  "BifrostContextKeyGovernanceBusinessUnitID \<equiv> CK ''bifrost-governance-business-unit-id''"

abbreviation BifrostContextKeyGovernanceBusinessUnitName :: ctxkey where
  "BifrostContextKeyGovernanceBusinessUnitName \<equiv> CK ''bifrost-governance-business-unit-name''"

abbreviation BifrostContextKeyRoutingPinnedAPIKeyID :: ctxkey where
  "BifrostContextKeyRoutingPinnedAPIKeyID \<equiv> CK ''bifrost-routing-pinned-api-key-id''"

abbreviation BifrostContextKeyGovernanceIncludeOnlyKeys :: ctxkey where
  "BifrostContextKeyGovernanceIncludeOnlyKeys \<equiv> CK ''bf-governance-include-only-keys''"

abbreviation BifrostContextKeyNumberOfRetries :: ctxkey where
  "BifrostContextKeyNumberOfRetries \<equiv> CK ''bifrost-number-of-retries''"

abbreviation BifrostContextKeyFallbackIndex :: ctxkey where
  "BifrostContextKeyFallbackIndex \<equiv> CK ''bifrost-fallback-index''"

abbreviation BifrostContextKeyResolvedAlias :: ctxkey where
  "BifrostContextKeyResolvedAlias \<equiv> CK ''bifrost-resolved-alias''"

abbreviation BifrostContextKeyStreamEndIndicator :: ctxkey where
  "BifrostContextKeyStreamEndIndicator \<equiv> CK ''bifrost-stream-end-indicator''"

abbreviation BifrostContextKeyStreamGated :: ctxkey where
  "BifrostContextKeyStreamGated \<equiv> CK ''bifrost-stream-gated''"

abbreviation BifrostContextKeySkipKeySelection :: ctxkey where
  "BifrostContextKeySkipKeySelection \<equiv> CK ''bifrost-skip-key-selection''"

abbreviation BifrostContextKeyExtraHeaders :: ctxkey where
  "BifrostContextKeyExtraHeaders \<equiv> CK ''bifrost-extra-headers''"

abbreviation BifrostContextKeyURLPath :: ctxkey where
  "BifrostContextKeyURLPath \<equiv> CK ''bifrost-extra-url-path''"

abbreviation BifrostContextKeyUseRawRequestBody :: ctxkey where
  "BifrostContextKeyUseRawRequestBody \<equiv> CK ''bifrost-use-raw-request-body''"

abbreviation BifrostContextKeyChangeRequestType :: ctxkey where
  "BifrostContextKeyChangeRequestType \<equiv> CK ''bifrost-change-request-type''"

abbreviation BifrostContextKeySendBackRawRequest :: ctxkey where
  "BifrostContextKeySendBackRawRequest \<equiv> CK ''bifrost-send-back-raw-request''"

abbreviation BifrostContextKeySendBackRawResponse :: ctxkey where
  "BifrostContextKeySendBackRawResponse \<equiv> CK ''bifrost-send-back-raw-response''"

abbreviation BifrostContextKeyIntegrationType :: ctxkey where
  "BifrostContextKeyIntegrationType \<equiv> CK ''bifrost-integration-type''"

abbreviation BifrostContextKeySkipBudgetAndRateLimits :: ctxkey where
  "BifrostContextKeySkipBudgetAndRateLimits \<equiv> CK ''bifrost-skip-budget-and-rate-limits''"

abbreviation BifrostContextKeyTraceID :: ctxkey where
  "BifrostContextKeyTraceID \<equiv> CK ''bifrost-trace-id''"

abbreviation BifrostContextKeySpanID :: ctxkey where
  "BifrostContextKeySpanID \<equiv> CK ''bifrost-span-id''"

abbreviation BifrostContextKeyStreamStartTime :: ctxkey where
  "BifrostContextKeyStreamStartTime \<equiv> CK ''bifrost-stream-start-time''"

abbreviation BifrostContextKeyTracer :: ctxkey where
  "BifrostContextKeyTracer \<equiv> CK ''bifrost-tracer''"

abbreviation BifrostContextKeyDeferTraceCompletion :: ctxkey where
  "BifrostContextKeyDeferTraceCompletion \<equiv> CK ''bifrost-defer-trace-completion''"

abbreviation BifrostContextKeyStoreRawRequestResponse :: ctxkey where
  "BifrostContextKeyStoreRawRequestResponse \<equiv> CK ''bifrost-store-raw-request-response''"

abbreviation BifrostContextKeyCaptureRawRequest :: ctxkey where
  "BifrostContextKeyCaptureRawRequest \<equiv> CK ''bifrost-capture-raw-request''"

abbreviation BifrostContextKeyCaptureRawResponse :: ctxkey where
  "BifrostContextKeyCaptureRawResponse \<equiv> CK ''bifrost-capture-raw-response''"

abbreviation BifrostContextKeyDropRawRequestFromClient :: ctxkey where
  "BifrostContextKeyDropRawRequestFromClient \<equiv> CK ''bifrost-drop-raw-request-from-client''"

abbreviation BifrostContextKeyDropRawResponseFromClient :: ctxkey where
  "BifrostContextKeyDropRawResponseFromClient \<equiv> CK ''bifrost-drop-raw-response-from-client''"

abbreviation BifrostContextKeyShouldStoreRawInLogs :: ctxkey where
  "BifrostContextKeyShouldStoreRawInLogs \<equiv> CK ''bifrost-should-store-raw-in-logs''"

abbreviation BifrostContextKeyIsCustomProvider :: ctxkey where
  "BifrostContextKeyIsCustomProvider \<equiv> CK ''bifrost-is-custom-provider''"

abbreviation BifrostContextKeyRoutingEnginesUsed :: ctxkey where
  "BifrostContextKeyRoutingEnginesUsed \<equiv> CK ''bifrost-routing-engines-used''"

abbreviation BifrostContextKeyRoutingEngineLogs :: ctxkey where
  "BifrostContextKeyRoutingEngineLogs \<equiv> CK ''bifrost-routing-engine-logs''"

abbreviation BifrostContextKeyPreRequestShortCircuitError :: ctxkey where
  "BifrostContextKeyPreRequestShortCircuitError \<equiv> CK ''bifrost-prerequest-short-circuit-error''"

abbreviation BifrostContextKeySkipPluginPipeline :: ctxkey where
  "BifrostContextKeySkipPluginPipeline \<equiv> CK ''bifrost-skip-plugin-pipeline''"

abbreviation BifrostContextKeyAllowPerRequestStorageOverride :: ctxkey where
  "BifrostContextKeyAllowPerRequestStorageOverride \<equiv> CK ''bifrost-allow-per-request-storage-override''"

abbreviation BifrostContextKeyAllowPerRequestRawOverride :: ctxkey where
  "BifrostContextKeyAllowPerRequestRawOverride \<equiv> CK ''bifrost-allow-per-request-raw-override''"

abbreviation BifrostContextKeyUserID :: ctxkey where
  "BifrostContextKeyUserID \<equiv> CK ''bifrost-user-id''"

abbreviation BifrostContextKeyUserName :: ctxkey where
  "BifrostContextKeyUserName \<equiv> CK ''bifrost-user-name''"

abbreviation BifrostContextKeyLargePayloadMode :: ctxkey where
  "BifrostContextKeyLargePayloadMode \<equiv> CK ''bifrost-large-payload-mode''"

abbreviation BifrostContextKeyLargePayloadReader :: ctxkey where
  "BifrostContextKeyLargePayloadReader \<equiv> CK ''bifrost-large-payload-reader''"

abbreviation BifrostContextKeySessionID :: ctxkey where
  "BifrostContextKeySessionID \<equiv> CK ''bifrost-session-id''"

abbreviation BifrostContextKeySessionTTL :: ctxkey where
  "BifrostContextKeySessionTTL \<equiv> CK ''bifrost-session-ttl''"

abbreviation BifrostContextKeySupportsAssistantPrefill :: ctxkey where
  "BifrostContextKeySupportsAssistantPrefill \<equiv> CK ''bifrost-supports-assistant-prefill''"

abbreviation BifrostContextKeyAttemptTrail :: ctxkey where
  "BifrostContextKeyAttemptTrail \<equiv> CK ''bifrost-attempt-trail''"

abbreviation BifrostContextKeyPassthroughOverridesPresent :: ctxkey where
  "BifrostContextKeyPassthroughOverridesPresent \<equiv> CK ''passthrough_overrides_present''"

definition reservedKeys :: "ctxkey list" where
  "reservedKeys =
    [BifrostContextKeyVirtualKey,
     BifrostContextKeyAPIKeyName,
     BifrostContextKeyAPIKeyID,
     BifrostContextKeyDirectKey,
     BifrostContextKeyRequestID,
     BifrostContextKeyFallbackRequestID,
     BifrostContextKeySelectedKeyID,
     BifrostContextKeySelectedKeyName,
     BifrostContextKeyNumberOfRetries,
     BifrostContextKeyFallbackIndex,
     BifrostContextKeySkipKeySelection,
     BifrostContextKeySkipBudgetAndRateLimits,
     BifrostContextKeyURLPath,
     BifrostContextKeyDeferTraceCompletion,
     BifrostContextKeyAttemptTrail,
     BifrostContextKeyStreamGated]"

text \<open>The Go types of the values the modelled code stores and asserts.\<close>

datatype ctxval =
    VNil | VBool bool | VStr string | VInt int | VDuration int | VStrs "string list" | VKey key
  | VErr bifrost_error | VTrail "attempt_record list" | VLogs "routing_log list"
  | VReqType request_type | VAlias string alias_config
  | VTracer | VHeaders "(string \<times> string list) list" | VOther nat

record bctx =
  bc_userValues :: "ctxkey \<Rightarrow> ctxval option"
  bc_parentValues :: "ctxkey \<Rightarrow> ctxval"
  bc_blockRestrictedWrites :: bool

definition NewBifrostContext :: "(ctxkey \<Rightarrow> ctxval) \<Rightarrow> bctx" where
  "NewBifrostContext parent =
     \<lparr>bc_userValues = (\<lambda>_. None), bc_parentValues = parent, bc_blockRestrictedWrites = False\<rparr>"

section \<open>Operations of the root context\<close>

definition Value :: "bctx \<Rightarrow> ctxkey \<Rightarrow> ctxval" where
  "Value c k = (case bc_userValues c k of Some v \<Rightarrow> v | None \<Rightarrow> bc_parentValues c k)"

definition setReservedValue :: "ctxkey \<Rightarrow> ctxval \<Rightarrow> bctx \<Rightarrow> bctx" where
  "setReservedValue k v c = c\<lparr>bc_userValues := (bc_userValues c)(k := Some v)\<rparr>"

definition writeDropped :: "bctx \<Rightarrow> ctxkey \<Rightarrow> bool" where
  "writeDropped c k \<longleftrightarrow> bc_blockRestrictedWrites c \<and> k \<in> set reservedKeys"

definition SetValue :: "ctxkey \<Rightarrow> ctxval \<Rightarrow> bctx \<Rightarrow> bctx" where
  "SetValue k v c = (if writeDropped c k then c else setReservedValue k v c)"

definition ClearValue :: "ctxkey \<Rightarrow> bctx \<Rightarrow> bctx" where
  "ClearValue k c = (if writeDropped c k then c else setReservedValue k VNil c)"

definition GetAndSetValue :: "ctxkey \<Rightarrow> ctxval \<Rightarrow> bctx \<Rightarrow> ctxval \<times> bctx" where
  "GetAndSetValue k v c =
     (let old = (case bc_userValues c k of Some x \<Rightarrow> x | None \<Rightarrow> VNil)
      in if writeDropped c k then (old, c) else (old, setReservedValue k v c))"

definition BlockRestrictedWrites :: "bctx \<Rightarrow> bctx" where
  "BlockRestrictedWrites c = c\<lparr>bc_blockRestrictedWrites := True\<rparr>"

definition UnblockRestrictedWrites :: "bctx \<Rightarrow> bctx" where
  "UnblockRestrictedWrites c = c\<lparr>bc_blockRestrictedWrites := False\<rparr>"

text \<open>Typed reads: \<^verbatim>\<open>v, ok := ctx.Value(k).(T)\<close>, None when the assertion fails.\<close>

definition ctxString :: "bctx \<Rightarrow> ctxkey \<Rightarrow> string option" where
  "ctxString c k = (case Value c k of VStr s \<Rightarrow> Some s | _ \<Rightarrow> None)"

definition ctxBool :: "bctx \<Rightarrow> ctxkey \<Rightarrow> bool option" where
  "ctxBool c k = (case Value c k of VBool b \<Rightarrow> Some b | _ \<Rightarrow> None)"

definition ctxInt :: "bctx \<Rightarrow> ctxkey \<Rightarrow> int option" where
  "ctxInt c k = (case Value c k of VInt i \<Rightarrow> Some i | _ \<Rightarrow> None)"

definition ctxDuration :: "bctx \<Rightarrow> ctxkey \<Rightarrow> int option" where
  "ctxDuration c k = (case Value c k of VDuration i \<Rightarrow> Some i | _ \<Rightarrow> None)"

definition ctxKey :: "bctx \<Rightarrow> ctxkey \<Rightarrow> key option" where
  "ctxKey c k = (case Value c k of VKey x \<Rightarrow> Some x | _ \<Rightarrow> None)"

definition ctxTrail :: "bctx \<Rightarrow> ctxkey \<Rightarrow> attempt_record list option" where
  "ctxTrail c k = (case Value c k of VTrail x \<Rightarrow> Some x | _ \<Rightarrow> None)"

text \<open>The helpers of \<^verbatim>\<open>core/utils.go\<close> that default to the zero value.\<close>

definition GetStringFromContext :: "bctx \<Rightarrow> ctxkey \<Rightarrow> string" where
  "GetStringFromContext c k = (case ctxString c k of Some s \<Rightarrow> s | None \<Rightarrow> [])"

definition GetIntFromContext :: "bctx \<Rightarrow> ctxkey \<Rightarrow> int" where
  "GetIntFromContext c k = (case ctxInt c k of Some i \<Rightarrow> i | None \<Rightarrow> 0)"

definition GetBoolFromContext :: "bctx \<Rightarrow> ctxkey \<Rightarrow> bool" where
  "GetBoolFromContext c k = (case ctxBool c k of Some b \<Rightarrow> b | None \<Rightarrow> False)"

text \<open>\<^verbatim>\<open>AppendToContextList\<close> at the three element types it is used with.\<close>

definition appendUnlessPresent :: "'a list \<Rightarrow> 'a \<Rightarrow> 'a list" where
  "appendUnlessPresent xs x = (if x \<in> set xs then xs else xs @ [x])"

definition AppendStringToContextList :: "ctxkey \<Rightarrow> string \<Rightarrow> bctx \<Rightarrow> bctx" where
  "AppendStringToContextList k x c =
     (let xs = (case Value c k of VStrs xs \<Rightarrow> xs | _ \<Rightarrow> [])
      in if x \<in> set xs then c else SetValue k (VStrs (xs @ [x])) c)"

definition AppendAttemptToContextList :: "ctxkey \<Rightarrow> attempt_record \<Rightarrow> bctx \<Rightarrow> bctx" where
  "AppendAttemptToContextList k x c =
     (let xs = (case Value c k of VTrail xs \<Rightarrow> xs | _ \<Rightarrow> [])
      in if x \<in> set xs then c else SetValue k (VTrail (xs @ [x])) c)"

definition AppendLogToContextList :: "ctxkey \<Rightarrow> routing_log \<Rightarrow> bctx \<Rightarrow> bctx" where
  "AppendLogToContextList k x c =
     (let xs = (case Value c k of VLogs xs \<Rightarrow> xs | _ \<Rightarrow> [])
      in if x \<in> set xs then c else SetValue k (VLogs (xs @ [x])) c)"

definition AppendRoutingEngineLog :: "int \<Rightarrow> string \<Rightarrow> log_level \<Rightarrow> string \<Rightarrow> bctx \<Rightarrow> bctx" where
  "AppendRoutingEngineLog nowMilli engine level msg c =
     AppendLogToContextList BifrostContextKeyRoutingEngineLogs
       \<lparr>rl_Engine = engine, rl_Level = level, rl_Message = msg, rl_Timestamp = nowMilli\<rparr> c"

definition GetRoutingEngineLogs :: "bctx \<Rightarrow> routing_log list" where
  "GetRoutingEngineLogs c =
     (case Value c BifrostContextKeyRoutingEngineLogs of VLogs xs \<Rightarrow> xs | _ \<Rightarrow> [])"

section \<open>Scoped contexts\<close>

text \<open>
  \<^verbatim>\<open>WithPluginScope\<close> makes a context that delegates to the one it was called on; scopes can
  nest. \<^verbatim>\<open>ReleasePluginScope\<close> only detaches the log store (\<open>False\<close>).
\<close>

datatype ctx_ref = RootRef | ScopedRef string bool ctx_ref

fun WithPluginScope :: "string \<Rightarrow> ctx_ref \<Rightarrow> ctx_ref" where
  "WithPluginScope name r = ScopedRef name True r"

fun ReleasePluginScope :: "ctx_ref \<Rightarrow> ctx_ref" where
  "ReleasePluginScope RootRef = RootRef"
| "ReleasePluginScope (ScopedRef name logs d) = ScopedRef name False d"

fun Root :: "ctx_ref \<Rightarrow> ctx_ref" where
  "Root RootRef = RootRef"
| "Root (ScopedRef name logs d) = Root d"

fun ValueVia :: "ctx_ref \<Rightarrow> bctx \<Rightarrow> ctxkey \<Rightarrow> ctxval" where
  "ValueVia RootRef c k = Value c k"
| "ValueVia (ScopedRef name logs d) c k = ValueVia d c k"

fun SetValueVia :: "ctx_ref \<Rightarrow> ctxkey \<Rightarrow> ctxval \<Rightarrow> bctx \<Rightarrow> bctx" where
  "SetValueVia RootRef k v c = SetValue k v c"
| "SetValueVia (ScopedRef name logs d) k v c = SetValueVia d k v c"

fun ClearValueVia :: "ctx_ref \<Rightarrow> ctxkey \<Rightarrow> bctx \<Rightarrow> bctx" where
  "ClearValueVia RootRef k c = ClearValue k c"
| "ClearValueVia (ScopedRef name logs d) k c = ClearValueVia d k c"

fun GetAndSetValueVia :: "ctx_ref \<Rightarrow> ctxkey \<Rightarrow> ctxval \<Rightarrow> bctx \<Rightarrow> ctxval \<times> bctx" where
  "GetAndSetValueVia RootRef k v c = GetAndSetValue k v c"
| "GetAndSetValueVia (ScopedRef name logs d) k v c = GetAndSetValueVia d k v c"

section \<open>Lemmas\<close>

lemma Value_setReserved [simp]:
  "Value (setReservedValue k v c) k' = (if k' = k then v else Value c k')"
  by (simp add: Value_def setReservedValue_def split: option.split)

lemma Value_New: "Value (NewBifrostContext parent) k = parent k"
  by (simp add: Value_def NewBifrostContext_def)

lemma block_New [simp]: "\<not> bc_blockRestrictedWrites (NewBifrostContext parent)"
  by (simp add: NewBifrostContext_def)

lemma block_setReserved [simp]:
  "bc_blockRestrictedWrites (setReservedValue k v c) = bc_blockRestrictedWrites c"
  by (simp add: setReservedValue_def)

lemma Value_SetValue:
  "Value (SetValue k v c) k' = (if k' = k \<and> \<not> writeDropped c k then v else Value c k')"
  by (simp add: SetValue_def)

lemma block_SetValue [simp]: "bc_blockRestrictedWrites (SetValue k v c) = bc_blockRestrictedWrites c"
  by (simp add: SetValue_def)

lemma block_ClearValue [simp]: "bc_blockRestrictedWrites (ClearValue k c) = bc_blockRestrictedWrites c"
  by (simp add: ClearValue_def)

lemma unblocked_write [simp]: "\<not> bc_blockRestrictedWrites c \<Longrightarrow> \<not> writeDropped c k"
  by (simp add: writeDropped_def)

lemma Value_SetValue_unblocked:
  "\<not> bc_blockRestrictedWrites c \<Longrightarrow> Value (SetValue k v c) k' = (if k' = k then v else Value c k')"
  by (simp add: Value_SetValue)

lemma Value_SetValue_other: "k' \<noteq> k \<Longrightarrow> Value (SetValue k v c) k' = Value c k'"
  by (simp add: Value_SetValue)

lemma Value_AppendStr_other: "k' \<noteq> k \<Longrightarrow> Value (AppendStringToContextList k x c) k' = Value c k'"
  by (simp add: AppendStringToContextList_def Let_def Value_SetValue)

lemma Value_AppendAttempt_other: "k' \<noteq> k \<Longrightarrow> Value (AppendAttemptToContextList k x c) k' = Value c k'"
  by (simp add: AppendAttemptToContextList_def Let_def Value_SetValue)

lemma Value_AppendLog_other:
  "k' \<noteq> BifrostContextKeyRoutingEngineLogs \<Longrightarrow> Value (AppendRoutingEngineLog t e l m c) k' = Value c k'"
  by (simp add: AppendRoutingEngineLog_def AppendLogToContextList_def Let_def Value_SetValue)

lemma block_Append [simp]:
  "bc_blockRestrictedWrites (AppendStringToContextList k x c) = bc_blockRestrictedWrites c"
  "bc_blockRestrictedWrites (AppendAttemptToContextList k r c) = bc_blockRestrictedWrites c"
  "bc_blockRestrictedWrites (AppendRoutingEngineLog t e l m c) = bc_blockRestrictedWrites c"
  by (simp_all add: AppendStringToContextList_def AppendAttemptToContextList_def
      AppendRoutingEngineLog_def AppendLogToContextList_def Let_def)

lemma via_root [simp]:
  "ValueVia r c k = Value c k" "SetValueVia r k v c = SetValue k v c"
  "ClearValueVia r k c = ClearValue k c" "GetAndSetValueVia r k v c = GetAndSetValue k v c"
  by (induction r) simp_all

section \<open>Plugins cannot write reserved keys\<close>

text \<open>What a plugin hook can do to a context, through any scope it was given or made.\<close>

datatype plugin_write = PSet ctx_ref ctxkey ctxval | PClear ctx_ref ctxkey | PSwap ctx_ref ctxkey ctxval

fun plugin_do :: "plugin_write \<Rightarrow> bctx \<Rightarrow> bctx" where
  "plugin_do (PSet r k v) c = SetValueVia r k v c"
| "plugin_do (PClear r k) c = ClearValueVia r k c"
| "plugin_do (PSwap r k v) c = snd (GetAndSetValueVia r k v c)"

lemma plugin_do_reserved:
  assumes "bc_blockRestrictedWrites c" "k \<in> set reservedKeys"
  shows "Value (plugin_do w c) k = Value c k \<and> bc_blockRestrictedWrites (plugin_do w c)"
  using assms
  by (cases w) (auto simp: SetValue_def ClearValue_def GetAndSetValue_def Let_def writeDropped_def)

text \<open>
  Reserved keys are out of reach of plugins: while restricted writes are blocked, no sequence
  of writes, clears and swaps through any scopes changes the value of a reserved key (selected
  key, pinned key, retry count, attempt trail, ...), and the block itself stays on.
\<close>

theorem plugins_cannot_write_reserved:
  assumes "bc_blockRestrictedWrites c" "k \<in> set reservedKeys"
  shows "Value (fold plugin_do ws c) k = Value c k \<and> bc_blockRestrictedWrites (fold plugin_do ws c)"
  using assms
proof (induction ws arbitrary: c)
  case Nil
  then show ?case by simp
next
  case (Cons w ws)
  from plugin_do_reserved [OF Cons.prems, of w] Cons.IH [of "plugin_do w c"] Cons.prems(2)
  show ?case by simp
qed

theorem plugins_cannot_write_reserved_witness:
  "Value (fold plugin_do [PSet (WithPluginScope ''p'' RootRef) BifrostContextKeySelectedKeyID (VStr ''evil''),
            PClear RootRef BifrostContextKeyAttemptTrail]
      (BlockRestrictedWrites (SetValue BifrostContextKeySelectedKeyID (VStr ''k1'') (NewBifrostContext (\<lambda>_. VNil)))))
    BifrostContextKeySelectedKeyID = VStr ''k1''"
proof -
  let ?c = "BlockRestrictedWrites (SetValue BifrostContextKeySelectedKeyID (VStr ''k1'') (NewBifrostContext (\<lambda>_. VNil)))"
  have "bc_blockRestrictedWrites ?c" "BifrostContextKeySelectedKeyID \<in> set reservedKeys"
    by (simp_all add: BlockRestrictedWrites_def reservedKeys_def)
  from plugins_cannot_write_reserved [OF this]
  have "Value (fold plugin_do ws ?c) BifrostContextKeySelectedKeyID = Value ?c BifrostContextKeySelectedKeyID" for ws
    by blast
  then show ?thesis
    by (simp only:) (simp add: BlockRestrictedWrites_def SetValue_def NewBifrostContext_def Value_def
        setReservedValue_def writeDropped_def)
qed

text \<open>
  Clearing hides the inherited value: after \<^verbatim>\<open>ClearValue\<close> outside a blocked phase the key
  reads as nil even when the parent context has a value for it, so values cleared for a fallback
  cannot come back from the caller's context.
\<close>

theorem clear_masks_parent:
  assumes "\<not> bc_blockRestrictedWrites c"
  shows "Value (ClearValue k c) k' = (if k' = k then VNil else Value c k')"
  using assms by (simp_all add: ClearValue_def)

theorem clear_masks_parent_witness:
  "Value (ClearValue BifrostContextKeyAPIKeyID (NewBifrostContext (\<lambda>_. VStr ''inherited''))) BifrostContextKeyAPIKeyID = VNil"
  using clear_masks_parent [of "NewBifrostContext (\<lambda>_. VStr ''inherited'')" BifrostContextKeyAPIKeyID
      BifrostContextKeyAPIKeyID]
  by (simp add: NewBifrostContext_def)

text \<open>
  A released plugin scope is not detached: a write through a scoped context after
  \<^verbatim>\<open>ReleasePluginScope\<close> lands on the root, where every reader sees it.
\<close>

theorem released_scope_still_writes:
  "\<not> writeDropped c k \<Longrightarrow>
   ValueVia (Root r) (SetValueVia (ReleasePluginScope (WithPluginScope name r)) k v c) k = v"
  by (simp add: SetValue_def)

theorem released_scope_still_writes_witness:
  "ValueVia (Root RootRef) (SetValueVia (ReleasePluginScope (WithPluginScope ''p'' RootRef))
     BifrostContextKeyStreamEndIndicator (VBool True) (NewBifrostContext (\<lambda>_. VNil)))
     BifrostContextKeyStreamEndIndicator = VBool True"
  by (rule released_scope_still_writes) (simp add: NewBifrostContext_def)

end
