(* ===== verification/Utils.thy ===== *)
theory Utils
  imports Context
begin

text \<open>
  The helpers of \<^verbatim>\<open>core/utils.go\<close> and \<^verbatim>\<open>core/network/utils.go\<close> that decide how a request is
  treated: request-type predicates, which providers need keys and what a key must carry,
  classification of error messages, the errors the core makes up itself, backoff, session keys,
  and the check of outgoing URLs. SHA-256, URL parsing, DNS and the random jitter are parameters.
\<close>

section \<open>Providers\<close>

abbreviation OpenAI :: string where "OpenAI \<equiv> ''openai''"
abbreviation Azure :: string where "Azure \<equiv> ''azure''"
abbreviation Anthropic :: string where "Anthropic \<equiv> ''anthropic''"
abbreviation Bedrock :: string where "Bedrock \<equiv> ''bedrock''"
abbreviation Cohere :: string where "Cohere \<equiv> ''cohere''"
abbreviation Vertex :: string where "Vertex \<equiv> ''vertex''"
abbreviation Mistral :: string where "Mistral \<equiv> ''mistral''"
abbreviation Ollama :: string where "Ollama \<equiv> ''ollama''"
abbreviation OpencodeGo :: string where "OpencodeGo \<equiv> ''opencode-go''"
abbreviation OpencodeZen :: string where "OpencodeZen \<equiv> ''opencode-zen''"
abbreviation Groq :: string where "Groq \<equiv> ''groq''"
abbreviation SGL :: string where "SGL \<equiv> ''sgl''"
abbreviation Parasail :: string where "Parasail \<equiv> ''parasail''"
abbreviation Perplexity :: string where "Perplexity \<equiv> ''perplexity''"
abbreviation Cerebras :: string where "Cerebras \<equiv> ''cerebras''"
abbreviation Gemini :: string where "Gemini \<equiv> ''gemini''"
abbreviation OpenRouter :: string where "OpenRouter \<equiv> ''openrouter''"
abbreviation Elevenlabs :: string where "Elevenlabs \<equiv> ''elevenlabs''"
abbreviation HuggingFace :: string where "HuggingFace \<equiv> ''huggingface''"
abbreviation Nebius :: string where "Nebius \<equiv> ''nebius''"
abbreviation XAI :: string where "XAI \<equiv> ''xai''"
abbreviation Replicate :: string where "Replicate \<equiv> ''replicate''"
abbreviation VLLM :: string where "VLLM \<equiv> ''vllm''"
abbreviation Runway :: string where "Runway \<equiv> ''runway''"
abbreviation Runware :: string where "Runware \<equiv> ''runware''"
abbreviation Fireworks :: string where "Fireworks \<equiv> ''fireworks''"

definition SupportedBaseProviders :: "string list" where
  "SupportedBaseProviders = [Anthropic, Bedrock, Cohere, Gemini, OpenAI, HuggingFace, Replicate]"

definition StandardProviders :: "string list" where
  "StandardProviders = [Anthropic, Azure, Bedrock, Cerebras, Cohere, Gemini, Groq, Mistral, Ollama,
     OpencodeGo, OpencodeZen, OpenAI, Parasail, Perplexity, SGL, Vertex, OpenRouter, Elevenlabs,
     HuggingFace, Nebius, XAI, Replicate, VLLM, Runway, Runware, Fireworks]"

definition IsSupportedBaseProvider :: "string \<Rightarrow> bool" where
  "IsSupportedBaseProvider p \<longleftrightarrow> p \<in> set SupportedBaseProviders"

definition IsStandardProvider :: "string \<Rightarrow> bool" where
  "IsStandardProvider p \<longleftrightarrow> p \<in> set StandardProviders"

record custom_provider_config =
  cpc_CustomProviderKey :: string
  cpc_IsKeyLess :: bool
  cpc_BaseProviderType :: string
  cpc_AllowedRequests :: "(request_type \<Rightarrow> bool) option"

definition providerRequiresKey :: "custom_provider_config option \<Rightarrow> bool" where
  "providerRequiresKey cc =
     (case cc of
        Some c \<Rightarrow> if cpc_IsKeyLess c \<and> cpc_BaseProviderType c \<noteq> Bedrock then False else True
      | None \<Rightarrow> True)"

definition CanProviderKeyValueBeEmpty :: "string \<Rightarrow> bool" where
  "CanProviderKeyValueBeEmpty p \<longleftrightarrow>
     p = Vertex \<or> p = Bedrock \<or> p = VLLM \<or> p = Azure \<or> p = Ollama \<or> p = SGL"

definition isKeySkippingAllowed :: "string \<Rightarrow> bool" where
  "isKeySkippingAllowed p \<longleftrightarrow> p \<noteq> Azure \<and> p \<noteq> Bedrock \<and> p \<noteq> Vertex"

section \<open>Request types\<close>

definition isModelRequired :: "request_type \<Rightarrow> bool" where
  "isModelRequired t \<longleftrightarrow> t \<in> set
     [TextCompletionRequest, TextCompletionStreamRequest, ChatCompletionRequest,
      ChatCompletionStreamRequest, ResponsesRequest, ResponsesStreamRequest, SpeechRequest,
      SpeechStreamRequest, TranscriptionRequest, TranscriptionStreamRequest, EmbeddingRequest,
      ImageGenerationRequest, ImageGenerationStreamRequest, VideoGenerationRequest]"

definition IsStreamRequestType :: "request_type \<Rightarrow> bool" where
  "IsStreamRequestType t \<longleftrightarrow> t \<in> set
     [TextCompletionStreamRequest, ChatCompletionStreamRequest, ResponsesStreamRequest,
      SpeechStreamRequest, TranscriptionStreamRequest, ImageGenerationStreamRequest,
      ImageEditStreamRequest, PassthroughStreamRequest]"

definition isBatchRequestType :: "request_type \<Rightarrow> bool" where
  "isBatchRequestType t \<longleftrightarrow> t \<in> set
     [BatchCreateRequest, BatchListRequest, BatchRetrieveRequest, BatchCancelRequest,
      BatchDeleteRequest, BatchResultsRequest]"

definition isFileRequestType :: "request_type \<Rightarrow> bool" where
  "isFileRequestType t \<longleftrightarrow> t \<in> set
     [FileUploadRequest, FileListRequest, FileRetrieveRequest, FileDeleteRequest, FileContentRequest]"

definition isCachedContentRequestType :: "request_type \<Rightarrow> bool" where
  "isCachedContentRequestType t \<longleftrightarrow> t \<in> set
     [CachedContentCreateRequest, CachedContentListRequest, CachedContentRetrieveRequest,
      CachedContentUpdateRequest, CachedContentDeleteRequest]"

definition isContainerRequestType :: "request_type \<Rightarrow> bool" where
  "isContainerRequestType t \<longleftrightarrow> t \<in> set
     [ContainerCreateRequest, ContainerListRequest, ContainerRetrieveRequest, ContainerDeleteRequest,
      ContainerFileCreateRequest, ContainerFileListRequest, ContainerFileRetrieveRequest,
      ContainerFileContentRequest, ContainerFileDeleteRequest]"

definition isModellessVideoRequestType :: "request_type \<Rightarrow> bool" where
  "isModellessVideoRequestType t \<longleftrightarrow> t \<in> set
     [VideoRetrieveRequest, VideoDownloadRequest, VideoListRequest, VideoDeleteRequest, VideoRemixRequest]"

definition isPassthroughRequestType :: "request_type \<Rightarrow> bool" where
  "isPassthroughRequestType t \<longleftrightarrow> t = PassthroughRequest \<or> t = PassthroughStreamRequest"

text \<open>
  \<^verbatim>\<open>AllowedRequests\<close> has one flag per operation; here the flags are a function of the request
  type the flag is named after. The switch lists the operations that have a flag.
\<close>

definition allowedRequestCases :: "request_type list" where
  "allowedRequestCases =
     [ListModelsRequest, TextCompletionRequest, TextCompletionStreamRequest, ChatCompletionRequest,
      ChatCompletionStreamRequest, ResponsesRequest, ResponsesStreamRequest, CountTokensRequest,
      CompactionRequest, EmbeddingRequest, RerankRequest, OCRRequest, SpeechRequest,
      SpeechStreamRequest, TranscriptionRequest, TranscriptionStreamRequest, ImageGenerationRequest,
      ImageGenerationStreamRequest, ImageEditRequest, ImageEditStreamRequest, VideoGenerationRequest,
      VideoRetrieveRequest, VideoDownloadRequest, VideoDeleteRequest, VideoListRequest,
      VideoRemixRequest, BatchCreateRequest, BatchListRequest, BatchRetrieveRequest,
      BatchCancelRequest, BatchDeleteRequest, BatchResultsRequest, FileUploadRequest,
      FileListRequest, FileRetrieveRequest, FileDeleteRequest, FileContentRequest,
      ContainerCreateRequest, ContainerListRequest, ContainerRetrieveRequest, ContainerDeleteRequest,
      ContainerFileCreateRequest, ContainerFileListRequest, ContainerFileRetrieveRequest,
      ContainerFileContentRequest, ContainerFileDeleteRequest, PassthroughRequest,
      PassthroughStreamRequest, CachedContentCreateRequest, CachedContentListRequest,
      CachedContentRetrieveRequest, CachedContentUpdateRequest, CachedContentDeleteRequest]"

definition ar_IsOperationAllowed :: "(request_type \<Rightarrow> bool) option \<Rightarrow> request_type \<Rightarrow> bool" where
  "ar_IsOperationAllowed ar t =
     (case ar of None \<Rightarrow> True | Some f \<Rightarrow> if t \<in> set allowedRequestCases then f t else False)"

definition cpc_IsOperationAllowed :: "custom_provider_config option \<Rightarrow> request_type \<Rightarrow> bool" where
  "cpc_IsOperationAllowed cc t =
     (case cc of
        None \<Rightarrow> True
      | Some c \<Rightarrow> if cpc_AllowedRequests c = None then True
                  else ar_IsOperationAllowed (cpc_AllowedRequests c) t)"

section \<open>Classification of errors\<close>

definition transientServerStatusCodes :: "int list" where
  "transientServerStatusCodes = [500, 502, 503, 504]"

definition perKeyFailureStatusCodes :: "int list" where
  "perKeyFailureStatusCodes = [401, 402, 403, 429]"

definition rateLimitPatterns :: "string list" where
  "rateLimitPatterns =
     [''rate limit'', ''rate_limit'', ''ratelimit'', ''too many requests'', ''quota exceeded'',
      ''quota_exceeded'', ''request limit'', ''throttled'', ''throttling'', ''rate exceeded'',
      ''concurrency limit exceeded for account'', ''limit exceeded'', ''requests per'',
      ''rpm exceeded'', ''tpm exceeded'', ''tokens per minute'', ''requests per minute'',
      ''requests per second'', ''api rate limit'', ''usage limit'', ''concurrent requests limit'',
      ''account_concurrency'', ''too many pending requests'', ''burst_rate'', ''rate increased'']"

definition providerCapacityLimitPatterns :: "string list" where
  "providerCapacityLimitPatterns =
     [''concurrency limit exceeded for account'', ''account_concurrency'',
      ''too many pending requests'', ''upstream rate limit exceeded'']"

fun containsAny :: "string \<Rightarrow> string list \<Rightarrow> bool" where
  "containsAny s [] = False"
| "containsAny s (p # ps) = (if strContains s p then True else containsAny s ps)"

definition IsRateLimitErrorMessage :: "string \<Rightarrow> bool" where
  "IsRateLimitErrorMessage m = (if m = [] then False else containsAny (toLower m) rateLimitPatterns)"

definition isProviderCapacityLimitError :: "string \<Rightarrow> bool" where
  "isProviderCapacityLimitError m =
     (if m = [] then False else containsAny (toLower m) providerCapacityLimitPatterns)"

definition shouldFallbackBeforeProviderRetry ::
  "bifrost_error option \<Rightarrow> 'p bifrost_request option \<Rightarrow> bool" where
  "shouldFallbackBeforeProviderRetry err req =
     (case (err, req) of
        (Some e, Some r) \<Rightarrow>
          (case be_Error e of
             None \<Rightarrow> False
           | Some f \<Rightarrow>
              (case GetRequestFields r of (_, _, fallbacks) \<Rightarrow>
                 if fallbacks = [] then False
                 else isProviderCapacityLimitError (ef_Message f)
                   \<or> (case ef_Type f of None \<Rightarrow> False | Some t \<Rightarrow> isProviderCapacityLimitError t)
                   \<or> (case ef_Code f of None \<Rightarrow> False | Some c \<Rightarrow> isProviderCapacityLimitError c)))
      | _ \<Rightarrow> False)"

definition routingErrorSummary :: "bifrost_error option \<Rightarrow> string" where
  "routingErrorSummary err =
     (case err of
        None \<Rightarrow> ''unknown error''
      | Some e \<Rightarrow>
         (let errType = (case be_Error e of None \<Rightarrow> None | Some f \<Rightarrow> ef_Type f);
              typePart = (case errType of
                 Some (c # cs) \<Rightarrow> [c # cs]
               | _ \<Rightarrow> (case be_Type e of Some (c # cs) \<Rightarrow> [c # cs] | _ \<Rightarrow> []));
              statusPart = (case be_StatusCode e of Some c \<Rightarrow> [''HTTP '' @ itoa c] | None \<Rightarrow> []);
              parts = typePart @ statusPart
          in if parts = [] then ''request failed'' else joinWith '' '' parts))"

section \<open>Errors the core makes\<close>

definition ProviderAutoResolveErrorMessage :: string where
  "ProviderAutoResolveErrorMessage =
     ''could not auto resolve a provider for the request, please specify a provider explicitly''"

definition ModelAutoResolveErrorMessage :: string where
  "ModelAutoResolveErrorMessage =
     ''could not auto resolve a model for the request, please specify a model explicitly''"

definition newBifrostError :: "string \<Rightarrow> bifrost_error" where
  "newBifrostError err =
     \<lparr>be_Type = None, be_IsBifrostError = False, be_StatusCode = None,
      be_Error = Some \<lparr>ef_Type = None, ef_Code = None, ef_Message = err, ef_Error = Some err\<rparr>,
      be_AllowFallbacks = None, be_ExtraFields = zeroExtraFields\<rparr>"

definition newBifrostErrorFromMsg :: "string \<Rightarrow> bifrost_error" where
  "newBifrostErrorFromMsg msg =
     \<lparr>be_Type = None, be_IsBifrostError = False, be_StatusCode = None,
      be_Error = Some \<lparr>ef_Type = None, ef_Code = None, ef_Message = msg, ef_Error = None\<rparr>,
      be_AllowFallbacks = None, be_ExtraFields = zeroExtraFields\<rparr>"

text \<open>\<^verbatim>\<open>ctx.Err()\<close> of a finished context: the deadline passed, or it was cancelled.\<close>

datatype ctx_done = DeadlineExceeded | Canceled

fun ctxErrString :: "ctx_done \<Rightarrow> string" where
  "ctxErrString DeadlineExceeded = ''context deadline exceeded''"
| "ctxErrString Canceled = ''context canceled''"

definition newBifrostCtxDoneError :: "ctx_done \<Rightarrow> string \<Rightarrow> bifrost_error" where
  "newBifrostCtxDoneError d stage =
     (let (statusCode, errorType, message) =
        (case d of
           DeadlineExceeded \<Rightarrow>
             (504, RequestTimedOut, ''request timed out '' @ stage @ '': '' @ ctxErrString d)
         | Canceled \<Rightarrow>
             (499, RequestCancelled, ''request cancelled '' @ stage @ '': '' @ ctxErrString d))
      in \<lparr>be_Type = None, be_IsBifrostError = True, be_StatusCode = Some statusCode,
          be_Error = Some \<lparr>ef_Type = Some errorType, ef_Code = None, ef_Message = message,
                           ef_Error = Some (ctxErrString d)\<rparr>,
          be_AllowFallbacks = Some False, be_ExtraFields = zeroExtraFields\<rparr>)"

definition validateRequestAfterPreRequestHooks ::
  "bctx option \<Rightarrow> 'p bifrost_request option \<Rightarrow> bifrost_error option" where
  "validateRequestAfterPreRequestHooks ctx req =
     (case req of
        None \<Rightarrow> Some (newBifrostErrorFromMsg ''bifrost request cannot be nil'')
      | Some r \<Rightarrow>
         (case (case ctx of None \<Rightarrow> VNil
                | Some c \<Rightarrow> Value c BifrostContextKeyPreRequestShortCircuitError) of
            VErr e \<Rightarrow> Some e
          | _ \<Rightarrow>
             (case GetRequestFields r of (provider, model, _) \<Rightarrow>
                if provider = [] then Some (newBifrostErrorFromMsg ProviderAutoResolveErrorMessage)
                else if isModelRequired (br_RequestType r) \<and> model = []
                then Some (newBifrostErrorFromMsg ModelAutoResolveErrorMessage)
                else None)))"

section \<open>Keys\<close>

text \<open>An error message, or the key as the check leaves it: for Bedrock a missing configuration is
  filled in.\<close>

definition validateKey :: "string \<Rightarrow> key \<Rightarrow> string + key" where
  "validateKey p k =
     (if p = Azure then
        (case k_AzureEndpoint k of
           None \<Rightarrow> Inl ''azure_key_config is required''
         | Some e \<Rightarrow> if e = [] then Inl ''azure_key_config.endpoint is required'' else Inr k)
      else if p = Bedrock then
        Inr (if \<not> k_BedrockKeyConfig k then k\<lparr>k_BedrockKeyConfig := True\<rparr> else k)
      else if p = Vertex then
        (if \<not> k_VertexKeyConfig k then Inl ''vertex_key_config is required'' else Inr k)
      else if p = VLLM then
        (case k_VLLMKeyConfig k of
           None \<Rightarrow> Inl ''vllm_key_config is required''
         | Some v \<Rightarrow> if vllm_URL v = [] then Inl ''vllm_key_config.url is required'' else Inr k)
      else if p = Ollama then
        (case k_OllamaURL k of
           None \<Rightarrow> Inl ''ollama_key_config is required''
         | Some u \<Rightarrow> if u = [] then Inl ''ollama_key_config.url is required'' else Inr k)
      else if p = SGL then
        (case k_SGLURL k of
           None \<Rightarrow> Inl ''sgl_key_config is required''
         | Some u \<Rightarrow> if u = [] then Inl ''sgl_key_config.url is required'' else Inr k)
      else Inr k)"

definition RedactSensitiveString :: "string \<Rightarrow> string" where
  "RedactSensitiveString s =
     (if s = [] then []
      else if length s \<le> 8 then ''[REDACTED]''
      else take 4 s @ ''[REDACTED]'' @ drop (length s - 4) s)"

definition buildSessionKey :: "(string \<Rightarrow> string) \<Rightarrow> string \<Rightarrow> string \<Rightarrow> string \<Rightarrow> string" where
  "buildSessionKey hashSHA256 provider sessionID model =
     (let hashedSessionID = hashSHA256 sessionID;
          discriminator = (if model = [] then ''__modelless__'' else model)
      in ''session:'' @ provider @ '':'' @ hashedSessionID @ '':'' @ hashSHA256 discriminator)"

section \<open>Backoff\<close>

text \<open>
  \<^verbatim>\<open>time.Duration(1<<uint(attempt))\<close> is a 64-bit shift: zero from 64 on, negative at 63. The
  product wraps. \<open>jitter\<close> is \<^verbatim>\<open>time.Duration(float64(backoff) * (0.8 + 0.4*rand.Float64()))\<close>.
\<close>

definition calculateBackoff :: "(int \<Rightarrow> int) \<Rightarrow> nat \<Rightarrow> nanos \<Rightarrow> nanos \<Rightarrow> nanos" where
  "calculateBackoff jitter attempt initial maxi =
     (let backoff = min (wrap64 (initial * wrap64 (2 ^ attempt))) maxi;
          result = jitter backoff
      in min result maxi)"

section \<open>Reading the context\<close>

definition clearCtxForFallback :: "bctx \<Rightarrow> bctx" where
  "clearCtxForFallback c = fold ClearValue
     [BifrostContextKeyAPIKeyID, BifrostContextKeyAPIKeyName,
      BifrostContextKeyGovernanceIncludeOnlyKeys, BifrostContextKeyChangeRequestType,
      BifrostContextKeyAttemptTrail, BifrostContextKeyStreamEndIndicator,
      BifrostContextKeySupportsAssistantPrefill] c"

definition IsFinalChunk :: "bctx option \<Rightarrow> bool" where
  "IsFinalChunk ctx =
     (case ctx of
        None \<Rightarrow> False
      | Some c \<Rightarrow> (case Value c BifrostContextKeyStreamEndIndicator of
                    VNil \<Rightarrow> False | VBool f \<Rightarrow> f | _ \<Rightarrow> False))"

definition isPromptOptionalImageEditType :: "string option \<Rightarrow> bool" where
  "isPromptOptionalImageEditType t =
     (case t of
        None \<Rightarrow> False
      | Some s \<Rightarrow> replaceByte (CHR ''-'') ''_'' (toLower (trimSpace s)) \<in> set
          [''background_removal'', ''remove_background'', ''remove_bg'', ''erase_object'', ''upscale_fast''])"

section \<open>Outgoing URLs\<close>

text \<open>
  A \<^verbatim>\<open>net.IP\<close> as its bytes, 4 or 16 of them. \<^verbatim>\<open>To4\<close> also unwraps an IPv4-mapped IPv6 address.
\<close>

type_synonym ip = "nat list"

definition To4 :: "ip \<Rightarrow> ip option" where
  "To4 a = (if length a = 4 then Some a
            else if length a = 16 \<and> take 10 a = replicate 10 0 \<and> a ! 10 = 255 \<and> a ! 11 = 255
            then Some (drop 12 a) else None)"

definition IsUnspecified :: "ip \<Rightarrow> bool" where
  "IsUnspecified a = (case To4 a of Some b \<Rightarrow> b = [0, 0, 0, 0] | None \<Rightarrow> a = replicate 16 0)"

definition IsLoopback :: "ip \<Rightarrow> bool" where
  "IsLoopback a = (case To4 a of Some b \<Rightarrow> b ! 0 = 127 | None \<Rightarrow> a = replicate 15 0 @ [1])"

definition IsLinkLocalUnicast :: "ip \<Rightarrow> bool" where
  "IsLinkLocalUnicast a =
     (case To4 a of Some b \<Rightarrow> b ! 0 = 169 \<and> b ! 1 = 254
      | None \<Rightarrow> length a = 16 \<and> a ! 0 = 254 \<and> a ! 1 div 64 = 2)"

text \<open>\<^verbatim>\<open>IPNet.Contains\<close> for an IPv4 network: first address and prefix length.\<close>

definition ipv4Bits :: "ip \<Rightarrow> nat" where
  "ipv4Bits b = ((b ! 0 * 256 + b ! 1) * 256 + b ! 2) * 256 + b ! 3"

definition subnetContains :: "ip \<Rightarrow> nat \<Rightarrow> ip \<Rightarrow> bool" where
  "subnetContains net n a =
     (case To4 a of
        None \<Rightarrow> False
      | Some b \<Rightarrow> ipv4Bits b div 2 ^ (32 - n) = ipv4Bits net div 2 ^ (32 - n))"

definition privateSubnets :: "(ip \<times> nat) list" where
  "privateSubnets = [([10, 0, 0, 0], 8), ([172, 16, 0, 0], 12), ([192, 168, 0, 0], 16),
     ([169, 254, 0, 0], 16), ([127, 0, 0, 0], 8)]"

definition IsLocalhost :: "string \<Rightarrow> bool" where
  "IsLocalhost h \<longleftrightarrow> h = ''localhost'' \<or> h = ''127.0.0.1'' \<or> h = ''::1'' \<or> h = ''0.0.0.0'' \<or> h = ''::''"

definition IsLinkLocal :: "ip \<Rightarrow> bool" where
  "IsLinkLocal a = (if To4 a \<noteq> None then subnetContains [169, 254, 0, 0] 16 a else IsLinkLocalUnicast a)"

definition IsPrivateIP :: "ip option \<Rightarrow> bool" where
  "IsPrivateIP ipo =
     (case ipo of
        None \<Rightarrow> True
      | Some a \<Rightarrow>
         if IsUnspecified a then True
         else if list_ex (\<lambda>(net, n). subnetContains net n a) privateSubnets then True
         else if To4 a = None then
           (if IsLoopback a \<or> IsLinkLocalUnicast a then True
            else if length a = 16 \<and> a ! 0 div 2 = 126 then True else False)
         else False)"

record parsed_url =
  u_Scheme :: string
  u_Hostname :: string

fun checkIPs :: "bool \<Rightarrow> ip list \<Rightarrow> string option" where
  "checkIPs allowPrivate [] = None"
| "checkIPs allowPrivate (a # as) =
     (if IsLoopback a then checkIPs allowPrivate as
      else if IsUnspecified a then Some ''unspecified IP addresses are not allowed''
      else if IsLinkLocal a then Some ''link-local IP addresses are not allowed''
      else if \<not> allowPrivate \<and> IsPrivateIP (Some a) then Some ''private IP addresses are not allowed''
      else checkIPs allowPrivate as)"

definition ValidateExternalURL ::
  "(string \<Rightarrow> string + parsed_url) \<Rightarrow> (string \<Rightarrow> string + ip list) \<Rightarrow> string \<Rightarrow> bool \<Rightarrow> string option" where
  "ValidateExternalURL urlParse lookupIP urlStr allowPrivate =
     (if urlStr = [] then Some ''URL cannot be empty''
      else case urlParse urlStr of
        Inl err \<Rightarrow> Some (''invalid URL format: '' @ err)
      | Inr u \<Rightarrow>
         if u_Scheme u \<noteq> ''https'' \<and> u_Scheme u \<noteq> ''http''
         then Some (''only https and http schemes are allowed, got: '' @ u_Scheme u)
         else if u_Hostname u = [] then Some ''URL must have a hostname''
         else (case lookupIP (u_Hostname u) of
                 Inl err \<Rightarrow> Some (''failed to resolve hostname: '' @ err)
               | Inr ips \<Rightarrow> checkIPs allowPrivate ips))"

section \<open>Lemmas\<close>

lemma containsAny_iff: "containsAny s ps \<longleftrightarrow> (\<exists>p\<in>set ps. strContains s p)"
  by (induction ps) auto

lemma ar_flag: "ar_IsOperationAllowed (Some f) t = (t \<noteq> UnknownRequest \<and> f t)"
  by (cases t) (simp_all add: ar_IsOperationAllowed_def allowedRequestCases_def)

lemma fold_ClearValue_Value:
  "\<not> bc_blockRestrictedWrites c \<Longrightarrow>
   Value (fold ClearValue ks c) k = (if k \<in> set ks then VNil else Value c k)"
  by (induction ks arbitrary: c) (auto simp: ClearValue_def)

lemma clearCtxForFallback_Value:
  assumes "\<not> bc_blockRestrictedWrites c"
  shows "Value (clearCtxForFallback c) k =
    (if k \<in> {BifrostContextKeyAPIKeyID, BifrostContextKeyAPIKeyName,
        BifrostContextKeyGovernanceIncludeOnlyKeys, BifrostContextKeyChangeRequestType,
        BifrostContextKeyAttemptTrail, BifrostContextKeyStreamEndIndicator,
        BifrostContextKeySupportsAssistantPrefill} then VNil else Value c k)"
  unfolding clearCtxForFallback_def by (simp only: fold_ClearValue_Value [OF assms]) simp

lemma block_clearCtxForFallback [simp]:
  "bc_blockRestrictedWrites (clearCtxForFallback c) = bc_blockRestrictedWrites c"
  by (simp add: clearCtxForFallback_def)

lemma checkIPs_None:
  "checkIPs allow as = None \<longleftrightarrow>
     (\<forall>a\<in>set as. IsLoopback a \<or> (\<not> IsUnspecified a \<and> \<not> IsLinkLocal a \<and> (allow \<or> \<not> IsPrivateIP (Some a))))"
  by (induction as) auto

lemma ValidateExternalURL_None:
  assumes "ValidateExternalURL urlParse lookupIP urlStr allow = None"
  obtains u ips where "urlParse urlStr = Inr u" "u_Scheme u = ''https'' \<or> u_Scheme u = ''http''"
    "lookupIP (u_Hostname u) = Inr ips" "checkIPs allow ips = None"
  using assms by (auto simp: ValidateExternalURL_def split: if_splits sum.splits)

lemma subnet_shift:
  "subnetContains net n [a, b, c, d] \<longleftrightarrow> ipv4Bits [a, b, c, d] div 2 ^ (32 - n) = ipv4Bits net div 2 ^ (32 - n)"
  by (simp add: subnetContains_def To4_def)

lemma ipv4_octets:
  assumes "b < 256" "c < 256" "d < 256"
  shows "ipv4Bits [a, b, c, d] div 2 ^ 24 = a" "ipv4Bits [a, b, c, d] div 2 ^ 16 = a * 256 + b"
    "ipv4Bits [a, b, c, d] div 2 ^ 20 = a * 16 + b div 16"
proof -
  have drop: "(y * 256 + z) div 256 = y" if "z < 256" for y z :: nat using that by simp
  have chain: "x div 2 ^ 24 = x div 256 div 256 div 256" "x div 2 ^ 16 = x div 256 div 256"
    "x div 2 ^ 20 = x div 256 div 256 div 16" for x :: nat
    by (simp_all flip: div_mult2_eq)
  have v: "ipv4Bits [a, b, c, d] = ((a * 256 + b) * 256 + c) * 256 + d"
    by (simp add: ipv4Bits_def)
  have lo: "ipv4Bits [a, b, c, d] div 256 div 256 = a * 256 + b"
    unfolding v by (simp only: drop [OF assms(3)] drop [OF assms(2)])
  show "ipv4Bits [a, b, c, d] div 2 ^ 24 = a"
    by (simp only: chain lo drop [OF assms(1)])
  show "ipv4Bits [a, b, c, d] div 2 ^ 16 = a * 256 + b"
    by (simp only: chain lo)
  have "(a * 256 + b) div 16 = a * 16 + b div 16" by presburger
  then show "ipv4Bits [a, b, c, d] div 2 ^ 20 = a * 16 + b div 16"
    by (simp only: chain lo)
qed

lemma To4_idem: "To4 a = Some b \<Longrightarrow> To4 b = Some b"
  by (auto simp: To4_def split: if_splits)

lemma subnetContains_To4: "To4 a = Some b \<Longrightarrow> subnetContains net n a = subnetContains net n b"
  by (simp add: subnetContains_def To4_idem)

section \<open>Properties\<close>

text \<open>
  C6. What a URL that passed the check can reach: every IPv4 address the host resolves to, also
  when it is written as an IPv4-mapped IPv6 address, is a loopback address or lies outside
  0.0.0.0 and the link-local range 169.254/16 that holds the cloud metadata service, and
  unless private networks were allowed, outside 10/8, 172.16/12 and 192.168/16.
\<close>

theorem validated_url_targets:
  assumes ok: "ValidateExternalURL urlParse lookupIP urlStr allow = None"
    and ips: "urlParse urlStr = Inr u" "lookupIP (u_Hostname u) = Inr ips" "i \<in> set ips"
    and v4: "To4 i = Some [a, b, c, d]" "b < 256" "c < 256" "d < 256"
  shows "a = 127 \<or>
    (\<not> (a = 169 \<and> b = 254) \<and> [a, b, c, d] \<noteq> [0, 0, 0, 0]
     \<and> (allow \<or> (a \<noteq> 10 \<and> \<not> (a = 172 \<and> 16 \<le> b \<and> b \<le> 31) \<and> \<not> (a = 192 \<and> b = 168))))"
proof -
  note sub = subnetContains_To4 [OF v4(1)] subnet_shift
  have "checkIPs allow ips = None"
    by (rule ValidateExternalURL_None [OF ok]) (use ips in auto)
  with ips(3) have i: "IsLoopback i \<or> (\<not> IsUnspecified i \<and> \<not> IsLinkLocal i \<and> (allow \<or> \<not> IsPrivateIP (Some i)))"
    by (auto simp: checkIPs_None)
  note oct = ipv4_octets [OF v4(2-4), of a]
  have ll: "IsLinkLocal i \<longleftrightarrow> a * 256 + b = 43518"
    using v4(1) oct(2) by (simp add: IsLinkLocal_def sub ipv4Bits_def [of "[169, 254, 0, 0]"])
  have priv: "IsPrivateIP (Some i)" if "a = 10 \<or> (a = 172 \<and> 16 \<le> b \<and> b \<le> 31) \<or> (a = 192 \<and> b = 168)"
  proof -
    have "subnetContains [10, 0, 0, 0] 8 i \<longleftrightarrow> a = 10"
      using oct(1) by (simp add: sub ipv4Bits_def [of "[10, 0, 0, 0]"])
    moreover have "subnetContains [192, 168, 0, 0] 16 i \<longleftrightarrow> a * 256 + b = 49320"
      using oct(2) by (simp add: sub ipv4Bits_def [of "[192, 168, 0, 0]"])
    moreover have "subnetContains [172, 16, 0, 0] 12 i \<longleftrightarrow> a * 16 + b div 16 = 2753"
      using oct(3) by (simp add: sub ipv4Bits_def [of "[172, 16, 0, 0]"])
    moreover have "b div 16 = 1" if "16 \<le> b" "b \<le> 31" using that by presburger
    ultimately have "list_ex (\<lambda>(net, n). subnetContains net n i) privateSubnets"
      using that by (fastforce simp: privateSubnets_def)
    then show ?thesis by (simp add: IsPrivateIP_def)
  qed
  have lb: "IsLoopback i \<longleftrightarrow> a = 127" and un: "IsUnspecified i \<longleftrightarrow> [a, b, c, d] = [0, 0, 0, 0]"
    by (simp_all add: IsLoopback_def IsUnspecified_def v4(1))
  have "\<not> (a = 169 \<and> b = 254)" if "\<not> IsLinkLocal i" using that ll by auto
  with i priv show ?thesis unfolding lb un by blast
qed

theorem validated_url_targets_witness:
  "ValidateExternalURL (\<lambda>_. Inr \<lparr>u_Scheme = ''https'', u_Hostname = ''h''\<rparr>) (\<lambda>_. Inr [[93, 184, 216, 34]]) ''https://h'' False = None
   \<and> \<not> ((93::nat) = 169 \<and> (184::nat) = 254)"
proof -
  let ?p = "\<lambda>_ :: string. Inr \<lparr>u_Scheme = ''https'', u_Hostname = ''h''\<rparr> :: string + parsed_url"
  let ?l = "\<lambda>_ :: string. Inr [[93, 184, 216, 34]] :: string + ip list"
  have "ValidateExternalURL ?p ?l ''https://h'' False = None"
    by (simp add: ValidateExternalURL_def IsLoopback_def IsUnspecified_def IsLinkLocal_def
        IsPrivateIP_def privateSubnets_def subnetContains_def To4_def ipv4Bits_def)
  with validated_url_targets [OF this, of "\<lparr>u_Scheme = ''https'', u_Hostname = ''h''\<rparr>" _ "[93, 184, 216, 34]" 93 184 216 34]
  show ?thesis by (simp add: To4_def)
qed

text \<open>
  The backoff of a retry stays in its band: as long as the exponential does not overflow 64
  bits, the wait is at least 80 per cent of the capped exponential and never more than the
  configured maximum, whatever the random jitter was.
\<close>

theorem backoff_in_band:
  assumes "0 < initial" "initial * 2 ^ attempt < 2 ^ 63" "0 \<le> maxi"
    and jitter: "\<And>b. 0 \<le> b \<Longrightarrow> 4 * b \<le> 5 * jitter b + 5"
  shows "calculateBackoff jitter attempt initial maxi \<le> maxi
    \<and> 4 * min (initial * 2 ^ attempt) maxi \<le> 5 * calculateBackoff jitter attempt initial maxi + 5"
proof -
  have "(2::int) ^ attempt \<le> initial * 2 ^ attempt" using assms(1) by (simp add: mult_le_cancel_right1)
  with assms(2) have p: "(2::int) ^ attempt < 2 ^ 63" by linarith
  have w: "wrap64 (2 ^ attempt) = 2 ^ attempt"
    by (rule wrap64_id [OF _ p]) (rule order_trans [of _ 0], simp_all)
  have w': "wrap64 (initial * 2 ^ attempt) = initial * 2 ^ attempt"
    by (rule wrap64_id [OF _ assms(2)]) (use assms(1) in \<open>auto intro: order_trans [of _ 0]\<close>)
  have nn: "0 \<le> min (initial * 2 ^ attempt) maxi" using assms(1,3) by simp
  show ?thesis
    using jitter [OF nn] assms(3) unfolding calculateBackoff_def Let_def w w' by (auto simp: min_def)
qed

theorem backoff_in_band_witness:
  "calculateBackoff (\<lambda>b. b) 3 500 5000 \<le> 5000 \<and> 4 * 4000 \<le> 5 * calculateBackoff (\<lambda>b. b) 3 500 5000 + 5"
  using backoff_in_band [of 500 3 5000 "\<lambda>b. b"] by simp

text \<open>
  The exponential overflows: once \<^verbatim>\<open>initial * 2^attempt\<close> passes \<^term>\<open>2 ^ 63\<close> (attempt 35 with
  the default of half a second) the product is negative, the cap at the maximum does not catch
  it, and the retry is sent with no wait at all.
\<close>

theorem backoff_overflow:
  assumes "0 < initial" "2 ^ 63 \<le> initial * 2 ^ attempt" "initial * 2 ^ attempt < 2 ^ 64" "attempt < 63"
    and "0 \<le> maxi" and jitter: "\<And>b. b < 0 \<Longrightarrow> jitter b \<le> 0"
  shows "calculateBackoff jitter attempt initial maxi \<le> 0"
proof -
  have w: "wrap64 (2 ^ attempt) = 2 ^ attempt"
  proof (rule wrap64_id)
    show "(2::int) ^ attempt < 2 ^ 63" using assms(4) by (intro power_strict_increasing) auto
    have "(0::int) \<le> 2 ^ attempt" by simp
    then show "- (2 ^ 63) \<le> (2::int) ^ attempt" by (rule order_trans [rotated]) simp
  qed
  define x where "x = initial * 2 ^ attempt"
  have "(x + 2 ^ 63) mod 2 ^ 64 = (x + 2 ^ 63 - 2 ^ 64) mod 2 ^ 64"
    by (metis mod_diff_right_eq mod_self diff_zero)
  also have "\<dots> = x + 2 ^ 63 - 2 ^ 64"
    using assms(2,3) by (intro mod_pos_pos_trivial) (simp_all add: x_def)
  finally have "wrap64 x = x - 2 ^ 64" by (simp add: wrap64_def)
  with assms(3) have "wrap64 x < 0" by (simp add: x_def)
  with assms(5) have "min (wrap64 x) maxi < 0" by simp
  from jitter [OF this] show ?thesis
    unfolding calculateBackoff_def Let_def w x_def by (simp add: min_le_iff_disj)
qed

theorem backoff_overflow_witness: "calculateBackoff (\<lambda>b. b) 35 500000000 5000000000 \<le> 0"
  by (rule backoff_overflow) simp_all

text \<open>
  Session keys do not collide: two requests share a stickiness entry only when provider,
  session and model agree (a missing model counts as the name \<open>__modelless__\<close>), as long as
  SHA-256 does not collide on the strings involved.
\<close>

theorem session_keys_distinct:
  assumes len: "\<And>s. length (h s) = 64"
    and eq: "buildSessionKey h p sid m = buildSessionKey h p' sid' m'"
    and nocol: "inj_on h {sid, sid', m, m', ''__modelless__''}"
  shows "p = p' \<and> sid = sid' \<and>
    (if m = [] then ''__modelless__'' else m) = (if m' = [] then ''__modelless__'' else m')"
proof -
  define d d' where "d = (if m = [] then ''__modelless__'' else m)"
    and "d' = (if m' = [] then ''__modelless__'' else m')"
  have split: "x = x' \<and> h s = h s'" if "x @ h s = x' @ h s'" for x x' s s'
    using that by (simp add: append_eq_append_conv len)
  have "(p @ '':'' @ h sid @ '':'') @ h d = (p' @ '':'' @ h sid' @ '':'') @ h d'"
    using eq by (simp add: buildSessionKey_def Let_def d_def d'_def)
  from split [OF this] have left: "((p @ '':'') @ h sid) @ '':'' = ((p' @ '':'') @ h sid') @ '':''"
    and hd: "h d = h d'" by simp_all
  from left have "(p @ '':'') @ h sid = (p' @ '':'') @ h sid'" by (simp only: append_same_eq)
  from split [OF this] have "p = p'" "h sid = h sid'" by simp_all
  moreover have "sid = sid'" by (rule inj_onD [OF nocol \<open>h sid = h sid'\<close>]) simp_all
  moreover have "d = d'" by (rule inj_onD [OF nocol hd]) (simp_all add: d_def d'_def)
  ultimately show ?thesis by (simp add: d_def d'_def)
qed

theorem session_keys_distinct_witness:
  fixes h :: "string \<Rightarrow> string"
  defines "h \<equiv> \<lambda>s. (if s = ''a'' then CHR ''0'' else if s = ''b'' then CHR ''1''
    else if s = [] then CHR ''2'' else CHR ''3'') # replicate 63 (CHR ''0'')"
  shows "buildSessionKey h ''openai'' ''a'' [] \<noteq> buildSessionKey h ''openai'' ''a'' ''b''"
proof
  assume e: "buildSessionKey h ''openai'' ''a'' [] = buildSessionKey h ''openai'' ''a'' ''b''"
  have len: "length (h s) = 64" for s by (simp add: h_def)
  have "distinct (map h [''a'', [], ''b'', ''__modelless__''])" unfolding h_def by code_simp
  then have "inj_on h {''a'', ''a'', [], ''b'', ''__modelless__''}" unfolding distinct_map by simp
  from session_keys_distinct [OF len e this] show False by simp
qed

text \<open>
  The routing log does not leak the provider's message: the summary of an error depends only
  on its types and its status code, so two errors that differ in message, wrapped error, code or
  extra fields have the same summary.
\<close>

theorem summary_hides_message:
  assumes "map_option ef_Type (be_Error e) = map_option ef_Type (be_Error e')"
    and "be_Type e = be_Type e'" "be_StatusCode e = be_StatusCode e'"
  shows "routingErrorSummary (Some e) = routingErrorSummary (Some e')"
proof -
  have "(case be_Error e of None \<Rightarrow> None | Some f \<Rightarrow> ef_Type f)
      = (case be_Error e' of None \<Rightarrow> None | Some f \<Rightarrow> ef_Type f)"
    using assms(1) by (cases "be_Error e"; cases "be_Error e'") auto
  then show ?thesis unfolding routingErrorSummary_def option.case assms(2,3) by (simp only:)
qed

theorem summary_hides_message_witness:
  "routingErrorSummary (Some (newBifrostErrorFromMsg ''bad key sk-123'')) = routingErrorSummary (Some (newBifrostErrorFromMsg ''ok''))"
  by (rule summary_hides_message) (simp_all add: newBifrostErrorFromMsg_def)

text \<open>
  Every operation has its own permission: with a list of allowed requests each known
  operation is allowed exactly when its flag is set and unknown operations never are; without a
  list, and without a custom configuration, everything is allowed.
\<close>

theorem operation_allowed:
  "cpc_IsOperationAllowed cc t =
     (case cc of None \<Rightarrow> True
      | Some c \<Rightarrow> (case cpc_AllowedRequests c of None \<Rightarrow> True | Some f \<Rightarrow> t \<noteq> UnknownRequest \<and> f t))"
  by (simp add: cpc_IsOperationAllowed_def ar_flag split: option.split)

end
