(* ===== verification/KeyPool.thy ===== *)
theory KeyPool
  imports Utils KVStore
begin

text \<open>
  Which keys a request may use and in which order they are tried: the weighted random selector
  (\<^verbatim>\<open>core/keyselectors/weightedrandom.go\<close>), the key pools of \<^verbatim>\<open>core/bifrost.go\<close>
  (\<^verbatim>\<open>filterKeysByID\<close>, \<^verbatim>\<open>getAllSupportedKeys\<close>, \<^verbatim>\<open>getKeysForBatchAndFileOps\<close>,
  \<^verbatim>\<open>selectKeyFromProviderForModelWithPool\<close> with session stickiness) and the \<^verbatim>\<open>keyProvider\<close>
  closures that the worker hands to the retry loop. The account, the configured selector, the
  pool filter, JSON decoding and SHA-256 are parameters; a Go panic is \<open>None\<close>.
\<close>

section \<open>Weighted random selection\<close>

definition totalWeight :: "key list \<Rightarrow> int" where
  "totalWeight keys = fold (\<lambda>k t. t + k_Weight100 k) keys 0"

fun pickByWeight :: "int \<Rightarrow> int \<Rightarrow> key list \<Rightarrow> key option" where
  "pickByWeight r current [] = None"
| "pickByWeight r current (k # ks) =
     (let current' = current + k_Weight100 k
      in if r < current' then Some k else pickByWeight r current' ks)"

text \<open>\<open>intn n\<close> is the draw \<^verbatim>\<open>rand.Intn(n)\<close>, which panics unless \<open>n\<close> is positive.\<close>

definition WeightedRandom :: "(int \<Rightarrow> int) \<Rightarrow> key list \<Rightarrow> key option" where
  "WeightedRandom intn keys =
     (let total = totalWeight keys
      in if total = 0 then
           (if keys = [] then None else Some (keys ! nat (intn (int (length keys)))))
         else if total < 0 then None
         else (case pickByWeight (intn total) 0 keys of
                 Some k \<Rightarrow> Some k
               | None \<Rightarrow> (case keys of [] \<Rightarrow> None | k # _ \<Rightarrow> Some k)))"

section \<open>Pools\<close>

definition filterKeysByID :: "key list \<Rightarrow> string \<Rightarrow> key list" where
  "filterKeysByID keys target = filter (\<lambda>k. k_ID k = target) keys"

datatype pool_error =
    ErrAccount string
  | ErrNoKeys string
  | ErrNoKeysForModel string string
  | ErrNoValidKeys string
  | ErrNoBatchKeys string string
  | ErrNoBatchConfig string
  | ErrNoSupportedModel string
  | ErrNoKeyWithID string string string
  | ErrNoKeyWithName string string string
  | ErrSelector string

fun poolErrorString :: "pool_error \<Rightarrow> string" where
  "poolErrorString (ErrAccount e) = e"
| "poolErrorString (ErrNoKeys p) = ''no keys found for provider: '' @ p"
| "poolErrorString (ErrNoKeysForModel p m) = ''no keys found for provider: '' @ p @ '' and model: '' @ m"
| "poolErrorString (ErrNoValidKeys p) = ''no valid keys found for provider: '' @ p"
| "poolErrorString (ErrNoBatchKeys p m) =
     ''no batch-enabled keys found for provider: '' @ p @ '' and model: '' @ m"
| "poolErrorString (ErrNoBatchConfig p) =
     ''no config found for batch apis; enable 'Use for Batch APIs' on at least one key for provider: '' @ p"
| "poolErrorString (ErrNoSupportedModel m) = ''no keys found that support model: '' @ m"
| "poolErrorString (ErrNoKeyWithID i p m) =
     ''no supported key found with id \"'' @ i @ ''\" for provider: '' @ p @ '' and model: '' @ m"
| "poolErrorString (ErrNoKeyWithName n p m) =
     ''no supported key found with name \"'' @ n @ ''\" for provider: '' @ p @ '' and model: '' @ m"
| "poolErrorString (ErrSelector e) = e"

definition keyDisabled :: "key \<Rightarrow> bool" where
  "keyDisabled k = (case k_Enabled k of Some b \<Rightarrow> \<not> b | None \<Rightarrow> False)"

definition keyForBatch :: "key \<Rightarrow> bool" where
  "keyForBatch k = (case k_UseForBatchAPI k of Some b \<Rightarrow> b | None \<Rightarrow> False)"

definition keyHasValue :: "string \<Rightarrow> key \<Rightarrow> bool" where
  "keyHasValue baseProvider k \<longleftrightarrow> trimSpace (k_Value k) \<noteq> [] \<or> CanProviderKeyValueBeEmpty baseProvider"

text \<open>The loop over the keys that needs only an enabled, valid key with a value.\<close>

fun validKeys :: "string \<Rightarrow> key list \<Rightarrow> key list" where
  "validKeys bp [] = []"
| "validKeys bp (k # ks) =
     (if keyDisabled k then validKeys bp ks
      else case validateKey bp k of
        Inl e \<Rightarrow> validKeys bp ks
      | Inr k' \<Rightarrow> if keyHasValue bp k' then k' # validKeys bp ks else validKeys bp ks)"

definition getAllSupportedKeys ::
  "(string \<Rightarrow> string + key list) \<Rightarrow> bctx \<Rightarrow> string \<Rightarrow> string \<Rightarrow> pool_error + key list" where
  "getAllSupportedKeys account ctx p bp =
     (case ctxKey ctx BifrostContextKeyDirectKey of
        Some k \<Rightarrow> Inr [k]
      | None \<Rightarrow>
         (case account p of
            Inl e \<Rightarrow> Inl (ErrAccount e)
          | Inr keys \<Rightarrow>
             if keys = [] then Inl (ErrNoKeys p)
             else (let supported = validKeys bp keys
                   in if supported = [] then Inl (ErrNoValidKeys p) else Inr supported)))"

fun batchFilterKeys :: "string \<Rightarrow> string option \<Rightarrow> bool \<Rightarrow> key list \<Rightarrow> key list" where
  "batchFilterKeys bp model isBatch [] = []"
| "batchFilterKeys bp model isBatch (k # ks) =
     (if keyDisabled k then batchFilterKeys bp model isBatch ks
      else if isBatch \<and> \<not> keyForBatch k then batchFilterKeys bp model isBatch ks
      else case validateKey bp k of
        Inl e \<Rightarrow> batchFilterKeys bp model isBatch ks
      | Inr k' \<Rightarrow>
          (if (case model of Some m \<Rightarrow> m \<noteq> [] \<and> (bl_IsBlocked (k_BlacklistedModels k') m \<or> \<not> wl_IsAllowed (k_Models k') m)
                           | None \<Rightarrow> False)
           then batchFilterKeys bp model isBatch ks
           else if keyHasValue bp k' then k' # batchFilterKeys bp model isBatch ks
           else batchFilterKeys bp model isBatch ks))"

definition getKeysForBatchAndFileOps ::
  "(string \<Rightarrow> string + key list) \<Rightarrow> bctx \<Rightarrow> string \<Rightarrow> string \<Rightarrow> string option \<Rightarrow> bool
   \<Rightarrow> pool_error + key list" where
  "getKeysForBatchAndFileOps account ctx p bp model isBatch =
     (case ctxKey ctx BifrostContextKeyDirectKey of
        Some k \<Rightarrow> Inr [k]
      | None \<Rightarrow>
         (case account p of
            Inl e \<Rightarrow> Inl (ErrAccount e)
          | Inr keys \<Rightarrow>
             if keys = [] then Inl (ErrNoKeys p)
             else (let filtered = batchFilterKeys bp model isBatch keys
                   in if filtered = []
                      then (let modelStr = (case model of Some m \<Rightarrow> m | None \<Rightarrow> [])
                            in if isBatch then Inl (ErrNoBatchKeys p modelStr)
                               else Inl (ErrNoKeysForModel p modelStr))
                      else Inr (sortSlice (\<lambda>a b. k_ID a < k_ID b) filtered))))"

section \<open>The pool of a single-key request\<close>

definition skipModelCheck :: "request_type \<Rightarrow> string \<Rightarrow> bool" where
  "skipModelCheck t model \<longleftrightarrow>
     (model = [] \<and> (isFileRequestType t \<or> isBatchRequestType t \<or> isContainerRequestType t
        \<or> isCachedContentRequestType t \<or> isModellessVideoRequestType t \<or> isPassthroughRequestType t))
     \<or> t = ListModelsRequest"

definition modelSupported :: "string \<Rightarrow> string \<Rightarrow> key \<Rightarrow> bool" where
  "modelSupported bp model k =
     (let ok = keyHasValue bp k \<and> wl_IsAllowed (k_Models k) model \<and> \<not> bl_IsBlocked (k_BlacklistedModels k) model
      in if bp = VLLM
         then (case k_VLLMKeyConfig k of
                 Some v \<Rightarrow> if vllm_ModelName v \<noteq> [] then ok \<and> vllm_ModelName v = model else ok
               | None \<Rightarrow> ok)
         else ok)"

fun modelKeys :: "string \<Rightarrow> string \<Rightarrow> key list \<Rightarrow> key list" where
  "modelKeys bp model [] = []"
| "modelKeys bp model (k # ks) =
     (if keyDisabled k then modelKeys bp model ks
      else case validateKey bp k of
        Inl e \<Rightarrow> modelKeys bp model ks
      | Inr k' \<Rightarrow> if modelSupported bp model k' then k' # modelKeys bp model ks
                  else modelKeys bp model ks)"

definition supportedKeysFor ::
  "request_type \<Rightarrow> string \<Rightarrow> string \<Rightarrow> string \<Rightarrow> key list \<Rightarrow> pool_error + key list" where
  "supportedKeysFor t p model bp keys0 =
     (if keys0 = [] then Inl (ErrNoKeysForModel p model)
      else (let batch = isBatchRequestType t \<or> isFileRequestType t;
                keys = (if batch then filter keyForBatch keys0 else keys0)
            in if batch \<and> keys = [] then Inl (ErrNoBatchConfig p)
               else (let supported = (if skipModelCheck t model then validKeys bp keys
                                      else modelKeys bp model keys)
                     in if supported = [] then Inl (ErrNoSupportedModel model) else Inr supported)))"

text \<open>The explicit key a caller asked for: by ID, else by name. None when none is asked for.\<close>

definition pinnedKey :: "bctx \<Rightarrow> string \<Rightarrow> string \<Rightarrow> key list \<Rightarrow> (pool_error + key) option" where
  "pinnedKey ctx p model supported =
     (let keyID = (case ctxString ctx BifrostContextKeyAPIKeyID of Some s \<Rightarrow> trimSpace s | None \<Rightarrow> []);
          keyName = (case ctxString ctx BifrostContextKeyAPIKeyName of Some s \<Rightarrow> trimSpace s | None \<Rightarrow> [])
      in if keyID \<noteq> [] then
           Some (case find (\<lambda>k. k_ID k = keyID) supported of
                   Some k \<Rightarrow> Inr k | None \<Rightarrow> Inl (ErrNoKeyWithID keyID p model))
         else if keyName \<noteq> [] then
           Some (case find (\<lambda>k. k_Name k = keyName) supported of
                   Some k \<Rightarrow> Inr k | None \<Rightarrow> Inl (ErrNoKeyWithName keyName p model))
         else None)"

section \<open>Session stickiness\<close>

text \<open>
  The key-value store as the core sees it (\<^verbatim>\<open>schemas.KVStore\<close>): four operations on an abstract
  state. Each call gets the reading of the clock it makes.
\<close>

record ('s, 'a) kv_ops =
  op_Get :: "'s \<Rightarrow> string \<Rightarrow> nanos \<Rightarrow> nanos \<Rightarrow> (kv_error + 'a anyval) \<times> 's"
  op_SetWithTTL :: "'s \<Rightarrow> string \<Rightarrow> 'a anyval \<Rightarrow> nanos \<Rightarrow> nanos \<Rightarrow> kv_error option \<times> 's"
  op_SetNXWithTTL :: "'s \<Rightarrow> string \<Rightarrow> 'a anyval \<Rightarrow> nanos \<Rightarrow> nanos \<Rightarrow> (kv_error + bool) \<times> 's"
  op_Delete :: "'s \<Rightarrow> string \<Rightarrow> nanos \<Rightarrow> (kv_error + bool) \<times> 's"

definition DefaultSessionStickyTTL :: nanos where
  "DefaultSessionStickyTTL = 3600 * 1000000000"

definition cachedKeyID :: "(bytes \<Rightarrow> string option) \<Rightarrow> 'a anyval \<Rightarrow> string" where
  "cachedKeyID unmarshal raw =
     (case raw of
        AnyString v \<Rightarrow> v
      | AnyBytes v \<Rightarrow> (case unmarshal v of Some s \<Rightarrow> s | None \<Rightarrow> v)
      | AnyOther _ \<Rightarrow> [])"

text \<open>The key, and whether the entry is stale.\<close>

definition lookupCached ::
  "(bytes \<Rightarrow> string option) \<Rightarrow> key list \<Rightarrow> kv_error + 'a anyval \<Rightarrow> key option \<times> bool" where
  "lookupCached unmarshal supported r =
     (case r of
        Inl _ \<Rightarrow> (None, False)
      | Inr raw \<Rightarrow>
         (let i = cachedKeyID unmarshal raw
          in if i \<noteq> [] then
               (case find (\<lambda>k. k_ID k = i) supported of
                  Some k \<Rightarrow> (Some k, False) | None \<Rightarrow> (None, True))
             else (None, False)))"

definition getCachedKeyFromStore ::
  "('s, 'a) kv_ops \<Rightarrow> (bytes \<Rightarrow> string option) \<Rightarrow> 's \<Rightarrow> string \<Rightarrow> key list \<Rightarrow> nanos
   \<Rightarrow> (key option \<times> bool) \<times> 's" where
  "getCachedKeyFromStore ops unmarshal s kvKey supported t =
     (case op_Get ops s kvKey t t of (r, s') \<Rightarrow> (lookupCached unmarshal supported r, s'))"

text \<open>First phase: reuse and refresh the persisted key, or delete a stale entry.\<close>

definition stickyLookup ::
  "('s, 'a) kv_ops \<Rightarrow> (bytes \<Rightarrow> string option) \<Rightarrow> 's \<Rightarrow> string \<Rightarrow> nanos \<Rightarrow> key list \<Rightarrow> nanos
   \<Rightarrow> key option \<times> 's" where
  "stickyLookup ops unmarshal s kvKey ttl supported t =
     (case getCachedKeyFromStore ops unmarshal s kvKey supported t of
        ((Some k, _), s') \<Rightarrow> (Some k, snd (op_SetWithTTL ops s' kvKey (AnyString (k_ID k)) ttl t))
      | ((None, stale), s') \<Rightarrow> (None, if stale then snd (op_Delete ops s' kvKey t) else s'))"

text \<open>Second phase: persist the selected key unless somebody else did. The result is the final
  key, or None when another request won the race.\<close>

definition stickyClaim ::
  "('s, 'a) kv_ops \<Rightarrow> 's \<Rightarrow> string \<Rightarrow> nanos \<Rightarrow> key \<Rightarrow> nanos \<Rightarrow> key option \<times> 's" where
  "stickyClaim ops s kvKey ttl selected t =
     (case op_SetNXWithTTL ops s kvKey (AnyString (k_ID selected)) ttl t of
        (Inl _, s') \<Rightarrow> (Some selected, s')
      | (Inr wasSet, s') \<Rightarrow> if wasSet then (Some selected, s') else (None, s'))"

text \<open>Third phase: read what the winner persisted.\<close>

definition stickyReread ::
  "('s, 'a) kv_ops \<Rightarrow> (bytes \<Rightarrow> string option) \<Rightarrow> 's \<Rightarrow> string \<Rightarrow> key list \<Rightarrow> key \<Rightarrow> nanos \<Rightarrow> key \<times> 's" where
  "stickyReread ops unmarshal s kvKey supported selected t =
     (case getCachedKeyFromStore ops unmarshal s kvKey supported t of
        ((Some k, _), s') \<Rightarrow> (k, s')
      | ((None, stale), s') \<Rightarrow> (selected, if stale then snd (op_Delete ops s' kvKey t) else s'))"

text \<open>
  The three phases of one request. \<open>others1\<close> and \<open>others2\<close> are what other requests do to the store
  between them.
\<close>

definition stickySelect ::
  "('s, 'a) kv_ops \<Rightarrow> (bytes \<Rightarrow> string option) \<Rightarrow> (key list \<Rightarrow> string + key) \<Rightarrow> ('s \<Rightarrow> 's) \<Rightarrow> ('s \<Rightarrow> 's)
   \<Rightarrow> 's \<Rightarrow> string \<Rightarrow> nanos \<Rightarrow> key list \<Rightarrow> nanos \<Rightarrow> nanos \<Rightarrow> nanos \<Rightarrow> (pool_error + key) \<times> 's" where
  "stickySelect ops unmarshal selector others1 others2 s kvKey ttl supported t1 t2 t3 =
     (case stickyLookup ops unmarshal s kvKey ttl supported t1 of
        (Some k, s1) \<Rightarrow> (Inr k, s1)
      | (None, s1) \<Rightarrow>
         (case selector supported of
            Inl e \<Rightarrow> (Inl (ErrSelector e), s1)
          | Inr selected \<Rightarrow>
             (case stickyClaim ops (others1 s1) kvKey ttl selected t2 of
                (Some k, s2) \<Rightarrow> (Inr k, s2)
              | (None, s2) \<Rightarrow>
                 (case stickyReread ops unmarshal (others2 s2) kvKey supported selected t3 of
                    (k, s3) \<Rightarrow> (Inr k, s3)))))"

record ('s, 'a) pool_env =
  pe_account :: "string \<Rightarrow> string + key list"
  pe_selector :: "key list \<Rightarrow> string \<Rightarrow> string \<Rightarrow> string + key"
  pe_kvStore :: "('s, 'a) kv_ops option"
  pe_unmarshal :: "bytes \<Rightarrow> string option"
  pe_hash :: "string \<Rightarrow> string"
  pe_others1 :: "'s \<Rightarrow> 's"
  pe_others2 :: "'s \<Rightarrow> 's"
  pe_clock :: "nat \<Rightarrow> nanos"

definition sessionTTL :: "bctx \<Rightarrow> nanos" where
  "sessionTTL ctx =
     (let ttl = (case ctxDuration ctx BifrostContextKeySessionTTL of Some d \<Rightarrow> d | None \<Rightarrow> 0)
      in if ttl \<le> 0 then DefaultSessionStickyTTL else ttl)"

text \<open>What follows once the supported keys are known.\<close>

definition selectFromSupported ::
  "('s, 'a) pool_env \<Rightarrow> bctx \<Rightarrow> string \<Rightarrow> string \<Rightarrow> key list \<Rightarrow> 's
   \<Rightarrow> (pool_error + key list \<times> bool) \<times> 's" where
  "selectFromSupported env ctx p model supported s =
     (case pinnedKey ctx p model supported of
        Some (Inl e) \<Rightarrow> (Inl e, s)
      | Some (Inr k) \<Rightarrow> (Inr ([k], False), s)
      | None \<Rightarrow>
         if length supported = 1 then (Inr ([supported ! 0], False), s)
         else
           (let sessionID = (case ctxString ctx BifrostContextKeySessionID of Some i \<Rightarrow> i | None \<Rightarrow> []);
                fallbackIndex = (case ctxInt ctx BifrostContextKeyFallbackIndex of Some i \<Rightarrow> i | None \<Rightarrow> 0)
            in case pe_kvStore env of
                 Some ops \<Rightarrow>
                   if sessionID \<noteq> [] \<and> fallbackIndex = 0 then
                     (case stickySelect ops (pe_unmarshal env) (\<lambda>ks. pe_selector env ks p model)
                             (pe_others1 env) (pe_others2 env) s
                             (buildSessionKey (pe_hash env) p sessionID model) (sessionTTL ctx) supported
                             (pe_clock env 0) (pe_clock env 1) (pe_clock env 2) of
                        (Inl e, s') \<Rightarrow> (Inl e, s')
                      | (Inr k, s') \<Rightarrow> (Inr ([k], False), s'))
                   else (Inr (supported, True), s)
               | None \<Rightarrow> (Inr (supported, True), s)))"

definition selectKeyFromProviderForModelWithPool ::
  "('s, 'a) pool_env \<Rightarrow> bctx \<Rightarrow> request_type \<Rightarrow> string \<Rightarrow> string \<Rightarrow> string \<Rightarrow> 's
   \<Rightarrow> (pool_error + key list \<times> bool) \<times> 's" where
  "selectKeyFromProviderForModelWithPool env ctx t p model bp s =
     (case ctxKey ctx BifrostContextKeyDirectKey of
        Some k \<Rightarrow> (Inr ([k], False), s)
      | None \<Rightarrow>
         if (case ctxBool ctx BifrostContextKeySkipKeySelection of Some b \<Rightarrow> b | None \<Rightarrow> False)
            \<and> isKeySkippingAllowed p
         then (Inr ([], False), s)
         else
           (case pe_account env p of
              Inl e \<Rightarrow> (Inl (ErrAccount e), s)
            | Inr keys \<Rightarrow>
               (case supportedKeysFor t p model bp keys of
                  Inl e \<Rightarrow> (Inl e, s)
                | Inr supported \<Rightarrow> selectFromSupported env ctx p model supported s)))"

section \<open>Key providers\<close>

text \<open>
  Errors of a key provider: the two sentinels the retry loop recognises with \<^verbatim>\<open>errors.Is\<close>, and
  anything else. A provider gets the number of the attempt (it stands for the random draw and
  the state of the filter at that moment) and the two exclusion sets; it returns the set of used
  keys as it leaves it.
\<close>

datatype kp_error = KPAllDead string | KPAllFiltered string | KPOther string

fun kpErrorString :: "kp_error \<Rightarrow> string" where
  "kpErrorString (KPAllDead m) = m"
| "kpErrorString (KPAllFiltered m) = m"
| "kpErrorString (KPOther m) = m"

definition errAllKeysDead :: string where
  "errAllKeysDead = ''all configured keys returned permanent per-key errors (401/402/403)''"

definition errAllKeysFiltered :: string where
  "errAllKeysFiltered = ''all eligible keys are temporarily suppressed by the key pool filter''"

type_synonym key_provider = "nat \<Rightarrow> string set \<Rightarrow> string set \<Rightarrow> (kp_error + key) \<times> string set"

definition fixedKeyProvider :: "key \<Rightarrow> key_provider" where
  "fixedKeyProvider fixedKey n used dead =
     (if k_ID fixedKey \<in> dead then (Inl (KPAllDead errAllKeysDead), used) else (Inr fixedKey, used))"

text \<open>A failing filter is ignored with a warning.\<close>

definition applyKeyPoolFilter ::
  "(nat \<Rightarrow> key list \<Rightarrow> string + key list) option \<Rightarrow> nat \<Rightarrow> key list \<Rightarrow> key list" where
  "applyKeyPoolFilter flt n available =
     (case flt of
        None \<Rightarrow> available
      | Some f \<Rightarrow> (case f n available of Inl err \<Rightarrow> available | Inr filtered \<Rightarrow> filtered))"

definition rotatingKeyProvider ::
  "(nat \<Rightarrow> key list \<Rightarrow> string + key list) option \<Rightarrow> (nat \<Rightarrow> key list \<Rightarrow> kp_error + key) \<Rightarrow> string
   \<Rightarrow> key list \<Rightarrow> key_provider" where
  "rotatingKeyProvider flt selector provider pool n used dead =
     (let available = applyKeyPoolFilter flt n (filter (\<lambda>k. \<not> (k_ID k \<in> dead \<or> k_ID k \<in> used)) pool)
      in if available = [] then
           (let live = filter (\<lambda>k. k_ID k \<notin> dead) pool;
                liveCount = length live;
                available' = applyKeyPoolFilter flt n live
            in if available' = [] then
                 (if liveCount > 0
                  then (Inl (KPAllFiltered (errAllKeysFiltered @ '': provider '' @ provider)), used)
                  else (Inl (KPAllDead (errAllKeysDead @ '': provider '' @ provider)), used))
               else (selector n available', {}))
         else (selector n available, used))"

definition isMultiKeyOp :: "request_type \<Rightarrow> bool" where
  "isMultiKeyOp t \<longleftrightarrow>
     (isBatchRequestType t \<and> t \<noteq> BatchCreateRequest)
     \<or> (isFileRequestType t \<and> t \<noteq> FileUploadRequest)
     \<or> (isContainerRequestType t \<and> t \<noteq> ContainerCreateRequest \<and> t \<noteq> ContainerFileCreateRequest)
     \<or> (isCachedContentRequestType t \<and> t \<noteq> CachedContentCreateRequest)"

text \<open>
  What the worker hands to the retry loop: the keys of a multi-key operation and the provider.
  \<open>listKeyID\<close> is \<^verbatim>\<open>ListModelsRequest.KeyID\<close>. An error message ends the request.
\<close>

definition workerKeys ::
  "('s, 'a) pool_env \<Rightarrow> (nat \<Rightarrow> key list \<Rightarrow> string + key list) option \<Rightarrow> (nat \<Rightarrow> key list \<Rightarrow> kp_error + key)
   \<Rightarrow> custom_provider_config option \<Rightarrow> bctx \<Rightarrow> request_type \<Rightarrow> string option \<Rightarrow> string \<Rightarrow> string \<Rightarrow> string
   \<Rightarrow> 's \<Rightarrow> (string + key list \<times> key_provider option) \<times> 's" where
  "workerKeys env flt selector custom ctx t listKeyID p model bp s =
     (if \<not> providerRequiresKey custom then (Inr ([], None), s)
      else if t = ListModelsRequest then
        (case getAllSupportedKeys (pe_account env) ctx p bp of
           Inl e \<Rightarrow> (Inl (poolErrorString e), s)
         | Inr keys \<Rightarrow>
            (case listKeyID of
               None \<Rightarrow> (Inr (keys, None), s)
             | Some target \<Rightarrow>
                (let keys' = filterKeysByID keys target
                 in if keys' = []
                    then (Inl (''no key found with id \"'' @ target @ ''\" for provider '' @ p), s)
                    else (Inr (keys', None), s))))
      else if isMultiKeyOp t then
        (case getKeysForBatchAndFileOps (pe_account env) ctx p bp (if model \<noteq> [] then Some model else None)
                (isBatchRequestType t \<and> t \<noteq> BatchCreateRequest) of
           Inl e \<Rightarrow> (Inl (poolErrorString e), s)
         | Inr keys \<Rightarrow> (Inr (keys, None), s))
      else
        (case selectKeyFromProviderForModelWithPool env ctx t p model bp s of
           (Inl e, s') \<Rightarrow> (Inl (poolErrorString e), s')
         | (Inr (pool, canRotate), s') \<Rightarrow>
            (case pool of
               [] \<Rightarrow> (Inr ([], None), s')
             | fixedKey # _ \<Rightarrow>
                if \<not> canRotate then (Inr ([], Some (fixedKeyProvider fixedKey)), s')
                else (Inr ([], Some (rotatingKeyProvider flt selector p pool)), s'))))"

section \<open>Lemmas\<close>

lemma totalWeight_sum: "totalWeight keys = (\<Sum>k\<leftarrow>keys. k_Weight100 k)"
proof -
  have "fold (\<lambda>k t. t + k_Weight100 k) ks a = a + (\<Sum>k\<leftarrow>ks. k_Weight100 k)" for ks :: "key list" and a
    by (induction ks arbitrary: a) simp_all
  then show ?thesis by (simp add: totalWeight_def)
qed

lemma pickByWeight_in: "pickByWeight r c ks = Some k \<Longrightarrow> k \<in> set ks"
  by (induction r c ks rule: pickByWeight.induct) (auto simp: Let_def split: if_splits)

lemma pickByWeight_below:
  "\<forall>k\<in>set ks. 0 \<le> k_Weight100 k \<Longrightarrow> pickByWeight r c ks = Some k \<Longrightarrow> r < c + (\<Sum>x\<leftarrow>ks. k_Weight100 x)"
proof (induction r c ks rule: pickByWeight.induct)
  case (2 r current k' ks)
  have "0 \<le> (\<Sum>x\<leftarrow>ks. k_Weight100 x)"
    by (rule sum_list_nonneg) (use "2.prems"(1) in auto)
  with 2 show ?case by (auto simp: Let_def split: if_splits)
qed simp

lemma pickByWeight_draws:
  assumes "\<forall>k\<in>set ks. 0 \<le> k_Weight100 k" "distinct ks" "k \<in> set ks"
  shows "card {r. c \<le> r \<and> pickByWeight r c ks = Some k} = nat (k_Weight100 k)"
  using assms
proof (induction ks arbitrary: c)
  case (Cons x xs)
  let ?c = "c + k_Weight100 x"
  show ?case
  proof (cases "k = x")
    case True
    with Cons.prems(2) have "pickByWeight r ?c xs \<noteq> Some k" for r
      using pickByWeight_in by fastforce
    with True have "{r. c \<le> r \<and> pickByWeight r c (x # xs) = Some k} = {c..<?c}"
      by (auto simp: Let_def split: if_splits)
    then show ?thesis using True by simp
  next
    case False
    then have "{r. c \<le> r \<and> pickByWeight r c (x # xs) = Some k} = {r. ?c \<le> r \<and> pickByWeight r ?c xs = Some k}"
      using Cons.prems(1) by (auto simp: Let_def split: if_splits)
    then show ?thesis using Cons False by simp
  qed
qed simp

lemma validKeys_sound:
  "k \<in> set (validKeys bp keys) \<Longrightarrow>
   \<exists>k0\<in>set keys. \<not> keyDisabled k0 \<and> validateKey bp k0 = Inr k \<and> keyHasValue bp k"
  by (induction bp keys rule: validKeys.induct) (auto split: if_splits sum.splits)

lemma modelKeys_sound:
  "k \<in> set (modelKeys bp model keys) \<Longrightarrow>
   \<exists>k0\<in>set keys. \<not> keyDisabled k0 \<and> validateKey bp k0 = Inr k \<and> modelSupported bp model k"
  by (induction bp model keys rule: modelKeys.induct) (auto split: if_splits sum.splits)

lemma modelSupported_parts:
  "modelSupported bp model k \<Longrightarrow>
   keyHasValue bp k \<and> wl_IsAllowed (k_Models k) model \<and> \<not> bl_IsBlocked (k_BlacklistedModels k) model"
  by (auto simp: modelSupported_def Let_def split: if_splits option.splits)

definition eligible :: "request_type \<Rightarrow> string \<Rightarrow> string \<Rightarrow> key list \<Rightarrow> key \<Rightarrow> bool" where
  "eligible t model bp keys k \<longleftrightarrow>
     (\<exists>k0\<in>set keys. \<not> keyDisabled k0 \<and> validateKey bp k0 = Inr k \<and> keyHasValue bp k
        \<and> (isBatchRequestType t \<or> isFileRequestType t \<longrightarrow> keyForBatch k0)
        \<and> (\<not> skipModelCheck t model \<longrightarrow>
             wl_IsAllowed (k_Models k) model \<and> \<not> bl_IsBlocked (k_BlacklistedModels k) model))"

lemma supportedKeysFor_eligible:
  assumes "supportedKeysFor t p model bp keys = Inr supported" "k \<in> set supported"
  shows "eligible t model bp keys k"
proof -
  define keys' where "keys' = (if isBatchRequestType t \<or> isFileRequestType t then filter keyForBatch keys else keys)"
  have sup: "supported = (if skipModelCheck t model then validKeys bp keys' else modelKeys bp model keys')"
    using assms(1) by (auto simp: supportedKeysFor_def keys'_def Let_def split: if_splits)
  have "\<exists>k0\<in>set keys'. \<not> keyDisabled k0 \<and> validateKey bp k0 = Inr k \<and> keyHasValue bp k
      \<and> (\<not> skipModelCheck t model \<longrightarrow> wl_IsAllowed (k_Models k) model \<and> \<not> bl_IsBlocked (k_BlacklistedModels k) model)"
  proof (cases "skipModelCheck t model")
    case True
    with sup assms(2) validKeys_sound [of k bp keys'] show ?thesis by auto
  next
    case False
    with sup assms(2) modelKeys_sound [of k bp model keys'] modelSupported_parts [of bp model k]
    show ?thesis by auto
  qed
  then show ?thesis unfolding eligible_def keys'_def by (auto split: if_splits)
qed

lemma find_in: "find P xs = Some x \<Longrightarrow> x \<in> set xs \<and> P x"
  by (auto simp: find_Some_iff)

lemma lookupCached_in: "lookupCached un supported r = (Some k, b) \<Longrightarrow> k \<in> set supported"
  by (auto simp: lookupCached_def Let_def split: sum.splits if_splits option.splits dest: find_in)

lemma stickySelect_in:
  assumes "fst (stickySelect ops un selector o1 o2 s kvKey ttl supported t1 t2 t3) = Inr k"
    and sel: "\<And>k'. selector supported = Inr k' \<Longrightarrow> k' \<in> set supported"
  shows "k \<in> set supported"
  using assms(1)
  by (auto simp: stickySelect_def stickyLookup_def stickyClaim_def stickyReread_def
      getCachedKeyFromStore_def split: prod.splits option.splits sum.splits if_splits
      dest: lookupCached_in sel)

lemma pinnedKey_in: "pinnedKey ctx p model supported = Some (Inr k) \<Longrightarrow> k \<in> set supported"
  by (auto simp: pinnedKey_def Let_def split: if_splits option.splits dest: find_in)

lemma selectFromSupported_in:
  assumes "fst (selectFromSupported env ctx p model supported s) = Inr (pool, rot)" "k \<in> set pool"
    and "supported \<noteq> []"
    and sel: "\<And>k'. pe_selector env supported p model = Inr k' \<Longrightarrow> k' \<in> set supported"
  shows "k \<in> set supported"
proof -
  have sticky: "k \<in> set supported"
    if "stickySelect ops (pe_unmarshal env) (\<lambda>ks. pe_selector env ks p model) (pe_others1 env)
          (pe_others2 env) s kvKey ttl supported t1 t2 t3 = (Inr k, s')" for ops kvKey ttl t1 t2 t3 s'
    using stickySelect_in [where selector = "\<lambda>ks. pe_selector env ks p model"] that sel
    by (metis fst_conv)
  show ?thesis
    using assms(1-3) pinnedKey_in [of ctx p model supported k]
    by (auto simp: selectFromSupported_def Let_def length_Suc_conv
        split: option.splits sum.splits if_splits prod.splits dest: sticky)
qed

lemma selected_pool_eligible:
  assumes "fst (selectKeyFromProviderForModelWithPool env ctx t p model bp s) = Inr (pool, rot)"
    and "ctxKey ctx BifrostContextKeyDirectKey = None" "k \<in> set pool"
    and sel: "\<And>ks k'. pe_selector env ks p model = Inr k' \<Longrightarrow> k' \<in> set ks"
  shows "\<exists>keys. pe_account env p = Inr keys \<and> eligible t model bp keys k"
proof -
  from assms(1-3) obtain keys supported where a: "pe_account env p = Inr keys"
    and sup: "supportedKeysFor t p model bp keys = Inr supported"
    and pool: "fst (selectFromSupported env ctx p model supported s) = Inr (pool, rot)"
    by (auto simp: selectKeyFromProviderForModelWithPool_def split: if_splits sum.splits option.splits)
  have "supported \<noteq> []" using sup by (auto simp: supportedKeysFor_def Let_def split: if_splits)
  from selectFromSupported_in [OF pool assms(3) this sel] sup a show ?thesis
    by (auto dest: supportedKeysFor_eligible)
qed

lemma applyKeyPoolFilter_sub:
  assumes "\<And>f n ks ks'. flt = Some f \<Longrightarrow> f n ks = Inr ks' \<Longrightarrow> set ks' \<subseteq> set ks"
  shows "set (applyKeyPoolFilter flt n ks) \<subseteq> set ks"
  using assms by (auto simp: applyKeyPoolFilter_def split: option.splits sum.splits)

lemma rotating_from_pool:
  assumes "rotatingKeyProvider flt selector provider pool n used dead = (Inr k, used')"
    and sel: "\<And>n ks k. selector n ks = Inr k \<Longrightarrow> k \<in> set ks"
    and flt: "\<And>f n ks ks'. flt = Some f \<Longrightarrow> f n ks = Inr ks' \<Longrightarrow> set ks' \<subseteq> set ks"
  shows "k \<in> set pool"
proof -
  obtain P where "selector n (applyKeyPoolFilter flt n (filter P pool)) = Inr k"
    using assms(1) by (simp add: rotatingKeyProvider_def Let_def split: if_splits) blast+
  from sel [OF this] have "k \<in> set (applyKeyPoolFilter flt n (filter P pool))" .
  moreover have "set (applyKeyPoolFilter flt n (filter P pool)) \<subseteq> set (filter P pool)"
    by (rule applyKeyPoolFilter_sub) (rule flt)
  ultimately show ?thesis by auto
qed

section \<open>The contract of a key provider\<close>

text \<open>What the retry loop relies on: a key provider hands out no dead key.\<close>

definition respectsDead :: "key_provider \<Rightarrow> bool" where
  "respectsDead kp \<longleftrightarrow> (\<forall>n used dead k used'. kp n used dead = (Inr k, used') \<longrightarrow> k_ID k \<notin> dead)"

locale key_provider_contract =
  fixes kp :: key_provider
  assumes not_dead: "kp n used dead = (Inr k, used') \<Longrightarrow> k_ID k \<notin> dead"
begin

lemma respects: "respectsDead kp"
  unfolding respectsDead_def using not_dead by blast

end

text \<open>A selector and a filter that invent no key give a rotating provider that keeps it.\<close>

locale sound_selection =
  fixes flt :: "(nat \<Rightarrow> key list \<Rightarrow> string + key list) option"
    and selector :: "nat \<Rightarrow> key list \<Rightarrow> kp_error + key"
  assumes filtered: "set (applyKeyPoolFilter flt n ks) \<subseteq> set ks"
    and selected: "selector n ks = Inr k \<Longrightarrow> k \<in> set ks"
begin

lemma rotating_in_pool:
  assumes "rotatingKeyProvider flt selector p pool n used dead = (Inr k, used')"
  shows "k \<in> set pool \<and> k_ID k \<notin> dead"
proof -
  let ?fresh = "filter (\<lambda>k. \<not> (k_ID k \<in> dead \<or> k_ID k \<in> used)) pool"
  let ?live = "filter (\<lambda>k. k_ID k \<notin> dead) pool"
  have "k \<in> set (applyKeyPoolFilter flt n ?fresh) \<or> k \<in> set (applyKeyPoolFilter flt n ?live)"
    using assms selected [of n "applyKeyPoolFilter flt n ?fresh" k] selected [of n "applyKeyPoolFilter flt n ?live" k]
    unfolding rotatingKeyProvider_def Let_def by (auto split: if_splits)
  then show ?thesis using filtered [of n ?fresh] filtered [of n ?live] by fastforce
qed

end

sublocale sound_selection \<subseteq> rotating: key_provider_contract "rotatingKeyProvider flt selector p pool" for p pool
  by unfold_locales (use rotating_in_pool in blast)

interpretation fixedKP: key_provider_contract "fixedKeyProvider k" for k
  by unfold_locales (auto simp: fixedKeyProvider_def split: if_splits)

text \<open>The default selector as a key provider uses it: \<open>r n\<close> is the raw draw of attempt \<open>n\<close>, reduced
  to the range \<^verbatim>\<open>rand.Intn\<close> is asked for.\<close>

definition weightedKeySelector :: "(nat \<Rightarrow> int) \<Rightarrow> nat \<Rightarrow> key list \<Rightarrow> kp_error + key" where
  "weightedKeySelector r n ks =
     (case WeightedRandom (\<lambda>m. r n mod m) ks of Some k \<Rightarrow> Inr k | None \<Rightarrow> Inl (KPOther ''panic''))"

lemma WeightedRandom_in:
  assumes "WeightedRandom (\<lambda>m. x mod m) ks = Some k"
  shows "k \<in> set ks"
proof -
  have "nat (x mod int (length ks)) < length ks" if "ks \<noteq> []"
    using that by (simp add: nat_less_iff)
  then show ?thesis
    using assms by (auto simp: WeightedRandom_def Let_def split: if_splits option.splits list.splits
        dest: pickByWeight_in)
qed

interpretation weightedKP: sound_selection None "weightedKeySelector r" for r
  by unfold_locales
     (auto simp: applyKeyPoolFilter_def weightedKeySelector_def split: option.splits dest: WeightedRandom_in)

section \<open>Stickiness over the key-value interface\<close>

definition kvOps :: "('s \<Rightarrow> string \<Rightarrow> nanos \<Rightarrow> nanos \<Rightarrow> (kv_error + 'a anyval) \<times> 's)
   \<Rightarrow> ('s \<Rightarrow> string \<Rightarrow> 'a anyval \<Rightarrow> nanos \<Rightarrow> nanos \<Rightarrow> kv_error option \<times> 's)
   \<Rightarrow> ('s \<Rightarrow> string \<Rightarrow> 'a anyval \<Rightarrow> nanos \<Rightarrow> nanos \<Rightarrow> (kv_error + bool) \<times> 's)
   \<Rightarrow> ('s \<Rightarrow> string \<Rightarrow> nanos \<Rightarrow> (kv_error + bool) \<times> 's) \<Rightarrow> ('s, 'a) kv_ops" where
  "kvOps g st nx d = \<lparr>op_Get = g, op_SetWithTTL = st, op_SetNXWithTTL = nx, op_Delete = d\<rparr>"

lemma kvOps_sel [simp]:
  "op_Get (kvOps g st nx d) = g" "op_SetWithTTL (kvOps g st nx d) = st"
  "op_SetNXWithTTL (kvOps g st nx d) = nx" "op_Delete (kvOps g st nx d) = d"
  by (simp_all add: kvOps_def)

lemma find_key_ID:
  assumes "distinct (map k_ID ks)" "k \<in> set ks"
  shows "find (\<lambda>x. k_ID x = k_ID k) ks = Some k"
  using assms by (induction ks) (auto simp: image_iff)

context kv_interface
begin

lemma lookup_persisted:
  assumes s: "usable s" "kvKey \<noteq> []" and v: "view s t kvKey = Some (AnyString (k_ID k))"
    and k: "distinct (map k_ID supported)" "k \<in> set supported" "k_ID k \<noteq> []"
  shows "fst (getCachedKeyFromStore (kvOps get setTTL setNX del) un s kvKey supported t) = (Some k, False)"
proof -
  obtain r s' where g: "get s kvKey t t = (r, s')" by fastforce
  with get_result [OF s, of t t] v have "r = Inr (AnyString (k_ID k))" by simp
  with g k show ?thesis
    by (simp add: getCachedKeyFromStore_def lookupCached_def cachedKeyID_def find_key_ID)
qed

lemma lookup_absent:
  assumes s: "usable s" "kvKey \<noteq> []" and v: "view s t kvKey = None"
  shows "stickyLookup (kvOps get setTTL setNX del) un s kvKey ttl supported t = (None, snd (get s kvKey t t))"
proof -
  obtain r s' where g: "get s kvKey t t = (r, s')" by fastforce
  with get_result [OF s, of t t] v have "r = Inl ErrNotFound" by simp
  with g show ?thesis
    by (simp add: stickyLookup_def getCachedKeyFromStore_def lookupCached_def)
qed

lemma claim_first:
  assumes s: "usable s" "kvKey \<noteq> []" "0 \<le> ttl" and v: "view s t kvKey = None"
  shows "stickyClaim (kvOps get setTTL setNX del) s kvKey ttl k t
    = (Some k, snd (setNX s kvKey (AnyString (k_ID k)) ttl t))"
proof -
  obtain r s' where g: "setNX s kvKey (AnyString (k_ID k)) ttl t = (r, s')" by fastforce
  with setNX_result [OF s, of "AnyString (k_ID k)" t] v have "r = Inr True" by simp
  with g show ?thesis by (simp add: stickyClaim_def)
qed

lemma claim_lost:
  assumes s: "usable s" "kvKey \<noteq> []" "0 \<le> ttl" and v: "view s t kvKey \<noteq> None"
  shows "stickyClaim (kvOps get setTTL setNX del) s kvKey ttl k t = (None, s)"
proof -
  obtain r s' where g: "setNX s kvKey (AnyString (k_ID k)) ttl t = (r, s')" by fastforce
  with setNX_result [OF s, of "AnyString (k_ID k)" t] v setNX_taken [OF s v, of "AnyString (k_ID k)"]
  have "r = Inr False" "s' = s" by auto
  with g show ?thesis by (simp add: stickyClaim_def)
qed

lemma race_loser_follows:
  assumes s: "usable s" "kvKey \<noteq> []" and none: "view s t1 kvKey = None" "view s tA kvKey = None"
    and t: "t1 \<le> tA" "0 < tA" "tA \<le> tB" "tB \<le> tR" "tR < tA + ttlA" "0 < ttlA" "tA + ttlA < 2 ^ 63" "0 \<le> ttlB"
    and k: "distinct (map k_ID supported)" "selA \<in> set supported" "k_ID selA \<noteq> []"
    and sel: "selector supported = Inr selB"
  shows "fst (stickySelect (kvOps get setTTL setNX del) un selector
      (\<lambda>s. snd (stickyClaim (kvOps get setTTL setNX del) s kvKey ttlA selA tA)) id
      s kvKey ttlB supported t1 tB tR) = Inr selA"
proof -
  define s1 where "s1 = snd (get s kvKey t1 t1)"
  have s1: "usable s1" using s by (simp add: s1_def get_usable)
  have "view s1 tA kvKey = None" using s none t(1) by (simp add: s1_def get_view)
  define s2 where "s2 = snd (setNX s1 kvKey (AnyString (k_ID selA)) ttlA tA)"
  have claim: "stickyClaim (kvOps get setTTL setNX del) s1 kvKey ttlA selA tA = (Some selA, s2)"
    unfolding s2_def by (rule claim_first) (use s1 s t \<open>view s1 tA kvKey = None\<close> in simp_all)
  have s2: "usable s2" unfolding s2_def by (rule setNX_usable) (use s1 s t in simp_all)
  have v: "view s2 u kvKey = Some (AnyString (k_ID selA))" if "tA \<le> u" "u < tA + ttlA" for u
    unfolding s2_def
    by (subst setNX_free) (use s1 s t that \<open>view s1 tA kvKey = None\<close> in simp_all)
  have lost: "stickyClaim (kvOps get setTTL setNX del) s2 kvKey ttlB selB tB = (None, s2)"
    by (rule claim_lost) (use s2 s t v [of tB] in simp_all)
  have look: "fst (getCachedKeyFromStore (kvOps get setTTL setNX del) un s2 kvKey supported tR) = (Some selA, False)"
    by (rule lookup_persisted) (use s2 s t v [of tR] k in simp_all)
  obtain r3 s3 where "getCachedKeyFromStore (kvOps get setTTL setNX del) un s2 kvKey supported tR = (r3, s3)"
    by fastforce
  with look have "stickyReread (kvOps get setTTL setNX del) un s2 kvKey supported selB tR = (selA, s3)"
    by (simp add: stickyReread_def)
  then show ?thesis
    by (simp add: stickySelect_def lookup_absent [OF s none(1)] s1_def [symmetric] claim sel lost)
qed

lemma persisted_key_reused:
  assumes s: "usable s" "kvKey \<noteq> []" and v: "view s t kvKey = Some (AnyString (k_ID k))"
    and k: "distinct (map k_ID supported)" "k \<in> set supported" "k_ID k \<noteq> []"
  shows "fst (stickySelect (kvOps get setTTL setNX del) un selector o1 o2 s kvKey ttl supported t t2 t3) = Inr k"
proof -
  obtain r s' where g: "getCachedKeyFromStore (kvOps get setTTL setNX del) un s kvKey supported t = (r, s')"
    by fastforce
  with lookup_persisted [OF assms, of un] have "r = (Some k, False)" by simp
  with g show ?thesis by (simp add: stickySelect_def stickyLookup_def)
qed

end

abbreviation storeOps :: "('a anyval \<Rightarrow> string + bytes) \<Rightarrow> ('a kv_store, 'a) kv_ops" where
  "storeOps m \<equiv> kvOps kv_Get (kv_SetWithTTL m) (kv_SetNXWithTTL m) kv_Delete"

section \<open>Properties\<close>

text \<open>
  The selector is fair: with weights that are not negative and not all zero, exactly as many
  of the equally likely draws pick a key as its weight says, so a key is chosen with probability
  weight over total weight and a key of weight zero is never chosen.
\<close>

theorem weighted_random_fair:
  assumes "\<forall>k\<in>set keys. 0 \<le> k_Weight100 k" "distinct keys" "k \<in> set keys" "0 < totalWeight keys"
  shows "card {r. 0 \<le> r \<and> r < totalWeight keys \<and> WeightedRandom (\<lambda>_. r) keys = Some k} = nat (k_Weight100 k)"
proof -
  have "pickByWeight r c ks \<noteq> None" if "ks \<noteq> []" "r < c + (\<Sum>x\<leftarrow>ks. k_Weight100 x)" for r c ks
    using that
  proof (induction ks arbitrary: c)
    case (Cons x xs)
    then show ?case using Cons.IH [of "c + k_Weight100 x"] by (cases "xs = []") (auto simp: Let_def)
  qed simp
  moreover have "keys \<noteq> []" using assms(3) by auto
  ultimately have some: "pickByWeight r 0 keys \<noteq> None" if "r < totalWeight keys" for r
    using that by (simp add: totalWeight_sum)
  have "{r. 0 \<le> r \<and> r < totalWeight keys \<and> WeightedRandom (\<lambda>_. r) keys = Some k}
      = {r. 0 \<le> r \<and> pickByWeight r 0 keys = Some k}"
    using assms(4) some pickByWeight_below [OF assms(1), of _ 0 k]
    by (auto simp: WeightedRandom_def Let_def totalWeight_sum split: option.splits)
  with pickByWeight_draws [OF assms(1-3), of 0] show ?thesis by simp
qed

theorem weighted_random_fair_witness:
  "card {r. 0 \<le> r \<and> r < totalWeight [zeroKey\<lparr>k_ID := ''a'', k_Weight100 := 30\<rparr>, zeroKey\<lparr>k_ID := ''b'', k_Weight100 := 70\<rparr>]
     \<and> WeightedRandom (\<lambda>_. r) [zeroKey\<lparr>k_ID := ''a'', k_Weight100 := 30\<rparr>, zeroKey\<lparr>k_ID := ''b'', k_Weight100 := 70\<rparr>]
       = Some (zeroKey\<lparr>k_ID := ''b'', k_Weight100 := 70\<rparr>)} = 70"
  using weighted_random_fair [of "[zeroKey\<lparr>k_ID := ''a'', k_Weight100 := 30\<rparr>, zeroKey\<lparr>k_ID := ''b'', k_Weight100 := 70\<rparr>]"
      "zeroKey\<lparr>k_ID := ''b'', k_Weight100 := 70\<rparr>"]
  by (simp add: zeroKey_def totalWeight_def)

text \<open>
  Every key in the pool of a request without a direct key is one of the account's keys for the
  provider as validation leaves it, enabled, with a value where the provider needs one, flagged
  for the batch API when the request is a batch or file operation and, unless the operation
  needs no model, allowed and not blocked for the model. This covers pinned keys, sticky keys
  and rotating pools, as long as the configured selector returns one of the keys it is given.
\<close>

theorem pool_keys_eligible:
  assumes "fst (selectKeyFromProviderForModelWithPool env ctx t p model bp s) = Inr (pool, rot)"
    and "ctxKey ctx BifrostContextKeyDirectKey = None" "k \<in> set pool"
    and sel: "\<And>ks k'. pe_selector env ks p model = Inr k' \<Longrightarrow> k' \<in> set ks"
  shows "\<exists>keys. pe_account env p = Inr keys \<and> eligible t model bp keys k"
  using assms by (rule selected_pool_eligible)

definition pool_sample_env :: "(nat kv_store, nat) pool_env" where
  "pool_sample_env = \<lparr>pe_account = (\<lambda>_. Inr [zeroKey\<lparr>k_ID := ''a'', k_Value := ''sk'', k_Models := [''*'']\<rparr>]),
     pe_selector = (\<lambda>ks _ _. case ks of [] \<Rightarrow> Inl ''none'' | k # _ \<Rightarrow> Inr k), pe_kvStore = None,
     pe_unmarshal = (\<lambda>_. None), pe_hash = id, pe_others1 = id, pe_others2 = id, pe_clock = int\<rparr>"

theorem pool_keys_eligible_witness:
  "eligible ChatCompletionRequest ''gpt'' OpenAI [zeroKey\<lparr>k_ID := ''a'', k_Value := ''sk'', k_Models := [''*'']\<rparr>]
     (zeroKey\<lparr>k_ID := ''a'', k_Value := ''sk'', k_Models := [''*'']\<rparr>)"
proof -
  let ?k = "zeroKey\<lparr>k_ID := ''a'', k_Value := ''sk'', k_Models := [''*'']\<rparr>"
  let ?c = "NewBifrostContext (\<lambda>_. VNil)"
  have sup: "supportedKeysFor ChatCompletionRequest OpenAI ''gpt'' OpenAI [?k] = Inr [?k]"
    by code_simp
  have r: "fst (selectKeyFromProviderForModelWithPool pool_sample_env ?c ChatCompletionRequest OpenAI ''gpt'' OpenAI kv_sample)
      = Inr ([?k], False)"
    by (simp add: selectKeyFromProviderForModelWithPool_def selectFromSupported_def pinnedKey_def sup
        pool_sample_env_def ctxKey_def ctxBool_def ctxString_def Value_def NewBifrostContext_def Let_def
        del: supportedKeysFor_def)
  have "\<exists>keys. pe_account pool_sample_env OpenAI = Inr keys \<and> eligible ChatCompletionRequest ''gpt'' OpenAI keys ?k"
    by (rule pool_keys_eligible [OF r])
       (auto simp: ctxKey_def Value_def NewBifrostContext_def pool_sample_env_def split: list.splits)
  then show ?thesis by (simp add: pool_sample_env_def)
qed

text \<open>
  C7. Concurrent requests of one session agree: when no key is persisted for the session and,
  between the lookup and the claim of request B, request A claims the session for its own
  selected key, then B ends with A's key, whatever B's selector picked.
\<close>

theorem sticky_requests_agree:
  assumes "kv_usable m s" "kvKey \<noteq> []" "map_of (kv_data s) kvKey = None"
    and "t1 \<le> tA" "0 < tA" "tA \<le> tB" "tB \<le> tR" "tR < tA + ttlA" "0 < ttlA" "tA + ttlA < 2 ^ 63" "0 \<le> ttlB"
    and "distinct (map k_ID supported)" "selA \<in> set supported" "k_ID selA \<noteq> []"
    and "selector supported = Inr selB"
  shows "fst (stickySelect (storeOps m) un selector
      (\<lambda>s. snd (stickyClaim (storeOps m) s kvKey ttlA selA tA)) id
      s kvKey ttlB supported t1 tB tR) = Inr selA"
  by (rule kvi.race_loser_follows) (use assms in \<open>simp_all add: kv_live_def\<close>)

theorem sticky_requests_agree_witness:
  fixes a b :: key
  defines "a \<equiv> zeroKey\<lparr>k_ID := ''a''\<rparr>" and "b \<equiv> zeroKey\<lparr>k_ID := ''b''\<rparr>"
  shows "fst (stickySelect (storeOps (\<lambda>_. Inr [])) (\<lambda>_. None) (\<lambda>_. Inr b)
      (\<lambda>s. snd (stickyClaim (storeOps (\<lambda>_. Inr [])) s ''session'' 100 a 5)) id
      kv_sample ''session'' 100 [a, b] 4 6 7) = Inr a"
  by (rule sticky_requests_agree [where selB = b])
     (simp_all add: a_def b_def kv_usable_sample, simp_all add: kv_sample_def zeroKey_def)

text \<open>
  Keys rotate only when the documentation says so: a pool with rotation has at least two keys,
  the caller pinned no key by ID or name and supplied none, and session stickiness is off; in
  every other case at most one key is returned. A pinned ID yields exactly the key of that ID.
\<close>

theorem rotation_only_unpinned:
  assumes "fst (selectKeyFromProviderForModelWithPool env ctx t p model bp s) = Inr (pool, rot)"
    and "ctxKey ctx BifrostContextKeyDirectKey = None"
  shows "(rot \<longrightarrow> 2 \<le> length pool
      \<and> (\<forall>i. ctxString ctx BifrostContextKeyAPIKeyID = Some i \<longrightarrow> trimSpace i = [])
      \<and> (\<forall>i. ctxString ctx BifrostContextKeyAPIKeyName = Some i \<longrightarrow> trimSpace i = [])
      \<and> (pe_kvStore env = None \<or> ctxString ctx BifrostContextKeySessionID \<in> {None, Some []}
         \<or> ctxInt ctx BifrostContextKeyFallbackIndex \<notin> {None, Some 0}))
    \<and> (\<not> rot \<longrightarrow> length pool \<le> 1)
    \<and> (\<forall>i. ctxString ctx BifrostContextKeyAPIKeyID = Some i \<and> trimSpace i \<noteq> [] \<and> pool \<noteq> [] \<longrightarrow>
         \<not> rot \<and> map k_ID pool = [trimSpace i])"
proof (cases "\<exists>supported. fst (selectFromSupported env ctx p model supported s) = Inr (pool, rot) \<and> supported \<noteq> []")
  case False
  have "(pool, rot) = ([], False)"
    using assms False
    by (auto simp: selectKeyFromProviderForModelWithPool_def supportedKeysFor_def Let_def
        split: if_splits sum.splits option.splits)
  then show ?thesis by simp
next
  case True
  then obtain supported where sel: "fst (selectFromSupported env ctx p model supported s) = Inr (pool, rot)"
    and ne: "supported \<noteq> []" by blast
  show ?thesis
  proof (cases "pinnedKey ctx p model supported")
    case (Some r)
    with sel obtain k where "r = Inr k" "pool = [k]" "\<not> rot"
      by (cases r) (auto simp: selectFromSupported_def)
    with Some show ?thesis
      by (auto simp: pinnedKey_def Let_def split: option.splits if_splits dest: find_in)
  next
    case None
    then have unpinned: "\<forall>i. ctxString ctx BifrostContextKeyAPIKeyID = Some i \<longrightarrow> trimSpace i = []"
      "\<forall>i. ctxString ctx BifrostContextKeyAPIKeyName = Some i \<longrightarrow> trimSpace i = []"
      by (auto simp: pinnedKey_def Let_def split: option.splits if_splits)
    have "length supported \<noteq> 1 \<Longrightarrow> 2 \<le> length supported"
      using ne by (cases supported; cases "tl supported") auto
    then have "(rot \<longrightarrow> 2 \<le> length pool
      \<and> (pe_kvStore env = None \<or> ctxString ctx BifrostContextKeySessionID \<in> {None, Some []}
         \<or> ctxInt ctx BifrostContextKeyFallbackIndex \<notin> {None, Some 0})) \<and> (\<not> rot \<longrightarrow> length pool \<le> 1)"
      using sel None
      by (auto simp: selectFromSupported_def Let_def split: option.splits sum.splits if_splits prod.splits)
    with unpinned show ?thesis by blast
  qed
qed

theorem rotation_only_unpinned_witness:
  "fst (selectKeyFromProviderForModelWithPool (pool_sample_env\<lparr>pe_account := \<lambda>_. Inr
        [zeroKey\<lparr>k_ID := ''a'', k_Value := ''sk'', k_Models := [''*'']\<rparr>,
         zeroKey\<lparr>k_ID := ''b'', k_Value := ''sk'', k_Models := [''*'']\<rparr>]\<rparr>)
      (NewBifrostContext (\<lambda>_. VNil)) ChatCompletionRequest OpenAI ''gpt'' OpenAI kv_sample)
    = Inr ([zeroKey\<lparr>k_ID := ''a'', k_Value := ''sk'', k_Models := [''*'']\<rparr>,
         zeroKey\<lparr>k_ID := ''b'', k_Value := ''sk'', k_Models := [''*'']\<rparr>], True)
   \<and> (2::nat) \<le> length [zeroKey\<lparr>k_ID := ''a'', k_Value := ''sk'', k_Models := [''*'']\<rparr>,
      zeroKey\<lparr>k_ID := ''b'', k_Value := ''sk'', k_Models := [''*'']\<rparr>]"
proof -
  let ?a = "zeroKey\<lparr>k_ID := ''a'', k_Value := ''sk'', k_Models := [''*'']\<rparr>"
  let ?b = "zeroKey\<lparr>k_ID := ''b'', k_Value := ''sk'', k_Models := [''*'']\<rparr>"
  let ?env = "pool_sample_env\<lparr>pe_account := \<lambda>_. Inr [?a, ?b]\<rparr>"
  let ?c = "NewBifrostContext (\<lambda>_. VNil)"
  have sup: "supportedKeysFor ChatCompletionRequest OpenAI ''gpt'' OpenAI [?a, ?b] = Inr [?a, ?b]"
    by code_simp
  have r: "fst (selectKeyFromProviderForModelWithPool ?env ?c ChatCompletionRequest OpenAI ''gpt'' OpenAI kv_sample)
      = Inr ([?a, ?b], True)"
    by (simp add: selectKeyFromProviderForModelWithPool_def selectFromSupported_def pinnedKey_def sup
        pool_sample_env_def ctxKey_def ctxBool_def ctxString_def Value_def NewBifrostContext_def Let_def)
  from rotation_only_unpinned [OF this] have "2 \<le> length [?a, ?b]"
    by (simp add: ctxKey_def Value_def NewBifrostContext_def)
  with r show ?thesis by blast
qed



text \<open>
  A direct key is not bound to the provider it was given for: it survives the clearing of the
  context before a fallback, so the pool of every fallback provider is that same raw key.
\<close>

theorem direct_key_follows_fallback:
  assumes "\<not> bc_blockRestrictedWrites ctx" "ctxKey ctx BifrostContextKeyDirectKey = Some k"
  shows "fst (selectKeyFromProviderForModelWithPool env (clearCtxForFallback ctx) t p model bp s) = Inr ([k], False)"
proof -
  have "ctxKey (clearCtxForFallback ctx) BifrostContextKeyDirectKey = Some k"
    using assms by (simp add: ctxKey_def clearCtxForFallback_Value)
  then show ?thesis by (simp add: selectKeyFromProviderForModelWithPool_def)
qed

theorem direct_key_follows_fallback_witness:
  "fst (selectKeyFromProviderForModelWithPool pool_sample_env
     (clearCtxForFallback (SetValue BifrostContextKeyDirectKey (VKey (zeroKey\<lparr>k_Value := ''sk-openai''\<rparr>))
        (NewBifrostContext (\<lambda>_. VNil)))) ChatCompletionRequest Anthropic ''claude'' Anthropic kv_sample)
   = Inr ([zeroKey\<lparr>k_Value := ''sk-openai''\<rparr>], False)"
  by (rule direct_key_follows_fallback) (simp_all add: ctxKey_def Value_SetValue NewBifrostContext_def)

end
