(* ===== verification/RetryPolicy.thy ===== *)
theory RetryPolicy
  imports KeyPool
begin

text \<open>
  The decisions of the retry loop (\<^verbatim>\<open>executeRequestWithRetries\<close> in \<^verbatim>\<open>core/bifrost.go\<close>) that do
  not depend on its state: classifying an error, naming the reason of a failure, looking at the
  first chunks of a stream (\<^verbatim>\<open>CheckFirstStreamChunkForError\<close>), and the attributes of the spans,
  with the redaction of sensitive headers. Spans are recorded as a list of events.
\<close>

section \<open>Classification\<close>

definition isPerKeyFailure :: "bifrost_error \<Rightarrow> bool" where
  "isPerKeyFailure e \<longleftrightarrow>
     (case be_StatusCode e of Some c \<Rightarrow> c \<in> set perKeyFailureStatusCodes | None \<Rightarrow> False)
     \<or> (case be_Error e of
          None \<Rightarrow> False
        | Some f \<Rightarrow> IsRateLimitErrorMessage (ef_Message f)
            \<or> (case ef_Type f of Some t \<Rightarrow> IsRateLimitErrorMessage t | None \<Rightarrow> False)
            \<or> (case ef_Code f of Some c \<Rightarrow> IsRateLimitErrorMessage c | None \<Rightarrow> False))"

definition isPermanentStatus :: "bifrost_error \<Rightarrow> bool" where
  "isPermanentStatus e \<longleftrightarrow>
     (case be_StatusCode e of Some c \<Rightarrow> c = 401 \<or> c = 402 \<or> c = 403 | None \<Rightarrow> False)"

definition shouldRetryError :: "bifrost_error \<Rightarrow> 'q bifrost_request option \<Rightarrow> bool" where
  "shouldRetryError e req =
     (let network = (case be_Error e of
              None \<Rightarrow> False
            | Some f \<Rightarrow> ef_Message f = ErrProviderDoRequest \<or> ef_Message f = ErrProviderNetworkError);
          retry = (if network then True
                   else if (case be_StatusCode e of
                              Some c \<Rightarrow> c \<in> set transientServerStatusCodes | None \<Rightarrow> False)
                           \<or> isPerKeyFailure e
                   then True else False)
      in if retry \<and> shouldFallbackBeforeProviderRetry (Some e) req then False else retry)"

definition failReason :: "bifrost_error \<Rightarrow> string" where
  "failReason e =
     (let byType = (case be_Error e of
              Some f \<Rightarrow> (case ef_Type f of Some (c # cs) \<Rightarrow> c # cs | _ \<Rightarrow> ''unknown'')
            | None \<Rightarrow> ''unknown'')
      in case be_StatusCode e of
           Some c \<Rightarrow>
             if c = 429 then ''rate_limit_error''
             else if c = 401 \<or> c = 403 then ''authentication_error''
             else if c = 402 then ''billing_error''
             else byType
         | None \<Rightarrow> byType)"

section \<open>The first chunks of a stream\<close>

text \<open>
  A stream is the sequence of chunks the provider will send before it closes the channel. Of a
  chunk the code reads the error and the type of a responses-API event.
\<close>

record 'p chunk =
  ch_Error :: "bifrost_error option"
  ch_ResponsesType :: "string option"
  ch_payload :: 'p

definition streamChunkError :: "'p chunk option \<Rightarrow> bifrost_error option" where
  "streamChunkError c =
     (case c of
        None \<Rightarrow> None
      | Some ch \<Rightarrow>
         (case ch_Error ch of
            None \<Rightarrow> None
          | Some e \<Rightarrow>
             (case be_Error e of
                None \<Rightarrow> None
              | Some f \<Rightarrow> if ef_Message f \<noteq> [] \<or> ef_Code f \<noteq> None \<or> ef_Type f \<noteq> None then Some e else None)))"

definition streamChunkStartsOutput :: "'p chunk option \<Rightarrow> bool" where
  "streamChunkStartsOutput c =
     (case c of
        None \<Rightarrow> False
      | Some ch \<Rightarrow>
         (case ch_ResponsesType ch of
            Some t \<Rightarrow> if t = ''response.ping'' \<or> t = ''response.created'' \<or> t = ''response.in_progress''
                      then False else True
          | None \<Rightarrow> True))"

text \<open>The loop: \<open>buffered\<close> are the chunks read before \<open>c\<close>. The result is an error, or the chunks of
  the wrapped channel.\<close>

fun checkChunks ::
  "'p chunk option list \<Rightarrow> 'p chunk option \<Rightarrow> 'p chunk option list \<Rightarrow> bifrost_error + 'p chunk option list" where
  "checkChunks buffered c rest =
     (case streamChunkError c of
        Some e \<Rightarrow> Inl e
      | None \<Rightarrow>
         if streamChunkStartsOutput c then Inr (buffered @ [c] @ rest)
         else (case rest of
                 [] \<Rightarrow> Inr (buffered @ [c])
               | d # ds \<Rightarrow> checkChunks (buffered @ [c]) d ds))"

text \<open>None is the nil channel of a stream that closed without a chunk.\<close>

definition CheckFirstStreamChunkForError ::
  "'p chunk option list \<Rightarrow> bifrost_error + 'p chunk option list option" where
  "CheckFirstStreamChunkForError stream =
     (case stream of
        [] \<Rightarrow> Inr None
      | c # rest \<Rightarrow>
         (case checkChunks [] c rest of Inl e \<Rightarrow> Inl e | Inr wrapped \<Rightarrow> Inr (Some wrapped)))"

section \<open>Spans\<close>

datatype attr_value = AStr string | AInt int | AStrs "string list" | ABool bool | AQuot int int

datatype span_event =
    StartSpan nat string string
  | SetAttribute nat string attr_value
  | EndSpan nat bool string
  | PopulateLLMRequest nat
  | PopulateLLMResponse nat
  | StoreDeferredSpan string nat

definition OTelOperationName :: "request_type \<Rightarrow> string" where
  "OTelOperationName t =
     (if t \<in> set [ChatCompletionRequest, ChatCompletionStreamRequest, ResponsesRequest, ResponsesStreamRequest]
      then ''chat''
      else if t \<in> set [TextCompletionRequest, TextCompletionStreamRequest] then ''text_completion''
      else if t = EmbeddingRequest then ''embeddings''
      else if t \<in> set [SpeechRequest, SpeechStreamRequest, TranscriptionRequest, TranscriptionStreamRequest,
          ImageGenerationRequest, ImageGenerationStreamRequest, ImageEditRequest, ImageEditStreamRequest]
      then ''generate_content''
      else requestTypeName t)"

definition OTelProviderName :: "string \<Rightarrow> string" where
  "OTelProviderName p =
     (if p = Bedrock then ''aws.bedrock''
      else if p = Vertex then ''gcp.vertex_ai''
      else if p = Gemini then ''gcp.gemini''
      else if p = XAI then ''x_ai''
      else if p = Mistral then ''mistral_ai''
      else if p = Azure then ''azure.ai.openai''
      else p)"

definition hasSuffix :: "string \<Rightarrow> string \<Rightarrow> bool" where
  "hasSuffix s suf = hasPrefix (rev s) (rev suf)"

definition IsSensitiveHeader :: "string \<Rightarrow> bool" where
  "IsSensitiveHeader name =
     (let n = toLower (trimSpace name)
      in if n \<in> {''authorization'', ''proxy-authorization'', ''cookie'', ''set-cookie''} then True
         else strContains n ''api-key'' \<or> strContains n ''authorization'' \<or> strContains n ''secret''
           \<or> hasSuffix n ''-token'' \<or> hasSuffix n ''_token'')"

definition RedactedAttrValue :: string where
  "RedactedAttrValue = ''REDACTED''"

definition AttrExtraHeaderPrefix :: string where
  "AttrExtraHeaderPrefix = ''gen_ai.request.extra_header.''"

text \<open>The headers come in the order in which Go visits the map.\<close>

definition headerAttribute :: "nat \<Rightarrow> string \<Rightarrow> string list \<Rightarrow> span_event list" where
  "headerAttribute h name values =
     (if name = [] \<or> values = [] then []
      else if IsSensitiveHeader name
      then [SetAttribute h (AttrExtraHeaderPrefix @ name) (AStr RedactedAttrValue)]
      else if length values = 1 then [SetAttribute h (AttrExtraHeaderPrefix @ name) (AStr (values ! 0))]
      else [SetAttribute h (AttrExtraHeaderPrefix @ name) (AStrs values)])"

definition extraHeaderAttributes :: "nat \<Rightarrow> (string \<times> string list) list \<Rightarrow> span_event list" where
  "extraHeaderAttributes h headers = concat (map (\<lambda>(name, values). headerAttribute h name values) headers)"

text \<open>A string of the context, when it is there and not empty, under each of the given names.\<close>

definition stringAttributes :: "nat \<Rightarrow> bctx \<Rightarrow> ctxkey \<Rightarrow> string list \<Rightarrow> span_event list" where
  "stringAttributes h ctx k names =
     (case ctxString ctx k of
        Some v \<Rightarrow> if v \<noteq> [] then map (\<lambda>a. SetAttribute h a (AStr v)) names else []
      | None \<Rightarrow> [])"

definition contextAttributes :: "nat \<Rightarrow> bctx \<Rightarrow> nat \<Rightarrow> span_event list" where
  "contextAttributes h ctx attempts =
     stringAttributes h ctx BifrostContextKeySelectedKeyID [''gen_ai.selected_key_id'', ''bifrost.selected_key.id'']
     @ stringAttributes h ctx BifrostContextKeySelectedKeyName [''gen_ai.selected_key_name'', ''bifrost.selected_key.name'']
     @ stringAttributes h ctx BifrostContextKeyGovernanceVirtualKeyID [''gen_ai.virtual_key_id'', ''bifrost.virtual_key.id'']
     @ stringAttributes h ctx BifrostContextKeyGovernanceVirtualKeyName [''gen_ai.virtual_key_name'', ''bifrost.virtual_key.name'']
     @ stringAttributes h ctx BifrostContextKeyGovernanceTeamID [''gen_ai.team_id'', ''bifrost.team.id'']
     @ stringAttributes h ctx BifrostContextKeyGovernanceTeamName [''gen_ai.team_name'', ''bifrost.team.name'']
     @ stringAttributes h ctx BifrostContextKeyGovernanceCustomerID [''gen_ai.customer_id'', ''bifrost.customer.id'']
     @ stringAttributes h ctx BifrostContextKeyGovernanceCustomerName [''gen_ai.customer_name'', ''bifrost.customer.name'']
     @ stringAttributes h ctx BifrostContextKeyGovernanceBusinessUnitID [''bifrost.business_unit.id'']
     @ stringAttributes h ctx BifrostContextKeyGovernanceBusinessUnitName [''bifrost.business_unit.name'']
     @ stringAttributes h ctx BifrostContextKeyUserID [''bifrost.user.id'']
     @ stringAttributes h ctx BifrostContextKeyUserName [''bifrost.user.name'']
     @ (case ctxInt ctx BifrostContextKeyFallbackIndex of
          Some i \<Rightarrow> [SetAttribute h ''gen_ai.fallback_index'' (AInt i), SetAttribute h ''bifrost.fallback_index'' (AInt i)]
        | None \<Rightarrow> [])
     @ [SetAttribute h ''gen_ai.number_of_retries'' (AInt (int attempts)),
        SetAttribute h ''bifrost.retries'' (AInt (int attempts))]
     @ (case Value ctx BifrostContextKeyExtraHeaders of
          VHeaders hs \<Rightarrow> extraHeaderAttributes h hs
        | _ \<Rightarrow> [])"

text \<open>What is recorded when the span of an attempt starts.\<close>

definition attemptSpanStart ::
  "nat \<Rightarrow> nat \<Rightarrow> request_type \<Rightarrow> string \<Rightarrow> string \<Rightarrow> span_event list" where
  "attemptSpanStart h attempts t provider model =
     [if attempts > 0 then StartSpan h (''retry.attempt.'' @ itoa (int attempts)) ''retry''
      else StartSpan h (OTelOperationName t @ '' '' @ model) ''llm.call'',
      SetAttribute h ''gen_ai.provider.name'' (AStr (OTelProviderName provider)),
      SetAttribute h ''bifrost.provider.name'' (AStr provider),
      SetAttribute h ''gen_ai.request.model'' (AStr model),
      SetAttribute h ''gen_ai.operation.name'' (AStr (OTelOperationName t)),
      SetAttribute h ''request.type'' (AStr (requestTypeName t))]
     @ (if attempts > 0 then [SetAttribute h ''retry.count'' (AInt (int attempts))] else [])"

definition attemptSpanError :: "nat \<Rightarrow> bifrost_error \<Rightarrow> span_event list" where
  "attemptSpanError h e =
     (case be_Error e of Some f \<Rightarrow> [SetAttribute h ''error'' (AStr (ef_Message f))] | None \<Rightarrow> [])
     @ (case be_StatusCode e of Some c \<Rightarrow> [SetAttribute h ''status_code'' (AInt c)] | None \<Rightarrow> [])
     @ [EndSpan h False ''request failed'']"

section \<open>Lemmas\<close>

lemma checkChunks_wrapped: "checkChunks b c rest = Inr w \<Longrightarrow> w = b @ c # rest"
  by (induction b c rest rule: checkChunks.induct)
     (auto split: option.splits if_splits list.splits)

lemma checkChunks_error:
  "checkChunks b c rest = Inl e \<Longrightarrow>
   \<exists>pre d post. c # rest = pre @ d # post \<and> streamChunkError d = Some e
     \<and> (\<forall>x\<in>set pre. streamChunkError x = None \<and> \<not> streamChunkStartsOutput x)"
proof (induction b c rest rule: checkChunks.induct)
  case (1 b c rest)
  show ?case
  proof (cases "streamChunkError c")
    case (Some e')
    with 1 have "c # rest = [] @ c # rest \<and> streamChunkError c = Some e" by simp
    then show ?thesis by (metis empty_iff list.set(1))
  next
    case None
    with "1.prems" obtain d ds where r: "rest = d # ds" "\<not> streamChunkStartsOutput c"
      "checkChunks (b @ [c]) d ds = Inl e"
      by (auto split: if_splits list.splits)
    from "1.IH" [OF None r(2,1) r(3)] obtain pre x post where
      "d # ds = pre @ x # post" "streamChunkError x = Some e"
      "\<forall>y\<in>set pre. streamChunkError y = None \<and> \<not> streamChunkStartsOutput y" by blast
    with r None show ?thesis by (intro exI [of _ "c # pre"] exI [of _ x] exI [of _ post]) auto
  qed
qed

section \<open>Properties\<close>

text \<open>
  Looking into a stream loses nothing: when no error comes before the first output the
  consumer gets exactly the chunks the provider sent, in order; when the check reports an error
  it is the first error of the stream and nothing but ping, created and in-progress events came
  before it, so no output was dropped.
\<close>

theorem stream_check_transparent:
  "(CheckFirstStreamChunkForError stream = Inr (Some wrapped) \<longrightarrow> wrapped = stream)
   \<and> (CheckFirstStreamChunkForError stream = Inl e \<longrightarrow>
       (\<exists>pre d post. stream = pre @ d # post \<and> streamChunkError d = Some e
          \<and> (\<forall>x\<in>set pre. streamChunkError x = None \<and> \<not> streamChunkStartsOutput x)))"
proof (cases stream)
  case Nil
  then show ?thesis by (simp add: CheckFirstStreamChunkForError_def)
next
  case (Cons c rest)
  show ?thesis
    using checkChunks_wrapped [of "[]" c rest] checkChunks_error [of "[]" c rest e]
    by (auto simp: CheckFirstStreamChunkForError_def Cons split: sum.splits)
qed

theorem stream_check_transparent_witness:
  fixes ping out :: "nat chunk option"
  defines "ping \<equiv> Some \<lparr>ch_Error = None, ch_ResponsesType = Some ''response.ping'', ch_payload = 0\<rparr>"
    and "out \<equiv> Some \<lparr>ch_Error = None, ch_ResponsesType = None, ch_payload = 1\<rparr>"
  shows "CheckFirstStreamChunkForError [ping, out] = Inr (Some [ping, out])"
proof -
  have "\<exists>w. CheckFirstStreamChunkForError [ping, out] = Inr (Some w)"
    by (simp add: CheckFirstStreamChunkForError_def streamChunkError_def streamChunkStartsOutput_def
        ping_def out_def)
  with stream_check_transparent [of "[ping, out]"] show ?thesis by blast
qed

text \<open>
  Credentials do not leave through traces: among the attributes of a request's extra headers,
  one whose header name is sensitive has the placeholder for its value.
\<close>

theorem sensitive_headers_redacted:
  assumes "SetAttribute h (AttrExtraHeaderPrefix @ name) v \<in> set (extraHeaderAttributes h' headers)"
    and "IsSensitiveHeader name"
  shows "v = AStr RedactedAttrValue"
  using assms by (auto simp: extraHeaderAttributes_def headerAttribute_def split: if_splits)

theorem sensitive_headers_redacted_witness:
  "extraHeaderAttributes 0 [('' X-Api-Key'', [''sk-1''])]
     = [SetAttribute 0 (AttrExtraHeaderPrefix @ '' X-Api-Key'') (AStr RedactedAttrValue)]"
proof -
  have s: "IsSensitiveHeader '' X-Api-Key''" by code_simp
  obtain v where v: "extraHeaderAttributes 0 [('' X-Api-Key'', [''sk-1''])]
      = [SetAttribute 0 (AttrExtraHeaderPrefix @ '' X-Api-Key'') v]"
    using s by (simp add: extraHeaderAttributes_def headerAttribute_def)
  with sensitive_headers_redacted [OF _ s, of 0 v 0 "[('' X-Api-Key'', [''sk-1''])]"]
  show ?thesis by simp
qed

text \<open>
  A failure bound to the key is always worth another key: an error with status 401, 402, 403
  or 429, or whose text says rate limit, is retried unless it is a capacity error and the
  request has fallbacks to go to, and its recorded reason comes from the status.
\<close>

theorem per_key_failures_retried:
  assumes "isPerKeyFailure e"
  shows "shouldRetryError e req = (\<not> shouldFallbackBeforeProviderRetry (Some e) req)
    \<and> (\<forall>c. be_StatusCode e = Some c \<and> c \<in> set perKeyFailureStatusCodes \<longrightarrow>
         failReason e = (if c = 429 then ''rate_limit_error'' else if c = 402 then ''billing_error''
                         else ''authentication_error''))"
  using assms by (auto simp: shouldRetryError_def failReason_def perKeyFailureStatusCodes_def Let_def)

theorem per_key_failures_retried_witness:
  "shouldRetryError ((newBifrostErrorFromMsg ''Rate limit reached'')\<lparr>be_StatusCode := Some 429\<rparr>) (None :: nat bifrost_request option)"
proof -
  have "isPerKeyFailure ((newBifrostErrorFromMsg ''Rate limit reached'')\<lparr>be_StatusCode := Some 429\<rparr>)"
    by (simp add: isPerKeyFailure_def perKeyFailureStatusCodes_def)
  from per_key_failures_retried [OF this, of "None :: nat bifrost_request option"]
  show ?thesis by (simp add: shouldFallbackBeforeProviderRetry_def)
qed

end
