(* ===== verification/Response.thy ===== *)
theory Response
  imports Schemas
begin

text \<open>
  The response union of \<^verbatim>\<open>core/schemas/bifrost.go\<close>: one optional sub-response per kind of
  request, each with its extra fields, and the accessors that find the sub-response that is set.
  \<^verbatim>\<open>GetExtraFields\<close> returns a pointer, so writes through it change the response; with no
  sub-response set it points to a fresh struct and the writes are lost.
\<close>

section \<open>The union\<close>

datatype response_slot =
    RspListModels | RspTextCompletion | RspChat | RspResponses | RspResponsesStream
  | RspCountTokens | RspCompaction | RspEmbedding | RspRerank | RspOCR | RspSpeech
  | RspSpeechStream | RspTranscription | RspTranscriptionStream | RspImageGeneration
  | RspImageGenerationStream | RspVideoGeneration | RspVideoDownload | RspVideoList
  | RspVideoDelete | RspFileUpload | RspFileList | RspFileRetrieve | RspFileDelete
  | RspFileContent | RspCachedContentCreate | RspCachedContentList | RspCachedContentRetrieve
  | RspCachedContentUpdate | RspCachedContentDelete | RspBatchCreate | RspBatchList
  | RspBatchRetrieve | RspBatchCancel | RspBatchResults | RspBatchDelete | RspContainerCreate
  | RspContainerList | RspContainerRetrieve | RspContainerDelete | RspContainerFileCreate
  | RspContainerFileList | RspContainerFileRetrieve | RspContainerFileContent
  | RspContainerFileDelete | RspPassthrough

record 'p sub_response =
  sp_Extra :: extra_fields
  sp_payload :: 'p

record 'p bifrost_response =
  rs_sub :: "response_slot \<Rightarrow> 'p sub_response option"

text \<open>The order in which the \<^verbatim>\<open>switch\<close> of each accessor tests the fields.\<close>

definition getExtraOrder :: "response_slot list" where
  "getExtraOrder = [RspListModels, RspTextCompletion, RspChat, RspResponses, RspResponsesStream, RspCountTokens,
     RspCompaction, RspEmbedding, RspRerank, RspOCR, RspSpeech, RspSpeechStream,
     RspTranscription, RspTranscriptionStream, RspImageGeneration, RspImageGenerationStream,
     RspFileUpload, RspFileList, RspFileRetrieve, RspFileDelete, RspFileContent,
     RspVideoGeneration, RspVideoDownload, RspVideoList, RspVideoDelete, RspBatchCreate,
     RspBatchList, RspBatchRetrieve, RspBatchCancel, RspBatchDelete, RspBatchResults,
     RspContainerCreate, RspContainerList, RspContainerRetrieve, RspContainerDelete,
     RspContainerFileCreate, RspContainerFileList, RspContainerFileRetrieve,
     RspContainerFileContent, RspContainerFileDelete, RspPassthrough, RspCachedContentCreate,
     RspCachedContentList, RspCachedContentRetrieve, RspCachedContentUpdate,
     RspCachedContentDelete]"

definition populateOrder :: "response_slot list" where
  "populateOrder = [RspListModels, RspTextCompletion, RspChat, RspResponses, RspResponsesStream, RspCountTokens,
     RspCompaction, RspEmbedding, RspRerank, RspSpeech, RspSpeechStream, RspTranscription,
     RspTranscriptionStream, RspImageGeneration, RspImageGenerationStream, RspVideoGeneration,
     RspVideoDownload, RspVideoList, RspVideoDelete, RspFileUpload, RspFileList, RspFileRetrieve,
     RspFileDelete, RspFileContent, RspBatchCreate, RspBatchList, RspBatchRetrieve,
     RspBatchCancel, RspBatchDelete, RspBatchResults, RspContainerCreate, RspContainerList,
     RspContainerRetrieve, RspContainerDelete, RspContainerFileCreate, RspContainerFileList,
     RspContainerFileRetrieve, RspContainerFileContent, RspContainerFileDelete, RspOCR,
     RspPassthrough, RspCachedContentCreate, RspCachedContentList, RspCachedContentRetrieve,
     RspCachedContentUpdate, RspCachedContentDelete]"

definition activeResponse :: "response_slot list \<Rightarrow> 'p bifrost_response \<Rightarrow> response_slot option" where
  "activeResponse order r = List.find (\<lambda>s. rs_sub r s \<noteq> None) order"

definition updateExtra ::
  "response_slot list \<Rightarrow> (extra_fields \<Rightarrow> extra_fields) \<Rightarrow> 'p bifrost_response \<Rightarrow> 'p bifrost_response" where
  "updateExtra order f r =
     (case activeResponse order r of
        None \<Rightarrow> r
      | Some s \<Rightarrow> r\<lparr>rs_sub := (rs_sub r)(s := map_option (\<lambda>x. x\<lparr>sp_Extra := f (sp_Extra x)\<rparr>) (rs_sub r s))\<rparr>)"

section \<open>Accessors\<close>

definition GetExtraFields :: "'p bifrost_response \<Rightarrow> extra_fields" where
  "GetExtraFields r =
     (case activeResponse getExtraOrder r of
        None \<Rightarrow> zeroExtraFields
      | Some s \<Rightarrow> (case rs_sub r s of None \<Rightarrow> zeroExtraFields | Some x \<Rightarrow> sp_Extra x))"

definition respPopulateExtraFields ::
  "request_type \<Rightarrow> string \<Rightarrow> string \<Rightarrow> string \<Rightarrow> 'p bifrost_response \<Rightarrow> 'p bifrost_response" where
  "respPopulateExtraFields t p original resolved = updateExtra populateOrder (extraPopulate t p original resolved)"

definition respPopulateRoutingInfo :: "routing_info \<Rightarrow> 'p bifrost_response \<Rightarrow> 'p bifrost_response" where
  "respPopulateRoutingInfo info =
     updateExtra getExtraOrder (\<lambda>x. syncDeprecatedFromRoutingInfo info (x\<lparr>xf_RoutingInfo := info\<rparr>))"

definition respSetFallbackRoutingInfo :: "string \<Rightarrow> string \<Rightarrow> 'p bifrost_response \<Rightarrow> 'p bifrost_response" where
  "respSetFallbackRoutingInfo p m = updateExtra getExtraOrder (extraSetFallbackRoutingInfo p m)"

text \<open>Raw payloads captured for the logs only are removed before the caller sees the response.\<close>

definition stripRaw :: "bool \<Rightarrow> bool \<Rightarrow> extra_fields \<Rightarrow> extra_fields" where
  "stripRaw dropReq dropResp x =
     (let x1 = (if dropReq then x\<lparr>xf_RawRequest := None\<rparr> else x)
      in if dropResp then x1\<lparr>xf_RawResponse := None\<rparr> else x1)"

section \<open>Lemmas\<close>

definition singleResponse :: "response_slot \<Rightarrow> 'p sub_response \<Rightarrow> 'p bifrost_response" where
  "singleResponse s x = \<lparr>rs_sub = (\<lambda>_. None)(s := Some x)\<rparr>"

lemma getExtraOrder_all: "s \<in> set getExtraOrder"
  by (cases s) (simp_all add: getExtraOrder_def)

lemma populateOrder_all: "s \<in> set populateOrder"
  by (cases s) (simp_all add: populateOrder_def)

lemma activeResponse_single:
  "activeResponse order (singleResponse s x) = (if s \<in> set order then Some s else None)"
  by (induction order) (auto simp: activeResponse_def singleResponse_def)

lemma updateExtra_single [simp]:
  "s \<in> set order \<Longrightarrow>
   updateExtra order f (singleResponse s x) = singleResponse s (x\<lparr>sp_Extra := f (sp_Extra x)\<rparr>)"
  by (simp add: updateExtra_def activeResponse_single) (simp add: singleResponse_def fun_eq_iff)

lemma GetExtraFields_single [simp]: "GetExtraFields (singleResponse s x) = sp_Extra x"
  by (simp add: GetExtraFields_def activeResponse_single getExtraOrder_all) (simp add: singleResponse_def)

lemma updateExtra_dom: "rs_sub (updateExtra order f r) s = None \<longleftrightarrow> rs_sub r s = None"
  by (auto simp: updateExtra_def split: option.splits)

lemma updateExtra_payload: "map_option sp_payload (rs_sub (updateExtra order f r) s) = map_option sp_payload (rs_sub r s)"
  by (auto simp: updateExtra_def option.map_comp comp_def split: option.splits)

lemma activeResponse_updateExtra [simp]: "activeResponse o1 (updateExtra o2 f r) = activeResponse o1 r"
  by (simp add: activeResponse_def updateExtra_dom)

lemma activeResponse_SomeD: "activeResponse order r = Some s \<Longrightarrow> \<exists>x. rs_sub r s = Some x"
  by (auto simp: activeResponse_def find_Some_iff)

lemma updateExtra_updateExtra [simp]: "updateExtra order f (updateExtra order g r) = updateExtra order (f \<circ> g) r"
proof (cases "activeResponse order r")
  case None
  then show ?thesis by (simp add: updateExtra_def)
next
  case (Some s)
  then have "activeResponse order (updateExtra order g r) = Some s" by simp
  then show ?thesis using Some by (simp add: updateExtra_def option.map_comp comp_def)
qed

lemma GetExtraFields_updateExtra:
  assumes "activeResponse getExtraOrder r \<noteq> None"
  shows "GetExtraFields (updateExtra getExtraOrder f r) = f (GetExtraFields r)"
proof -
  obtain s where s: "activeResponse getExtraOrder r = Some s" using assms by blast
  obtain x where "rs_sub r s = Some x" using activeResponse_SomeD [OF s] by blast
  with s show ?thesis by (simp add: GetExtraFields_def) (simp add: updateExtra_def)
qed

lemma stripRaw_removes:
  "(dropReq \<longrightarrow> xf_RawRequest (stripRaw dropReq dropResp x) = None)
   \<and> (dropResp \<longrightarrow> xf_RawResponse (stripRaw dropReq dropResp x) = None)"
  by (simp add: stripRaw_def Let_def)

lemma extraPopulate_overwrites:
  assumes "xf_RoutingInfo y = xf_RoutingInfo x" "xf_RawRequest y = xf_RawRequest x" "xf_RawResponse y = xf_RawResponse x"
  shows "extraPopulate t p m um y = extraPopulate t p m um x"
  using assms by (simp add: extraPopulate_def)

lemma extraPopulate_sel [simp]:
  "xf_RoutingInfo (extraPopulate t p m um x) = xf_RoutingInfo x"
  "xf_RawRequest (extraPopulate t p m um x) = xf_RawRequest x"
  "xf_RawResponse (extraPopulate t p m um x) = xf_RawResponse x"
  by (simp_all add: extraPopulate_def)

lemma extraPopulate_idem: "extraPopulate t p m um (extraPopulate t p m um x) = extraPopulate t p m um x"
  by (rule extraPopulate_overwrites) simp_all

section \<open>Properties\<close>

text \<open>
  What the core writes about a response is what its readers see: for a response with one
  sub-response, \<^verbatim>\<open>GetExtraFields\<close> after \<^verbatim>\<open>PopulateExtraFields\<close> returns the populated
  request type, provider, requested and resolved model, and the rest of the extra fields and the
  payload as before; populating again with the same values changes nothing, so whatever a plugin
  wrote over the four fields in between is undone.
\<close>

theorem response_metadata_authoritative:
  fixes tamper :: "extra_fields \<Rightarrow> extra_fields"
  assumes "\<forall>x. xf_RoutingInfo (tamper x) = xf_RoutingInfo x \<and> xf_RawRequest (tamper x) = xf_RawRequest x
             \<and> xf_RawResponse (tamper x) = xf_RawResponse x"
    and "r = singleResponse s x"
  shows "GetExtraFields (respPopulateExtraFields t p m um r) = extraPopulate t p m um (GetExtraFields r)
    \<and> respPopulateExtraFields t p m um (updateExtra getExtraOrder tamper (respPopulateExtraFields t p m um r))
        = respPopulateExtraFields t p m um r"
proof -
  let ?x = "extraPopulate t p m um (sp_Extra x)"
  have "extraPopulate t p m um (tamper ?x) = extraPopulate t p m um ?x"
    by (rule extraPopulate_overwrites) (use assms(1) in simp_all)
  then have "extraPopulate t p m um (tamper ?x) = ?x" by (simp add: extraPopulate_idem)
  then show ?thesis using assms(2) by (simp add: respPopulateExtraFields_def populateOrder_all getExtraOrder_all)
qed

theorem response_metadata_authoritative_witness:
  "xf_Provider (GetExtraFields (respPopulateExtraFields ChatCompletionRequest ''openai'' ''gpt'' []
     (singleResponse RspChat \<lparr>sp_Extra = zeroExtraFields, sp_payload = (0::nat)\<rparr>))) = ''openai''"
  using response_metadata_authoritative [of "\<lambda>x. x\<lparr>xf_Provider := ''evil''\<rparr>" _ RspChat
      "\<lparr>sp_Extra = zeroExtraFields, sp_payload = (0::nat)\<rparr>" ChatCompletionRequest "''openai''" "''gpt''" "[]"]
  by (simp add: extraPopulate_def)

end
