(* ===== verification/Retry.thy ===== *)
theory Retry
  imports RetryPolicy Response
begin

text \<open>
  The retry loop \<^verbatim>\<open>executeRequestWithRetries\<close> of \<^verbatim>\<open>core/bifrost.go\<close>: one definition per step
  of an attempt (choosing the key, resolving a pending rotation, the retry note and the backoff,
  sending the request, reading the outcome), the attempt, the loop and the function. The loop
  recurses on the attempts that are left, \<^verbatim>\<open>MaxRetries + 1\<close> of them.

  The provider call (\<^verbatim>\<open>requestHandler\<close>), the key provider, the jitter, the clock and the span
  identifiers come with the environment; the number of the attempt stands for the moment of the
  call. The provider call may set the model of the request it is given (the worker does, from the
  aliases of the key): \<open>re_req\<close> is the request before the run and \<open>re_reqAfter\<close> the request as a call
  with a key leaves it. What the loop does to the outside is kept in \<open>world\<close>: the context, the span events, the
  waits, and every call of the provider with its key and outcome.
\<close>

section \<open>State\<close>

text \<open>The type parameter T of the Go function: a response, or a stream of chunks.\<close>

datatype 'p attempt_result =
    ResponseResult "'p bifrost_response option"
  | StreamResult "'p chunk option list option"

record world =
  w_ctx :: bctx
  w_spans :: "span_event list"
  w_nextSpan :: nat
  w_sleeps :: "nanos list"
  w_calls :: "(key \<times> bifrost_error option) list"

record ('p, 'q) retry_env =
  re_handler :: "nat \<Rightarrow> key \<Rightarrow> bctx \<Rightarrow> 'p attempt_result \<times> bifrost_error option \<times> bctx"
  re_keyProvider :: "key_provider option"
  re_MaxRetries :: int
  re_BackoffInitial :: nanos
  re_BackoffMax :: nanos
  re_jitter :: "nat \<Rightarrow> int \<Rightarrow> int"
  re_spanID :: "nat \<Rightarrow> ctxval"
  re_nowMilli :: "nat \<Rightarrow> int"
  re_now :: "nat \<Rightarrow> ctxval"
  re_zero :: "'p attempt_result"
  re_requestType :: request_type
  re_provider :: string
  re_model :: string
  re_req :: "'q bifrost_request option"
  re_reqAfter :: "key \<Rightarrow> 'q bifrost_request option"

text \<open>The local variables of the function.\<close>

record 'p retry_locals =
  l_result :: "'p attempt_result"
  l_error :: "bifrost_error option"
  l_currentKey :: key
  l_used :: "string set"
  l_dead :: "string set"
  l_lastWasPerKeyFailure :: bool
  l_lastWasPermanentKeyFailure :: bool
  l_previousKeyID :: string
  l_pendingRotationAttemptIdx :: "nat option"

definition initLocals :: "('p, 'q) retry_env \<Rightarrow> 'p retry_locals" where
  "initLocals env =
     \<lparr>l_result = re_zero env, l_error = None, l_currentKey = zeroKey, l_used = {}, l_dead = {},
      l_lastWasPerKeyFailure = False, l_lastWasPermanentKeyFailure = False, l_previousKeyID = [],
      l_pendingRotationAttemptIdx = None\<rparr>"

definition onCtx :: "(bctx \<Rightarrow> bctx) \<Rightarrow> world \<Rightarrow> world" where
  "onCtx f w = w\<lparr>w_ctx := f (w_ctx w)\<rparr>"

definition addSpans :: "span_event list \<Rightarrow> world \<Rightarrow> world" where
  "addSpans es w = w\<lparr>w_spans := w_spans w @ es\<rparr>"

definition hasTracer :: "bctx \<Rightarrow> bool" where
  "hasTracer c = (case Value c BifrostContextKeyTracer of VTracer \<Rightarrow> True | _ \<Rightarrow> False)"

section \<open>Choosing the key\<close>

text \<open>The error when no key can be had.\<close>

definition keySelectionError :: "kp_error \<Rightarrow> bifrost_error" where
  "keySelectionError e =
     (case e of
        KPAllFiltered m \<Rightarrow>
          (newBifrostErrorFromMsg m)\<lparr>be_StatusCode := Some 503, be_Type := Some ''no_eligible_keys'',
            be_Error := Some \<lparr>ef_Type = Some ''no_eligible_keys'', ef_Code = None, ef_Message = m, ef_Error = None\<rparr>\<rparr>
      | KPAllDead m \<Rightarrow>
          (newBifrostErrorFromMsg m)\<lparr>be_StatusCode := Some 502, be_Type := Some ''upstream_credentials_exhausted'',
            be_Error := Some \<lparr>ef_Type = Some ''upstream_credentials_exhausted'', ef_Code = None, ef_Message = m,
              ef_Error = None\<rparr>\<rparr>
      | KPOther m \<Rightarrow> newBifrostErrorFromMsg m)"

definition clearSelectedKey :: "bctx \<Rightarrow> bctx" where
  "clearSelectedKey c =
     SetValue BifrostContextKeySelectedKeyName (VStr []) (SetValue BifrostContextKeySelectedKeyID (VStr []) c)"

text \<open>The span around the key selection; it is opened before the provider is asked.\<close>

definition keySelectionSpan ::
  "('p, 'q) retry_env \<Rightarrow> nat \<Rightarrow> kp_error + key \<Rightarrow> world \<Rightarrow> world" where
  "keySelectionSpan env n r w =
     (if \<not> hasTracer (w_ctx w) then w
      else
        (let h = w_nextSpan w;
             w1 = addSpans
               ([StartSpan h ''key.selection'' ''internal'',
                 SetAttribute h ''gen_ai.provider.name'' (AStr (OTelProviderName (re_provider env))),
                 SetAttribute h ''bifrost.provider.name'' (AStr (re_provider env)),
                 SetAttribute h ''gen_ai.request.model'' (AStr (re_model env))]
                @ (if n > 0 then [SetAttribute h ''retry.count'' (AInt (int n))] else []))
               (w\<lparr>w_nextSpan := Suc h\<rparr>)
         in case r of
              Inl e \<Rightarrow> addSpans [SetAttribute h ''error'' (AStr (kpErrorString e)),
                                 EndSpan h False (kpErrorString e)] w1
            | Inr k \<Rightarrow> onCtx (SetValue BifrostContextKeySpanID (re_spanID env h))
                (addSpans [SetAttribute h ''key.id'' (AStr (k_ID k)), SetAttribute h ''key.name'' (AStr (k_Name k)),
                           EndSpan h True []] w1)))"

text \<open>A pending rotation is confirmed when the new key differs from the one that failed.\<close>

definition markRotation :: "nat option \<Rightarrow> key \<Rightarrow> bctx \<Rightarrow> bctx" where
  "markRotation pending k c =
     (case pending of
        None \<Rightarrow> c
      | Some i \<Rightarrow>
         (case ctxTrail c BifrostContextKeyAttemptTrail of
            Some trail \<Rightarrow>
              if i < length trail \<and> at_KeyID (trail ! i) \<noteq> k_ID k
              then SetValue BifrostContextKeyAttemptTrail
                     (VTrail (trail[i := (trail ! i)\<lparr>at_TriggeredRotation := True\<rparr>])) c
              else c
          | None \<Rightarrow> c))"

text \<open>The key-selection step of attempt \<open>n\<close>: an early return, or the state with the key.\<close>

definition selectKeyStep ::
  "('p, 'q) retry_env \<Rightarrow> nat \<Rightarrow> 'p retry_locals \<Rightarrow> world \<Rightarrow> (bifrost_error \<times> world) + ('p retry_locals \<times> world)" where
  "selectKeyStep env n l w =
     (case re_keyProvider env of
        None \<Rightarrow> Inr (l, w)
      | Some kp \<Rightarrow>
         if n = 0 \<or> l_lastWasPerKeyFailure l then
           (case kp n (l_used l) (l_dead l) of (r, used') \<Rightarrow>
              (let w1 = keySelectionSpan env n r w
               in case r of
                    Inl e \<Rightarrow> Inl (keySelectionError e, onCtx clearSelectedKey w1)
                  | Inr k \<Rightarrow>
                      Inr (l\<lparr>l_used := used', l_currentKey := k, l_pendingRotationAttemptIdx := None\<rparr>,
                           onCtx (markRotation (l_pendingRotationAttemptIdx l) k
                             \<circ> SetValue BifrostContextKeySelectedKeyName (VStr (k_Name k))
                             \<circ> SetValue BifrostContextKeySelectedKeyID (VStr (k_ID k))) w1)))
         else Inr (l, w))"

section \<open>The steps of an attempt\<close>

definition startOfAttempt :: "('p, 'q) retry_env \<Rightarrow> nat \<Rightarrow> world \<Rightarrow> world" where
  "startOfAttempt env n w =
     onCtx ((\<lambda>c. if re_keyProvider env \<noteq> None \<and> n = 0
                 then SetValue BifrostContextKeyAttemptTrail (VTrail []) c else c)
            \<circ> SetValue BifrostContextKeyNumberOfRetries (VInt (int n))) w"

definition appendTrail :: "('p, 'q) retry_env \<Rightarrow> nat \<Rightarrow> key \<Rightarrow> world \<Rightarrow> world" where
  "appendTrail env n k w =
     (if re_keyProvider env = None then w
      else onCtx (AppendAttemptToContextList BifrostContextKeyAttemptTrail
             \<lparr>at_Attempt = int n, at_KeyID = k_ID k, at_KeyName = k_Name k, at_FailReason = None,
              at_TriggeredRotation = False\<rparr>) w)"

definition keyChanged :: "('p, 'q) retry_env \<Rightarrow> 'p retry_locals \<Rightarrow> bool" where
  "keyChanged env l \<longleftrightarrow> re_keyProvider env \<noteq> None \<and> k_ID (l_currentKey l) \<noteq> l_previousKeyID l"

definition retryMessage :: "('p, 'q) retry_env \<Rightarrow> nat \<Rightarrow> 'p retry_locals \<Rightarrow> string" where
  "retryMessage env n l =
     (let keyNote = (if re_keyProvider env \<noteq> None
            then ''; '' @ (if keyChanged env l then ''rotated key'' else ''same key'') @ ''='' @ k_Name (l_currentKey l)
            else [])
      in ''Retry '' @ itoa (int n) @ ''/'' @ itoa (re_MaxRetries env) @ '' for '' @ re_provider env @ ''/''
         @ re_model env @ '' (previous attempt failed: '' @ routingErrorSummary (l_error l) @ keyNote @ '')'')"

text \<open>The note and the wait before attempt \<open>n > 0\<close>.\<close>

definition retryNote :: "('p, 'q) retry_env \<Rightarrow> nat \<Rightarrow> 'p retry_locals \<Rightarrow> world \<Rightarrow> world" where
  "retryNote env n l w =
     (if n = 0 then w
      else
        (let w1 = onCtx (AppendRoutingEngineLog (re_nowMilli env n) RoutingEngineCore LogLevelInfo (retryMessage env n l)
                    \<circ> AppendStringToContextList BifrostContextKeyRoutingEnginesUsed RoutingEngineCore) w
         in if \<not> (l_lastWasPermanentKeyFailure l \<and> keyChanged env l)
            then w1\<lparr>w_sleeps := w_sleeps w1
                    @ [calculateBackoff (re_jitter env n) (n - 1) (re_BackoffInitial env) (re_BackoffMax env)]\<rparr>
            else w1))"

text \<open>Opening the span of the attempt.\<close>

definition openAttempt :: "('p, 'q) retry_env \<Rightarrow> nat \<Rightarrow> world \<Rightarrow> nat \<times> world" where
  "openAttempt env n w =
     (let h = w_nextSpan w;
          w1 = addSpans (attemptSpanStart h n (re_requestType env) (re_provider env) (re_model env)
                         @ contextAttributes h (w_ctx w) n
                         @ (if re_req env \<noteq> None then [PopulateLLMRequest h] else []))
                 (w\<lparr>w_nextSpan := Suc h\<rparr>)
      in (h, onCtx ((\<lambda>c. if IsStreamRequestType (re_requestType env)
                         then SetValue BifrostContextKeyStreamStartTime (re_now env n) c else c)
                    \<circ> SetValue BifrostContextKeySpanID (re_spanID env h)) w1))"

text \<open>A stream that starts with an error is an error; the channel is otherwise replaced by the
  wrapped one.\<close>

definition checkResult ::
  "'p attempt_result \<Rightarrow> bifrost_error option \<Rightarrow> 'p attempt_result \<times> bifrost_error option" where
  "checkResult res err =
     (case (err, res) of
        (None, StreamResult (Some chunks)) \<Rightarrow>
          (case CheckFirstStreamChunkForError chunks of
             Inl e \<Rightarrow> (res, Some e)
           | Inr wrapped \<Rightarrow> (StreamResult wrapped, None))
      | _ \<Rightarrow> (res, err))"

definition resolvedModelUsed :: "('p, 'q) retry_env \<Rightarrow> key \<Rightarrow> string" where
  "resolvedModelUsed env k =
     (case re_reqAfter env k of
        None \<Rightarrow> re_model env
      | Some r \<Rightarrow> (case GetRequestFields r of (_, rm, _) \<Rightarrow> if rm \<noteq> [] then rm else re_model env))"

text \<open>Ending the span: deferred for a live stream.\<close>

definition closeAttempt ::
  "('p, 'q) retry_env \<Rightarrow> nat \<Rightarrow> key \<Rightarrow> 'p attempt_result \<Rightarrow> bifrost_error option \<Rightarrow> world
   \<Rightarrow> 'p attempt_result \<times> world" where
  "closeAttempt env h k res err w =
     (case (err, res) of
        (None, StreamResult (Some _)) \<Rightarrow>
          (res, case ctxString (w_ctx w) BifrostContextKeyTraceID of
                  Some i \<Rightarrow> if i \<noteq> [] then addSpans [StoreDeferredSpan i h] w else w
                | None \<Rightarrow> w)
      | _ \<Rightarrow>
          (let populated = (case res of
                   ResponseResult (Some r) \<Rightarrow>
                     ResponseResult (Some (respPopulateExtraFields (re_requestType env) (re_provider env)
                       (re_model env) (resolvedModelUsed env k) r))
                 | _ \<Rightarrow> res);
               w1 = (case res of ResponseResult _ \<Rightarrow> addSpans [PopulateLLMResponse h] w | _ \<Rightarrow> w)
           in (populated,
               case err of
                 Some e \<Rightarrow> addSpans (attemptSpanError h e) w1
               | None \<Rightarrow> addSpans [EndSpan h True []] w1)))"

text \<open>The reason of the failure goes into the last record of the trail.\<close>

definition setFailReason :: "bifrost_error \<Rightarrow> bctx \<Rightarrow> bctx" where
  "setFailReason e c =
     (case ctxTrail c BifrostContextKeyAttemptTrail of
        Some trail \<Rightarrow>
          if trail \<noteq> [] then
            SetValue BifrostContextKeyAttemptTrail
              (VTrail (trail[length trail - 1 := (last trail)\<lparr>at_FailReason := Some (failReason e)\<rparr>])) c
          else c
      | None \<Rightarrow> c)"

text \<open>What the next attempt has to know.\<close>

definition trackKeyState ::
  "('p, 'q) retry_env \<Rightarrow> nat \<Rightarrow> bifrost_error \<Rightarrow> bctx \<Rightarrow> 'p retry_locals \<Rightarrow> 'p retry_locals" where
  "trackKeyState env n e c l =
     (let perKey = isPerKeyFailure e;
          permanent = perKey \<and> re_keyProvider env \<noteq> None \<and> isPermanentStatus e;
          i = k_ID (l_currentKey l);
          l1 = (if perKey \<and> re_keyProvider env \<noteq> None
                then (if permanent then l\<lparr>l_dead := insert i (l_dead l)\<rparr>
                      else l\<lparr>l_used := insert i (l_used l)\<rparr>)
                else l);
          l2 = l1\<lparr>l_lastWasPerKeyFailure := perKey, l_lastWasPermanentKeyFailure := permanent,
                  l_previousKeyID := i\<rparr>
      in if perKey \<and> re_keyProvider env \<noteq> None \<and> int n < re_MaxRetries env
         then (case ctxTrail c BifrostContextKeyAttemptTrail of
                 Some trail \<Rightarrow> if trail \<noteq> [] then l2\<lparr>l_pendingRotationAttemptIdx := Some (length trail - 1)\<rparr> else l2
               | None \<Rightarrow> l2)
         else l2)"

section \<open>The loop\<close>

text \<open>How an attempt ends: an early return, leaving the loop, or going on.\<close>

datatype 'p attempt_end =
    EarlyReturn "'p attempt_result" bifrost_error world
  | LeaveLoop "'p retry_locals" world
  | NextAttempt "'p retry_locals" world

definition sendRequest ::
  "('p, 'q) retry_env \<Rightarrow> nat \<Rightarrow> 'p retry_locals \<Rightarrow> world \<Rightarrow> 'p retry_locals \<times> world" where
  "sendRequest env n l w =
     (case openAttempt env n w of (h, w1) \<Rightarrow>
        (case re_handler env n (l_currentKey l) (w_ctx w1) of (res, err, ctx') \<Rightarrow>
           (case checkResult res err of (res', err') \<Rightarrow>
              (let w2 = w1\<lparr>w_ctx := ctx', w_calls := w_calls w1 @ [(l_currentKey l, err')]\<rparr>
               in case closeAttempt env h (l_currentKey l) res' err' w2 of (res'', w3) \<Rightarrow>
                    (l\<lparr>l_result := res'', l_error := err'\<rparr>, w3)))))"

definition afterRequest ::
  "('p, 'q) retry_env \<Rightarrow> nat \<Rightarrow> 'p retry_locals \<Rightarrow> world \<Rightarrow> 'p attempt_end" where
  "afterRequest env n l w =
     (case l_error l of
        None \<Rightarrow> LeaveLoop l w
      | Some e \<Rightarrow>
         if be_IsBifrostError e \<or> isCancelledError e then LeaveLoop l w
         else
           (let w1 = onCtx (setFailReason e) w
            in if \<not> shouldRetryError e (re_req env) then LeaveLoop l w1
               else NextAttempt (trackKeyState env n e (w_ctx w1) l) w1))"

definition retryAttempt ::
  "('p, 'q) retry_env \<Rightarrow> nat \<Rightarrow> 'p retry_locals \<Rightarrow> world \<Rightarrow> 'p attempt_end" where
  "retryAttempt env n l w =
     (case selectKeyStep env n l (startOfAttempt env n w) of
        Inl (e, w1) \<Rightarrow> EarlyReturn (re_zero env) e w1
      | Inr (l1, w1) \<Rightarrow>
         (let w2 = retryNote env n l1 (appendTrail env n (l_currentKey l1) w1)
          in if \<not> hasTracer (w_ctx w2)
             then EarlyReturn (l_result l1) (newBifrostErrorFromMsg ''tracer not found in context'') w2
             else (case sendRequest env n l1 w2 of (l2, w3) \<Rightarrow> afterRequest env n l2 w3)))"

text \<open>After the loop: on an error the selected key is cleared.\<close>

definition finishLoop ::
  "('p, 'q) retry_env \<Rightarrow> nat \<Rightarrow> 'p retry_locals \<Rightarrow> world
   \<Rightarrow> 'p attempt_result \<times> bifrost_error option \<times> nat \<times> world" where
  "finishLoop env n l w =
     (l_result l, l_error l, n,
      if l_error l \<noteq> None \<and> re_keyProvider env \<noteq> None then onCtx clearSelectedKey w else w)"

text \<open>The loop from attempt \<open>n\<close> with \<open>left\<close> attempts to go: the results, the value of the variable
  \<^verbatim>\<open>attempts\<close> at the return, and the world.\<close>

fun retryLoop ::
  "('p, 'q) retry_env \<Rightarrow> nat \<Rightarrow> nat \<Rightarrow> 'p retry_locals \<Rightarrow> world
   \<Rightarrow> 'p attempt_result \<times> bifrost_error option \<times> nat \<times> world" where
  "retryLoop env 0 n l w = finishLoop env n l w"
| "retryLoop env (Suc left) n l w =
     (case retryAttempt env n l w of
        EarlyReturn res e w' \<Rightarrow> (res, Some e, n, w')
      | LeaveLoop l' w' \<Rightarrow> finishLoop env n l' w'
      | NextAttempt l' w' \<Rightarrow> retryLoop env left (Suc n) l' w')"

text \<open>The deferred entry of the routing log.\<close>

definition terminalMessage ::
  "('p, 'q) retry_env \<Rightarrow> nat \<Rightarrow> bifrost_error option \<Rightarrow> log_level \<times> string" where
  "terminalMessage env n err =
     (let target = re_provider env @ ''/'' @ re_model env
      in case err of
           None \<Rightarrow> (LogLevelInfo, ''Request to '' @ target @ '' succeeded after '' @ itoa (int n) @ '' retry attempt(s)'')
         | Some e \<Rightarrow>
            if be_IsBifrostError e then
              (LogLevelError, ''Retries halted for '' @ target @ '' after '' @ itoa (int n)
                 @ '' attempt(s): internal Bifrost error ('' @ routingErrorSummary (Some e) @ '')'')
            else if isCancelledError e then
              (LogLevelError, ''Request to '' @ target @ '' cancelled after '' @ itoa (int n) @ '' attempt(s)'')
            else
              (LogLevelError, ''Retries exhausted for '' @ target @ '' after '' @ itoa (int n)
                 @ '' attempt(s); last error: '' @ routingErrorSummary (Some e)))"

definition terminalLog :: "('p, 'q) retry_env \<Rightarrow> nat \<Rightarrow> bifrost_error option \<Rightarrow> world \<Rightarrow> world" where
  "terminalLog env n err w =
     (if n = 0 then w
      else (case terminalMessage env n err of (level, msg) \<Rightarrow>
        onCtx (AppendRoutingEngineLog (re_nowMilli env n) RoutingEngineCore level msg
               \<circ> AppendStringToContextList BifrostContextKeyRoutingEnginesUsed RoutingEngineCore) w))"

definition executeRequestWithRetries ::
  "('p, 'q) retry_env \<Rightarrow> world \<Rightarrow> 'p attempt_result \<times> bifrost_error option \<times> world" where
  "executeRequestWithRetries env w =
     (case retryLoop env (nat (re_MaxRetries env + 1)) 0 (initLocals env) w of
        (res, err, n, w') \<Rightarrow> (res, err, terminalLog env n err w'))"

section \<open>What each step leaves alone\<close>

lemma onCtx_sel [simp]:
  "w_ctx (onCtx f w) = f (w_ctx w)" "w_calls (onCtx f w) = w_calls w"
  "w_sleeps (onCtx f w) = w_sleeps w" "w_spans (onCtx f w) = w_spans w"
  "w_nextSpan (onCtx f w) = w_nextSpan w"
  by (simp_all add: onCtx_def)

lemma addSpans_sel [simp]:
  "w_ctx (addSpans es w) = w_ctx w" "w_calls (addSpans es w) = w_calls w"
  "w_sleeps (addSpans es w) = w_sleeps w" "w_nextSpan (addSpans es w) = w_nextSpan w"
  by (simp_all add: addSpans_def)

text \<open>The part of the context the loop depends on: writable, with a tracer, and the value of the
  keys other than those a step is known to write.\<close>

definition sameExcept :: "ctxkey set \<Rightarrow> bctx \<Rightarrow> bctx \<Rightarrow> bool" where
  "sameExcept K c c' \<longleftrightarrow>
     bc_blockRestrictedWrites c' = bc_blockRestrictedWrites c \<and> (\<forall>k. k \<notin> K \<longrightarrow> Value c' k = Value c k)"

lemma sameExcept_refl [simp]: "sameExcept K c c"
  by (simp add: sameExcept_def)

lemma sameExcept_trans: "sameExcept K c c' \<Longrightarrow> sameExcept K' c' c'' \<Longrightarrow> sameExcept (K \<union> K') c c''"
  by (simp add: sameExcept_def)

lemma sameExcept_mono: "sameExcept K c c' \<Longrightarrow> K \<subseteq> K' \<Longrightarrow> sameExcept K' c c'"
  by (auto simp: sameExcept_def)

lemma sameExcept_Value: "sameExcept K c c' \<Longrightarrow> k \<notin> K \<Longrightarrow> Value c' k = Value c k"
  by (simp add: sameExcept_def)

lemma sameExcept_block: "sameExcept K c c' \<Longrightarrow> bc_blockRestrictedWrites c' = bc_blockRestrictedWrites c"
  by (simp add: sameExcept_def)

lemma sameExcept_SetValue: "sameExcept {k} c (SetValue k v c)"
  by (simp add: sameExcept_def Value_SetValue)

lemma sameExcept_SetValue': "sameExcept K c c' \<Longrightarrow> sameExcept (insert k K) c (SetValue k v c')"
  by (simp add: sameExcept_def Value_SetValue)

lemma sameExcept_log:
  "sameExcept {BifrostContextKeyRoutingEnginesUsed, BifrostContextKeyRoutingEngineLogs} c
     (AppendRoutingEngineLog t e lvl m (AppendStringToContextList BifrostContextKeyRoutingEnginesUsed x c))"
  by (auto simp: sameExcept_def AppendRoutingEngineLog_def AppendLogToContextList_def
      AppendStringToContextList_def Let_def Value_SetValue split: ctxval.splits)

abbreviation trailOf :: "world \<Rightarrow> attempt_record list option" where
  "trailOf w \<equiv> ctxTrail (w_ctx w) BifrostContextKeyAttemptTrail"

lemma ctxTrail_cong: "Value c k = Value c' k \<Longrightarrow> ctxTrail c k = ctxTrail c' k"
  by (simp add: ctxTrail_def)

lemma hasTracer_cong: "Value c BifrostContextKeyTracer = Value c' BifrostContextKeyTracer \<Longrightarrow> hasTracer c = hasTracer c'"
  by (simp add: hasTracer_def)

lemma ctxTrail_SetValue:
  "\<not> bc_blockRestrictedWrites c \<Longrightarrow>
   ctxTrail (SetValue k v c) k' = (if k' = k then (case v of VTrail x \<Rightarrow> Some x | _ \<Rightarrow> None) else ctxTrail c k')"
  by (simp add: ctxTrail_def Value_SetValue)

lemma keySelectionSpan_sel [simp]:
  "w_calls (keySelectionSpan env n r w) = w_calls w" "w_sleeps (keySelectionSpan env n r w) = w_sleeps w"
  by (simp_all add: keySelectionSpan_def Let_def split: sum.split)

lemma keySelectionSpan_ctx:
  "sameExcept {BifrostContextKeySpanID} (w_ctx w) (w_ctx (keySelectionSpan env n r w))"
  by (simp add: keySelectionSpan_def Let_def sameExcept_SetValue split: sum.split)

lemma retryNote_sel [simp]: "w_calls (retryNote env n l w) = w_calls w"
  by (simp add: retryNote_def Let_def)

lemma retryNote_ctx:
  "sameExcept {BifrostContextKeyRoutingEnginesUsed, BifrostContextKeyRoutingEngineLogs}
     (w_ctx w) (w_ctx (retryNote env n l w))"
  by (simp add: retryNote_def Let_def sameExcept_log)

lemma openAttempt_sel:
  assumes "openAttempt env n w = (h, w')"
  shows "w_calls w' = w_calls w" "w_sleeps w' = w_sleeps w"
    "sameExcept {BifrostContextKeyStreamStartTime, BifrostContextKeySpanID} (w_ctx w) (w_ctx w')"
proof -
  show "w_calls w' = w_calls w" "w_sleeps w' = w_sleeps w"
    using assms by (auto simp: openAttempt_def Let_def)
  show "sameExcept {BifrostContextKeyStreamStartTime, BifrostContextKeySpanID} (w_ctx w) (w_ctx w')"
    using assms
    by (auto simp: openAttempt_def Let_def intro!: sameExcept_SetValue' sameExcept_mono [OF sameExcept_SetValue])
qed

lemma closeAttempt_sel:
  assumes "closeAttempt env h k res err w = (res', w')"
  shows "w_calls w' = w_calls w" "w_sleeps w' = w_sleeps w" "w_ctx w' = w_ctx w"
  using assms
  by (auto simp: closeAttempt_def Let_def
      split: option.splits attempt_result.splits prod.splits if_splits)

section \<open>The trail of a run\<close>

definition attemptReason :: "bifrost_error option \<Rightarrow> string option" where
  "attemptReason oc =
     (case oc of None \<Rightarrow> None
      | Some e \<Rightarrow> if be_IsBifrostError e \<or> isCancelledError e then None else Some (failReason e))"

definition rotatedAfter :: "(key \<times> bifrost_error option) list \<Rightarrow> nat \<Rightarrow> bool" where
  "rotatedAfter cs i \<longleftrightarrow> Suc i < length cs
     \<and> (case snd (cs ! i) of Some e \<Rightarrow> isPerKeyFailure e | None \<Rightarrow> False)
     \<and> k_ID (fst (cs ! Suc i)) \<noteq> k_ID (fst (cs ! i))"

definition expectedRecord :: "(key \<times> bifrost_error option) list \<Rightarrow> nat \<Rightarrow> attempt_record" where
  "expectedRecord cs i =
     \<lparr>at_Attempt = int i, at_KeyID = k_ID (fst (cs ! i)), at_KeyName = k_Name (fst (cs ! i)),
      at_FailReason = attemptReason (snd (cs ! i)), at_TriggeredRotation = rotatedAfter cs i\<rparr>"

definition expectedTrail :: "(key \<times> bifrost_error option) list \<Rightarrow> attempt_record list" where
  "expectedTrail cs = map (expectedRecord cs) [0..<length cs]"

definition lastPerKey :: "(key \<times> bifrost_error option) list \<Rightarrow> bool" where
  "lastPerKey cs \<longleftrightarrow> cs \<noteq> [] \<and> (case snd (last cs) of Some e \<Rightarrow> isPerKeyFailure e | None \<Rightarrow> False)"

definition deadIDs :: "(key \<times> bifrost_error option) list \<Rightarrow> string set" where
  "deadIDs cs = {k_ID k |k e. (k, Some e) \<in> set cs \<and> isPermanentStatus e}"

text \<open>No call uses a key on which an earlier call failed for good.\<close>

definition deadSafe :: "(key \<times> bifrost_error option) list \<Rightarrow> bool" where
  "deadSafe cs \<longleftrightarrow> (\<forall>i<length cs. k_ID (fst (cs ! i)) \<notin> deadIDs (take i cs))"

text \<open>The waits a run owes: one before every call but the first, except where the call before failed
  for good on its key and this one uses another key.\<close>

definition waits :: "(key \<times> bifrost_error option) list \<Rightarrow> nat" where
  "waits cs = length (filter (\<lambda>i. \<not> ((case snd (cs ! i) of Some e \<Rightarrow> isPermanentStatus e | None \<Rightarrow> False)
     \<and> k_ID (fst (cs ! Suc i)) \<noteq> k_ID (fst (cs ! i)))) [0..<length cs - 1])"

lemma waits_Nil [simp]: "waits [] = 0"
  by (simp add: waits_def)

lemma waits_snoc:
  "waits (cs @ [(k, oc)]) = waits cs +
     (if cs = [] \<or> ((case snd (last cs) of Some e \<Rightarrow> isPermanentStatus e | None \<Rightarrow> False)
        \<and> k_ID k \<noteq> k_ID (fst (last cs))) then 0 else 1)"
proof (cases "cs = []")
  case False
  then obtain m where m: "length cs = Suc m" by (cases cs) auto
  have same: "filter (\<lambda>i. \<not> ((case snd ((cs @ [(k, oc)]) ! i) of Some e \<Rightarrow> isPermanentStatus e | None \<Rightarrow> False)
       \<and> k_ID (fst ((cs @ [(k, oc)]) ! Suc i)) \<noteq> k_ID (fst ((cs @ [(k, oc)]) ! i)))) [0..<m]
     = filter (\<lambda>i. \<not> ((case snd (cs ! i) of Some e \<Rightarrow> isPermanentStatus e | None \<Rightarrow> False)
       \<and> k_ID (fst (cs ! Suc i)) \<noteq> k_ID (fst (cs ! i)))) [0..<m]"
    by (rule filter_cong) (simp_all add: nth_append m)
  have "last cs = cs ! m" using False m by (simp add: last_conv_nth)
  with False m same show ?thesis by (simp add: waits_def nth_append)
qed (simp add: waits_def)

lemma expectedTrail_simps [simp]:
  "expectedTrail [] = []" "length (expectedTrail cs) = length cs"
  "i < length cs \<Longrightarrow> expectedTrail cs ! i = expectedRecord cs i"
  by (simp_all add: expectedTrail_def)

lemma deadIDs_snoc: "deadIDs (cs @ [(k, oc)]) =
    deadIDs cs \<union> (case oc of Some e \<Rightarrow> if isPermanentStatus e then {k_ID k} else {} | None \<Rightarrow> {})"
  by (auto simp: deadIDs_def split: option.splits)

lemma deadIDs_I: "c \<in> set cs \<Longrightarrow> snd c = Some e \<Longrightarrow> isPermanentStatus e \<Longrightarrow> k_ID (fst c) \<in> deadIDs cs"
  by (cases c) (auto simp: deadIDs_def)

lemma deadIDs_E:
  assumes "i \<in> deadIDs cs"
  obtains c e where "c \<in> set cs" "k_ID (fst c) = i" "snd c = Some e" "isPermanentStatus e"
  using assms by (force simp: deadIDs_def)

lemma deadIDs_Nil [simp]: "deadIDs [] = {}"
  by (simp add: deadIDs_def)

lemma deadSafe_Nil [simp]: "deadSafe []"
  by (simp add: deadSafe_def)

lemma deadSafe_snoc: "deadSafe (cs @ [c]) \<longleftrightarrow> deadSafe cs \<and> k_ID (fst c) \<notin> deadIDs cs"
  by (auto simp: deadSafe_def nth_append less_Suc_eq)

lemma permanent_perKey: "isPermanentStatus e \<Longrightarrow> isPerKeyFailure e"
  by (auto simp: isPermanentStatus_def isPerKeyFailure_def perKeyFailureStatusCodes_def split: option.splits)

lemma last_snoc_conv: "cs \<noteq> [] \<Longrightarrow> cs = butlast cs @ [last cs]"
  by simp

lemma last_alive:
  assumes "cs \<noteq> []" "deadSafe cs" "\<not> lastPerKey cs"
  shows "k_ID (fst (last cs)) \<notin> deadIDs cs"
proof -
  obtain k oc' where l: "last cs = (k, oc')" by fastforce
  then have cs: "cs = butlast cs @ [(k, oc')]" using assms(1) by (metis append_butlast_last_id)
  have "k_ID k \<notin> deadIDs (butlast cs)" using assms(2) cs deadSafe_snoc [of "butlast cs" "(k, oc')"] by simp
  moreover have "\<not> isPermanentStatus e" if "oc' = Some e" for e
    using assms(1,3) l that permanent_perKey by (auto simp: lastPerKey_def)
  ultimately show ?thesis using deadIDs_snoc [of "butlast cs" k oc'] cs l by (auto split: option.splits)
qed

text \<open>How one more call changes the trail: the rotation mark on the record before, and a record.\<close>

definition markLast :: "(key \<times> bifrost_error option) list \<Rightarrow> key \<Rightarrow> attempt_record list \<Rightarrow> attempt_record list" where
  "markLast cs k tr =
     (if lastPerKey cs \<and> k_ID k \<noteq> k_ID (fst (last cs))
      then tr[length cs - 1 := (tr ! (length cs - 1))\<lparr>at_TriggeredRotation := True\<rparr>] else tr)"

lemma expectedTrail_snoc:
  "expectedTrail (cs @ [(k, oc)]) = markLast cs k (expectedTrail cs) @
     [\<lparr>at_Attempt = int (length cs), at_KeyID = k_ID k, at_KeyName = k_Name k,
       at_FailReason = attemptReason oc, at_TriggeredRotation = False\<rparr>]"
    (is "_ = ?m @ [?r]")
proof (rule nth_equalityI)
  have len: "length ?m = length cs" by (simp add: markLast_def)
  then show "length (expectedTrail (cs @ [(k, oc)])) = length (?m @ [?r])" by simp
  fix i assume i: "i < length (expectedTrail (cs @ [(k, oc)]))"
  consider (new) "i = length cs" | (lst) "Suc i = length cs" | (old) "Suc i < length cs"
    using i by fastforce
  then show "expectedTrail (cs @ [(k, oc)]) ! i = (?m @ [?r]) ! i"
  proof cases
    case new
    then show ?thesis using len by (simp add: nth_append expectedRecord_def rotatedAfter_def)
  next
    case lst
    then have "cs \<noteq> []" by auto
    moreover have "i = length cs - 1" using lst by simp
    ultimately have "last cs = cs ! i" by (simp add: last_conv_nth)
    note \<open>cs \<noteq> []\<close> this
    with lst [symmetric] len show ?thesis
      by (auto simp: nth_append markLast_def expectedRecord_def rotatedAfter_def lastPerKey_def)
  next
    case old
    then have "?m ! i = expectedRecord cs i" by (simp add: markLast_def)
    with old len show ?thesis
      by (simp add: nth_append expectedRecord_def rotatedAfter_def)
  qed
qed

section \<open>One attempt\<close>

text \<open>What the provider call leaves alone: the loop's own entries of the context.\<close>

definition handlerFrame :: "('p, 'q) retry_env \<Rightarrow> bool" where
  "handlerFrame env \<longleftrightarrow> (\<forall>n k c res err c'. re_handler env n k c = (res, err, c') \<longrightarrow>
     bc_blockRestrictedWrites c' = bc_blockRestrictedWrites c
     \<and> (\<forall>x\<in>{BifrostContextKeyAttemptTrail, BifrostContextKeyTracer, BifrostContextKeySelectedKeyID,
            BifrostContextKeySelectedKeyName}. Value c' x = Value c x))"

definition loopInv :: "('p, 'q) retry_env \<Rightarrow> nat \<Rightarrow> 'p retry_locals \<Rightarrow> world \<Rightarrow> bool" where
  "loopInv env n l w \<longleftrightarrow>
     \<not> bc_blockRestrictedWrites (w_ctx w) \<and> hasTracer (w_ctx w) \<and> length (w_calls w) = n
     \<and> l_dead l = deadIDs (w_calls w) \<and> deadSafe (w_calls w) \<and> length (w_sleeps w) = waits (w_calls w)
     \<and> (if n = 0 then l_pendingRotationAttemptIdx l = None
        else trailOf w = Some (expectedTrail (w_calls w))
          \<and> Value (w_ctx w) BifrostContextKeySelectedKeyID = VStr (k_ID (l_currentKey l))
          \<and> (\<exists>e. last (w_calls w) = (l_currentKey l, Some e) \<and> l_error l = Some e
              \<and> l_lastWasPerKeyFailure l = isPerKeyFailure e
              \<and> l_lastWasPermanentKeyFailure l = isPermanentStatus e
              \<and> l_previousKeyID l = k_ID (l_currentKey l)
              \<and> l_pendingRotationAttemptIdx l =
                  (if isPerKeyFailure e \<and> int n \<le> re_MaxRetries env then Some (n - 1) else None)))"

lemma startOfAttempt_sel [simp]:
  "w_calls (startOfAttempt env n w) = w_calls w" "w_sleeps (startOfAttempt env n w) = w_sleeps w"
  by (simp_all add: startOfAttempt_def)

lemma startOfAttempt_ctx:
  "sameExcept {BifrostContextKeyAttemptTrail, BifrostContextKeyNumberOfRetries}
     (w_ctx w) (w_ctx (startOfAttempt env n w))"
  by (auto simp: startOfAttempt_def sameExcept_def Value_SetValue)

lemma startOfAttempt_trail:
  "\<not> bc_blockRestrictedWrites (w_ctx w) \<Longrightarrow> re_keyProvider env \<noteq> None \<Longrightarrow>
   trailOf (startOfAttempt env n w) = (if n = 0 then Some [] else trailOf w)"
  by (simp add: startOfAttempt_def ctxTrail_SetValue)

text \<open>The context after the key of an attempt is known: the trail so far with the rotation mark,
  and the selected key.\<close>

definition keyChosen :: "world \<Rightarrow> key \<Rightarrow> world \<Rightarrow> bool" where
  "keyChosen w k w1 \<longleftrightarrow>
     \<not> bc_blockRestrictedWrites (w_ctx w1) \<and> hasTracer (w_ctx w1)
     \<and> w_calls w1 = w_calls w \<and> w_sleeps w1 = w_sleeps w
     \<and> trailOf w1 = Some (markLast (w_calls w) k (expectedTrail (w_calls w)))
     \<and> Value (w_ctx w1) BifrostContextKeySelectedKeyID = VStr (k_ID k)
     \<and> k_ID k \<notin> deadIDs (w_calls w)"

lemma markRotation_ctx: "sameExcept {BifrostContextKeyAttemptTrail} c (markRotation p k c)"
  by (auto simp: markRotation_def sameExcept_SetValue split: option.split)

lemma markRotation_trail:
  assumes "\<not> bc_blockRestrictedWrites c" "ctxTrail c BifrostContextKeyAttemptTrail = Some (expectedTrail cs)"
    and "p = (if lastPerKey cs then Some (length cs - 1) else None)"
  shows "ctxTrail (markRotation p k c) BifrostContextKeyAttemptTrail = Some (markLast cs k (expectedTrail cs))"
proof (cases "lastPerKey cs")
  case True
  then have ne: "cs \<noteq> []" by (simp add: lastPerKey_def)
  then have "at_KeyID (expectedTrail cs ! (length cs - 1)) = k_ID (fst (last cs))"
    by (simp add: expectedRecord_def last_conv_nth)
  with True ne assms show ?thesis by (auto simp: markRotation_def markLast_def ctxTrail_SetValue)
next
  case False
  with assms show ?thesis by (simp add: markRotation_def markLast_def)
qed

lemma lastPerKey_inv:
  "loopInv env n l w \<Longrightarrow> 0 < n \<Longrightarrow> l_lastWasPerKeyFailure l = lastPerKey (w_calls w)"
  by (auto simp: loopInv_def lastPerKey_def)

lemma inv_trail:
  assumes "loopInv env n l w" "re_keyProvider env \<noteq> None"
  shows "trailOf (startOfAttempt env n w) = Some (expectedTrail (w_calls w))"
  using assms by (auto simp: loopInv_def startOfAttempt_trail)

lemma inv_pending:
  assumes "loopInv env n l w" "int n \<le> re_MaxRetries env"
  shows "l_pendingRotationAttemptIdx l = (if lastPerKey (w_calls w) then Some (length (w_calls w) - 1) else None)"
  using assms by (cases "n = 0") (auto simp: loopInv_def lastPerKey_def)

lemma selectKeyStep_chosen:
  assumes inv: "loopInv env n l w" and n: "int n \<le> re_MaxRetries env"
    and kp: "re_keyProvider env = Some kp" "respectsDead kp"
    and step: "selectKeyStep env n l (startOfAttempt env n w) = Inr (l1, w1)"
  shows "keyChosen w (l_currentKey l1) w1 \<and> l_dead l1 = l_dead l \<and> l_result l1 = l_result l \<and> l_error l1 = l_error l
    \<and> l_previousKeyID l1 = l_previousKeyID l \<and> l_lastWasPermanentKeyFailure l1 = l_lastWasPermanentKeyFailure l
    \<and> (\<not> lastPerKey (w_calls w) \<and> 0 < n \<longrightarrow> l_currentKey l1 = l_currentKey l)
    \<and> l_pendingRotationAttemptIdx l1 = None"
proof -
  let ?w0 = "startOfAttempt env n w"
  have open0: "\<not> bc_blockRestrictedWrites (w_ctx ?w0)"
    using inv sameExcept_block [OF startOfAttempt_ctx [where w = w and env = env and n = n]] by (simp add: loopInv_def)
  have tracer0: "hasTracer (w_ctx ?w0)"
    using inv hasTracer_cong [OF sameExcept_Value [OF startOfAttempt_ctx [where w = w and env = env and n = n], of BifrostContextKeyTracer]]
    by (simp add: loopInv_def)
  have trail0: "trailOf ?w0 = Some (expectedTrail (w_calls w))"
    using inv kp(1) by (simp add: inv_trail)
  note pending = inv_pending [OF inv n]
  show ?thesis
  proof (cases "n = 0 \<or> l_lastWasPerKeyFailure l")
    case True
    then obtain k used' where r: "kp n (l_used l) (l_dead l) = (Inr k, used')"
      and l1: "l1 = l\<lparr>l_used := used', l_currentKey := k, l_pendingRotationAttemptIdx := None\<rparr>"
      and w1: "w1 = onCtx (markRotation (l_pendingRotationAttemptIdx l) k
                 \<circ> SetValue BifrostContextKeySelectedKeyName (VStr (k_Name k))
                 \<circ> SetValue BifrostContextKeySelectedKeyID (VStr (k_ID k))) (keySelectionSpan env n (Inr k) ?w0)"
      using step kp(1)
      by (auto simp: selectKeyStep_def Let_def split: prod.splits sum.splits)
    define c where "c = w_ctx (keySelectionSpan env n (Inr k) ?w0)"
    have c: "sameExcept {BifrostContextKeySpanID} (w_ctx ?w0) c"
      unfolding c_def by (rule keySelectionSpan_ctx)
    define c' where "c' = SetValue BifrostContextKeySelectedKeyName (VStr (k_Name k))
        (SetValue BifrostContextKeySelectedKeyID (VStr (k_ID k)) c)"
    have openc: "\<not> bc_blockRestrictedWrites c" using open0 sameExcept_block [OF c] by simp
    then have openc': "\<not> bc_blockRestrictedWrites c'" by (simp add: c'_def)
    have "ctxTrail c' BifrostContextKeyAttemptTrail = Some (expectedTrail (w_calls w))"
      using trail0 openc ctxTrail_cong [OF sameExcept_Value [OF c, of BifrostContextKeyAttemptTrail]]
      by (simp add: c'_def ctxTrail_SetValue)
    note marked = markRotation_trail [OF openc' this pending, of k]
    let ?m = "markRotation (l_pendingRotationAttemptIdx l) k c'"
    have m: "sameExcept {BifrostContextKeyAttemptTrail} c' ?m" by (rule markRotation_ctx)
    have "Value ?m BifrostContextKeySelectedKeyID = VStr (k_ID k)"
      using sameExcept_Value [OF m, of BifrostContextKeySelectedKeyID] openc
      by (simp add: c'_def Value_SetValue)
    moreover have "hasTracer ?m"
      using tracer0 hasTracer_cong [OF sameExcept_Value [OF c, of BifrostContextKeyTracer]] openc
        hasTracer_cong [OF sameExcept_Value [OF m, of BifrostContextKeyTracer]]
        hasTracer_cong [of c' c]
      by (simp add: c'_def Value_SetValue)
    moreover have "\<not> bc_blockRestrictedWrites ?m" using openc' sameExcept_block [OF m] by simp
    moreover have "w_ctx w1 = ?m" by (simp add: w1 c'_def c_def)
    moreover have "k_ID k \<notin> deadIDs (w_calls w)"
    proof -
      have "l_dead l = deadIDs (w_calls w)" using inv by (simp add: loopInv_def)
      with kp(2) r show ?thesis unfolding respectsDead_def by metis
    qed
    ultimately have "keyChosen w k w1"
      using marked by (simp add: keyChosen_def w1)
    moreover have "\<not> lastPerKey (w_calls w) \<and> 0 < n \<longrightarrow> False"
      using True lastPerKey_inv [OF inv] by auto
    ultimately show ?thesis by (auto simp: l1)
  next
    case False
    then have n0: "0 < n" and nk: "\<not> lastPerKey (w_calls w)" using lastPerKey_inv [OF inv] by auto
    from step kp(1) False have l1: "l1 = l" "w1 = ?w0"
      by (auto simp: selectKeyStep_def)
    from inv n0 have ne: "w_calls w \<noteq> []" and lst: "fst (last (w_calls w)) = l_currentKey l"
      and sel: "Value (w_ctx w) BifrostContextKeySelectedKeyID = VStr (k_ID (l_currentKey l))"
      and ds: "deadSafe (w_calls w)"
      by (auto simp: loopInv_def)
    have "k_ID (l_currentKey l) \<notin> deadIDs (w_calls w)"
      using last_alive [OF ne ds nk] lst by simp
    moreover have "Value (w_ctx ?w0) BifrostContextKeySelectedKeyID = VStr (k_ID (l_currentKey l))"
      using sel sameExcept_Value [OF startOfAttempt_ctx [where w = w and env = env and n = n], of BifrostContextKeySelectedKeyID] by simp
    moreover have "markLast (w_calls w) (l_currentKey l) tr = tr" for tr
      using nk by (simp add: markLast_def)
    ultimately have "keyChosen w (l_currentKey l) ?w0"
      using open0 tracer0 trail0 by (simp add: keyChosen_def)
    then show ?thesis using l1 pending nk by simp
  qed
qed

lemma AppendAttempt_trail:
  assumes "\<not> bc_blockRestrictedWrites c" "ctxTrail c BifrostContextKeyAttemptTrail = Some tr" "x \<notin> set tr"
  shows "ctxTrail (AppendAttemptToContextList BifrostContextKeyAttemptTrail x c) BifrostContextKeyAttemptTrail = Some (tr @ [x])"
  using assms by (auto simp: AppendAttemptToContextList_def ctxTrail_def Let_def Value_SetValue split: ctxval.splits)

lemma AppendAttempt_ctx: "sameExcept {k} c (AppendAttemptToContextList k x c)"
  by (simp add: AppendAttemptToContextList_def Let_def sameExcept_SetValue)

lemma markLast_attempts: "map at_Attempt (markLast cs k (expectedTrail cs)) = map int [0..<length cs]"
proof (rule nth_equalityI)
  show "length (map at_Attempt (markLast cs k (expectedTrail cs))) = length (map int [0..<length cs])"
    by (simp add: markLast_def)
  fix i assume "i < length (map at_Attempt (markLast cs k (expectedTrail cs)))"
  then have i: "i < length cs" by (simp add: markLast_def split: if_splits)
  then show "map at_Attempt (markLast cs k (expectedTrail cs)) ! i = map int [0..<length cs] ! i"
    by (auto simp: markLast_def nth_list_update expectedRecord_def)
qed

lemma appendTrail_chosen:
  assumes "keyChosen w k w1" "re_keyProvider env \<noteq> None" "length (w_calls w) = n"
  shows "trailOf (appendTrail env n k w1) = Some (expectedTrail (w_calls w @ [(k, None)]))"
    and "sameExcept {BifrostContextKeyAttemptTrail} (w_ctx w1) (w_ctx (appendTrail env n k w1))"
    and "w_calls (appendTrail env n k w1) = w_calls w1" "w_sleeps (appendTrail env n k w1) = w_sleeps w1"
proof -
  let ?x = "\<lparr>at_Attempt = int n, at_KeyID = k_ID k, at_KeyName = k_Name k, at_FailReason = None,
      at_TriggeredRotation = False\<rparr>"
  have "at_Attempt ?x \<notin> set (map at_Attempt (markLast (w_calls w) k (expectedTrail (w_calls w))))"
    unfolding markLast_attempts using assms(3) by auto
  then have "?x \<notin> set (markLast (w_calls w) k (expectedTrail (w_calls w)))" by (metis imageI set_map)
  then show "trailOf (appendTrail env n k w1) = Some (expectedTrail (w_calls w @ [(k, None)]))"
    using assms by (simp add: appendTrail_def keyChosen_def AppendAttempt_trail expectedTrail_snoc attemptReason_def)
  show "sameExcept {BifrostContextKeyAttemptTrail} (w_ctx w1) (w_ctx (appendTrail env n k w1))"
    by (simp add: appendTrail_def AppendAttempt_ctx)
qed (simp_all add: appendTrail_def)

lemma sendRequest_effect:
  assumes "handlerFrame env" "sendRequest env n l w = (l', w')"
  shows "\<exists>oc. w_calls w' = w_calls w @ [(l_currentKey l, oc)] \<and> l_error l' = oc \<and> w_sleeps w' = w_sleeps w
    \<and> l_currentKey l' = l_currentKey l \<and> l_dead l' = l_dead l \<and> l_pendingRotationAttemptIdx l' = l_pendingRotationAttemptIdx l
    \<and> bc_blockRestrictedWrites (w_ctx w') = bc_blockRestrictedWrites (w_ctx w)
    \<and> (\<forall>x\<in>{BifrostContextKeyAttemptTrail, BifrostContextKeyTracer, BifrostContextKeySelectedKeyID}.
         Value (w_ctx w') x = Value (w_ctx w) x)"
proof -
  obtain h w1 where o1: "openAttempt env n w = (h, w1)" by fastforce
  obtain res err ctx' where r: "re_handler env n (l_currentKey l) (w_ctx w1) = (res, err, ctx')"
    by (metis prod_cases3)
  obtain res' err' where c: "checkResult res err = (res', err')" by fastforce
  let ?w2 = "w1\<lparr>w_ctx := ctx', w_calls := w_calls w1 @ [(l_currentKey l, err')]\<rparr>"
  obtain res'' w3 where cl: "closeAttempt env h (l_currentKey l) res' err' ?w2 = (res'', w3)" by fastforce
  have l': "l' = l\<lparr>l_result := res'', l_error := err'\<rparr>" and w': "w' = w3"
    using assms(2) by (simp_all add: sendRequest_def o1 r c cl Let_def)
  note os = openAttempt_sel [OF o1] and cs = closeAttempt_sel [OF cl]
  have hf: "bc_blockRestrictedWrites ctx' = bc_blockRestrictedWrites (w_ctx w1)"
    "Value ctx' BifrostContextKeyAttemptTrail = Value (w_ctx w1) BifrostContextKeyAttemptTrail"
    "Value ctx' BifrostContextKeyTracer = Value (w_ctx w1) BifrostContextKeyTracer"
    "Value ctx' BifrostContextKeySelectedKeyID = Value (w_ctx w1) BifrostContextKeySelectedKeyID"
    using assms(1) r unfolding handlerFrame_def by (metis insertCI)+
  have "bc_blockRestrictedWrites (w_ctx w1) = bc_blockRestrictedWrites (w_ctx w)"
    by (rule sameExcept_block [OF os(3)])
  moreover have "Value (w_ctx w1) x = Value (w_ctx w) x"
    if "x \<in> {BifrostContextKeyAttemptTrail, BifrostContextKeyTracer, BifrostContextKeySelectedKeyID}" for x
    by (rule sameExcept_Value [OF os(3)]) (use that in auto)
  ultimately show ?thesis
    using hf os(1,2) cs by (intro exI [of _ err']) (simp add: l' w')
qed

lemma setFailReason_ctx: "sameExcept {BifrostContextKeyAttemptTrail} c (setFailReason e c)"
  by (auto simp: setFailReason_def sameExcept_SetValue split: option.split)

lemma setFailReason_trail:
  assumes "\<not> bc_blockRestrictedWrites c" "\<not> be_IsBifrostError e" "\<not> isCancelledError e"
    and "ctxTrail c BifrostContextKeyAttemptTrail = Some (expectedTrail (cs @ [(k, None)]))"
  shows "ctxTrail (setFailReason e c) BifrostContextKeyAttemptTrail = Some (expectedTrail (cs @ [(k, Some e)]))"
proof -
  let ?tr = "expectedTrail (cs @ [(k, None)])"
  have ne: "?tr \<noteq> []" and len: "length ?tr - 1 = length (markLast cs k (expectedTrail cs))"
    by (simp_all add: expectedTrail_snoc markLast_def)
  have "?tr[length ?tr - 1 := (last ?tr)\<lparr>at_FailReason := Some (failReason e)\<rparr>] = expectedTrail (cs @ [(k, Some e)])"
    unfolding len using assms(2,3) by (simp add: expectedTrail_snoc attemptReason_def)
  with assms(1,4) ne show ?thesis by (simp add: setFailReason_def ctxTrail_SetValue)
qed

text \<open>An outcome after which the loop goes on.\<close>

definition retryable :: "('p, 'q) retry_env \<Rightarrow> bifrost_error option \<Rightarrow> bool" where
  "retryable env oc \<longleftrightarrow>
     (case oc of None \<Rightarrow> False
      | Some e \<Rightarrow> \<not> be_IsBifrostError e \<and> \<not> isCancelledError e \<and> shouldRetryError e (re_req env))"

text \<open>The state after a call, before the loop decides whether to go on.\<close>

definition ranTo :: "('p, 'q) retry_env \<Rightarrow> 'p retry_locals \<Rightarrow> world \<Rightarrow> bool" where
  "ranTo env l w \<longleftrightarrow>
     \<not> bc_blockRestrictedWrites (w_ctx w) \<and> w_calls w \<noteq> []
     \<and> last (w_calls w) = (l_currentKey l, l_error l)
     \<and> trailOf w = Some (expectedTrail (w_calls w)) \<and> deadSafe (w_calls w) \<and> length (w_sleeps w) = waits (w_calls w)
     \<and> Value (w_ctx w) BifrostContextKeySelectedKeyID = VStr (k_ID (l_currentKey l))"

lemma attemptReason_none:
  "(case oc of None \<Rightarrow> True | Some e \<Rightarrow> be_IsBifrostError e \<or> isCancelledError e) \<Longrightarrow>
   expectedTrail (cs @ [(k, oc)]) = expectedTrail (cs @ [(k, None)])"
  by (cases oc) (auto simp: expectedTrail_snoc attemptReason_def)

lemma retryAttempt_step:
  assumes inv: "loopInv env n l w" and n: "int n \<le> re_MaxRetries env"
    and kp: "re_keyProvider env = Some kp" "respectsDead kp" and frame: "handlerFrame env"
  shows "case retryAttempt env n l w of
      EarlyReturn res e w' \<Rightarrow> w_calls w' = w_calls w \<and> w_sleeps w' = w_sleeps w \<and> res = re_zero env \<and> (\<exists>ke used'.
           kp n (l_used l) (l_dead l) = (Inl ke, used') \<and> e = keySelectionError ke)
         \<and> trailOf w' = Some (expectedTrail (w_calls w)) \<and> Value (w_ctx w') BifrostContextKeySelectedKeyID = VStr []
         \<and> (n = 0 \<or> lastPerKey (w_calls w))
    | LeaveLoop l' w' \<Rightarrow> ranTo env l' w' \<and> (\<exists>k. w_calls w' = w_calls w @ [(k, l_error l')])
         \<and> (case l_error l' of None \<Rightarrow> True
            | Some e \<Rightarrow> be_IsBifrostError e \<or> isCancelledError e \<or> \<not> shouldRetryError e (re_req env))
    | NextAttempt l' w' \<Rightarrow> loopInv env (Suc n) l' w' \<and> ranTo env l' w'
         \<and> (\<exists>k. w_calls w' = w_calls w @ [(k, l_error l')])
         \<and> retryable env (l_error l')"
proof (cases "selectKeyStep env n l (startOfAttempt env n w)")
  case (Inl r)
  obtain e w1 where r: "r = (e, w1)" by fastforce
  let ?w0 = "startOfAttempt env n w"
  from Inl r kp(1) obtain ke used' where ke: "kp n (l_used l) (l_dead l) = (Inl ke, used')"
    "e = keySelectionError ke" and w1: "w1 = onCtx clearSelectedKey (keySelectionSpan env n (Inl ke) ?w0)"
    and reselect: "n = 0 \<or> l_lastWasPerKeyFailure l"
    by (auto simp: selectKeyStep_def Let_def split: prod.splits sum.splits if_splits)
  let ?c = "w_ctx (keySelectionSpan env n (Inl ke) ?w0)"
  have c: "sameExcept {BifrostContextKeySpanID} (w_ctx ?w0) ?c" by (rule keySelectionSpan_ctx)
  have open0: "\<not> bc_blockRestrictedWrites ?c"
    using inv sameExcept_block [OF startOfAttempt_ctx [where w = w and env = env and n = n]] sameExcept_block [OF c]
    by (simp add: loopInv_def)
  have "ctxTrail ?c BifrostContextKeyAttemptTrail = Some (expectedTrail (w_calls w))"
    using inv_trail [OF inv] kp(1) ctxTrail_cong [OF sameExcept_Value [OF c, of BifrostContextKeyAttemptTrail]] by simp
  then have "ctxTrail (w_ctx w1) BifrostContextKeyAttemptTrail = Some (expectedTrail (w_calls w))"
    "Value (w_ctx w1) BifrostContextKeySelectedKeyID = VStr []"
    using open0 by (simp_all add: w1 clearSelectedKey_def ctxTrail_SetValue Value_SetValue)
  moreover have "n = 0 \<or> lastPerKey (w_calls w)" using reselect lastPerKey_inv [OF inv] by auto
  ultimately show ?thesis using ke by (auto simp: retryAttempt_def Inl r w1)
next
  case (Inr r)
  obtain l1 w1 where r: "r = (l1, w1)" by fastforce
  let ?k = "l_currentKey l1" and ?cs = "w_calls w"
  note chosen = selectKeyStep_chosen [OF inv n kp Inr [unfolded r]]
  then have kc: "keyChosen w ?k w1" by blast
  have len: "length ?cs = n" using inv by (simp add: loopInv_def)
  note app = appendTrail_chosen [OF kc _ len, of env]
  let ?wa = "appendTrail env n ?k w1" and ?w2 = "retryNote env n l1 (appendTrail env n ?k w1)"
  have note2: "sameExcept {BifrostContextKeyRoutingEnginesUsed, BifrostContextKeyRoutingEngineLogs} (w_ctx ?wa) (w_ctx ?w2)"
    by (rule retryNote_ctx)
  have kpn: "re_keyProvider env \<noteq> None" using kp(1) by simp
  have ap: "trailOf ?wa = Some (expectedTrail (?cs @ [(?k, None)]))" by (rule app(1) [OF kpn])
  have a2: "sameExcept {BifrostContextKeyAttemptTrail} (w_ctx w1) (w_ctx ?wa)" by (rule app(2) [OF kpn])
  have open2: "\<not> bc_blockRestrictedWrites (w_ctx ?w2)"
    using kc sameExcept_block [OF a2] sameExcept_block [OF note2] by (simp add: keyChosen_def)
  have tr2: "trailOf ?w2 = Some (expectedTrail (?cs @ [(?k, None)]))"
    using ap ctxTrail_cong [OF sameExcept_Value [OF note2, of BifrostContextKeyAttemptTrail]] by simp
  have sel2: "Value (w_ctx ?w2) BifrostContextKeySelectedKeyID = VStr (k_ID ?k)"
    using kc sameExcept_Value [OF a2, of BifrostContextKeySelectedKeyID]
      sameExcept_Value [OF note2, of BifrostContextKeySelectedKeyID] by (simp add: keyChosen_def)
  have tracer2: "hasTracer (w_ctx ?w2)"
    using kc hasTracer_cong [OF sameExcept_Value [OF a2, of BifrostContextKeyTracer]]
      hasTracer_cong [OF sameExcept_Value [OF note2, of BifrostContextKeyTracer]] by (simp add: keyChosen_def)
  have calls2: "w_calls ?w2 = ?cs"
    using kc app(3) [OF kpn] by (simp add: keyChosen_def)
  have sleeps2: "length (w_sleeps ?w2) = waits (?cs @ [(?k, oc)])" for oc
  proof (cases "n = 0")
    case True
    then show ?thesis
      using inv len kc app(4) [OF kpn] by (simp add: retryNote_def keyChosen_def loopInv_def waits_def)
  next
    case False
    from inv False obtain e where e: "last ?cs = (l_currentKey l, Some e)" "?cs \<noteq> []"
      "l_lastWasPermanentKeyFailure l = isPermanentStatus e" "l_previousKeyID l = k_ID (l_currentKey l)"
      "length (w_sleeps w) = waits ?cs"
      by (auto simp: loopInv_def)
    have "w_sleeps ?wa = w_sleeps w" using kc app(4) [OF kpn] by (simp add: keyChosen_def)
    then show ?thesis
      using False e chosen kp(1) by (simp add: retryNote_def waits_snoc keyChanged_def Let_def)
  qed
  obtain l2 w3 where send: "sendRequest env n l1 ?w2 = (l2, w3)" by fastforce
  from sendRequest_effect [OF frame send] calls2 obtain oc where s: "w_calls w3 = ?cs @ [(?k, oc)]"
    "l_error l2 = oc" "l_currentKey l2 = ?k" "l_dead l2 = l_dead l1"
    "l_pendingRotationAttemptIdx l2 = None"
    "bc_blockRestrictedWrites (w_ctx w3) = bc_blockRestrictedWrites (w_ctx ?w2)"
    "Value (w_ctx w3) BifrostContextKeyAttemptTrail = Value (w_ctx ?w2) BifrostContextKeyAttemptTrail"
    "Value (w_ctx w3) BifrostContextKeyTracer = Value (w_ctx ?w2) BifrostContextKeyTracer"
    "Value (w_ctx w3) BifrostContextKeySelectedKeyID = Value (w_ctx ?w2) BifrostContextKeySelectedKeyID"
    and sleeps3: "w_sleeps w3 = w_sleeps ?w2"
    using chosen by auto
  have tr3: "trailOf w3 = Some (expectedTrail (?cs @ [(?k, None)]))"
    using tr2 ctxTrail_cong [OF s(7)] by simp
  have open3: "\<not> bc_blockRestrictedWrites (w_ctx w3)" using open2 s(6) by simp
  have ds: "deadSafe (?cs @ [(?k, oc)])"
    using inv kc by (simp add: deadSafe_snoc loopInv_def keyChosen_def)
  have step: "retryAttempt env n l w = afterRequest env n l2 w3"
    by (simp add: retryAttempt_def Inr r tracer2 send Let_def)
  have ran: "ranTo env l2 w3" if "case oc of None \<Rightarrow> True | Some e \<Rightarrow> be_IsBifrostError e \<or> isCancelledError e"
    using open3 s tr3 sel2 ds sleeps2 [of oc] sleeps3 attemptReason_none [OF that, of ?cs ?k] by (simp add: ranTo_def)
  show ?thesis
  proof (cases oc)
    case None
    then show ?thesis using ran s by (simp add: step afterRequest_def)
  next
    case (Some e)
    show ?thesis
    proof (cases "be_IsBifrostError e \<or> isCancelledError e")
      case True
      then have "ranTo env l2 w3" using ran Some by simp
      moreover have "afterRequest env n l2 w3 = LeaveLoop l2 w3"
        using True s(2) Some by (simp add: afterRequest_def)
      ultimately show ?thesis using True s(1,2) Some by (auto simp: step)
    next
      case False
      let ?w4 = "onCtx (setFailReason e) w3"
      have c4: "sameExcept {BifrostContextKeyAttemptTrail} (w_ctx w3) (w_ctx ?w4)"
        by (simp add: setFailReason_ctx)
      have tr4: "trailOf ?w4 = Some (expectedTrail (?cs @ [(?k, Some e)]))"
        using setFailReason_trail [OF open3 _ _ tr3] False by simp
      have sel4: "Value (w_ctx ?w4) BifrostContextKeySelectedKeyID = VStr (k_ID ?k)"
        using s(9) sel2 sameExcept_Value [OF c4, of BifrostContextKeySelectedKeyID] by simp
      have open4: "\<not> bc_blockRestrictedWrites (w_ctx ?w4)" using open3 sameExcept_block [OF c4] by simp
      have ran4: "ranTo env l2 ?w4" using open4 s tr4 sel4 ds Some sleeps2 [of oc] sleeps3 by (simp add: ranTo_def)
      show ?thesis
      proof (cases "shouldRetryError e (re_req env)")
        case False
        then show ?thesis using ran4 s Some \<open>\<not> (be_IsBifrostError e \<or> isCancelledError e)\<close>
          by (simp add: step afterRequest_def Let_def)
      next
        case True
        let ?l3 = "trackKeyState env n e (w_ctx ?w4) l2"
        have kpn': "\<exists>y. re_keyProvider env = Some y" using kp(1) by simp
        have l3: "l_error ?l3 = Some e" "l_currentKey ?l3 = ?k" "l_lastWasPerKeyFailure ?l3 = isPerKeyFailure e"
          "l_lastWasPermanentKeyFailure ?l3 = isPermanentStatus e" "l_previousKeyID ?l3 = k_ID ?k"
          "l_dead ?l3 = (if isPermanentStatus e then insert (k_ID ?k) (l_dead l) else l_dead l)"
          using s Some kpn' chosen permanent_perKey [of e]
          by (auto simp: trackKeyState_def Let_def split: option.split)
        have pend: "l_pendingRotationAttemptIdx ?l3 =
            (if isPerKeyFailure e \<and> int n < re_MaxRetries env then Some n else None)"
          using s(5) kpn' tr4 len
          by (auto simp: trackKeyState_def Let_def expectedTrail_snoc markLast_def split: if_splits)
        have tracer4: "hasTracer (w_ctx ?w4)"
          using tracer2 hasTracer_cong [OF s(8)] hasTracer_cong [OF sameExcept_Value [OF c4, of BifrostContextKeyTracer]]
          by simp
        have "loopInv env (Suc n) ?l3 ?w4"
          unfolding loopInv_def
          using open4 tracer4 s(1) len l3 pend tr4 sel4 ds inv Some sleeps2 [of oc] sleeps3
          by (simp add: deadIDs_snoc loopInv_def)
        moreover have "ranTo env ?l3 ?w4" using ran4 s l3 Some by (simp add: ranTo_def)
        ultimately show ?thesis
          using True s Some l3 \<open>\<not> (be_IsBifrostError e \<or> isCancelledError e)\<close>
          by (simp add: step afterRequest_def Let_def retryable_def)
      qed
    qed
  qed
qed

section \<open>The run\<close>

text \<open>What a run of the loop leaves behind, whatever way it ended.\<close>

definition runOutcome :: "('p, 'q) retry_env \<Rightarrow> bifrost_error option \<Rightarrow> world \<Rightarrow> bool" where
  "runOutcome env err w \<longleftrightarrow>
     int (length (w_calls w)) \<le> re_MaxRetries env + 1
     \<and> deadSafe (w_calls w) \<and> trailOf w = Some (expectedTrail (w_calls w))
     \<and> length (w_sleeps w) = waits (w_calls w)
     \<and> (\<forall>c\<in>set (butlast (w_calls w)). retryable env (snd c))
     \<and> (case err of
          Some e \<Rightarrow> Value (w_ctx w) BifrostContextKeySelectedKeyID = VStr []
            \<and> ((w_calls w \<noteq> [] \<and> snd (last (w_calls w)) = Some e)
               \<or> ((\<exists>ke. e = keySelectionError ke) \<and> (w_calls w = [] \<or> lastPerKey (w_calls w))))
        | None \<Rightarrow> w_calls w \<noteq> [] \<and> snd (last (w_calls w)) = None
            \<and> Value (w_ctx w) BifrostContextKeySelectedKeyID = VStr (k_ID (fst (last (w_calls w)))))"

lemma finish_outcome:
  assumes ran: "ranTo env l w" and kp: "re_keyProvider env \<noteq> None"
    and len: "int (length (w_calls w)) \<le> re_MaxRetries env + 1"
    and retried: "\<forall>c\<in>set (butlast (w_calls w)). retryable env (snd c)"
    and fin: "finishLoop env n l w = (res, err, m, w')"
  shows "runOutcome env err w'"
proof (cases "l_error l")
  case None
  with ran kp len retried fin show ?thesis by (auto simp: finishLoop_def runOutcome_def ranTo_def)
next
  case (Some e)
  with fin kp have "w' = onCtx clearSelectedKey w" "err = Some e" by (auto simp: finishLoop_def)
  then show ?thesis
    using ran len retried Some
    by (simp add: runOutcome_def ranTo_def clearSelectedKey_def ctxTrail_SetValue Value_SetValue)
qed

lemma inv_ran: "loopInv env n l w \<Longrightarrow> 0 < n \<Longrightarrow> ranTo env l w"
  by (auto simp: loopInv_def ranTo_def)

lemma runOutcome_early:
  assumes "loopInv env n l w" "w_calls w' = w_calls w" "w_sleeps w' = w_sleeps w" "trailOf w' = Some (expectedTrail (w_calls w))"
    and "Value (w_ctx w') BifrostContextKeySelectedKeyID = VStr []" "n = 0 \<or> lastPerKey (w_calls w)"
    and "int n \<le> re_MaxRetries env" "\<forall>c\<in>set (w_calls w). retryable env (snd c)"
  shows "runOutcome env (Some (keySelectionError ke)) w'"
  using assms by (auto simp: runOutcome_def loopInv_def dest: in_set_butlastD)

lemma retryLoop_outcome:
  assumes kp: "re_keyProvider env = Some kp" "respectsDead kp" and frame: "handlerFrame env"
  shows "loopInv env n l w \<Longrightarrow> \<forall>c\<in>set (w_calls w). retryable env (snd c) \<Longrightarrow>
    int n + int left = re_MaxRetries env + 1 \<Longrightarrow> 0 < n + left \<Longrightarrow> (left = 0 \<longrightarrow> 0 < n) \<Longrightarrow>
    retryLoop env left n l w = (res, err, m, w') \<Longrightarrow> runOutcome env err w'"
proof (induction left arbitrary: n l w)
  case 0
  then have "ranTo env l w" by (simp add: inv_ran)
  then show ?case
    by (rule finish_outcome [where res = res and m = m])
       (use 0 kp in \<open>auto simp: loopInv_def dest: in_set_butlastD\<close>)
next
  case (Suc left)
  have n: "int n \<le> re_MaxRetries env" using Suc.prems(3) by simp
  note step = retryAttempt_step [OF Suc.prems(1) n kp frame]
  show ?case
  proof (cases "retryAttempt env n l w")
    case (EarlyReturn res1 e w1)
    with Suc.prems(6) have out: "err = Some e" "w' = w1" by simp_all
    from step EarlyReturn obtain ke where "w_calls w1 = w_calls w" "w_sleeps w1 = w_sleeps w" "e = keySelectionError ke"
      "trailOf w1 = Some (expectedTrail (w_calls w))" "Value (w_ctx w1) BifrostContextKeySelectedKeyID = VStr []"
      "n = 0 \<or> lastPerKey (w_calls w)" by auto
    with runOutcome_early [OF Suc.prems(1) _ _ _ _ _ n Suc.prems(2), of w1 ke] out show ?thesis by simp
  next
    case (LeaveLoop l1 w1)
    from step LeaveLoop obtain k where ran: "ranTo env l1 w1" and calls: "w_calls w1 = w_calls w @ [(k, l_error l1)]"
      by auto
    show ?thesis
      by (rule finish_outcome [OF ran, where res = res and m = m])
         (use kp n calls Suc.prems(1,2,6) LeaveLoop in \<open>auto simp: loopInv_def\<close>)
  next
    case (NextAttempt l1 w1)
    from step NextAttempt obtain k where inv: "loopInv env (Suc n) l1 w1"
      and calls: "w_calls w1 = w_calls w @ [(k, l_error l1)]" and re: "retryable env (l_error l1)" by auto
    show ?thesis
      by (rule Suc.IH [OF inv]) (use calls re Suc.prems NextAttempt in auto)
  qed
qed

text \<open>The state a request starts in.\<close>

definition freshRun :: "('p, 'q) retry_env \<Rightarrow> world \<Rightarrow> bool" where
  "freshRun env w \<longleftrightarrow> 0 \<le> re_MaxRetries env \<and> handlerFrame env
     \<and> \<not> bc_blockRestrictedWrites (w_ctx w) \<and> hasTracer (w_ctx w) \<and> w_calls w = [] \<and> w_sleeps w = []"

lemma run_outcome:
  assumes "freshRun env w" "re_keyProvider env = Some kp" "respectsDead kp"
    and run: "executeRequestWithRetries env w = (res, err, w')"
  shows "runOutcome env err w'"
proof -
  obtain m w1 where loop: "retryLoop env (nat (re_MaxRetries env + 1)) 0 (initLocals env) w = (res, err, m, w1)"
    and w': "w' = terminalLog env m err w1"
    using run by (auto simp: executeRequestWithRetries_def split: prod.splits)
  have inv: "loopInv env 0 (initLocals env) w"
    using assms(1) by (simp add: freshRun_def loopInv_def initLocals_def)
  have "runOutcome env err w1"
    by (rule retryLoop_outcome [OF assms(2,3) _ inv _ _ _ _ loop]) (use assms(1) in \<open>auto simp: freshRun_def\<close>)
  moreover have log: "sameExcept {BifrostContextKeyRoutingEnginesUsed, BifrostContextKeyRoutingEngineLogs} (w_ctx w1) (w_ctx w')"
    by (simp add: w' terminalLog_def sameExcept_log split: prod.split)
  moreover have "w_calls w' = w_calls w1" "w_sleeps w' = w_sleeps w1"
    by (simp_all add: w' terminalLog_def split: prod.split)
  ultimately show ?thesis
    using ctxTrail_cong [OF sameExcept_Value [OF log, of BifrostContextKeyAttemptTrail]]
      sameExcept_Value [OF log, of BifrostContextKeySelectedKeyID]
    by (simp add: runOutcome_def split: option.splits)
qed

section \<open>When every credential is bad\<close>

definition allCallsRejected :: "('p, 'q) retry_env \<Rightarrow> bool" where
  "allCallsRejected env \<longleftrightarrow> (\<forall>n k c res err c'. re_handler env n k c = (res, err, c') \<longrightarrow>
     (\<exists>e. err = Some e \<and> isPermanentStatus e \<and> \<not> be_IsBifrostError e \<and> \<not> isCancelledError e
        \<and> \<not> shouldFallbackBeforeProviderRetry (Some e) (re_req env)))"

lemma permanent_retryable:
  "isPermanentStatus e \<Longrightarrow> \<not> shouldFallbackBeforeProviderRetry (Some e) req \<Longrightarrow> shouldRetryError e req"
  using permanent_perKey [of e] by (simp add: shouldRetryError_def Let_def)

lemma rejected_send:
  assumes "allCallsRejected env" "sendRequest env n l w = (l', w')"
  shows "\<exists>e. l_error l' = Some e \<and> isPermanentStatus e \<and> \<not> be_IsBifrostError e \<and> \<not> isCancelledError e
    \<and> shouldRetryError e (re_req env) \<and> l_used l' = l_used l"
proof -
  obtain h w1 where o1: "openAttempt env n w = (h, w1)" by fastforce
  obtain res err ctx' where r: "re_handler env n (l_currentKey l) (w_ctx w1) = (res, err, ctx')"
    by (metis prod_cases3)
  with assms(1) obtain e where e: "err = Some e" "isPermanentStatus e" "\<not> be_IsBifrostError e"
    "\<not> isCancelledError e" "\<not> shouldFallbackBeforeProviderRetry (Some e) (re_req env)"
    unfolding allCallsRejected_def by blast
  have "checkResult res err = (res, Some e)" by (simp add: checkResult_def e)
  then have "l_error l' = Some e" "l_used l' = l_used l"
    using assms(2) by (auto simp: sendRequest_def o1 r Let_def split: prod.splits)
  with e permanent_retryable show ?thesis by blast
qed

lemma trackKeyState_permanent:
  "isPermanentStatus e \<Longrightarrow> l_error (trackKeyState env n e c l) = l_error l \<and> l_used (trackKeyState env n e c l) = l_used l"
  using permanent_perKey [of e] by (simp add: trackKeyState_def Let_def split: option.split)

lemma rejected_attempt:
  assumes rej: "allCallsRejected env"
  shows "case retryAttempt env n l w of
      LeaveLoop l' w' \<Rightarrow> False
    | NextAttempt l' w' \<Rightarrow> (\<exists>e. l_error l' = Some e \<and> isPermanentStatus e)
        \<and> (\<exists>l1 w1. selectKeyStep env n l (startOfAttempt env n w) = Inr (l1, w1) \<and> l_used l' = l_used l1)
    | EarlyReturn _ _ _ \<Rightarrow> True"
proof (cases "selectKeyStep env n l (startOfAttempt env n w)")
  case (Inl r)
  then show ?thesis by (cases r) (simp add: retryAttempt_def)
next
  case (Inr r)
  obtain l1 w1 where r: "r = (l1, w1)" by fastforce
  let ?w2 = "retryNote env n l1 (appendTrail env n (l_currentKey l1) w1)"
  show ?thesis
  proof (cases "hasTracer (w_ctx ?w2)")
    case False
    then show ?thesis by (simp add: retryAttempt_def Inr r Let_def)
  next
    case True
    obtain l2 w3 where send: "sendRequest env n l1 ?w2 = (l2, w3)" by fastforce
    from rejected_send [OF rej send] obtain e where e: "l_error l2 = Some e" "isPermanentStatus e"
      "\<not> be_IsBifrostError e" "\<not> isCancelledError e" "shouldRetryError e (re_req env)" "l_used l2 = l_used l1"
      by blast
    let ?w4 = "onCtx (setFailReason e) w3"
    have next1: "retryAttempt env n l w = NextAttempt (trackKeyState env n e (w_ctx ?w4) l2) ?w4"
      using e(1,3-5) True by (simp add: retryAttempt_def Inr r send afterRequest_def Let_def)
    have l3: "l_error (trackKeyState env n e (w_ctx ?w4) l2) = Some e"
      "l_used (trackKeyState env n e (w_ctx ?w4) l2) = l_used l1"
      using e(1,6) by (simp_all add: trackKeyState_permanent [OF e(2)])
    show ?thesis
      unfolding next1 attempt_end.case using l3 e(2) Inr [unfolded r] by blast
  qed
qed

lemma totalWeight_nonneg: "\<forall>k\<in>set ks. 0 \<le> k_Weight100 k \<Longrightarrow> 0 \<le> totalWeight ks"
  unfolding totalWeight_sum by (rule sum_list_nonneg) auto

lemma weighted_never_panics:
  assumes "\<forall>k\<in>set ks. 0 \<le> k_Weight100 k" "ks \<noteq> []"
  shows "\<exists>k. weightedKeySelector r n ks = Inr k"
  using assms totalWeight_nonneg [OF assms(1)]
  by (auto simp: weightedKeySelector_def WeightedRandom_def Let_def split: option.splits list.splits)

lemma rotating_all_dead:
  "\<forall>k\<in>set pool. k_ID k \<in> dead \<Longrightarrow>
   rotatingKeyProvider None sel p pool n {} dead = (Inl (KPAllDead (errAllKeysDead @ '': provider '' @ p)), {})"
  by (simp add: rotatingKeyProvider_def applyKeyPoolFilter_def filter_empty_conv)

lemma rotating_some_alive:
  assumes "k0 \<in> set pool" "k_ID k0 \<notin> dead" "\<forall>k\<in>set pool. 0 \<le> k_Weight100 k"
  shows "\<exists>k. rotatingKeyProvider None (weightedKeySelector r) p pool n {} dead = (Inr k, {})
    \<and> k \<in> set pool \<and> k_ID k \<notin> dead"
proof -
  let ?av = "filter (\<lambda>k. k_ID k \<notin> dead) pool"
  have ne: "?av \<noteq> []" using assms(1,2) by (auto simp: filter_empty_conv)
  obtain k where k: "weightedKeySelector r n ?av = Inr k"
    using weighted_never_panics [of ?av r n] assms(3) ne by auto
  then have "rotatingKeyProvider None (weightedKeySelector r) p pool n {} dead = (Inr k, {})"
    using ne by (simp add: rotatingKeyProvider_def applyKeyPoolFilter_def Let_def)
  with weightedKP.rotating_in_pool [OF this] show ?thesis by blast
qed

lemma rejected_loop:
  assumes kp: "re_keyProvider env = Some (rotatingKeyProvider None (weightedKeySelector r) p pool)"
    and weights: "\<forall>k\<in>set pool. 0 \<le> k_Weight100 k"
    and frame: "handlerFrame env" and rej: "allCallsRejected env"
  shows "loopInv env n l w \<Longrightarrow> l_used l = {} \<Longrightarrow> n = 0 \<or> lastPerKey (w_calls w) \<Longrightarrow>
    int n + int left = re_MaxRetries env + 1 \<Longrightarrow> card (k_ID ` set pool - deadIDs (w_calls w)) < left \<Longrightarrow>
    retryLoop env left n l w = (res, err, m, w') \<Longrightarrow>
    err = Some (keySelectionError (KPAllDead (errAllKeysDead @ '': provider '' @ p)))
    \<and> k_ID ` set pool \<subseteq> deadIDs (w_calls w')
    \<and> length (w_calls w') = n + card (k_ID ` set pool - deadIDs (w_calls w))"
proof (induction left arbitrary: n l w)
  case 0
  then show ?case by simp
next
  case (Suc left)
  let ?kp = "rotatingKeyProvider None (weightedKeySelector r) p pool"
  let ?live = "\<lambda>w. k_ID ` set pool - deadIDs (w_calls w)"
  have n: "int n \<le> re_MaxRetries env" using Suc.prems(4) by simp
  note step = retryAttempt_step [OF Suc.prems(1) n kp weightedKP.rotating.respects frame]
  note rejs = rejected_attempt [OF rej, of n l w]
  have dead: "l_dead l = deadIDs (w_calls w)" and len: "length (w_calls w) = n"
    using Suc.prems(1) by (simp_all add: loopInv_def)
  show ?case
  proof (cases "?live w = {}")
    case True
    then have ad: "?kp n {} (deadIDs (w_calls w)) = (Inl (KPAllDead (errAllKeysDead @ '': provider '' @ p)), {})"
      by (intro rotating_all_dead) auto
    have "n = 0 \<or> l_lastWasPerKeyFailure l" using Suc.prems(3) lastPerKey_inv [OF Suc.prems(1)] by auto
    then obtain w1 where "retryAttempt env n l w = EarlyReturn (re_zero env)
        (keySelectionError (KPAllDead (errAllKeysDead @ '': provider '' @ p))) w1"
      using kp ad dead Suc.prems(2) by (auto simp: retryAttempt_def selectKeyStep_def Let_def)
    with step Suc.prems(6) have "err = Some (keySelectionError (KPAllDead (errAllKeysDead @ '': provider '' @ p)))"
      "w_calls w' = w_calls w" by auto
    with True len show ?thesis by auto
  next
    case False
    then obtain k0 where k0: "k0 \<in> set pool" "k_ID k0 \<notin> deadIDs (w_calls w)" by auto
    from rotating_some_alive [OF k0 weights] obtain k where
      k: "?kp n {} (deadIDs (w_calls w)) = (Inr k, {})" "k \<in> set pool" "k_ID k \<notin> deadIDs (w_calls w)"
      by blast
    have re: "n = 0 \<or> l_lastWasPerKeyFailure l" using Suc.prems(3) lastPerKey_inv [OF Suc.prems(1)] by auto
    have sel: "\<exists>w1. selectKeyStep env n l (startOfAttempt env n w)
        = Inr (l\<lparr>l_used := {}, l_currentKey := k, l_pendingRotationAttemptIdx := None\<rparr>, w1)"
      using kp k(1) dead re Suc.prems(2) by (auto simp: selectKeyStep_def Let_def)
    from step rejs sel k(1) dead Suc.prems(2) obtain l1 w1 where
      next1: "retryAttempt env n l w = NextAttempt l1 w1"
      by (cases "retryAttempt env n l w") auto
    with step rejs sel obtain e k1 where inv1: "loopInv env (Suc n) l1 w1" and ran1: "ranTo env l1 w1"
      and calls1: "w_calls w1 = w_calls w @ [(k1, Some e)]" and e: "l_error l1 = Some e" "isPermanentStatus e"
      and used1: "l_used l1 = {}" by auto
    have k1: "k1 = k"
    proof -
      obtain w1' where s1: "selectKeyStep env n l (startOfAttempt env n w)
          = Inr (l\<lparr>l_used := {}, l_currentKey := k, l_pendingRotationAttemptIdx := None\<rparr>, w1')"
        using sel by blast
      let ?l1 = "l\<lparr>l_used := {}, l_currentKey := k, l_pendingRotationAttemptIdx := None\<rparr>"
      let ?w2 = "retryNote env n ?l1 (appendTrail env n k w1')"
      obtain l2 w3 where send: "sendRequest env n ?l1 ?w2 = (l2, w3)" by fastforce
      have "retryAttempt env n l w = afterRequest env n l2 w3"
        using s1 send next1 by (auto simp: retryAttempt_def Let_def split: if_splits)
      then have "w_calls w1 = w_calls w3"
        using next1 by (auto simp: afterRequest_def Let_def split: option.splits if_splits)
      moreover obtain oc where "w_calls w3 = w_calls ?w2 @ [(k, oc)]"
        using sendRequest_effect [OF frame send] by auto
      ultimately show ?thesis using calls1 by simp
    qed
    have live1: "?live w1 = ?live w - {k_ID k}"
      using calls1 e k1 by (auto simp: deadIDs_snoc)
    have fin: "finite (?live w)" by simp
    have kin: "k_ID k \<in> ?live w" using k by auto
    have card1: "card (?live w) = Suc (card (?live w1))"
      unfolding live1 using card.remove [OF fin kin] .
    have lpk: "lastPerKey (w_calls w1)" using calls1 e permanent_perKey by (simp add: lastPerKey_def)
    have loop: "retryLoop env left (Suc n) l1 w1 = (res, err, m, w')"
      using Suc.prems(6) next1 by simp
    from Suc.IH [OF inv1 used1 _ _ _ loop] lpk Suc.prems(4,5) card1 show ?thesis by simp
  qed
qed

section \<open>Properties\<close>

definition retry_sample :: "key_provider option \<Rightarrow> int \<Rightarrow> (nat, nat) retry_env" where
  "retry_sample kp maxRetries =
     \<lparr>re_handler = (\<lambda>n k c. (ResponseResult None, Some ((newBifrostErrorFromMsg ''no'')\<lparr>be_StatusCode := Some 401\<rparr>), c)),
      re_keyProvider = kp, re_MaxRetries = maxRetries, re_BackoffInitial = 500, re_BackoffMax = 5000,
      re_jitter = (\<lambda>_ b. b), re_spanID = VOther, re_nowMilli = int, re_now = VOther,
      re_zero = ResponseResult None, re_requestType = ChatCompletionRequest, re_provider = OpenAI,
      re_model = ''gpt'', re_req = None, re_reqAfter = (\<lambda>_. None)\<rparr>"

definition retry_world :: world where
  "retry_world = \<lparr>w_ctx = SetValue BifrostContextKeyTracer VTracer (NewBifrostContext (\<lambda>_. VNil)),
     w_spans = [], w_nextSpan = 0, w_sleeps = [], w_calls = []\<rparr>"

lemma retry_sample_fresh: "0 \<le> m \<Longrightarrow> freshRun (retry_sample kp m) retry_world"
  by (simp add: freshRun_def retry_sample_def retry_world_def handlerFrame_def hasTracer_def Value_SetValue
      NewBifrostContext_def)

lemma retry_sample_rejected: "allCallsRejected (retry_sample kp m)"
  by (simp add: allCallsRejected_def retry_sample_def isPermanentStatus_def newBifrostErrorFromMsg_def
      isCancelledError_def shouldFallbackBeforeProviderRetry_def)

definition sample_pool :: "key list" where
  "sample_pool = [zeroKey\<lparr>k_ID := ''a'', k_Weight100 := 100\<rparr>, zeroKey\<lparr>k_ID := ''b'', k_Weight100 := 100\<rparr>]"

definition sample_rejected :: "(nat, nat) retry_env" where
  "sample_rejected = retry_sample (Some (rotatingKeyProvider None (weightedKeySelector (\<lambda>_. 0)) ''openai'' sample_pool)) 2"

lemma sample_rejected_facts:
  shows "freshRun sample_rejected retry_world"
    and "re_keyProvider sample_rejected = Some (rotatingKeyProvider None (weightedKeySelector (\<lambda>_. 0)) ''openai'' sample_pool)"
    and "respectsDead (rotatingKeyProvider None (weightedKeySelector (\<lambda>_. 0)) ''openai'' sample_pool)"
    and "\<forall>k\<in>set sample_pool. 0 \<le> k_Weight100 k"
    and "allCallsRejected sample_rejected"
    and "int (card (k_ID ` set sample_pool)) \<le> re_MaxRetries sample_rejected"
proof -
  show "freshRun sample_rejected retry_world" by (simp add: sample_rejected_def retry_sample_fresh)
  show "re_keyProvider sample_rejected = Some (rotatingKeyProvider None (weightedKeySelector (\<lambda>_. 0)) ''openai'' sample_pool)"
    by (simp add: sample_rejected_def retry_sample_def)
  show "respectsDead (rotatingKeyProvider None (weightedKeySelector (\<lambda>_. 0)) ''openai'' sample_pool)"
    by (rule weightedKP.rotating.respects)
  show "\<forall>k\<in>set sample_pool. 0 \<le> k_Weight100 k" by (simp add: sample_pool_def zeroKey_def)
  show "allCallsRejected sample_rejected" by (simp add: sample_rejected_def retry_sample_rejected)
  show "int (card (k_ID ` set sample_pool)) \<le> re_MaxRetries sample_rejected"
    by (simp add: sample_rejected_def retry_sample_def sample_pool_def zeroKey_def)
qed

lemma all_rejected_outcome:
  assumes "freshRun env w" and kp: "re_keyProvider env = Some (rotatingKeyProvider None (weightedKeySelector r) p pool)"
    and "\<forall>k\<in>set pool. 0 \<le> k_Weight100 k" "allCallsRejected env"
    and enough: "int (card (k_ID ` set pool)) \<le> re_MaxRetries env"
    and run: "executeRequestWithRetries env w = (res, err, w')"
  shows "\<exists>e. err = Some e \<and> be_StatusCode e = Some 502 \<and> be_Type e = Some ''upstream_credentials_exhausted''
    \<and> length (w_calls w') = card (k_ID ` set pool)
    \<and> k_ID ` set pool = (k_ID \<circ> fst) ` set (w_calls w')
    \<and> k_ID ` set pool \<subseteq> deadIDs (w_calls w')"
proof -
  obtain m w1 where loop: "retryLoop env (nat (re_MaxRetries env + 1)) 0 (initLocals env) w = (res, err, m, w1)"
    and w': "w' = terminalLog env m err w1"
    using run by (auto simp: executeRequestWithRetries_def split: prod.splits)
  have inv: "loopInv env 0 (initLocals env) w"
    using assms(1) by (simp add: freshRun_def loopInv_def initLocals_def)
  have fresh: "w_calls w = []" "0 \<le> re_MaxRetries env" "handlerFrame env"
    using assms(1) by (simp_all add: freshRun_def)
  have calls: "w_calls w' = w_calls w1" by (simp add: w' terminalLog_def split: prod.split)
  have out: "err = Some (keySelectionError (KPAllDead (errAllKeysDead @ '': provider '' @ p)))
    \<and> k_ID ` set pool \<subseteq> deadIDs (w_calls w1) \<and> length (w_calls w1) = 0 + card (k_ID ` set pool - deadIDs (w_calls w))"
    by (rule rejected_loop [OF kp assms(3) fresh(3) assms(4) inv _ _ _ _ loop])
       (use fresh enough in \<open>auto simp: initLocals_def\<close>)
  then have len: "length (w_calls w1) = card (k_ID ` set pool)" by (simp add: fresh)
  have sub: "k_ID ` set pool \<subseteq> (k_ID \<circ> fst) ` set (w_calls w1)"
    using out by (force simp: deadIDs_def)
  have "card ((k_ID \<circ> fst) ` set (w_calls w1)) \<le> card (k_ID ` set pool)"
    using card_image_le [of "set (w_calls w1)" "k_ID \<circ> fst"] card_length [of "w_calls w1"] len by simp
  with sub have "k_ID ` set pool = (k_ID \<circ> fst) ` set (w_calls w1)"
    by (intro card_seteq) auto
  with out len calls show ?thesis by (simp add: keySelectionError_def)
qed

lemma sample_rejected_calls:
  assumes "executeRequestWithRetries sample_rejected retry_world = (res, err, w')"
  shows "\<exists>c0 c1 e0 e1. w_calls w' = [c0, c1] \<and> snd c0 = Some e0 \<and> isPermanentStatus e0
    \<and> snd c1 = Some e1 \<and> isPermanentStatus e1"
proof -
  note out = all_rejected_outcome [OF sample_rejected_facts(1,2,4,5,6) assms]
  from out have len: "length (w_calls w') = card (k_ID ` set sample_pool)" and dead: "k_ID ` set sample_pool \<subseteq> deadIDs (w_calls w')"
    by blast+
  have ids: "k_ID ` set sample_pool = {''a'', ''b''}" by (simp add: sample_pool_def zeroKey_def)
  have "length (w_calls w') = 2" using len unfolding ids by simp
  then obtain c0 c1 where calls: "w_calls w' = [c0, c1]"
    by (auto simp: length_Suc_conv numeral_2_eq_2)
  have "''a'' \<in> deadIDs [c0, c1]" "''b'' \<in> deadIDs [c0, c1]" using dead calls unfolding ids by simp_all
  then obtain ca ea cb eb
    where a: "ca \<in> set [c0, c1]" "k_ID (fst ca) = ''a''" "snd ca = Some ea" "isPermanentStatus ea"
      and b: "cb \<in> set [c0, c1]" "k_ID (fst cb) = ''b''" "snd cb = Some eb" "isPermanentStatus eb"
    using deadIDs_E by metis
  have "ca \<noteq> cb" using a(2) b(2) by auto
  with a(1) b(1) consider "c0 = ca" "c1 = cb" | "c0 = cb" "c1 = ca" by auto
  then show ?thesis using calls a(3,4) b(3,4) by cases simp_all
qed



text \<open>
  C9. A dead credential is never used again: with the key providers the worker builds (a fixed
  key, or the rotating pool with the default weighted selector) no call of a run uses a key on
  which an earlier call of the same run failed with 401, 402 or 403.
\<close>

theorem dead_keys_never_retried:
  assumes "freshRun env w" "re_keyProvider env = Some kp"
    and kp: "kp = fixedKeyProvider k \<or> kp = rotatingKeyProvider None (weightedKeySelector r) p pool"
    and run: "executeRequestWithRetries env w = (res, err, w')"
    and ij: "i < j" "j < length (w_calls w')" "snd (w_calls w' ! i) = Some e" "isPermanentStatus e"
  shows "k_ID (fst (w_calls w' ! j)) \<noteq> k_ID (fst (w_calls w' ! i))"
proof -
  have "respectsDead kp"
    using kp fixedKP.respects weightedKP.rotating.respects by blast
  from run_outcome [OF assms(1,2) this run] have "k_ID (fst (w_calls w' ! j)) \<notin> deadIDs (take j (w_calls w'))"
    using ij by (simp add: runOutcome_def deadSafe_def)
  moreover have "w_calls w' ! i \<in> set (take j (w_calls w'))"
    using ij by (auto simp: in_set_conv_nth intro!: exI [of _ i])
  then have "k_ID (fst (w_calls w' ! i)) \<in> deadIDs (take j (w_calls w'))"
    by (rule deadIDs_I [OF _ ij(3,4)])
  ultimately show ?thesis by metis
qed

theorem dead_keys_never_retried_witness:
  "\<exists>c0 c1. w_calls (snd (snd (executeRequestWithRetries sample_rejected retry_world))) = [c0, c1]
     \<and> k_ID (fst c1) \<noteq> k_ID (fst c0)"
proof -
  obtain res err w' where run: "executeRequestWithRetries sample_rejected retry_world = (res, err, w')"
    by (metis prod_cases3)
  from sample_rejected_calls [OF run] obtain c0 c1 e0
    where c: "w_calls w' = [c0, c1]" "snd c0 = Some e0" "isPermanentStatus e0" by blast
  have "k_ID (fst (w_calls w' ! 1)) \<noteq> k_ID (fst (w_calls w' ! 0))"
    by (rule dead_keys_never_retried [OF sample_rejected_facts(1,2) disjI2 [OF refl] run, of 0 1 e0])
       (simp_all add: c)
  with c run show ?thesis by simp
qed

text \<open>
  C10. Exhausted credentials are reported as such: when the provider rejects every call with 401,
  402 or 403 and the retries suffice to try the whole rotating pool, the run calls the provider
  once per key ID and ends with 502 \<open>upstream_credentials_exhausted\<close>, not with the provider's
  own 401 that would blame the caller's key.
\<close>

theorem exhausted_credentials_reported:
  assumes "freshRun env w" "re_keyProvider env = Some (rotatingKeyProvider None (weightedKeySelector r) p pool)"
    and "\<forall>k\<in>set pool. 0 \<le> k_Weight100 k" "allCallsRejected env"
    and "int (card (k_ID ` set pool)) \<le> re_MaxRetries env"
    and "executeRequestWithRetries env w = (res, err, w')"
  shows "\<exists>e. err = Some e \<and> be_StatusCode e = Some 502 \<and> be_Type e = Some ''upstream_credentials_exhausted''
    \<and> length (w_calls w') = card (k_ID ` set pool)
    \<and> k_ID ` set pool = (k_ID \<circ> fst) ` set (w_calls w')"
  using all_rejected_outcome [OF assms] by blast

theorem exhausted_credentials_reported_witness:
  "\<exists>e. fst (snd (executeRequestWithRetries sample_rejected retry_world)) = Some e \<and> be_StatusCode e = Some 502"
proof -
  obtain res err w' where run: "executeRequestWithRetries sample_rejected retry_world = (res, err, w')"
    by (metis prod_cases3)
  from exhausted_credentials_reported [OF sample_rejected_facts(1,2,4,5,6) run] run show ?thesis by auto
qed

text \<open>
  The attempt trail is a faithful record: after the run it has one record per call of the
  provider, in order, with the number, the key, the reason of the failure (none for a success,
  but also none for a cancellation or an error of the core) and the rotation mark exactly where
  a failure bound to the key was followed by a call with another key.
\<close>

theorem trail_faithful:
  assumes "freshRun env w" "re_keyProvider env = Some kp" "respectsDead kp"
    and "executeRequestWithRetries env w = (res, err, w')"
  shows "trailOf w' = Some (map (\<lambda>i.
     \<lparr>at_Attempt = int i, at_KeyID = k_ID (fst (w_calls w' ! i)), at_KeyName = k_Name (fst (w_calls w' ! i)),
      at_FailReason = attemptReason (snd (w_calls w' ! i)), at_TriggeredRotation = rotatedAfter (w_calls w') i\<rparr>)
     [0..<length (w_calls w')])"
  using run_outcome [OF assms] by (simp add: runOutcome_def expectedTrail_def expectedRecord_def [abs_def])

theorem trail_faithful_witness:
  "\<exists>t. trailOf (snd (snd (executeRequestWithRetries sample_rejected retry_world))) = Some t
     \<and> length t = length (w_calls (snd (snd (executeRequestWithRetries sample_rejected retry_world))))"
proof -
  obtain res err w' where run: "executeRequestWithRetries sample_rejected retry_world = (res, err, w')"
    by (metis prod_cases3)
  from trail_faithful [OF sample_rejected_facts(1-3) run] run show ?thesis by simp
qed

text \<open>
  The selected key names only a key that worked: after a successful run it is the key of the
  last call, after a failed one it is empty.
\<close>

theorem selected_key_only_on_success:
  assumes "freshRun env w" "re_keyProvider env = Some kp" "respectsDead kp"
    and "executeRequestWithRetries env w = (res, err, w')"
  shows "Value (w_ctx w') BifrostContextKeySelectedKeyID =
    (case err of None \<Rightarrow> VStr (k_ID (fst (last (w_calls w')))) | Some _ \<Rightarrow> VStr [])"
  using run_outcome [OF assms] by (auto simp: runOutcome_def split: option.splits)

theorem selected_key_only_on_success_witness:
  "\<exists>res e w'. executeRequestWithRetries sample_rejected retry_world = (res, Some e, w')
     \<and> Value (w_ctx w') BifrostContextKeySelectedKeyID = VStr []"
proof -
  obtain res err w' where run: "executeRequestWithRetries sample_rejected retry_world = (res, err, w')"
    by (metis prod_cases3)
  from all_rejected_outcome [OF sample_rejected_facts(1,2,4,5,6) run] obtain e where e: "err = Some e" by blast
  from selected_key_only_on_success [OF sample_rejected_facts(1-3) run] e run show ?thesis by simp
qed

text \<open>
  The loop waits before every call but the first, except where the call before was rejected
  for good (401, 402, 403) and this one uses another key: those are exactly the calls without a
  wait, so rate-limit rotations and same-key retries always back off.
\<close>

theorem backoff_skipped_only_after_dead_key:
  assumes "freshRun env w" "re_keyProvider env = Some kp" "respectsDead kp"
    and "executeRequestWithRetries env w = (res, err, w')"
  shows "length (w_sleeps w') + card {i. Suc i < length (w_calls w')
      \<and> (case snd (w_calls w' ! i) of Some e \<Rightarrow> isPermanentStatus e | None \<Rightarrow> False)
      \<and> k_ID (fst (w_calls w' ! Suc i)) \<noteq> k_ID (fst (w_calls w' ! i))} = length (w_calls w') - 1"
proof -
  let ?cs = "w_calls w'"
  let ?P = "\<lambda>i. (case snd (?cs ! i) of Some e \<Rightarrow> isPermanentStatus e | None \<Rightarrow> False)
      \<and> k_ID (fst (?cs ! Suc i)) \<noteq> k_ID (fst (?cs ! i))"
  have "length (w_sleeps w') = length (filter (\<lambda>i. \<not> ?P i) [0..<length ?cs - 1])"
    using run_outcome [OF assms] by (simp add: runOutcome_def waits_def)
  moreover have "card {i. Suc i < length ?cs \<and> ?P i} = length (filter ?P [0..<length ?cs - 1])"
  proof -
    have "{i. Suc i < length ?cs \<and> ?P i} = set (filter ?P [0..<length ?cs - 1])" by auto
    then show ?thesis by (simp only: distinct_card [OF distinct_filter [OF distinct_upt]])
  qed
  ultimately show ?thesis using sum_length_filter_compl [of ?P "[0..<length ?cs - 1]"] by simp
qed

theorem backoff_skipped_only_after_dead_key_witness:
  "\<exists>w'. w' = snd (snd (executeRequestWithRetries sample_rejected retry_world))
     \<and> length (w_sleeps w') \<le> length (w_calls w') - 1"
proof -
  obtain res err w' where run: "executeRequestWithRetries sample_rejected retry_world = (res, err, w')"
    by (metis prod_cases3)
  from backoff_skipped_only_after_dead_key [OF sample_rejected_facts(1-3) run]
  have "length (w_sleeps w') \<le> length (w_calls w') - 1" by linarith
  with run show ?thesis by simp
qed

text \<open>
  A negative \<^verbatim>\<open>MaxRetries\<close> is not refused: the loop body never runs, the provider is not
  called and the caller gets the zero result together with no error.
\<close>

theorem negative_retries_send_nothing:
  assumes "re_MaxRetries env < 0"
  shows "executeRequestWithRetries env w = (re_zero env, None, w)"
  using assms by (simp add: executeRequestWithRetries_def finishLoop_def initLocals_def terminalLog_def)

theorem negative_retries_send_nothing_witness:
  "executeRequestWithRetries (retry_sample None (- 1)) retry_world = (ResponseResult None, None, retry_world)"
  using negative_retries_send_nothing [of "retry_sample None (- 1)" retry_world] by (simp add: retry_sample_def)

end
