(* ===== verification/SpanFilter.thy ===== *)
theory SpanFilter
  imports Prelude
begin

text \<open>
  The plugin-span filter of \<^verbatim>\<open>core/schemas/span_filter.go\<close>: which spans an exporter keeps, and the
  map that gives the children of a removed span their nearest exported ancestor. Go visits the
  map in any order while it rewrites it; the order is a parameter of the model.
\<close>

section \<open>Spans and filters\<close>

record span =
  sp_SpanID :: string
  sp_ParentID :: string
  sp_Name :: string
  sp_Kind :: string

record span_filter =
  sf_Mode :: string
  sf_Plugins :: "string list"

definition SpanKindPlugin :: string where "SpanKindPlugin = ''plugin''"

definition PluginSpanFilterModeInclude :: string where "PluginSpanFilterModeInclude = ''include''"

definition PluginSpanFilterModeExclude :: string where "PluginSpanFilterModeExclude = ''exclude''"

definition sf_Validate :: "span_filter option \<Rightarrow> string option" where
  "sf_Validate f =
     (case f of
        None \<Rightarrow> None
      | Some f \<Rightarrow>
         if sf_Mode f = PluginSpanFilterModeInclude \<or> sf_Mode f = PluginSpanFilterModeExclude then None
         else Some (''plugin_span_filter.mode '' @ sf_Mode f @ '' is invalid''))"

definition SanitizePluginSpanName :: "string \<Rightarrow> string" where
  "SanitizePluginSpanName name = toLower (replaceByte (CHR '' '') ''-'' name)"

text \<open>\<^verbatim>\<open>strings.SplitN\<close> with a one-byte separator.\<close>

fun splitN :: "char \<Rightarrow> nat \<Rightarrow> string \<Rightarrow> string list" where
  "splitN sep 0 s = []"
| "splitN sep (Suc 0) s = [s]"
| "splitN sep (Suc (Suc n)) s =
     (if sep \<notin> set s then [s]
      else takeWhile (\<lambda>c. c \<noteq> sep) s # splitN sep (Suc n) (tl (dropWhile (\<lambda>c. c \<noteq> sep) s)))"

definition PluginNameFromSpan :: "span option \<Rightarrow> string" where
  "PluginNameFromSpan s =
     (case s of
        None \<Rightarrow> []
      | Some sp \<Rightarrow>
         if sp_Kind sp \<noteq> SpanKindPlugin then []
         else
           (let parts = splitN (CHR ''.'') 3 (sp_Name sp)
            in if length parts \<noteq> 3 \<or> parts ! 0 \<noteq> ''plugin'' \<or> parts ! 1 = [] then [] else parts ! 1))"

definition ShouldExportSpan :: "span_filter option \<Rightarrow> span option \<Rightarrow> bool" where
  "ShouldExportSpan f s =
     (case (f, s) of
        (Some fl, Some sp) \<Rightarrow>
          if sp_Kind sp \<noteq> SpanKindPlugin then True
          else
            (let pluginName = PluginNameFromSpan s
             in if pluginName = [] then True
                else (let inList = pluginName \<in> set (sf_Plugins fl)
                      in if sf_Mode fl = PluginSpanFilterModeInclude then inList else \<not> inList))
      | _ \<Rightarrow> True)"

section \<open>Reparenting\<close>

text \<open>First pass: the parent of every filtered span.\<close>

definition filteredParents :: "span_filter option \<Rightarrow> span list \<Rightarrow> string \<rightharpoonup> string" where
  "filteredParents f spans =
     fold (\<lambda>s m. if \<not> ShouldExportSpan f (Some s) then m(sp_SpanID s \<mapsto> sp_ParentID s) else m) spans Map.empty"

text \<open>The capped walk up the chain.\<close>

fun walkUp :: "nat \<Rightarrow> (string \<rightharpoonup> string) \<Rightarrow> string \<Rightarrow> string" where
  "walkUp 0 filtered p = p"
| "walkUp (Suc hops) filtered p =
     (case filtered p of None \<Rightarrow> p | Some g \<Rightarrow> walkUp hops filtered g)"

definition resolveOne :: "nat \<Rightarrow> string \<Rightarrow> (string \<rightharpoonup> string) \<Rightarrow> (string \<rightharpoonup> string)" where
  "resolveOne maxHops i filtered = filtered(i \<mapsto> walkUp maxHops filtered (the (filtered i)))"

text \<open>The whole function; \<open>order\<close> is the order in which the second pass visits the map, and the
  size of the map is the length of that list.\<close>

definition BuildReparentMap ::
  "string list \<Rightarrow> span_filter option \<Rightarrow> span list \<Rightarrow> (string \<rightharpoonup> string) option" where
  "BuildReparentMap order f spans =
     (case f of
        None \<Rightarrow> None
      | Some _ \<Rightarrow>
         (let filtered = filteredParents f spans
          in if order = [] then None else Some (fold (resolveOne (length order)) order filtered)))"

section \<open>Lemmas\<close>

text \<open>Parents are older than their children: the rank of a parent is smaller.\<close>

definition ranked :: "(string \<Rightarrow> nat) \<Rightarrow> (string \<rightharpoonup> string) \<Rightarrow> bool" where
  "ranked h m \<longleftrightarrow> (\<forall>a b. m a = Some b \<longrightarrow> h b < h a)"

definition parentRel :: "(string \<rightharpoonup> string) \<Rightarrow> (string \<times> string) set" where
  "parentRel m = {(a, b). m a = Some b}"

lemma walkUp_reaches:
  assumes "ranked h m" "finite (dom m)"
  shows "card {x \<in> dom m. h x \<le> h p} \<le> n \<Longrightarrow> walkUp n m p \<notin> dom m \<and> (p, walkUp n m p) \<in> (parentRel m)\<^sup>*"
proof (induction n arbitrary: p)
  case 0
  then have "{x \<in> dom m. h x \<le> h p} = {}" using assms(2) by simp
  then show ?case by auto
next
  case (Suc n)
  show ?case
  proof (cases "m p")
    case None
    then show ?thesis by (simp add: domIff)
  next
    case (Some g)
    then have lt: "h g < h p" using assms(1) by (simp add: ranked_def)
    have "{x \<in> dom m. h x \<le> h g} \<subset> {x \<in> dom m. h x \<le> h p}"
    proof (rule psubsetI)
      show "{x \<in> dom m. h x \<le> h g} \<subseteq> {x \<in> dom m. h x \<le> h p}" using lt by auto
      have "p \<in> {x \<in> dom m. h x \<le> h p}" "p \<notin> {x \<in> dom m. h x \<le> h g}" using lt Some by auto
      then show "{x \<in> dom m. h x \<le> h g} \<noteq> {x \<in> dom m. h x \<le> h p}" by blast
    qed
    then have "card {x \<in> dom m. h x \<le> h g} < card {x \<in> dom m. h x \<le> h p}"
      using assms(2) by (intro psubset_card_mono) auto
    with Suc have "walkUp n m g \<notin> dom m \<and> (g, walkUp n m g) \<in> (parentRel m)\<^sup>*" by simp
    moreover have "(p, g) \<in> parentRel m" using Some by (simp add: parentRel_def)
    ultimately show ?thesis using Some by (auto intro: converse_rtrancl_into_rtrancl)
  qed
qed

text \<open>What the second pass keeps: the domain, and that every value is an ancestor by the original
  parents.\<close>

definition keepsAncestors :: "(string \<rightharpoonup> string) \<Rightarrow> (string \<rightharpoonup> string) \<Rightarrow> bool" where
  "keepsAncestors m m' \<longleftrightarrow> dom m' = dom m \<and> (\<forall>a b. m' a = Some b \<longrightarrow> (a, b) \<in> (parentRel m)\<^sup>+)"

lemma keepsAncestors_refl: "keepsAncestors m m"
  by (auto simp: keepsAncestors_def parentRel_def)

lemma ranked_trancl: "ranked h m \<Longrightarrow> (a, b) \<in> (parentRel m)\<^sup>+ \<Longrightarrow> h b < h a"
  by (rotate_tac, induction rule: trancl_induct) (auto simp: ranked_def parentRel_def intro: less_trans)

lemma ranked_keeps: "ranked h m \<Longrightarrow> keepsAncestors m m' \<Longrightarrow> ranked h m'"
  by (auto simp: ranked_def [of h m'] keepsAncestors_def dest: ranked_trancl)

lemma keeps_trancl: "keepsAncestors m m' \<Longrightarrow> (a, b) \<in> (parentRel m')\<^sup>* \<Longrightarrow> (a, b) \<in> (parentRel m)\<^sup>*"
proof (rotate_tac, induction rule: rtrancl_induct)
  case base
  then show ?case by simp
next
  case (step y z)
  then have "(y, z) \<in> (parentRel m)\<^sup>+" by (auto simp: keepsAncestors_def parentRel_def)
  with step show ?case by (metis trancl_into_rtrancl rtrancl_trans)
qed

lemma resolveOne_step:
  assumes rank: "ranked h m" and keep: "keepsAncestors m m'" and fin: "finite (dom m)"
    and i: "i \<in> dom m" and n: "card (dom m) \<le> n"
  shows "keepsAncestors m (resolveOne n i m') \<and> the (resolveOne n i m' i) \<notin> dom m"
proof -
  have "i \<in> dom m'" using i keep by (simp add: keepsAncestors_def)
  then obtain p where p: "m' i = Some p" by blast
  have rank': "ranked h m'" and dom': "dom m' = dom m" using ranked_keeps [OF rank keep] keep
    by (auto simp: keepsAncestors_def)
  have "card {x \<in> dom m'. h x \<le> h p} \<le> card (dom m)"
    using fin dom' by (intro card_mono) auto
  then have w: "walkUp n m' p \<notin> dom m'" "(p, walkUp n m' p) \<in> (parentRel m')\<^sup>*"
    using walkUp_reaches [OF rank', of p n] fin dom' n by auto
  have "(i, p) \<in> (parentRel m)\<^sup>+" using keep p by (simp add: keepsAncestors_def)
  moreover have "(p, walkUp n m' p) \<in> (parentRel m)\<^sup>*" by (rule keeps_trancl [OF keep w(2)])
  ultimately have "(i, walkUp n m' p) \<in> (parentRel m)\<^sup>+" by (rule trancl_rtrancl_trancl)
  then show ?thesis using keep w(1) dom' p i
    by (auto simp: resolveOne_def keepsAncestors_def)
qed

lemma resolveAll:
  assumes rank: "ranked h m" and fin: "finite (dom m)" and n: "card (dom m) \<le> n"
  shows "keepsAncestors m m' \<Longrightarrow> set ids \<subseteq> dom m \<Longrightarrow> (\<forall>j\<in>J. \<exists>q. m' j = Some q \<and> q \<notin> dom m) \<Longrightarrow>
    keepsAncestors m (fold (resolveOne n) ids m')
    \<and> (\<forall>j\<in>J \<union> set ids. \<exists>q. fold (resolveOne n) ids m' j = Some q \<and> q \<notin> dom m)"
proof (induction ids arbitrary: m' J)
  case Nil
  then show ?case by simp
next
  case (Cons i ids)
  have step: "keepsAncestors m (resolveOne n i m') \<and> the (resolveOne n i m' i) \<notin> dom m"
    using Cons.prems by (intro resolveOne_step [OF rank _ fin _ n]) auto
  have "\<forall>j\<in>insert i J. \<exists>q. resolveOne n i m' j = Some q \<and> q \<notin> dom m"
    using step Cons.prems(3) by (auto simp: resolveOne_def)
  from Cons.IH [OF conjunct1 [OF step] _ this] Cons.prems(2) show ?case by simp
qed

lemma filteredParents_finite: "finite (dom (filteredParents f spans))"
proof -
  have "finite (dom m) \<Longrightarrow> finite (dom (fold (\<lambda>s m. if \<not> ShouldExportSpan f (Some s)
      then m(sp_SpanID s \<mapsto> sp_ParentID s) else m) spans m))" for m
    by (induction spans arbitrary: m) auto
  then show ?thesis by (simp add: filteredParents_def)
qed

lemma walk_stuck: "(a, q) \<in> (parentRel m)\<^sup>* \<Longrightarrow> a \<notin> dom m \<Longrightarrow> q = a"
  by (erule converse_rtranclE) (auto simp: parentRel_def)

lemma walk_step: "(a, q) \<in> (parentRel m)\<^sup>* \<Longrightarrow> m a = Some b \<Longrightarrow> q \<notin> dom m \<Longrightarrow> (b, q) \<in> (parentRel m)\<^sup>*"
  by (erule converse_rtranclE) (auto simp: parentRel_def)

lemma walk_unique:
  assumes "(a, q) \<in> (parentRel m)\<^sup>*" "q \<notin> dom m" "q' \<notin> dom m"
  shows "(a, q') \<in> (parentRel m)\<^sup>* \<Longrightarrow> q' = q"
  using assms(1)
proof (induction rule: converse_rtrancl_induct)
  case base
  then show ?case using walk_stuck [OF base assms(2)] by simp
next
  case (step y z)
  from step.hyps(1) have "m y = Some z" by (simp add: parentRel_def)
  with step show ?case using walk_step [OF step.prems _ assms(3)] by blast
qed

section \<open>Properties\<close>

text \<open>
  Reparenting finds the nearest exported ancestor: when parents are older than their children
  (no cycles), then, in whatever order Go visits the map, every filtered span is mapped to the
  unique span (or root) above it that is not itself filtered. So no exported span is left with a
  parent that was removed.
\<close>

theorem reparent_nearest_exported:
  assumes "ranked h (filteredParents (Some f) spans)"
    and "distinct order" "set order = dom (filteredParents (Some f) spans)"
    and "BuildReparentMap order (Some f) spans = Some result"
  shows "dom result = dom (filteredParents (Some f) spans)
    \<and> (\<forall>i q. result i = Some q \<longrightarrow> q \<notin> dom (filteredParents (Some f) spans)
         \<and> (i, q) \<in> (parentRel (filteredParents (Some f) spans))\<^sup>+
         \<and> (\<forall>q'. (i, q') \<in> (parentRel (filteredParents (Some f) spans))\<^sup>* \<and> q' \<notin> dom (filteredParents (Some f) spans)
              \<longrightarrow> q' = q))"
proof -
  let ?m = "filteredParents (Some f) spans"
  have n: "card (dom ?m) \<le> length order" using assms(2,3) distinct_card [of order] by simp
  have res: "result = fold (resolveOne (length order)) order ?m"
    using assms(4) by (simp add: BuildReparentMap_def Let_def split: if_splits)
  have all: "keepsAncestors ?m result \<and> (\<forall>j\<in>{} \<union> set order. \<exists>q. result j = Some q \<and> q \<notin> dom ?m)"
    unfolding res by (rule resolveAll [OF assms(1) filteredParents_finite n keepsAncestors_refl])
      (simp_all add: assms(3))
  have dom: "dom result = dom ?m" using all by (simp add: keepsAncestors_def)
  have "q \<notin> dom ?m \<and> (i, q) \<in> (parentRel ?m)\<^sup>+" if "result i = Some q" for i q
  proof -
    have "i \<in> set order" using that dom assms(3) by blast
    with all that have "q \<notin> dom ?m" by fastforce
    moreover have "(i, q) \<in> (parentRel ?m)\<^sup>+" using all that by (simp add: keepsAncestors_def)
    ultimately show ?thesis by simp
  qed
  moreover from this have "q' = q" if "result i = Some q" "(i, q') \<in> (parentRel ?m)\<^sup>*" "q' \<notin> dom ?m" for i q q'
    using walk_unique [of i q ?m q'] that by (metis trancl_into_rtrancl)
  ultimately show ?thesis using dom by blast
qed

text \<open>A chain: an exported root, two filtered plugin spans, and a child.\<close>

definition span_sample :: "span list" where
  "span_sample =
     [\<lparr>sp_SpanID = ''r'', sp_ParentID = '''', sp_Name = ''chat gpt'', sp_Kind = ''llm.call''\<rparr>,
      \<lparr>sp_SpanID = ''a'', sp_ParentID = ''r'', sp_Name = ''plugin.log.prehook'', sp_Kind = ''plugin''\<rparr>,
      \<lparr>sp_SpanID = ''b'', sp_ParentID = ''a'', sp_Name = ''plugin.log.posthook'', sp_Kind = ''plugin''\<rparr>]"

definition filter_sample :: span_filter where
  "filter_sample = \<lparr>sf_Mode = ''exclude'', sf_Plugins = [''log'']\<rparr>"

lemma filtered_sample: "filteredParents (Some filter_sample) span_sample = [''a'' \<mapsto> ''r'', ''b'' \<mapsto> ''a'']"
  by (simp add: filteredParents_def span_sample_def filter_sample_def ShouldExportSpan_def PluginNameFromSpan_def
      SpanKindPlugin_def PluginSpanFilterModeInclude_def numeral_3_eq_3)

theorem reparent_nearest_exported_witness:
  "\<exists>result. BuildReparentMap [''b'', ''a''] (Some filter_sample) span_sample = Some result
     \<and> (\<forall>q. result ''b'' = Some q \<longrightarrow> q \<noteq> ''a'' \<and> q \<noteq> ''b'')"
proof -
  let ?h = "\<lambda>s::string. if s = ''b'' then 2 else if s = ''a'' then 1 else (0::nat)"
  obtain result where r: "BuildReparentMap [''b'', ''a''] (Some filter_sample) span_sample = Some result"
    by (simp add: BuildReparentMap_def Let_def)
  have "ranked ?h (filteredParents (Some filter_sample) span_sample)"
    by (simp add: filtered_sample ranked_def)
  moreover have "set [''b'', ''a''] = dom (filteredParents (Some filter_sample) span_sample)"
    by (auto simp: filtered_sample)
  ultimately have "\<forall>q. result ''b'' = Some q \<longrightarrow> q \<notin> dom (filteredParents (Some filter_sample) span_sample)"
    using reparent_nearest_exported [OF _ _ _ r, of ?h] by simp
  then show ?thesis using r by (auto simp: filtered_sample)
qed

end
