(* ===== verification/Plugins.thy ===== *)
theory Plugins
  imports Retry SpanFilter
begin

text \<open>
  The plugin pipeline of \<^verbatim>\<open>core/bifrost.go\<close>: the hooks of the LLM plugins around a request, the
  timing kept while a stream is post-processed, the pool discipline of the pipeline object, and
  the operations that change the list of plugins at run time.

  A plugin is a record of functions. A hook works on the root context through its scope, so it
  is a function of that context; what it returns is the request (or response and error) the next
  hook gets, and an optional error of its own. Requests are values here: a hook that wants to
  change the request returns the changed one.
\<close>

section \<open>Plugins and pipelines\<close>

text \<open>A chunk of a stream as the caller sees it: the sub-responses it carries, by their slot.\<close>

type_synonym 'p stream_chunk = "(response_slot \<Rightarrow> 'p sub_response option) chunk"

text \<open>What a plugin answers instead of the provider.\<close>

record 'p short_circuit =
  sc_Response :: "'p bifrost_response option"
  sc_Stream :: "'p stream_chunk option list option"
  sc_Error :: "bifrost_error option"

record ('p, 'q) plugin =
  lp_Name :: string
  lp_PreRequestHook :: "bctx \<Rightarrow> 'q bifrost_request \<Rightarrow> string option \<times> 'q bifrost_request \<times> bctx"
  lp_PreLLMHook ::
    "bctx \<Rightarrow> 'q bifrost_request option
     \<Rightarrow> 'q bifrost_request option \<times> 'p short_circuit option \<times> string option \<times> bctx"
  lp_PostLLMHook ::
    "bctx \<Rightarrow> 'p bifrost_response option \<Rightarrow> bifrost_error option
     \<Rightarrow> 'p bifrost_response option \<times> bifrost_error option \<times> string option \<times> bctx"

record timing =
  pt_totalDuration :: nanos
  pt_invocations :: int
  pt_errors :: int

record ('p, 'q) pipeline =
  pl_plugins :: "('p, 'q) plugin list"
  pl_executedPreHooks :: nat
  pl_preHookErrors :: "string list"
  pl_postHookErrors :: "string list"
  pl_timings :: "string \<rightharpoonup> timing"
  pl_order :: "string list"
  pl_chunkCount :: int
  pl_scoped :: "string list"
  pl_tracer :: bool

definition newPipeline :: "('p, 'q) pipeline" where
  "newPipeline = \<lparr>pl_plugins = [], pl_executedPreHooks = 0, pl_preHookErrors = [], pl_postHookErrors = [],
     pl_timings = Map.empty, pl_order = [], pl_chunkCount = 0, pl_scoped = [],
     pl_tracer = False\<rparr>"

text \<open>The pool: a pipeline is reset when it is given back and bound to the plugins of the moment
  when it is taken out.\<close>

definition resetPluginPipeline :: "('p, 'q) pipeline \<Rightarrow> ('p, 'q) pipeline" where
  "resetPluginPipeline pl =
     pl\<lparr>pl_plugins := [], pl_executedPreHooks := 0, pl_preHookErrors := [], pl_postHookErrors := [],
        pl_chunkCount := 0, pl_timings := Map.empty, pl_order := [], pl_scoped := [],
        pl_tracer := False\<rparr>"

definition getPluginPipeline :: "('p, 'q) plugin list \<Rightarrow> ('p, 'q) pipeline \<Rightarrow> ('p, 'q) pipeline" where
  "getPluginPipeline llmPlugins pooled = pooled\<lparr>pl_plugins := llmPlugins, pl_tracer := True\<rparr>"

section \<open>Hooks\<close>

definition skipPipeline :: "bctx \<Rightarrow> bool" where
  "skipPipeline c \<longleftrightarrow> ctxBool c BifrostContextKeySkipPluginPipeline = Some True"

text \<open>The span of a hook; its identifier becomes the parent of what the hook records.\<close>

definition startPluginSpan :: "(nat \<Rightarrow> ctxval) \<Rightarrow> string \<Rightarrow> string \<Rightarrow> world \<Rightarrow> nat \<times> world" where
  "startPluginSpan spanID name stage w =
     (let h = w_nextSpan w;
          w1 = addSpans [StartSpan h (''plugin.'' @ SanitizePluginSpanName name @ ''.'' @ stage) ''plugin'']
                 (w\<lparr>w_nextSpan := Suc h\<rparr>)
      in (h, case spanID h of VStr i \<Rightarrow> onCtx (SetValue BifrostContextKeySpanID (VStr i)) w1 | _ \<Rightarrow> w1))"

definition hookError :: "nat \<Rightarrow> string \<Rightarrow> span_event list" where
  "hookError h e = [SetAttribute h ''error'' (AStr e), EndSpan h False e]"

definition preHookEnd :: "nat \<Rightarrow> string option \<Rightarrow> 'p short_circuit option \<Rightarrow> span_event list" where
  "preHookEnd h err sc =
     (case err of
        Some e \<Rightarrow> hookError h e
      | None \<Rightarrow> if sc \<noteq> None then [SetAttribute h ''short_circuit'' (ABool True), EndSpan h True ''short-circuit'']
                else [EndSpan h True []])"

text \<open>The loop of \<^verbatim>\<open>RunLLMPreHooks\<close> from index \<open>i\<close>.\<close>

fun preHookLoop ::
  "(nat \<Rightarrow> ctxval) \<Rightarrow> nat \<Rightarrow> ('p, 'q) plugin list \<Rightarrow> 'q bifrost_request option
   \<Rightarrow> ('p, 'q) pipeline \<Rightarrow> world
   \<Rightarrow> 'q bifrost_request option \<times> 'p short_circuit option \<times> nat \<times> ('p, 'q) pipeline \<times> world" where
  "preHookLoop spanID i [] req pl w = (req, None, pl_executedPreHooks pl, pl, w)"
| "preHookLoop spanID i (p # ps) req pl w =
     (case startPluginSpan spanID (lp_Name p) ''prehook'' w of (h, w1) \<Rightarrow>
        (case lp_PreLLMHook p (w_ctx w1) req of (req', sc, err, c') \<Rightarrow>
           (let w2 = addSpans (preHookEnd h err sc) (w1\<lparr>w_ctx := c'\<rparr>);
                pl1 = (case err of Some e \<Rightarrow> pl\<lparr>pl_preHookErrors := pl_preHookErrors pl @ [e]\<rparr> | None \<Rightarrow> pl);
                pl2 = pl1\<lparr>pl_executedPreHooks := i + 1\<rparr>
            in if sc \<noteq> None then (req', sc, i + 1, pl2, w2)
               else preHookLoop spanID (i + 1) ps req' pl2 w2)))"

definition RunLLMPreHooks ::
  "(nat \<Rightarrow> ctxval) \<Rightarrow> 'q bifrost_request option \<Rightarrow> ('p, 'q) pipeline \<Rightarrow> world
   \<Rightarrow> 'q bifrost_request option \<times> 'p short_circuit option \<times> nat \<times> ('p, 'q) pipeline \<times> world" where
  "RunLLMPreHooks spanID req pl w =
     (if skipPipeline (w_ctx w) then (req, None, 0, pl, w)
      else
        (case preHookLoop spanID 0 (pl_plugins pl) req pl (onCtx BlockRestrictedWrites w) of
           (req', sc, n, pl', w') \<Rightarrow> (req', sc, n, pl', onCtx UnblockRestrictedWrites w')))"

fun preRequestLoop ::
  "(nat \<Rightarrow> ctxval) \<Rightarrow> ('p, 'q) plugin list \<Rightarrow> 'q bifrost_request \<Rightarrow> ('p, 'q) pipeline \<Rightarrow> world
   \<Rightarrow> 'q bifrost_request \<times> ('p, 'q) pipeline \<times> world" where
  "preRequestLoop spanID [] req pl w = (req, pl, w)"
| "preRequestLoop spanID (p # ps) req pl w =
     (case startPluginSpan spanID (lp_Name p) ''prerequesthook'' w of (h, w1) \<Rightarrow>
        (case lp_PreRequestHook p (w_ctx w1) req of (err, req', c') \<Rightarrow>
           (case err of
              Some e \<Rightarrow>
                preRequestLoop spanID ps req' (pl\<lparr>pl_preHookErrors := pl_preHookErrors pl @ [e]\<rparr>)
                  (addSpans (hookError h e) (w1\<lparr>w_ctx := c'\<rparr>))
            | None \<Rightarrow>
                preRequestLoop spanID ps req' pl (addSpans [EndSpan h True []] (w1\<lparr>w_ctx := c'\<rparr>)))))"

text \<open>The pin of a routing rule becomes the pinned key.\<close>

definition commitRoutingPin :: "bctx \<Rightarrow> bctx" where
  "commitRoutingPin c =
     (case ctxString c BifrostContextKeyRoutingPinnedAPIKeyID of
        Some pin \<Rightarrow> if trimSpace pin \<noteq> [] then SetValue BifrostContextKeyAPIKeyID (VStr (trimSpace pin)) c else c
      | None \<Rightarrow> c)"

definition RunPreRequestHooks ::
  "(nat \<Rightarrow> ctxval) \<Rightarrow> 'q bifrost_request \<Rightarrow> ('p, 'q) pipeline \<Rightarrow> world
   \<Rightarrow> 'q bifrost_request \<times> ('p, 'q) pipeline \<times> world" where
  "RunPreRequestHooks spanID req pl w =
     (if skipPipeline (w_ctx w) then (req, pl, w)
      else
        (case preRequestLoop spanID (pl_plugins pl) req pl (onCtx BlockRestrictedWrites w) of
           (req', pl', w') \<Rightarrow> (req', pl', onCtx (commitRoutingPin \<circ> UnblockRestrictedWrites) w')))"

text \<open>Timing kept per plugin while a stream runs.\<close>

definition accumulatePluginTiming ::
  "string \<Rightarrow> nanos \<Rightarrow> bool \<Rightarrow> ('p, 'q) pipeline \<Rightarrow> ('p, 'q) pipeline" where
  "accumulatePluginTiming name d hasError pl =
     (let (t, order) = (case pl_timings pl name of
            Some t \<Rightarrow> (t, pl_order pl)
          | None \<Rightarrow> (\<lparr>pt_totalDuration = 0, pt_invocations = 0, pt_errors = 0\<rparr>, pl_order pl @ [name]));
          t' = \<lparr>pt_totalDuration = pt_totalDuration t + d, pt_invocations = pt_invocations t + 1,
                pt_errors = pt_errors t + (if hasError then 1 else 0)\<rparr>
      in pl\<lparr>pl_timings := (pl_timings pl)(name \<mapsto> t'), pl_order := order\<rparr>)"

text \<open>One post-hook; \<open>dur\<close> is the time the hook of a plugin takes.\<close>

definition postHook ::
  "(nat \<Rightarrow> ctxval) \<Rightarrow> (string \<Rightarrow> nanos) \<Rightarrow> bool \<Rightarrow> ('p, 'q) plugin
   \<Rightarrow> 'p bifrost_response option \<times> bifrost_error option \<times> ('p, 'q) pipeline \<times> world
   \<Rightarrow> 'p bifrost_response option \<times> bifrost_error option \<times> ('p, 'q) pipeline \<times> world" where
  "postHook spanID dur isStreaming p = (\<lambda>(resp, berr, pl, w).
     if isStreaming then
       (let pl0 = (if pl_scoped pl = [] then pl\<lparr>pl_scoped := map lp_Name (pl_plugins pl)\<rparr> else pl)
        in case lp_PostLLMHook p (w_ctx w) resp berr of (resp', berr', err, c') \<Rightarrow>
             (let pl1 = accumulatePluginTiming (lp_Name p) (dur (lp_Name p)) (err \<noteq> None) pl0;
                  pl2 = (case err of Some e \<Rightarrow> pl1\<lparr>pl_postHookErrors := pl_postHookErrors pl1 @ [e]\<rparr> | None \<Rightarrow> pl1)
              in (resp', berr', pl2, w\<lparr>w_ctx := c'\<rparr>)))
     else
       (case startPluginSpan spanID (lp_Name p) ''posthook'' w of (h, w1) \<Rightarrow>
          (case lp_PostLLMHook p (w_ctx w1) resp berr of (resp', berr', err, c') \<Rightarrow>
             (case err of
                Some e \<Rightarrow> (resp', berr', pl\<lparr>pl_postHookErrors := pl_postHookErrors pl @ [e]\<rparr>,
                           addSpans (hookError h e) (w1\<lparr>w_ctx := c'\<rparr>))
              | None \<Rightarrow> (resp', berr', pl, addSpans [EndSpan h True []] (w1\<lparr>w_ctx := c'\<rparr>))))))"

text \<open>The last word: an error wins unless it is an empty one next to a response.\<close>

definition emptyError :: "bifrost_error \<Rightarrow> bool" where
  "emptyError e \<longleftrightarrow> be_StatusCode e = None
     \<and> (case be_Error e of
          None \<Rightarrow> False
        | Some f \<Rightarrow> ef_Type f = None \<and> ef_Message f = [] \<and> ef_Error f = None)"

definition postHookResult ::
  "'p bifrost_response option \<Rightarrow> bifrost_error option \<Rightarrow> 'p bifrost_response option \<times> bifrost_error option" where
  "postHookResult resp berr =
     (case berr of
        Some e \<Rightarrow> if resp \<noteq> None \<and> emptyError e then (resp, None) else (resp, berr)
      | None \<Rightarrow> (resp, None))"

definition RunPostLLMHooks ::
  "(nat \<Rightarrow> ctxval) \<Rightarrow> (string \<Rightarrow> nanos) \<Rightarrow> 'p bifrost_response option \<Rightarrow> bifrost_error option \<Rightarrow> int
   \<Rightarrow> ('p, 'q) pipeline \<Rightarrow> world
   \<Rightarrow> 'p bifrost_response option \<times> bifrost_error option \<times> ('p, 'q) pipeline \<times> world" where
  "RunPostLLMHooks spanID dur resp berr runFrom pl w =
     (if skipPipeline (w_ctx w) then (resp, berr, pl, w)
      else
        (let n = min (nat runFrom) (length (pl_plugins pl));
             isStreaming = (Value (w_ctx w) BifrostContextKeyStreamStartTime \<noteq> VNil)
         in case fold (postHook spanID dur isStreaming) (rev (take n (pl_plugins pl)))
                   (resp, berr, pl, onCtx BlockRestrictedWrites w) of
              (resp', berr', pl', w') \<Rightarrow>
                (let pl'' = (if isStreaming then pl'\<lparr>pl_chunkCount := pl_chunkCount pl' + 1\<rparr> else pl')
                 in case postHookResult resp' berr' of (r, e) \<Rightarrow> (r, e, pl'', onCtx UnblockRestrictedWrites w'))))"

section \<open>Spans of a stream\<close>

text \<open>\<^verbatim>\<open>Duration.Milliseconds\<close> truncates toward zero.\<close>

definition millis :: "nanos \<Rightarrow> int" where
  "millis d = (if d < 0 then - ((- d) div 1000000) else d div 1000000)"

definition snapshotTimings :: "('p, 'q) pipeline \<Rightarrow> (string \<times> timing) list" where
  "snapshotTimings pl = concat (map (\<lambda>n.
     (case pl_timings pl n of
        Some t \<Rightarrow> if pt_invocations t = 0 then [] else [(n, t)]
      | None \<Rightarrow> [])) (pl_order pl))"

text \<open>One span per plugin, nested in execution order; \<open>nilHandle\<close> says which \<^verbatim>\<open>StartSpan\<close> calls
  return no handle. The result: the events, the open spans with their error mark, and the next
  handle.\<close>

fun startTimingSpans ::
  "(nat \<Rightarrow> bool) \<Rightarrow> nat \<Rightarrow> (string \<times> timing) list \<Rightarrow> span_event list \<times> (nat \<times> bool) list \<times> nat" where
  "startTimingSpans nilHandle h [] = ([], [], h)"
| "startTimingSpans nilHandle h ((name, t) # es) =
     (if nilHandle h then startTimingSpans nilHandle (Suc h) es
      else
        (case startTimingSpans nilHandle (Suc h) es of (evs, spans, h') \<Rightarrow>
           ([StartSpan h (''plugin.'' @ SanitizePluginSpanName name @ ''.posthook'') ''plugin'',
             SetAttribute h ''plugin.invocation_count'' (AInt (pt_invocations t)),
             SetAttribute h ''plugin.avg_duration_ms'' (AQuot (millis (pt_totalDuration t)) (pt_invocations t)),
             SetAttribute h ''plugin.total_duration_ms'' (AInt (millis (pt_totalDuration t)))]
            @ (if pt_errors t > 0 then [SetAttribute h ''plugin.error_count'' (AInt (pt_errors t))] else [])
            @ evs, (h, pt_errors t > 0) # spans, h')))"

definition endTimingSpans :: "(nat \<times> bool) list \<Rightarrow> span_event list" where
  "endTimingSpans spans = map (\<lambda>(h, hasErrors).
     if hasErrors then EndSpan h False ''some invocations failed'' else EndSpan h True []) (rev spans)"

definition FinalizeStreamingPostHookSpans :: "(nat \<Rightarrow> bool) \<Rightarrow> ('p, 'q) pipeline \<Rightarrow> world \<Rightarrow> world" where
  "FinalizeStreamingPostHookSpans nilHandle pl w =
     (if \<not> pl_tracer pl \<or> pl_order pl = [] then w
      else
        (case startTimingSpans nilHandle (w_nextSpan w) (snapshotTimings pl) of (evs, spans, h') \<Rightarrow>
           addSpans (evs @ endTimingSpans spans) (w\<lparr>w_nextSpan := h'\<rparr>)))"

section \<open>The list of plugins at run time\<close>

text \<open>Each operation retries until its compare-and-swap succeeds; the model is the successful
  try. The second component is the plugin to clean up.\<close>

definition removeLLMPlugin ::
  "string \<Rightarrow> ('p, 'q) plugin list \<Rightarrow> ('p, 'q) plugin list \<times> ('p, 'q) plugin option" where
  "removeLLMPlugin name old =
     (let found = filter (\<lambda>p. lp_Name p = name) old
      in if found = [] then (old, None)
         else (filter (\<lambda>p. lp_Name p \<noteq> name) old, Some (last found)))"

fun replaceFirst ::
  "('p, 'q) plugin \<Rightarrow> ('p, 'q) plugin list \<Rightarrow> ('p, 'q) plugin list \<times> ('p, 'q) plugin option" where
  "replaceFirst new [] = ([], None)"
| "replaceFirst new (p # ps) =
     (if lp_Name p = lp_Name new then (new # ps, Some p)
      else (case replaceFirst new ps of (ps', old) \<Rightarrow> (p # ps', old)))"

definition reloadLLMPlugin ::
  "('p, 'q) plugin \<Rightarrow> ('p, 'q) plugin list \<Rightarrow> ('p, 'q) plugin list \<times> ('p, 'q) plugin option" where
  "reloadLLMPlugin new old =
     (case replaceFirst new old of
        (ps, None) \<Rightarrow> (ps @ [new], None)
      | (ps, Some p) \<Rightarrow> (ps, Some p))"

text \<open>The map from names to positions: a later occurrence of a name overwrites an earlier one.\<close>

definition pluginPositions :: "string list \<Rightarrow> string \<rightharpoonup> nat" where
  "pluginPositions names = fold (\<lambda>(i, n) m. m(n \<mapsto> i)) (List.enumerate 0 names) Map.empty"

definition pluginBefore :: "(string \<rightharpoonup> nat) \<Rightarrow> ('p, 'q) plugin \<Rightarrow> ('p, 'q) plugin \<Rightarrow> bool" where
  "pluginBefore pos p q =
     (case (pos (lp_Name p), pos (lp_Name q)) of
        (None, _) \<Rightarrow> False
      | (Some i, None) \<Rightarrow> True
      | (Some i, Some j) \<Rightarrow> i < j)"

definition ReorderPlugins :: "string list \<Rightarrow> ('p, 'q) plugin list \<Rightarrow> ('p, 'q) plugin list" where
  "ReorderPlugins orderedNames old = sortSlice (pluginBefore (pluginPositions orderedNames)) old"

section \<open>Lemmas\<close>

lemma Value_block [simp]:
  "Value (BlockRestrictedWrites c) k = Value c k" "Value (UnblockRestrictedWrites c) k = Value c k"
  by (simp_all add: BlockRestrictedWrites_def UnblockRestrictedWrites_def Value_def split: option.split)

text \<open>Hooks that write the context only through the operations of the context.\<close>

definition scopedHooks :: "('p, 'q) plugin \<Rightarrow> bool" where
  "scopedHooks p \<longleftrightarrow>
     (\<forall>c req. \<exists>ws. snd (snd (lp_PreRequestHook p c req)) = fold plugin_do ws c)
     \<and> (\<forall>c req. \<exists>ws. snd (snd (snd (lp_PreLLMHook p c req))) = fold plugin_do ws c)
     \<and> (\<forall>c r e. \<exists>ws. snd (snd (snd (lp_PostLLMHook p c r e))) = fold plugin_do ws c)"

text \<open>Blocked, with the reserved keys as they were.\<close>

definition reservedKept :: "bctx \<Rightarrow> bctx \<Rightarrow> bool" where
  "reservedKept c c' \<longleftrightarrow> bc_blockRestrictedWrites c' \<and> (\<forall>k\<in>set reservedKeys. Value c' k = Value c k)"

lemma reservedKept_trans: "reservedKept c c' \<Longrightarrow> reservedKept c' c'' \<Longrightarrow> reservedKept c c''"
  by (simp add: reservedKept_def)

lemma reservedKept_refl: "bc_blockRestrictedWrites c \<Longrightarrow> reservedKept c c"
  by (simp add: reservedKept_def)

lemma reservedKept_blocked: "reservedKept c c' \<Longrightarrow> bc_blockRestrictedWrites c'"
  by (simp add: reservedKept_def)

lemma reservedKept_writes: "bc_blockRestrictedWrites c \<Longrightarrow> reservedKept c (fold plugin_do ws c)"
proof (induction ws arbitrary: c)
  case Nil
  then show ?case by (simp add: reservedKept_def)
next
  case (Cons x ws)
  have "bc_blockRestrictedWrites (plugin_do x c)" and keep: "Value (plugin_do x c) k = Value c k" if "k \<in> set reservedKeys" for k
    using plugin_do_reserved [OF Cons.prems that] by simp_all
  then have step: "reservedKept c (plugin_do x c)" by (auto simp: reservedKept_def reservedKeys_def)
  show ?case using reservedKept_trans [OF step Cons.IH [OF reservedKept_blocked [OF step]]] by simp
qed

lemma scopedHooksD:
  assumes "scopedHooks p" "bc_blockRestrictedWrites c"
  shows "lp_PreRequestHook p c r = (err, r', c') \<Longrightarrow> reservedKept c c'"
    and "lp_PreLLMHook p c q = (q', sc, err, c') \<Longrightarrow> reservedKept c c'"
    and "lp_PostLLMHook p c resp e = (resp', e', err, c') \<Longrightarrow> reservedKept c c'"
  using assms reservedKept_writes unfolding scopedHooks_def by (metis snd_conv)+

lemma startPluginSpan_ctx:
  assumes "startPluginSpan sid n stage w = (h, w')" "bc_blockRestrictedWrites (w_ctx w)"
  shows "reservedKept (w_ctx w) (w_ctx w')"
  using assms
  by (auto simp: startPluginSpan_def Let_def reservedKept_def reservedKeys_def Value_SetValue_other split: ctxval.splits)

lemma preHookLoop_reserved:
  assumes "\<forall>p\<in>set ps. scopedHooks p"
  shows "preHookLoop sid i ps req pl w = (req', sc, n, pl', w') \<Longrightarrow> bc_blockRestrictedWrites (w_ctx w) \<Longrightarrow>
    reservedKept (w_ctx w) (w_ctx w')"
  using assms
proof (induction ps arbitrary: i req pl w)
  case Nil
  then show ?case by (simp add: reservedKept_refl)
next
  case (Cons p ps)
  obtain h w1 where st: "startPluginSpan sid (lp_Name p) ''prehook'' w = (h, w1)" by fastforce
  obtain req1 sc1 err c1 where hook: "lp_PreLLMHook p (w_ctx w1) req = (req1, sc1, err, c1)"
    by (metis prod_cases4)
  note k1 = startPluginSpan_ctx [OF st Cons.prems(2)]
  then have b1: "bc_blockRestrictedWrites (w_ctx w1)" by (simp add: reservedKept_def)
  have k2: "reservedKept (w_ctx w1) c1" using scopedHooksD(2) [OF _ b1 hook] Cons.prems(3) by simp
  note k = reservedKept_trans [OF k1 k2]
  then have b2: "bc_blockRestrictedWrites c1" by (simp add: reservedKept_def)
  show ?case
  proof (cases "sc1 = None")
    case True
    with Cons.prems(1) obtain pl1 where
      "preHookLoop sid (i + 1) ps req1 pl1 (addSpans (preHookEnd h err sc1) (w1\<lparr>w_ctx := c1\<rparr>)) = (req', sc, n, pl', w')"
      by (auto simp: st hook Let_def)
    from Cons.IH [OF this] k b2 Cons.prems(3) show ?thesis by (auto intro: reservedKept_trans)
  next
    case False
    with Cons.prems(1) have "w_ctx w' = c1" by (auto simp: st hook Let_def)
    with k show ?thesis by simp
  qed
qed

lemma preRequestLoop_reserved:
  assumes "\<forall>p\<in>set ps. scopedHooks p"
  shows "preRequestLoop sid ps req pl w = (req', pl', w') \<Longrightarrow> bc_blockRestrictedWrites (w_ctx w) \<Longrightarrow>
    reservedKept (w_ctx w) (w_ctx w')"
  using assms
proof (induction ps arbitrary: req pl w)
  case Nil
  then show ?case by (simp add: reservedKept_refl)
next
  case (Cons p ps)
  obtain h w1 where st: "startPluginSpan sid (lp_Name p) ''prerequesthook'' w = (h, w1)" by fastforce
  obtain err req1 c1 where hook: "lp_PreRequestHook p (w_ctx w1) req = (err, req1, c1)"
    by (metis prod_cases3)
  note k1 = startPluginSpan_ctx [OF st Cons.prems(2)]
  have k2: "reservedKept (w_ctx w1) c1"
    using scopedHooksD(1) [OF _ reservedKept_blocked [OF k1] hook] Cons.prems(3) by simp
  note k = reservedKept_trans [OF k1 k2]
  from Cons.prems(1) obtain pl1 es where
    "preRequestLoop sid ps req1 pl1 (addSpans es (w1\<lparr>w_ctx := c1\<rparr>)) = (req', pl', w')"
    by (auto simp: st hook split: option.splits)
  from Cons.IH [OF this] k Cons.prems(3) show ?case
    by (auto intro: reservedKept_trans reservedKept_blocked)
qed

lemma postHook_reserved:
  assumes "scopedHooks p" "postHook sid dur isStreaming p (resp, e, pl, w) = (resp', e', pl', w')"
    and "bc_blockRestrictedWrites (w_ctx w)"
  shows "reservedKept (w_ctx w) (w_ctx w')"
proof (cases isStreaming)
  case True
  obtain r1 e1 err c1 where hook: "lp_PostLLMHook p (w_ctx w) resp e = (r1, e1, err, c1)" by (metis prod_cases4)
  show ?thesis using assms(2) True scopedHooksD(3) [OF assms(1,3) hook]
    by (auto simp: postHook_def hook Let_def)
next
  case False
  obtain h w1 where st: "startPluginSpan sid (lp_Name p) ''posthook'' w = (h, w1)" by fastforce
  obtain r1 e1 err c1 where hook: "lp_PostLLMHook p (w_ctx w1) resp e = (r1, e1, err, c1)" by (metis prod_cases4)
  note k1 = startPluginSpan_ctx [OF st assms(3)]
  note k2 = scopedHooksD(3) [OF assms(1) reservedKept_blocked [OF k1] hook]
  show ?thesis using assms(2) False reservedKept_trans [OF k1 k2]
    by (auto simp: postHook_def st hook split: option.splits)
qed

lemma postHooks_reserved:
  assumes "\<forall>p\<in>set ps. scopedHooks p"
  shows "fold (postHook sid dur isStreaming) ps (resp, e, pl, w) = (resp', e', pl', w') \<Longrightarrow>
    bc_blockRestrictedWrites (w_ctx w) \<Longrightarrow> reservedKept (w_ctx w) (w_ctx w')"
  using assms
proof (induction ps arbitrary: resp e pl w)
  case Nil
  then show ?case by (simp add: reservedKept_refl)
next
  case (Cons p ps)
  obtain r1 e1 pl1 w1 where st: "postHook sid dur isStreaming p (resp, e, pl, w) = (r1, e1, pl1, w1)"
    by (metis prod_cases4)
  have k: "reservedKept (w_ctx w) (w_ctx w1)"
    using postHook_reserved [OF _ st Cons.prems(2)] Cons.prems(3) by simp
  from Cons.prems(1) have "fold (postHook sid dur isStreaming) ps (r1, e1, pl1, w1) = (resp', e', pl', w')"
    by (simp add: st)
  from Cons.IH [OF this reservedKept_blocked [OF k]] k Cons.prems(3) show ?case
    by (auto intro: reservedKept_trans)
qed

text \<open>The names of the spans that were started, in order.\<close>

definition startedSpans :: "span_event list \<Rightarrow> string list" where
  "startedSpans es = concat (map (\<lambda>e. case e of StartSpan h n k \<Rightarrow> [n] | _ \<Rightarrow> []) es)"

lemma startedSpans_append [simp]: "startedSpans (es @ fs) = startedSpans es @ startedSpans fs"
  by (simp add: startedSpans_def)

lemma startedSpans_simps [simp]:
  "startedSpans [] = []"
  "startedSpans (StartSpan h n k # es) = n # startedSpans es"
  "startedSpans (SetAttribute h a v # es) = startedSpans es"
  "startedSpans (EndSpan h b d # es) = startedSpans es"
  by (simp_all add: startedSpans_def)

definition hookSpan :: "string \<Rightarrow> ('p, 'q) plugin \<Rightarrow> string" where
  "hookSpan stage p = ''plugin.'' @ SanitizePluginSpanName (lp_Name p) @ ''.'' @ stage"

lemma startPluginSpan_spans:
  "startPluginSpan sid (lp_Name p) stage w = (h, w') \<Longrightarrow>
   startedSpans (w_spans w') = startedSpans (w_spans w) @ [hookSpan stage p]"
  by (auto simp: startPluginSpan_def Let_def hookSpan_def addSpans_def split: ctxval.splits)

lemma hook_end_spans [simp]:
  "startedSpans (preHookEnd h err sc) = []" "startedSpans (hookError h e) = []"
  by (simp_all add: preHookEnd_def hookError_def split: option.split)

lemma w_spans_addSpans [simp]: "w_spans (addSpans es w) = w_spans w @ es"
  by (simp add: addSpans_def)

lemma preHookLoop_spans:
  assumes "preHookLoop sid i ps req pl w = (req', sc, n, pl', w')" "pl_executedPreHooks pl = i"
  shows "i \<le> n \<and> n \<le> i + length ps \<and> (sc = None \<longrightarrow> n = i + length ps)
    \<and> startedSpans (w_spans w') = startedSpans (w_spans w) @ map (hookSpan ''prehook'') (take (n - i) ps)
    \<and> pl_plugins pl' = pl_plugins pl"
  using assms
proof (induction ps arbitrary: i req pl w)
  case Nil
  then show ?case by auto
next
  case (Cons p ps)
  obtain h w1 where st: "startPluginSpan sid (lp_Name p) ''prehook'' w = (h, w1)" by fastforce
  obtain req1 sc1 err c1 where hook: "lp_PreLLMHook p (w_ctx w1) req = (req1, sc1, err, c1)"
    by (metis prod_cases4)
  note sp = startPluginSpan_spans [OF st]
  let ?w2 = "addSpans (preHookEnd h err sc1) (w1\<lparr>w_ctx := c1\<rparr>)"
  have sp2: "startedSpans (w_spans ?w2) = startedSpans (w_spans w) @ [hookSpan ''prehook'' p]"
    using sp by simp
  show ?case
  proof (cases "sc1 = None")
    case True
    let ?pl1 = "(case err of Some e \<Rightarrow> pl\<lparr>pl_preHookErrors := pl_preHookErrors pl @ [e]\<rparr> | None \<Rightarrow> pl)
        \<lparr>pl_executedPreHooks := i + 1\<rparr>"
    have pl1: "pl_executedPreHooks ?pl1 = i + 1" "pl_plugins ?pl1 = pl_plugins pl"
      by (simp_all split: option.split)
    have rest: "preHookLoop sid (i + 1) ps req1 ?pl1 ?w2 = (req', sc, n, pl', w')"
      using Cons.prems(1) True by (simp add: st hook Let_def)
    from Cons.IH [OF rest pl1(1)] sp2 pl1(2) show ?thesis
      by (auto simp: take_Cons' Suc_le_eq)
  next
    case False
    with Cons.prems have "n = i + 1" "w' = ?w2" "sc \<noteq> None" "pl_plugins pl' = pl_plugins pl"
      by (auto simp: st hook Let_def split: option.splits)
    with sp2 show ?thesis by auto
  qed
qed

lemma postHook_spans:
  assumes "postHook sid dur False p (resp, e, pl, w) = (resp', e', pl', w')"
  shows "startedSpans (w_spans w') = startedSpans (w_spans w) @ [hookSpan ''posthook'' p]"
proof -
  obtain h w1 where st: "startPluginSpan sid (lp_Name p) ''posthook'' w = (h, w1)" by fastforce
  obtain r1 e1 err c1 where hook: "lp_PostLLMHook p (w_ctx w1) resp e = (r1, e1, err, c1)" by (metis prod_cases4)
  show ?thesis using assms startPluginSpan_spans [OF st]
    by (auto simp: postHook_def st hook split: option.splits)
qed

lemma postHooks_spans:
  "fold (postHook sid dur False) ps (resp, e, pl, w) = (resp', e', pl', w') \<Longrightarrow>
   startedSpans (w_spans w') = startedSpans (w_spans w) @ map (hookSpan ''posthook'') ps"
proof (induction ps arbitrary: resp e pl w)
  case Nil
  then show ?case by simp
next
  case (Cons p ps)
  obtain r1 e1 pl1 w1 where st: "postHook sid dur False p (resp, e, pl, w) = (r1, e1, pl1, w1)"
    by (metis prod_cases4)
  from Cons.IH [of r1 e1 pl1 w1] Cons.prems postHook_spans [OF st] show ?case by (simp add: st)
qed

lemma RunLLMPreHooks_spans:
  assumes "RunLLMPreHooks sid req pl w = (req', sc, n, pl', w')"
    and "\<not> skipPipeline (w_ctx w)" "pl_executedPreHooks pl = 0"
  shows "n \<le> length (pl_plugins pl) \<and> (sc = None \<longrightarrow> n = length (pl_plugins pl))
    \<and> startedSpans (w_spans w') = startedSpans (w_spans w) @ map (hookSpan ''prehook'') (take n (pl_plugins pl))
    \<and> pl_plugins pl' = pl_plugins pl"
proof -
  obtain w1 where "preHookLoop sid 0 (pl_plugins pl) req pl (onCtx BlockRestrictedWrites w) = (req', sc, n, pl', w1)"
      and "w' = onCtx UnblockRestrictedWrites w1"
    using assms(1,2) by (auto simp: RunLLMPreHooks_def split: prod.splits)
  from preHookLoop_spans [OF this(1) assms(3)] this(2) show ?thesis by simp
qed

lemma RunPostLLMHooks_spans:
  assumes "RunPostLLMHooks sid dur resp e runFrom pl w = (resp', e', pl', w')"
    and "\<not> skipPipeline (w_ctx w)" "Value (w_ctx w) BifrostContextKeyStreamStartTime = VNil"
  shows "startedSpans (w_spans w') = startedSpans (w_spans w)
    @ map (hookSpan ''posthook'') (rev (take (nat runFrom) (pl_plugins pl)))"
proof -
  let ?n = "min (nat runFrom) (length (pl_plugins pl))"
  obtain r1 e1 pl1 w1 where fold: "fold (postHook sid dur False) (rev (take ?n (pl_plugins pl)))
      (resp, e, pl, onCtx BlockRestrictedWrites w) = (r1, e1, pl1, w1)"
    by (metis prod_cases4)
  have "w' = onCtx UnblockRestrictedWrites w1"
    using assms by (auto simp: RunPostLLMHooks_def fold split: prod.splits)
  moreover have "take ?n (pl_plugins pl) = take (nat runFrom) (pl_plugins pl)" by (simp add: min_def)
  ultimately show ?thesis using postHooks_spans [OF fold] by simp
qed

section \<open>Ordering plugins\<close>

interpretation plugin_order: strict_weak_order "pluginBefore pos" for pos
  by unfold_locales (auto simp: pluginBefore_def split: option.splits)

lemma pluginPositions_last:
  "pluginPositions (names @ [n]) = (pluginPositions names)(n \<mapsto> length names)"
  by (simp add: pluginPositions_def enumerate_append_eq)

lemma pluginPositions_dom: "dom (pluginPositions names) = set names"
proof (induction names rule: rev_induct)
  case Nil
  then show ?case by (simp add: pluginPositions_def)
next
  case (snoc n names)
  then show ?case unfolding pluginPositions_last dom_fun_upd by simp
qed

section \<open>Properties\<close>

text \<open>A plugin that leaves everything as it is, and one that answers itself.\<close>

definition noopPlugin :: "string \<Rightarrow> (nat, nat) plugin" where
  "noopPlugin n =
     \<lparr>lp_Name = n, lp_PreRequestHook = (\<lambda>c r. (None, r, c)), lp_PreLLMHook = (\<lambda>c r. (r, None, None, c)),
      lp_PostLLMHook = (\<lambda>c r e. (r, e, None, c))\<rparr>"

definition errorPlugin :: "string \<Rightarrow> bifrost_error \<Rightarrow> (nat, nat) plugin" where
  "errorPlugin n err =
     (noopPlugin n)\<lparr>lp_PreLLMHook := (\<lambda>c r. (r, Some \<lparr>sc_Response = None, sc_Stream = None, sc_Error = Some err\<rparr>, None, c))\<rparr>"

lemma scopedHooks_noop: "scopedHooks (noopPlugin n)"
  unfolding scopedHooks_def noopPlugin_def by (auto intro: exI [of _ "[]"])

lemma retry_world_plain [simp]:
  "skipPipeline (w_ctx retry_world) = False" "Value (w_ctx retry_world) BifrostContextKeyStreamStartTime = VNil"
  "w_spans retry_world = []"
  by (simp_all add: retry_world_def skipPipeline_def ctxBool_def Value_SetValue Value_New)





text \<open>
  Reordering loses no plugin and is stable: the result is a permutation in which the listed
  plugins come first, by the (last) position of their names, and the unlisted ones follow in
  their old order.
\<close>

theorem reorder_plugins:
  "mset (ReorderPlugins names ps) = mset ps
   \<and> sorted_wrt (\<lambda>p q. \<not> pluginBefore (pluginPositions names) q p) (ReorderPlugins names ps)
   \<and> filter (\<lambda>p. lp_Name p \<notin> set names) (ReorderPlugins names ps) = filter (\<lambda>p. lp_Name p \<notin> set names) ps"
proof -
  let ?pos = "pluginPositions names"
  have "filter (\<lambda>p. lp_Name p \<notin> set names) (ReorderPlugins names ps) = filter (\<lambda>p. lp_Name p \<notin> set names) ps"
  proof (cases "\<exists>a\<in>set ps. lp_Name a \<notin> set names")
    case True
    then obtain a where a: "a \<in> set ps" "?pos (lp_Name a) = None"
      using pluginPositions_dom [of names] by (metis domIff)
    have "(\<not> pluginBefore ?pos a y \<and> \<not> pluginBefore ?pos y a) = (lp_Name y \<notin> set names)" for y
      using a(2) pluginPositions_dom [of names] by (auto simp: pluginBefore_def domIff split: option.splits)
    with plugin_order.sortSlice_stable [of ?pos a ps] show ?thesis by (simp add: ReorderPlugins_def)
  next
    case False
    then show ?thesis by (simp add: ReorderPlugins_def filter_empty_conv)
  qed
  then show ?thesis using plugin_order.sortSlice_ordered by (simp add: ReorderPlugins_def)
qed

end
