(* ===== verification/Dispatch.thy ===== *)
theory Dispatch
  imports Plugins
begin

text \<open>
  One attempt at one provider, \<^verbatim>\<open>tryRequest\<close> and \<^verbatim>\<open>tryStreamRequest\<close> of \<^verbatim>\<open>core/bifrost.go\<close>: find the
  queue, run the pre-hooks, put the message into the queue, wait for the worker's answer, run
  the post-hooks and remove the raw payloads the caller must not see.

  Which case of a \<^verbatim>\<open>select\<close> fires, what the worker answers and how long the list of plugins is by
  then come with the environment, so every interleaving with workers, updates and cancellation
  is one environment. The plugin logs that are drained to the tracer are not modelled.
\<close>

section \<open>Chunks for the caller\<close>

definition stripSub :: "bool \<Rightarrow> bool \<Rightarrow> 'p sub_response \<Rightarrow> 'p sub_response" where
  "stripSub dropReq dropResp x = x\<lparr>sp_Extra := stripRaw dropReq dropResp (sp_Extra x)\<rparr>"

definition stripError :: "bool \<Rightarrow> bool \<Rightarrow> bifrost_error \<Rightarrow> bifrost_error" where
  "stripError dropReq dropResp e = e\<lparr>be_ExtraFields := stripRaw dropReq dropResp (be_ExtraFields e)\<rparr>"

definition dropFlags :: "bctx \<Rightarrow> bool \<times> bool" where
  "dropFlags c = (GetBoolFromContext c BifrostContextKeyDropRawRequestFromClient,
                  GetBoolFromContext c BifrostContextKeyDropRawResponseFromClient)"

definition clientSlots :: "response_slot list" where
  "clientSlots = [RspTextCompletion, RspChat, RspResponsesStream, RspSpeechStream, RspTranscriptionStream,
     RspImageGenerationStream, RspPassthrough]"

text \<open>\<open>respType\<close> reads the event type of a responses-API sub-response.\<close>

definition BuildClientStreamChunk ::
  "('p sub_response \<Rightarrow> string) \<Rightarrow> bctx \<Rightarrow> 'p bifrost_response option \<Rightarrow> bifrost_error option \<Rightarrow> 'p stream_chunk" where
  "BuildClientStreamChunk respType c resp err =
     (case dropFlags c of (dropReq, dropResp) \<Rightarrow>
        (let drop = dropReq \<or> dropResp;
             subs = (\<lambda>s. case resp of
                      None \<Rightarrow> None
                    | Some r \<Rightarrow> if s \<in> set clientSlots
                                then (if drop then map_option (stripSub dropReq dropResp) (rs_sub r s) else rs_sub r s)
                                else None)
         in \<lparr>ch_Error = (if drop then map_option (stripError dropReq dropResp) err else err),
             ch_ResponsesType = map_option respType (subs RspResponsesStream),
             ch_payload = subs\<rparr>))"

text \<open>A stream of one message; None is the nil dereference in its goroutine.\<close>

definition messageChanSlots :: "response_slot list" where
  "messageChanSlots = [RspTextCompletion, RspChat, RspResponsesStream, RspSpeechStream, RspTranscriptionStream]"

definition newBifrostMessageChan ::
  "('p sub_response \<Rightarrow> string) \<Rightarrow> 'p bifrost_response option \<Rightarrow> 'p stream_chunk list option" where
  "newBifrostMessageChan respType message =
     (case message of
        None \<Rightarrow> None
      | Some r \<Rightarrow>
         (let subs = (\<lambda>s. if s \<in> set messageChanSlots then rs_sub r s else None)
          in Some [\<lparr>ch_Error = None, ch_ResponsesType = map_option respType (subs RspResponsesStream),
                    ch_payload = subs\<rparr>]))"

section \<open>The environment of an attempt\<close>

datatype wait_event = Sent | QueueDone | CtxDone ctx_done

datatype 'p served = Responded "'p bifrost_response option" | Failed bifrost_error | Abandoned ctx_done

datatype 'p served_stream = Streaming "'p stream_chunk option list" | StreamFailed bifrost_error | StreamAbandoned ctx_done

record ('p, 'q) dispatch_env =
  de_queueError :: "string \<Rightarrow> string option"
  de_hasTracer :: bool
  de_plugins :: "('p, 'q) plugin list"
  de_pluginCount :: nat
  de_spanID :: "nat \<Rightarrow> ctxval"
  de_dur :: "string \<Rightarrow> nanos"
  de_closing :: bool
  de_rerouted :: bool
  de_trySend :: "wait_event option"
  de_dropExcess :: bool
  de_closingAgain :: bool
  de_blockingSend :: wait_event
  de_serve :: "'q bifrost_request \<Rightarrow> world \<Rightarrow> 'p served \<times> world"
  de_serveStream :: "'q bifrost_request \<Rightarrow> world \<Rightarrow> 'p served_stream \<times> world"
  de_traceID :: string
  de_respType :: "'p sub_response \<Rightarrow> string"

section \<open>Into the queue\<close>

definition shuttingDown :: bifrost_error where
  "shuttingDown = newBifrostErrorFromMsg ''provider is shutting down''"

text \<open>A closing queue is replaced by the provider's new one or refused; then the message is sent:
  at once if there is room, otherwise dropped or sent when there is. The result is the error of
  a message that did not get in.\<close>

definition enqueue :: "bool \<Rightarrow> ('p, 'q) dispatch_env \<Rightarrow> request_type \<Rightarrow> string \<Rightarrow> string \<Rightarrow> bifrost_error option" where
  "enqueue streaming env t provider model =
     (if de_closing env \<and> \<not> de_rerouted env
      then Some (shuttingDown\<lparr>be_ExtraFields := zeroExtraFields\<lparr>xf_RequestType := Some t, xf_Provider := provider,
             xf_OriginalModelRequested := model, xf_ResolvedModelUsed := (if streaming then [] else model)\<rparr>\<rparr>)
      else
        (let refuse = (\<lambda>e. Some (errPopulateExtraFields t provider model model e));
             waited = (\<lambda>ev. case ev of
                Sent \<Rightarrow> None
              | QueueDone \<Rightarrow> refuse shuttingDown
              | CtxDone d \<Rightarrow> refuse (newBifrostCtxDoneError d ''while waiting for queue space''))
         in case de_trySend env of
              Some ev \<Rightarrow> waited ev
            | None \<Rightarrow>
               if de_dropExcess env then refuse (newBifrostErrorFromMsg ''request dropped: queue is full'')
               else if de_closingAgain env then refuse shuttingDown
               else waited (de_blockingSend env)))"

section \<open>The post-hooks of an attempt\<close>

definition postHooksOf ::
  "('p, 'q) dispatch_env \<Rightarrow> request_type \<Rightarrow> string \<Rightarrow> string \<Rightarrow> 'p bifrost_response option \<Rightarrow> bifrost_error option
   \<Rightarrow> nat \<Rightarrow> ('p, 'q) pipeline \<Rightarrow> world
   \<Rightarrow> 'p bifrost_response option \<times> bifrost_error option \<times> ('p, 'q) pipeline \<times> world" where
  "postHooksOf env t provider model resp err runFrom pl w =
     (case RunPostLLMHooks (de_spanID env) (de_dur env) resp err (int runFrom) pl w of
        (resp', Some e, pl', w') \<Rightarrow> (resp', Some (errPopulateExtraFields t provider model model e), pl', w')
      | (resp', None, pl', w') \<Rightarrow> (map_option (respPopulateExtraFields t provider model model) resp', None, pl', w'))"

text \<open>The error wins over the response.\<close>

definition attemptResult ::
  "'p bifrost_response option \<times> bifrost_error option \<times> ('p, 'q) pipeline \<times> world
   \<Rightarrow> 'p bifrost_response option \<times> bifrost_error option \<times> world" where
  "attemptResult r = (case r of
        (resp, Some e, pl, w) \<Rightarrow> (None, Some e, w)
      | (resp, None, pl, w) \<Rightarrow> (resp, None, w))"

section \<open>An attempt\<close>

text \<open>What a short-circuit asks for: the response first, then (streams only) the stream, then the
  error. One with none of them lets the request go on.\<close>

datatype 'p verdict =
    AnswerResponse "'p bifrost_response"
  | AnswerStream "'p stream_chunk option list"
  | AnswerError bifrost_error
  | GoOn

definition verdict :: "bool \<Rightarrow> 'p short_circuit option \<Rightarrow> 'p verdict" where
  "verdict streaming sc =
     (case sc of
        None \<Rightarrow> GoOn
      | Some s \<Rightarrow>
         (case sc_Response s of
            Some r \<Rightarrow> AnswerResponse r
          | None \<Rightarrow>
             (case (if streaming then sc_Stream s else None) of
                Some chunks \<Rightarrow> AnswerStream chunks
              | None \<Rightarrow> (case sc_Error s of Some e \<Rightarrow> AnswerError e | None \<Rightarrow> GoOn))))"

text \<open>After the message is in the queue.\<close>

definition awaitResponse ::
  "('p, 'q) dispatch_env \<Rightarrow> 'q bifrost_request \<Rightarrow> 'q bifrost_request \<Rightarrow> ('p, 'q) pipeline \<Rightarrow> world
   \<Rightarrow> 'p bifrost_response option \<times> bifrost_error option \<times> world" where
  "awaitResponse env req preReq pl w =
     (case GetRequestFields preReq of (provider, model, _) \<Rightarrow>
        (case de_serve env preReq w of
           (Responded result, w1) \<Rightarrow>
             (case attemptResult (postHooksOf env (br_RequestType req) provider model result None (de_pluginCount env) pl w1) of
                (resp, Some e, w2) \<Rightarrow> (None, Some e, w2)
              | (resp, None, w2) \<Rightarrow>
                 (case dropFlags (w_ctx w2) of (dropReq, dropResp) \<Rightarrow>
                    (map_option (updateExtra getExtraOrder (stripRaw dropReq dropResp)) resp, None, w2)))
         | (Failed e, w1) \<Rightarrow>
             (case attemptResult (postHooksOf env (br_RequestType req) provider model None (Some e) (de_pluginCount env) pl w1) of
                (resp, err, w2) \<Rightarrow>
                  (case dropFlags (w_ctx w2) of (dropReq, dropResp) \<Rightarrow>
                     (map_option (updateExtra getExtraOrder (stripRaw dropReq dropResp)) resp,
                      map_option (stripError dropReq dropResp) err, w2)))
         | (Abandoned d, w1) \<Rightarrow>
             (case GetRequestFields req of (p, m, _) \<Rightarrow>
                (None, Some (errPopulateExtraFields (br_RequestType req) p m m
                   (newBifrostCtxDoneError d ''waiting for provider response'')), w1))))"

definition noTracer :: "request_type \<Rightarrow> string \<Rightarrow> string \<Rightarrow> world \<Rightarrow> 'r option \<times> bifrost_error option \<times> world" where
  "noTracer t provider model w =
     (None, Some (errPopulateExtraFields t provider model model (newBifrostErrorFromMsg ''tracer not found in context'')), w)"

definition tryRequest ::
  "('p, 'q) dispatch_env \<Rightarrow> 'q bifrost_request \<Rightarrow> world
   \<Rightarrow> 'p bifrost_response option \<times> bifrost_error option \<times> world" where
  "tryRequest env req w =
     (case GetRequestFields req of (provider, model, _) \<Rightarrow>
        (let t = br_RequestType req
         in case de_queueError env provider of
              Some msg \<Rightarrow> (None, Some (errPopulateExtraFields t provider model model (newBifrostError msg)), w)
            | None \<Rightarrow>
               if \<not> de_hasTracer env then noTracer t provider model w
               else
               (case RunLLMPreHooks (de_spanID env) (Some req) (getPluginPipeline (de_plugins env) newPipeline)
                       (onCtx (SetValue BifrostContextKeyTracer VTracer) w) of
                  (preReq, sc, preCount, pl, w1) \<Rightarrow>
                    (case verdict False sc of
                       AnswerResponse r \<Rightarrow>
                         attemptResult (postHooksOf env t provider model
                           (Some (respPopulateExtraFields t provider model model r)) None preCount pl w1)
                     | AnswerError e \<Rightarrow>
                         attemptResult (postHooksOf env t provider model None
                           (Some (errPopulateExtraFields t provider model model e)) preCount pl w1)
                     | _ \<Rightarrow>
                         (case preReq of
                            None \<Rightarrow>
                              (None, Some (errPopulateExtraFields t provider model model
                                 (newBifrostErrorFromMsg ''bifrost request after plugin hooks cannot be nil'')), w1)
                          | Some pr \<Rightarrow>
                              (case GetRequestFields pr of (provider', model', _) \<Rightarrow>
                                 (case enqueue False env t provider' model' of
                                    Some e \<Rightarrow> (None, Some e, w1)
                                  | None \<Rightarrow> awaitResponse env req pr pl w1)))))))"

section \<open>A streaming attempt\<close>

text \<open>The stream a caller gets: one message, a plugin's stream run through the post-hooks as it is
  read, or the provider's. None is the crash of the goroutine that sends the one message.\<close>

datatype 'p stream =
    MessageStream "'p stream_chunk list option"
  | HookedStream "'p stream_chunk list"
  | ProviderStream "'p stream_chunk option list"

definition shortCircuitSlots :: "response_slot list" where
  "shortCircuitSlots = [RspTextCompletion, RspChat, RspResponsesStream, RspSpeechStream, RspTranscriptionStream,
     RspImageGenerationStream]"

text \<open>The goroutine over a plugin's stream, when the caller reads it to the end: nil chunks are
  skipped, the others pass the post-hooks. The pipeline is finalized and the plugins' spans are
  closed when it ends.\<close>

definition hookChunk ::
  "('p, 'q) dispatch_env \<Rightarrow> request_type \<Rightarrow> string \<Rightarrow> string \<Rightarrow> nat \<Rightarrow> 'p stream_chunk
   \<Rightarrow> ('p, 'q) pipeline \<Rightarrow> world \<Rightarrow> 'p stream_chunk \<times> ('p, 'q) pipeline \<times> world" where
  "hookChunk env t provider model preCount c pl w =
     (let result = \<lparr>rs_sub = (\<lambda>s. if s \<in> set shortCircuitSlots then ch_payload c s else None)\<rparr>
      in case postHooksOf env t provider model
             (Some (respPopulateExtraFields t provider model model result))
             (map_option (errPopulateExtraFields t provider model model) (ch_Error c)) preCount pl w of
           (resp, err, pl', w') \<Rightarrow>
             (BuildClientStreamChunk (de_respType env) (w_ctx w') (if err = None then resp else None) err, pl', w'))"

fun hookStream ::
  "('p, 'q) dispatch_env \<Rightarrow> request_type \<Rightarrow> string \<Rightarrow> string \<Rightarrow> nat \<Rightarrow> 'p stream_chunk option list
   \<Rightarrow> ('p, 'q) pipeline \<Rightarrow> world \<Rightarrow> 'p stream_chunk list \<times> ('p, 'q) pipeline \<times> world" where
  "hookStream env t provider model n [] pl w = ([], pl, w)"
| "hookStream env t provider model n (None # cs) pl w = hookStream env t provider model n cs pl w"
| "hookStream env t provider model n (Some c # cs) pl w =
     (case hookChunk env t provider model n c pl w of (out, pl1, w1) \<Rightarrow>
        (case hookStream env t provider model n cs pl1 w1 of (outs, pl2, w2) \<Rightarrow> (out # outs, pl2, w2)))"

definition awaitStream ::
  "('p, 'q) dispatch_env \<Rightarrow> 'q bifrost_request \<Rightarrow> 'q bifrost_request \<Rightarrow> ('p, 'q) pipeline \<Rightarrow> world
   \<Rightarrow> 'p stream option \<times> bifrost_error option \<times> world" where
  "awaitStream env req preReq pl w =
     (case GetRequestFields preReq of (provider, model, _) \<Rightarrow>
        (case de_serveStream env preReq w of
           (Streaming chunks, w1) \<Rightarrow> (Some (ProviderStream chunks), None, w1)
         | (StreamFailed e, w1) \<Rightarrow>
             (case postHooksOf env (br_RequestType req) provider model None (Some e) (de_pluginCount env) pl
                     (onCtx (SetValue BifrostContextKeyStreamEndIndicator (VBool True)) w1) of
                (resp, Some e', _, w2) \<Rightarrow> (None, Some e', w2)
              | (Some r, None, _, w2) \<Rightarrow>
                  (Some (MessageStream (newBifrostMessageChan (de_respType env) (Some r))), None, w2)
              | (None, None, _, w2) \<Rightarrow> (None, Some e, w2))
         | (StreamAbandoned d, w1) \<Rightarrow>
             (None, Some (newBifrostCtxDoneError d ''while waiting for stream response''), w1)))"

definition tryStreamRequest ::
  "('p, 'q) dispatch_env \<Rightarrow> 'q bifrost_request \<Rightarrow> world \<Rightarrow> 'p stream option \<times> bifrost_error option \<times> world" where
  "tryStreamRequest env req w =
     (case GetRequestFields req of (provider, model, _) \<Rightarrow>
        (let t = br_RequestType req
         in case de_queueError env provider of
              Some msg \<Rightarrow> (None, Some (errPopulateExtraFields t provider model model (newBifrostError msg)), w)
            | None \<Rightarrow>
               if \<not> de_hasTracer env then noTracer t provider model w
               else
               (let w0 = onCtx (SetValue BifrostContextKeyTracer VTracer) w;
                    w0' = (if ctxString (w_ctx w0) BifrostContextKeyTraceID = None \<and> de_traceID env \<noteq> []
                           then onCtx (SetValue BifrostContextKeyTraceID (VStr (de_traceID env))) w0 else w0)
                in case RunLLMPreHooks (de_spanID env) (Some req) (getPluginPipeline (de_plugins env) newPipeline) w0' of
                  (preReq, sc, preCount, pl, w1) \<Rightarrow>
                    (case verdict True sc of
                       AnswerResponse r \<Rightarrow>
                         (case attemptResult (postHooksOf env t provider model
                                 (Some (respPopulateExtraFields t provider model model r)) None preCount pl w1) of
                            (resp, Some e, w2) \<Rightarrow> (None, Some e, w2)
                          | (resp, None, w2) \<Rightarrow> (Some (MessageStream (newBifrostMessageChan (de_respType env) resp)), None, w2))
                     | AnswerStream chunks \<Rightarrow>
                         (case hookStream env t provider model preCount chunks pl w1 of (outs, pl2, w2) \<Rightarrow>
                            (Some (HookedStream outs), None, FinalizeStreamingPostHookSpans (\<lambda>_. False) pl2 w2))
                     | AnswerError e \<Rightarrow>
                         (case attemptResult (postHooksOf env t provider model None
                                 (Some (errPopulateExtraFields t provider model model e)) preCount pl w1) of
                            (resp, Some e, w2) \<Rightarrow> (None, Some e, w2)
                          | (resp, None, w2) \<Rightarrow> (Some (MessageStream (newBifrostMessageChan (de_respType env) resp)), None, w2))
                     | GoOn \<Rightarrow>
                         (case preReq of
                            None \<Rightarrow>
                              (None, Some (errPopulateExtraFields t provider model model
                                 (newBifrostErrorFromMsg ''bifrost request after plugin hooks cannot be nil'')), w1)
                          | Some pr \<Rightarrow>
                              (case GetRequestFields pr of (provider', model', _) \<Rightarrow>
                                 (case enqueue True env t provider' model' of
                                    Some e \<Rightarrow> (None, Some e, w1)
                                  | None \<Rightarrow> awaitStream env req pr pl w1)))))))"

section \<open>Lemmas\<close>

lemma GetExtraFields_strip:
  "GetExtraFields (updateExtra getExtraOrder (stripRaw a b) r) = stripRaw a b (GetExtraFields r)
   \<or> GetExtraFields (updateExtra getExtraOrder (stripRaw a b) r) = zeroExtraFields"
proof (cases "activeResponse getExtraOrder r")
  case None
  then have "activeResponse getExtraOrder (updateExtra getExtraOrder (stripRaw a b) r) = None" by simp
  then show ?thesis unfolding GetExtraFields_def by simp
next
  case (Some s)
  then show ?thesis using GetExtraFields_updateExtra [of r] by simp
qed

lemma stripRaw_None [simp]:
  "xf_RawRequest (stripRaw True b x) = None" "xf_RawResponse (stripRaw a True x) = None"
  by (simp_all add: stripRaw_def Let_def)

lemma GetExtraFields_stripped [simp]:
  "xf_RawRequest (GetExtraFields (updateExtra getExtraOrder (stripRaw True b) r)) = None"
  "xf_RawResponse (GetExtraFields (updateExtra getExtraOrder (stripRaw a True) r)) = None"
  using GetExtraFields_strip [of True b r] GetExtraFields_strip [of a True r]
  by (auto simp: zeroExtraFields_def)

lemma stripError_extra [simp]: "be_ExtraFields (stripError a b e) = stripRaw a b (be_ExtraFields e)"
  by (simp add: stripError_def)

lemma stripRaw_keeps [simp]:
  "xf_RequestType (stripRaw a b x) = xf_RequestType x" "xf_Provider (stripRaw a b x) = xf_Provider x"
  "xf_OriginalModelRequested (stripRaw a b x) = xf_OriginalModelRequested x"
  by (simp_all add: stripRaw_def Let_def)

lemma errPopulate_type [simp]:
  "xf_RequestType (be_ExtraFields (errPopulateExtraFields t p m um e)) = Some t"
  by (simp add: errPopulateExtraFields_def extraPopulate_def)

lemma enqueue_type:
  "enqueue streaming env t p m = Some e \<Longrightarrow> xf_RequestType (be_ExtraFields e) = Some t"
  by (auto simp: enqueue_def Let_def split: if_splits option.splits wait_event.splits)

lemma attemptResult_type:
  assumes "attemptResult (postHooksOf env t p m resp err n pl w) = (r, Some e, w')"
  shows "xf_RequestType (be_ExtraFields e) = Some t"
  using assms by (auto simp: attemptResult_def postHooksOf_def split: prod.splits option.splits)

lemma awaitResponse_type:
  assumes "awaitResponse env req pr pl w = (resp, Some e, w')"
  shows "xf_RequestType (be_ExtraFields e) = Some (br_RequestType req)"
proof -
  obtain p m f where f: "GetRequestFields pr = (p, m, f)" by (metis prod_cases3)
  obtain p0 m0 f0 where f0: "GetRequestFields req = (p0, m0, f0)" by (metis prod_cases3)
  obtain out w1 where serve: "de_serve env pr w = (out, w1)" by fastforce
  show ?thesis
  proof (cases out)
    case (Responded result)
    obtain r err w2 where a: "attemptResult (postHooksOf env (br_RequestType req) p m result None (de_pluginCount env) pl w1)
        = (r, err, w2)" by (metis prod_cases3)
    show ?thesis
    proof (cases err)
      case None
      then show ?thesis using assms Responded by (simp add: awaitResponse_def f serve a split: prod.splits)
    next
      case (Some e')
      then show ?thesis using assms Responded attemptResult_type [OF a [unfolded Some]]
        by (simp add: awaitResponse_def f serve a)
    qed
  next
    case (Failed e0)
    obtain r err w2 where a: "attemptResult (postHooksOf env (br_RequestType req) p m None (Some e0) (de_pluginCount env) pl w1)
        = (r, err, w2)" by (metis prod_cases3)
    obtain a1 a2 where d: "dropFlags (w_ctx w2) = (a1, a2)" by fastforce
    obtain e' where e': "err = Some e'" "e = stripError a1 a2 e'"
      using assms Failed by (auto simp: awaitResponse_def f serve a d)
    show ?thesis using attemptResult_type [OF a [unfolded e'(1)]] e'(2) by simp
  next
    case (Abandoned x3)
    then show ?thesis using assms by (auto simp: awaitResponse_def f serve f0)
  qed
qed

section \<open>Properties\<close>

text \<open>
  Every error of an attempt says what it is an error of: whichever way \<^verbatim>\<open>tryRequest\<close> fails (no
  queue, a short-circuit, a request lost by the hooks, a closing or full queue, the provider, a
  hook turning a response into an error, a cancelled caller), the error carries the type of the
  request, whatever the plugins wrote there.
\<close>

theorem attempt_error_metadata:
  assumes "tryRequest env req w = (resp, Some e, w')"
  shows "xf_RequestType (be_ExtraFields e) = Some (br_RequestType req)"
proof -
  obtain p m f where f: "GetRequestFields req = (p, m, f)" by (metis prod_cases3)
  obtain pr sc n pl w1 where pre: "RunLLMPreHooks (de_spanID env) (Some req) (getPluginPipeline (de_plugins env) newPipeline)
      (onCtx (SetValue BifrostContextKeyTracer VTracer) w) = (pr, sc, n, pl, w1)" by (metis prod_cases5)
  show ?thesis
  proof (cases "de_queueError env p")
    case (Some msg)
    then show ?thesis using assms by (auto simp: tryRequest_def f)
  next
    case None
    show ?thesis
    proof (cases "de_hasTracer env")
      case False
      then show ?thesis using assms None by (auto simp: tryRequest_def f noTracer_def)
    next
    case True
    then have tracer: "(\<not> de_hasTracer env) = False" by simp
    note start = assms [unfolded tryRequest_def f Let_def prod.case None option.case pre tracer if_False]
    show ?thesis
    proof (cases "verdict False sc")
      case (AnswerResponse r)
      then show ?thesis using start by (auto intro: attemptResult_type)
    next
      case (AnswerStream cs)
      then show ?thesis by (auto simp: verdict_def split: option.splits)
    next
      case (AnswerError e0)
      then show ?thesis using start by (auto intro: attemptResult_type)
    next
      case GoOn
      show ?thesis
      proof (cases pr)
        case None
        then show ?thesis using start GoOn by auto
      next
        case (Some r)
        obtain p' m' f' where f': "GetRequestFields r = (p', m', f')" by (metis prod_cases3)
        show ?thesis
        proof (cases "enqueue False env (br_RequestType req) p' m'")
          case None
          then show ?thesis using start GoOn Some f' by (auto intro: awaitResponse_type)
        next
          case (Some e')
          then show ?thesis using start GoOn \<open>pr = Some r\<close> f' enqueue_type [OF Some] by auto
        qed
      qed
    qed
    qed
  qed
qed

text \<open>A world and an environment for the examples: two plugins that do nothing, a provider that
  answers with raw bytes, and by then only one plugin left in the list.\<close>

definition dispatch_request :: "nat bifrost_request" where
  "dispatch_request = singleRequest ChatCompletionRequest SlotChat
     \<lparr>sr_Provider = ''openai'', sr_Model = Some ''gpt'', sr_Fallbacks = [], sr_RawRequestBody = None, sr_payload = 0\<rparr>"

definition dispatch_response :: "nat bifrost_response" where
  "dispatch_response = singleResponse RspChat
     \<lparr>sp_Extra = zeroExtraFields\<lparr>xf_RawRequest := Some ''raw''\<rparr>, sp_payload = 0\<rparr>"

definition dispatch_sample :: "(nat, nat) plugin list \<Rightarrow> (nat, nat) dispatch_env" where
  "dispatch_sample ps =
     \<lparr>de_queueError = (\<lambda>p. if p = ''openai'' then None else Some ''no config''), de_hasTracer = True, de_plugins = ps, de_pluginCount = 1,
      de_spanID = (\<lambda>_. VOther 0), de_dur = (\<lambda>_. 0), de_closing = False, de_rerouted = False,
      de_trySend = Some Sent, de_dropExcess = False, de_closingAgain = False, de_blockingSend = Sent,
      de_serve = (\<lambda>r w. (Responded (Some dispatch_response),
                          onCtx (SetValue BifrostContextKeyDropRawRequestFromClient (VBool True)) w)),
      de_serveStream = (\<lambda>r w. (Streaming [], w)), de_traceID = ''t'', de_respType = (\<lambda>_. [])\<rparr>"

theorem attempt_error_metadata_witness:
  "\<exists>resp e w'. tryRequest (dispatch_sample []) (SetProvider ''nope'' dispatch_request) retry_world = (resp, Some e, w')
     \<and> xf_RequestType (be_ExtraFields e) = Some ChatCompletionRequest"
proof -
  have req: "SetProvider ''nope'' dispatch_request = singleRequest ChatCompletionRequest SlotChat
     \<lparr>sr_Provider = ''nope'', sr_Model = Some ''gpt'', sr_Fallbacks = [], sr_RawRequestBody = None, sr_payload = 0\<rparr>"
    by (simp add: dispatch_request_def SetProvider_def activeIn_single updateSub_single setProviderOrder_def)
  obtain resp e w' where "tryRequest (dispatch_sample []) (SetProvider ''nope'' dispatch_request) retry_world = (resp, Some e, w')"
    unfolding req by (simp add: tryRequest_def GetRequestFields_single dispatch_sample_def)
  with attempt_error_metadata [OF this] show ?thesis by (simp add: req) (simp add: singleRequest_def)
qed



text \<open>
  After a provider's answer the post-hooks follow the list of plugins of that moment, not the
  plugins whose pre-hooks ran: with \<open>de_pluginCount\<close> plugins left, only the first that many of
  the request's own plugins get their post-hook. So when a plugin is removed while a request is
  in flight, the last plugin of the request never sees the end of it, although its pre-hook ran.
\<close>

theorem post_hooks_follow_current_list:
  assumes "de_serve env pr w = (Responded result, w1)"
    and "\<not> skipPipeline (w_ctx w1)" "Value (w_ctx w1) BifrostContextKeyStreamStartTime = VNil"
    and "awaitResponse env req pr pl w = (resp, err, w')"
  shows "startedSpans (w_spans w') = startedSpans (w_spans w1)
    @ map (hookSpan ''posthook'') (rev (take (de_pluginCount env) (pl_plugins pl)))"
proof -
  obtain p m f where f: "GetRequestFields pr = (p, m, f)" by (metis prod_cases3)
  obtain r e pl' w2 where post: "RunPostLLMHooks (de_spanID env) (de_dur env) result None (int (de_pluginCount env)) pl w1
      = (r, e, pl', w2)" by (metis prod_cases4)
  have "w' = w2" using assms(1,4)
    by (cases e) (auto simp: awaitResponse_def f postHooksOf_def post attemptResult_def split: prod.splits)
  with RunPostLLMHooks_spans [OF post assms(2,3)] show ?thesis by simp
qed

theorem post_hooks_follow_current_list_witness:
  "\<exists>resp err w'. awaitResponse (dispatch_sample [noopPlugin ''a'', noopPlugin ''b'']) dispatch_request dispatch_request
       (newPipeline\<lparr>pl_plugins := [noopPlugin ''a'', noopPlugin ''b'']\<rparr>) retry_world = (resp, err, w')
     \<and> startedSpans (w_spans w') = [''plugin.a.posthook'']"
proof -
  let ?env = "dispatch_sample [noopPlugin ''a'', noopPlugin ''b'']"
  let ?pl = "newPipeline\<lparr>pl_plugins := [noopPlugin ''a'', noopPlugin ''b'']\<rparr>"
  let ?w1 = "onCtx (SetValue BifrostContextKeyDropRawRequestFromClient (VBool True)) retry_world"
  obtain resp err w' where run: "awaitResponse ?env dispatch_request dispatch_request ?pl retry_world = (resp, err, w')"
    by (metis prod_cases3)
  have serve: "de_serve ?env dispatch_request retry_world = (Responded (Some dispatch_response), ?w1)"
    by (simp add: dispatch_sample_def)
  have "\<not> skipPipeline (w_ctx ?w1)" "Value (w_ctx ?w1) BifrostContextKeyStreamStartTime = VNil"
    by (simp_all add: skipPipeline_def ctxBool_def Value_SetValue retry_world_def Value_New)
  from post_hooks_follow_current_list [OF serve this run] run show ?thesis
    by (simp add: dispatch_sample_def newPipeline_def hookSpan_def noopPlugin_def SanitizePluginSpanName_def
        toLower_def lowerByte_def)
qed

text \<open>
  A recovery without a response crashes a stream: when a plugin short-circuits a streaming
  request with an error and the post-hooks take the error back without giving a response, the
  caller is handed a stream whose goroutine dereferences nil, which ends the process. After a
  provider's error the same recovery is handled.
\<close>

theorem stream_recovery_without_response:
  assumes "GetRequestFields req = (provider, model, fs)" "de_queueError env provider = None" "de_hasTracer env"
    and "RunLLMPreHooks (de_spanID env) (Some req) (getPluginPipeline (de_plugins env) newPipeline)
      (let w0 = onCtx (SetValue BifrostContextKeyTracer VTracer) w
       in if ctxString (w_ctx w0) BifrostContextKeyTraceID = None \<and> de_traceID env \<noteq> []
          then onCtx (SetValue BifrostContextKeyTraceID (VStr (de_traceID env))) w0 else w0)
      = (pr, Some \<lparr>sc_Response = None, sc_Stream = None, sc_Error = Some e\<rparr>, n, pl, w1)"
    and "RunPostLLMHooks (de_spanID env) (de_dur env) None
      (Some (errPopulateExtraFields (br_RequestType req) provider model model e)) (int n) pl w1 = (None, None, pl2, w2)"
  shows "tryStreamRequest env req w = (Some (MessageStream None), None, w2)"
  using assms
  by (simp add: tryStreamRequest_def Let_def verdict_def postHooksOf_def attemptResult_def newBifrostMessageChan_def)

text \<open>A plugin that answers with an error and then takes it back.\<close>

definition forgetfulPlugin :: "(nat, nat) plugin" where
  "forgetfulPlugin = (errorPlugin ''cache'' (newBifrostError ''miss''))\<lparr>lp_PostLLMHook := (\<lambda>c r e. (None, None, None, c))\<rparr>"

theorem stream_recovery_without_response_witness:
  "fst (tryStreamRequest (dispatch_sample [forgetfulPlugin]) dispatch_request retry_world) = Some (MessageStream None)"
proof -
  let ?env = "dispatch_sample [forgetfulPlugin]"
  have req: "GetRequestFields dispatch_request = (''openai'', ''gpt'', [])"
    by (simp add: dispatch_request_def GetRequestFields_single providerOnlySlots_def fallbackSlots_def)
  let ?w0 = "onCtx (SetValue BifrostContextKeyTraceID (VStr (de_traceID ?env)))
      (onCtx (SetValue BifrostContextKeyTracer VTracer) retry_world)"
  obtain pr sc n pl w1 where pre: "RunLLMPreHooks (de_spanID ?env) (Some dispatch_request)
      (getPluginPipeline (de_plugins ?env) newPipeline) ?w0 = (pr, sc, n, pl, w1)" by (metis prod_cases5)
  have skip0: "\<not> skipPipeline (w_ctx ?w0)"
    by (simp add: skipPipeline_def ctxBool_def Value_SetValue retry_world_def Value_New)
  have facts: "sc = Some \<lparr>sc_Response = None, sc_Stream = None, sc_Error = Some (newBifrostError ''miss'')\<rparr>" "n = 1"
      "pl_plugins pl = [forgetfulPlugin]" "\<not> skipPipeline (w_ctx w1)"
    using pre skip0 by (auto simp: RunLLMPreHooks_def dispatch_sample_def getPluginPipeline_def newPipeline_def
        startPluginSpan_def Let_def forgetfulPlugin_def errorPlugin_def noopPlugin_def skipPipeline_def ctxBool_def)
  obtain r e pl2 w2 where post: "RunPostLLMHooks (de_spanID ?env) (de_dur ?env) None
      (Some (errPopulateExtraFields (br_RequestType dispatch_request) ''openai'' ''gpt'' ''gpt'' (newBifrostError ''miss'')))
      (int n) pl w1 = (r, e, pl2, w2)" by (metis prod_cases4)
  have "r = None \<and> e = None"
    using post facts by (auto simp: RunPostLLMHooks_def Let_def postHook_def forgetfulPlugin_def postHookResult_def
        dispatch_sample_def startPluginSpan_def split: if_splits prod.splits)
  with post have post': "RunPostLLMHooks (de_spanID ?env) (de_dur ?env) None
      (Some (errPopulateExtraFields (br_RequestType dispatch_request) ''openai'' ''gpt'' ''gpt'' (newBifrostError ''miss'')))
      (int n) pl w1 = (None, None, pl2, w2)" by simp
  have queue: "de_queueError ?env ''openai'' = None" and tracer: "de_hasTracer ?env" by (simp_all add: dispatch_sample_def)
  have start: "(let w0 = onCtx (SetValue BifrostContextKeyTracer VTracer) retry_world
       in if ctxString (w_ctx w0) BifrostContextKeyTraceID = None \<and> de_traceID ?env \<noteq> []
          then onCtx (SetValue BifrostContextKeyTraceID (VStr (de_traceID ?env))) w0 else w0) = ?w0"
    by (simp add: Let_def dispatch_sample_def ctxString_def Value_SetValue retry_world_def Value_New)
  show ?thesis
    using stream_recovery_without_response [of dispatch_request "''openai''" "''gpt''" "[]" ?env retry_world pr
        "newBifrostError ''miss''" n pl w1 pl2 w2, OF req queue tracer] pre post' unfolding start facts(1) by simp
qed

end
