(* ===== verification/Fallback.thy ===== *)
theory Fallback
  imports Dispatch
begin

text \<open>
  Fallbacks, \<^verbatim>\<open>handleRequest\<close> and \<^verbatim>\<open>handleStreamRequest\<close> of \<^verbatim>\<open>core/bifrost.go\<close>: the pre-request
  hooks choose provider, model and fallbacks, the primary is attempted, and after an error that
  allows it the fallbacks are attempted in their order. The two functions differ in the attempt
  they make and in the marking of a fallback's result, which are arguments of the shared
  definitions. An outcome None is the nil dereference that ends the process.
\<close>

section \<open>Decisions\<close>

definition cancelledError :: "bifrost_error \<Rightarrow> bool" where
  "cancelledError e \<longleftrightarrow> (case be_Error e of Some f \<Rightarrow> ef_Type f = Some RequestCancelled | None \<Rightarrow> False)"

definition shouldTryFallbacks :: "'q bifrost_request \<Rightarrow> bifrost_error option \<Rightarrow> bool" where
  "shouldTryFallbacks req primaryErr =
     (case primaryErr of
        None \<Rightarrow> False
      | Some e \<Rightarrow>
         if cancelledError e then False
         else if be_AllowFallbacks e = Some False then False
         else (case GetRequestFields req of (_, _, fallbacks) \<Rightarrow> fallbacks \<noteq> []))"

definition prepareSlots :: "request_slot list" where
  "prepareSlots = [SlotTextCompletion, SlotChat, SlotResponses, SlotCountTokens, SlotCompaction, SlotEmbedding,
     SlotRerank, SlotOCR, SlotSpeech, SlotTranscription, SlotImageGeneration, SlotVideoGeneration]"

definition prepareFallbackRequest ::
  "(string \<Rightarrow> bool) \<Rightarrow> 'q bifrost_request \<Rightarrow> fallback \<Rightarrow> 'q bifrost_request option" where
  "prepareFallbackRequest hasConfig req fb =
     (if \<not> hasConfig (fb_Provider fb) then None
      else Some (fold (\<lambda>s. updateSub s (\<lambda>r. r\<lparr>sr_Provider := fb_Provider fb, sr_Model := Some (fb_Model fb)\<rparr>))
                   prepareSlots req))"

definition shouldContinueWithFallbacks :: "bifrost_error \<Rightarrow> bool option" where
  "shouldContinueWithFallbacks fallbackErr =
     (case be_Error fallbackErr of
        None \<Rightarrow> None
      | Some f \<Rightarrow>
         Some (if ef_Type f = Some RequestCancelled then False
               else if be_AllowFallbacks fallbackErr = Some False then False
               else True))"

section \<open>The loop over the fallbacks\<close>

text \<open>\<open>ro_attempt i\<close> is the environment of attempt \<open>i\<close> (0 the primary), \<open>ro_uuid\<close> the random
  identifiers, \<open>ro_spanID\<close> the span identifier in the context \<^verbatim>\<open>StartSpan\<close> returns, \<open>ro_nowMilli i\<close> the
  clock at the log entries of attempt \<open>i\<close>.\<close>

record ('p, 'q) route_env =
  ro_attempt :: "nat \<Rightarrow> ('p, 'q) dispatch_env"
  ro_plugins :: "('p, 'q) plugin list"
  ro_hasConfig :: "string \<Rightarrow> bool"
  ro_uuid :: "nat \<Rightarrow> string"
  ro_spanID :: "nat \<Rightarrow> ctxval"
  ro_nowMilli :: "nat \<Rightarrow> int"

definition routeLog :: "('p, 'q) route_env \<Rightarrow> nat \<Rightarrow> log_level \<Rightarrow> string \<Rightarrow> world \<Rightarrow> world" where
  "routeLog env i level msg = onCtx (AppendRoutingEngineLog (ro_nowMilli env i) RoutingEngineCore level msg)"

definition target :: "fallback \<Rightarrow> string" where
  "target fb = fb_Provider fb @ ''/'' @ fb_Model fb"

text \<open>Before the attempt at fallback \<open>i\<close> (counted from 0).\<close>

definition openFallback ::
  "('p, 'q) route_env \<Rightarrow> nat \<Rightarrow> nat \<Rightarrow> fallback \<Rightarrow> bifrost_error \<Rightarrow> world \<Rightarrow> nat \<times> world" where
  "openFallback env nfb i fb lastErr w =
     (let n = int i + 1;
          w1 = onCtx (SetValue BifrostContextKeyFallbackIndex (VInt n)) w;
          w2 = routeLog env (i + 1) LogLevelInfo (''Trying fallback '' @ itoa n @ ''/'' @ itoa (int nfb) @ '': '' @ target fb
                 @ '' (previous attempt failed: '' @ routingErrorSummary (Some lastErr) @ '')'') w1;
          w3 = onCtx (clearCtxForFallback
                 \<circ> SetValue BifrostContextKeyFallbackRequestID (VStr (ro_uuid env (i + 1)))) w2;
          h = w_nextSpan w3;
          w4 = addSpans
                 [StartSpan h (''fallback.'' @ fb_Provider fb @ ''.'' @ fb_Model fb) ''fallback'',
                  SetAttribute h ''gen_ai.provider.name'' (AStr (OTelProviderName (fb_Provider fb))),
                  SetAttribute h ''bifrost.provider.name'' (AStr (fb_Provider fb)),
                  SetAttribute h ''gen_ai.request.model'' (AStr (fb_Model fb)),
                  SetAttribute h ''fallback.index'' (AInt n)] (w3\<lparr>w_nextSpan := Suc h\<rparr>)
      in (h, onCtx (SetValue BifrostContextKeySpanID (ro_spanID env h)) w4))"

definition closeSpan :: "nat \<Rightarrow> string \<Rightarrow> string option \<Rightarrow> world \<Rightarrow> world" where
  "closeSpan h status err =
     addSpans ((case err of Some e \<Rightarrow> [SetAttribute h ''error'' (AStr e)] | None \<Rightarrow> []) @ [EndSpan h False status])"

fun fallbackLoop ::
  "('p, 'q) route_env \<Rightarrow> (nat \<Rightarrow> 'q bifrost_request \<Rightarrow> world \<Rightarrow> 'r option \<times> bifrost_error option \<times> world)
   \<Rightarrow> (string \<Rightarrow> string \<Rightarrow> 'r \<Rightarrow> 'r) \<Rightarrow> 'q bifrost_request \<Rightarrow> string \<Rightarrow> string \<Rightarrow> nat \<Rightarrow> bifrost_error
   \<Rightarrow> nat \<Rightarrow> bifrost_error \<Rightarrow> fallback list \<Rightarrow> world
   \<Rightarrow> ('r option \<times> bifrost_error option \<times> world) option" where
  "fallbackLoop env attempt mark req provider model nfb primaryErr i lastErr [] w =
     Some (None, Some primaryErr,
       routeLog env (i + 1) LogLevelError (''All '' @ itoa (int nfb)
         @ '' fallback(s) exhausted; returning primary error ('' @ routingErrorSummary (Some primaryErr) @ '')'') w)"
| "fallbackLoop env attempt mark req provider model nfb primaryErr i lastErr (fb # fbs) w =
     (if \<not> de_hasTracer (ro_attempt env (i + 1)) then None
      else
        (case openFallback env nfb i fb lastErr w of (h, w1) \<Rightarrow>
           (case prepareFallbackRequest (ro_hasConfig env) req fb of
              None \<Rightarrow>
                fallbackLoop env attempt mark req provider model nfb primaryErr (i + 1) lastErr fbs
                  (closeSpan h ''fallback request preparation failed'' (Some ''fallback request preparation failed'')
                    (routeLog env (i + 1) LogLevelWarn (''Fallback '' @ target fb @ '' skipped: missing provider config'') w1))
            | Some fr \<Rightarrow>
                (case attempt (i + 1) fr w1 of (r, e, w2) \<Rightarrow>
                   (case map_option (errSetFallbackRoutingInfo provider model) e of
                      None \<Rightarrow>
                        Some (map_option (mark provider model) r, None,
                          addSpans [EndSpan h True []]
                            (routeLog env (i + 1) LogLevelInfo (''Request served by fallback '' @ target fb @ '' (attempt ''
                               @ itoa (int i + 1) @ ''/'' @ itoa (int nfb) @ '')'') w2))
                    | Some err \<Rightarrow>
                        (let w3 = closeSpan h ''fallback failed'' (map_option ef_Message (be_Error err)) w2
                         in case shouldContinueWithFallbacks err of
                              None \<Rightarrow> None
                            | Some False \<Rightarrow>
                                Some (None, Some err, routeLog env (i + 1) LogLevelError (''Fallback '' @ target fb
                                  @ '' failed ('' @ routingErrorSummary (Some err) @ ''); halting further fallbacks'') w3)
                            | Some True \<Rightarrow>
                                fallbackLoop env attempt mark req provider model nfb primaryErr (i + 1) err fbs w3))))))"

section \<open>A request\<close>

definition beginRequest :: "('p, 'q) route_env \<Rightarrow> world \<Rightarrow> world" where
  "beginRequest env w =
     (let w1 = onCtx (SetValue BifrostContextKeyFallbackIndex (VInt 0)) w
      in if ctxString (w_ctx w1) BifrostContextKeyRequestID = None
         then onCtx (SetValue BifrostContextKeyRequestID (VStr (ro_uuid env 0))) w1 else w1)"

definition handleWith ::
  "('p, 'q) route_env \<Rightarrow> (nat \<Rightarrow> 'q bifrost_request \<Rightarrow> world \<Rightarrow> 'r option \<times> bifrost_error option \<times> world)
   \<Rightarrow> (string \<Rightarrow> string \<Rightarrow> 'r \<Rightarrow> 'r) \<Rightarrow> 'q bifrost_request \<Rightarrow> world
   \<Rightarrow> ('r option \<times> bifrost_error option \<times> world) option" where
  "handleWith env attempt mark req0 w =
     (case RunPreRequestHooks (ro_spanID env) req0 (getPluginPipeline (ro_plugins env) newPipeline) (beginRequest env w) of
        (req, _, w1) \<Rightarrow>
          (case GetRequestFields req of (provider, model, fallbacks) \<Rightarrow>
             (case validateRequestAfterPreRequestHooks (Some (w_ctx w1)) (Some req) of
                Some e \<Rightarrow> Some (None, Some (errPopulateExtraFields (br_RequestType req) provider model model e), w1)
              | None \<Rightarrow>
                 (case attempt 0 req w1 of (result, primaryErr, w2) \<Rightarrow>
                    if \<not> shouldTryFallbacks req primaryErr then Some (result, primaryErr, w2)
                    else
                      (let e = the primaryErr
                       in fallbackLoop env attempt mark req provider model (length fallbacks) e 0 e fallbacks
                            (routeLog env 0 LogLevelInfo (''Primary '' @ provider @ ''/'' @ model @ '' failed (''
                                 @ routingErrorSummary primaryErr @ ''); evaluating '' @ itoa (int (length fallbacks))
                                 @ '' configured fallback(s)'')
                               (onCtx (AppendStringToContextList BifrostContextKeyRoutingEnginesUsed RoutingEngineCore) w2)))))))"

definition handleRequest ::
  "('p, 'q) route_env \<Rightarrow> 'q bifrost_request \<Rightarrow> world
   \<Rightarrow> ('p bifrost_response option \<times> bifrost_error option \<times> world) option" where
  "handleRequest env = handleWith env (\<lambda>i. tryRequest (ro_attempt env i)) respSetFallbackRoutingInfo"

definition handleStreamRequest ::
  "('p, 'q) route_env \<Rightarrow> 'q bifrost_request \<Rightarrow> world
   \<Rightarrow> ('p stream option \<times> bifrost_error option \<times> world) option" where
  "handleStreamRequest env = handleWith env (\<lambda>i. tryStreamRequest (ro_attempt env i)) (\<lambda>_ _ r. r)"

section \<open>Specification\<close>

text \<open>What became of each fallback, and the answer the caller is promised: the first that neither
  was skipped nor failed in a way that lets the next one try, or else the primary's error.\<close>

datatype 'r tried = Skipped | Served "'r option" | Failure bifrost_error

definition keepsGoing :: "'r tried \<Rightarrow> bool" where
  "keepsGoing out =
     (case out of
        Skipped \<Rightarrow> True
      | Served r \<Rightarrow> False
      | Failure e \<Rightarrow> \<not> cancelledError e \<and> be_AllowFallbacks e \<noteq> Some False)"

definition fallbackSpec :: "bifrost_error \<Rightarrow> 'r tried list \<Rightarrow> 'r option \<times> bifrost_error option" where
  "fallbackSpec primaryErr outs =
     (case dropWhile keepsGoing outs of
        Served r # _ \<Rightarrow> (r, None)
      | Failure e # _ \<Rightarrow> (None, Some e)
      | _ \<Rightarrow> (None, Some primaryErr))"

definition triedAs ::
  "('p, 'q) route_env \<Rightarrow> (nat \<Rightarrow> 'q bifrost_request \<Rightarrow> world \<Rightarrow> 'r option \<times> bifrost_error option \<times> world)
   \<Rightarrow> (string \<Rightarrow> string \<Rightarrow> 'r \<Rightarrow> 'r) \<Rightarrow> 'q bifrost_request \<Rightarrow> string \<Rightarrow> string \<Rightarrow> nat
   \<Rightarrow> nat \<Rightarrow> fallback \<Rightarrow> 'r tried \<Rightarrow> bool" where
  "triedAs env attempt mark req provider model nfb i fb out =
     (case prepareFallbackRequest (ro_hasConfig env) req fb of
        None \<Rightarrow> out = Skipped
      | Some fr \<Rightarrow>
         (\<exists>w le. case attempt (i + 1) fr (snd (openFallback env nfb i fb le w)) of
            (r, None, _) \<Rightarrow> out = Served (map_option (mark provider model) r)
          | (r, Some e, _) \<Rightarrow> out = Failure (errSetFallbackRoutingInfo provider model e)))"

section \<open>Lemmas\<close>

lemma keepsGoing_simps [simp]: "keepsGoing Skipped" "\<not> keepsGoing (Served r)"
  by (simp_all add: keepsGoing_def)

lemma fallbackSpec_Nil [simp]: "fallbackSpec pe [] = (None, Some pe)"
  by (simp add: fallbackSpec_def)

lemma fallbackSpec_Cons [simp]:
  "fallbackSpec pe (out # outs) =
     (if keepsGoing out then fallbackSpec pe outs
      else case out of Served r \<Rightarrow> (r, None) | Failure e \<Rightarrow> (None, Some e) | Skipped \<Rightarrow> (None, Some pe))"
  by (cases out) (simp_all add: fallbackSpec_def keepsGoing_def)

lemma shouldContinue_keepsGoing:
  "shouldContinueWithFallbacks e = Some b \<Longrightarrow> keepsGoing (Failure e :: 'r tried) = b"
  by (auto simp: shouldContinueWithFallbacks_def keepsGoing_def cancelledError_def split: option.splits if_splits)

lemma tried_Cons:
  assumes "triedAs env attempt mark req p m nfb i fb out"
    and "\<forall>j<length outs. triedAs env attempt mark req p m nfb (Suc i + j) (fbs ! j) (outs ! j)"
  shows "\<forall>j<length (out # outs). triedAs env attempt mark req p m nfb (i + j) ((fb # fbs) ! j) ((out # outs) ! j)"
  using assms by (auto simp: less_Suc_eq_0_disj)

lemma fallbackLoop_spec:
  "fallbackLoop env attempt mark req p m nfb pe i le fbs w = Some (res, err, w') \<Longrightarrow>
   \<exists>outs. length outs \<le> length fbs
     \<and> (\<forall>j<length outs. triedAs env attempt mark req p m nfb (i + j) (fbs ! j) (outs ! j))
     \<and> (res, err) = fallbackSpec pe outs
     \<and> (length outs = length fbs \<or> outs \<noteq> [] \<and> \<not> keepsGoing (last outs))"
proof (induction fbs arbitrary: i le w)
  case Nil
  then show ?case by (intro exI [of _ "[]"]) simp
next
  case (Cons fb fbs)
  obtain h w1 where o: "openFallback env nfb i fb le w = (h, w1)" by fastforce
  note run = Cons.prems [unfolded fallbackLoop.simps o prod.case]
  have step: ?case
    if rest: "fallbackLoop env attempt mark req p m nfb pe (Suc i) le2 fbs w4 = Some (res, err, w')"
      and out: "triedAs env attempt mark req p m nfb i fb out" "keepsGoing out" for le2 w4 out
  proof -
    from Cons.IH [OF rest] obtain outs where outs: "length outs \<le> length fbs"
      "\<forall>j<length outs. triedAs env attempt mark req p m nfb (Suc i + j) (fbs ! j) (outs ! j)"
      "(res, err) = fallbackSpec pe outs"
      "length outs = length fbs \<or> outs \<noteq> [] \<and> \<not> keepsGoing (last outs)" by blast
    from tried_Cons [OF out(1) outs(2)] outs(1,3,4) out(2) show ?thesis
      by (intro exI [of _ "out # outs"]) auto
  qed
  have stop: ?case
    if "triedAs env attempt mark req p m nfb i fb out" "\<not> keepsGoing out"
      "(res, err) = fallbackSpec pe [out]" for out
    using that by (intro exI [of _ "[out]"]) simp
  show ?case
  proof (cases "prepareFallbackRequest (ro_hasConfig env) req fb")
    case None
    then have "triedAs env attempt mark req p m nfb i fb Skipped" by (simp add: triedAs_def)
    with step [of le _ Skipped] run None show ?thesis
      by (simp split: if_splits)
  next
    case (Some fr)
    obtain r e w2 where a: "attempt (i + 1) fr w1 = (r, e, w2)" by (metis prod_cases3)
    show ?thesis
    proof (cases e)
      case None
      have t: "triedAs env attempt mark req p m nfb i fb (Served (map_option (mark p m) r))"
        unfolding triedAs_def Some option.case
        by (rule exI [of _ w], rule exI [of _ le]) (use o a None in simp)
      from stop [OF t] run Some a None show ?thesis by (simp split: if_splits)
    next
      case (Some e')
      let ?e = "errSetFallbackRoutingInfo p m e'"
      have t: "triedAs env attempt mark req p m nfb i fb (Failure ?e)"
        unfolding triedAs_def \<open>prepareFallbackRequest (ro_hasConfig env) req fb = Some fr\<close> option.case
        by (rule exI [of _ w], rule exI [of _ le]) (use o a Some in simp)
      obtain b where b: "shouldContinueWithFallbacks ?e = Some b"
        using run \<open>prepareFallbackRequest (ro_hasConfig env) req fb = Some fr\<close> a Some
        by (cases "shouldContinueWithFallbacks ?e") (auto simp: Let_def split: if_splits)
      note k = shouldContinue_keepsGoing [OF b]
      show ?thesis
      proof (cases b)
        case True
        with run \<open>prepareFallbackRequest (ro_hasConfig env) req fb = Some fr\<close> a Some b
        have "fallbackLoop env attempt mark req p m nfb pe (Suc i) ?e fbs
            (closeSpan h ''fallback failed'' (map_option ef_Message (be_Error ?e)) w2) = Some (res, err, w')"
          by (simp add: Let_def split: if_splits)
        from step [OF this t] k True show ?thesis by simp
      next
        case False
        with stop [OF t] run \<open>prepareFallbackRequest (ro_hasConfig env) req fb = Some fr\<close> a Some b k show ?thesis
          by (auto simp: Let_def split: if_splits)
      qed
    qed
  qed
qed

lemma prepare_single:
  "prepareFallbackRequest hasConfig (singleRequest t s r) fb =
     (if hasConfig (fb_Provider fb)
      then Some (singleRequest t s (if s \<in> set prepareSlots
             then r\<lparr>sr_Provider := fb_Provider fb, sr_Model := Some (fb_Model fb)\<rparr> else r))
      else None)"
proof -
  have one: "updateSub s' f (singleRequest t s r) = singleRequest t s (if s' = s then f r else r)"
    for s' :: request_slot and f :: "'a sub_request \<Rightarrow> 'a sub_request" and r
    by (auto simp: updateSub_def singleRequest_def fun_eq_iff)
  have "fold (\<lambda>s'. updateSub s' f) slots (singleRequest t s r) =
      singleRequest t s (if s \<in> set slots then f r else r)"
    if "\<And>r. f (f r) = f r" for f :: "'a sub_request \<Rightarrow> 'a sub_request" and slots r
    by (induction slots arbitrary: r) (auto simp: one that)
  then show ?thesis by (simp add: prepareFallbackRequest_def)
qed

text \<open>A run for the examples: the queue of the primary gives an error, \<open>ok\<close> says which providers are
  configured, and every provider but the primary answers.\<close>

definition route_sample :: "(string \<Rightarrow> bool) \<Rightarrow> (nat, nat) route_env" where
  "route_sample ok = \<lparr>ro_attempt = (\<lambda>_. (dispatch_sample [])\<lparr>de_queueError :=
       (\<lambda>p. if p = ''openai'' then Some ''no config'' else None)\<rparr>),
     ro_plugins = [], ro_hasConfig = ok, ro_uuid = (\<lambda>_. ''id''), ro_spanID = (\<lambda>_. VOther 0), ro_nowMilli = (\<lambda>_. 0)\<rparr>"

definition route_request :: "nat bifrost_request" where
  "route_request = singleRequest ChatCompletionRequest SlotChat
     \<lparr>sr_Provider = ''openai'', sr_Model = Some ''gpt'', sr_Fallbacks = [\<lparr>fb_Provider = ''nope'', fb_Model = ''x''\<rparr>],
      sr_RawRequestBody = None, sr_payload = 0\<rparr>"

section \<open>Properties\<close>

text \<open>
  C15. A request with fallbacks implements its specification: when the primary's error allows
  fallbacks (an error that is not a cancellation, does not forbid them, and there are some), the
  fallbacks are tried one after the other with the request prepared for each, and the caller gets
  what the first of them gives that neither is skipped for want of a configuration nor fails in a
  way that lets the next one try; when there is no such fallback, the primary's error. All
  fallbacks before the deciding one were tried, none after it. In every other case the caller gets
  exactly what the primary gave.
\<close>

theorem fallbacks_refine_spec:
  assumes "handleWith env attempt mark req0 w = Some (res, err, w')"
    and "RunPreRequestHooks (ro_spanID env) req0 (getPluginPipeline (ro_plugins env) newPipeline) (beginRequest env w) = (req, pl, w1)"
    and "GetRequestFields req = (p, m, fbs)"
    and "validateRequestAfterPreRequestHooks (Some (w_ctx w1)) (Some req) = None"
    and "attempt 0 req w1 = (r0, e0, w2)"
  shows "if shouldTryFallbacks req e0
    then \<exists>outs. length outs \<le> length fbs
      \<and> (\<forall>j<length outs. triedAs env attempt mark req p m (length fbs) j (fbs ! j) (outs ! j))
      \<and> (res, err) = fallbackSpec (the e0) outs
      \<and> (length outs = length fbs \<or> outs \<noteq> [] \<and> \<not> keepsGoing (last outs))
    else res = r0 \<and> err = e0"
proof (cases "shouldTryFallbacks req e0")
  case True
  with assms obtain le w3 where
    "fallbackLoop env attempt mark req p m (length fbs) (the e0) 0 le fbs w3 = Some (res, err, w')"
    by (simp add: handleWith_def Let_def)
  from fallbackLoop_spec [OF this] True show ?thesis by simp
next
  case False
  with assms show ?thesis by (simp add: handleWith_def)
qed

theorem fallbacks_refine_spec_witness:
  "\<exists>res err w'. handleRequest (route_sample (\<lambda>p. p \<noteq> ''nope'')) route_request retry_world = Some (res, err, w')
     \<and> res = None \<and> map_option be_Error err
         = Some (be_Error (newBifrostError ''no config''))"
proof -
  let ?env = "route_sample (\<lambda>p. p \<noteq> ''nope'')"
  let ?fb = "\<lparr>fb_Provider = ''nope'', fb_Model = ''x''\<rparr>"
  let ?e = "errPopulateExtraFields ChatCompletionRequest ''openai'' ''gpt'' ''gpt'' (newBifrostError ''no config'')"
  have fields: "GetRequestFields route_request = (''openai'', ''gpt'', [?fb])"
    by (simp add: route_request_def GetRequestFields_single providerOnlySlots_def fallbackSlots_def)
  have rt: "br_RequestType route_request = ChatCompletionRequest"
    by (simp add: route_request_def singleRequest_def)
  obtain req pl w1 where pre: "RunPreRequestHooks (ro_spanID ?env) route_request
      (getPluginPipeline (ro_plugins ?env) newPipeline) (beginRequest ?env retry_world) = (req, pl, w1)"
    by (metis prod_cases3)
  have req: "req = route_request"
    using pre by (auto simp: RunPreRequestHooks_def route_sample_def getPluginPipeline_def split: if_splits)
  have short: "Value (w_ctx w1) BifrostContextKeyPreRequestShortCircuitError = VNil"
    using pre by (auto simp: RunPreRequestHooks_def route_sample_def getPluginPipeline_def beginRequest_def Let_def
        commitRoutingPin_def ctxString_def retry_world_def onCtx_def Value_SetValue Value_New
        split: if_splits ctxval.splits option.splits)
  have valid: "validateRequestAfterPreRequestHooks (Some (w_ctx w1)) (Some req) = None"
    using short by (simp add: validateRequestAfterPreRequestHooks_def req fields)
  have primary: "tryRequest (ro_attempt ?env 0) req w1 = (None, Some ?e, w1)"
    by (simp add: req tryRequest_def fields rt route_sample_def)
  have should: "shouldTryFallbacks req (Some ?e)"
    by (simp add: shouldTryFallbacks_def req fields cancelledError_def errPopulateExtraFields_def newBifrostError_def)
  have skip: "prepareFallbackRequest (ro_hasConfig ?env) req ?fb = None"
    by (simp add: prepareFallbackRequest_def route_sample_def)
  have "handleRequest ?env route_request retry_world \<noteq> None"
    unfolding handleRequest_def handleWith_def pre prod.case
    by (simp add: req fields) (use valid should primary skip in \<open>simp add: req fields Let_def route_sample_def dispatch_sample_def
        split: prod.splits\<close>)
  then obtain res err w' where run: "handleRequest ?env route_request retry_world = Some (res, err, w')"
    by (metis not_None_eq prod_cases3)
  from fallbacks_refine_spec [OF run [unfolded handleRequest_def] pre fields [folded req] valid primary] should
  obtain outs where outs: "length outs \<le> 1"
    "\<forall>j<length outs. triedAs ?env (\<lambda>i. tryRequest (ro_attempt ?env i)) respSetFallbackRoutingInfo req ''openai'' ''gpt'' 1 j ([?fb] ! j) (outs ! j)"
    "(res, err) = fallbackSpec ?e outs" by auto
  have "\<forall>out\<in>set outs. out = Skipped" using outs(1,2) skip
    by (cases outs) (auto simp: triedAs_def)
  with outs(1,3) have "res = None \<and> err = Some ?e" by (cases outs) auto
  with run show ?thesis by (simp add: errPopulateExtraFields_def)
qed

text \<open>
  A fallback goes to its own provider and model: for every kind of request that carries
  fallbacks but one, the prepared request names them and is otherwise the original. The exception
  is the image edit, whose request is prepared without a change, so each of its fallbacks is
  another attempt at the primary.
\<close>

theorem prepared_fallback_target:
  assumes "s \<in> set fallbackSlots" "hasConfig (fb_Provider fb)"
  shows "\<exists>fr. prepareFallbackRequest hasConfig (singleRequest t s r) fb = Some fr
    \<and> (s \<noteq> SlotImageEdit \<longrightarrow> GetRequestFields fr = (fb_Provider fb, fb_Model fb, sr_Fallbacks r)
         \<and> br_RequestType fr = t \<and> map_option sr_payload (br_sub fr s) = Some (sr_payload r))
    \<and> (s = SlotImageEdit \<longrightarrow> fr = singleRequest t s r)"
proof -
  have "s \<in> set prepareSlots \<longleftrightarrow> s \<noteq> SlotImageEdit" "s \<notin> set providerOnlySlots"
    using assms(1) by (auto simp: fallbackSlots_def prepareSlots_def providerOnlySlots_def)
  then show ?thesis using assms
    by (auto simp: prepare_single GetRequestFields_single) (simp_all add: singleRequest_def)
qed

theorem prepared_fallback_target_witness:
  "prepareFallbackRequest (\<lambda>p. p = ''anthropic'')
     (singleRequest ImageEditRequest SlotImageEdit
        \<lparr>sr_Provider = ''openai'', sr_Model = Some ''gpt-image'', sr_Fallbacks = [], sr_RawRequestBody = None, sr_payload = 0 :: nat\<rparr>)
     \<lparr>fb_Provider = ''anthropic'', fb_Model = ''claude''\<rparr>
   = Some (singleRequest ImageEditRequest SlotImageEdit
        \<lparr>sr_Provider = ''openai'', sr_Model = Some ''gpt-image'', sr_Fallbacks = [], sr_RawRequestBody = None, sr_payload = 0\<rparr>)"
  using prepared_fallback_target [of SlotImageEdit "\<lambda>p. p = ''anthropic''" "\<lparr>fb_Provider = ''anthropic'', fb_Model = ''claude''\<rparr>"
      ImageEditRequest "\<lparr>sr_Provider = ''openai'', sr_Model = Some ''gpt-image'', sr_Fallbacks = [], sr_RawRequestBody = None,
        sr_payload = 0 :: nat\<rparr>"]
  by (auto simp: fallbackSlots_def)

text \<open>
  A fallback that fails with an error without a body ends the process: the decision whether to
  go on dereferences the body without the check the code makes for the primary's error.
\<close>

theorem fallback_error_without_body:
  assumes "prepareFallbackRequest (ro_hasConfig env) req fb = Some fr"
    and "attempt (i + 1) fr (snd (openFallback env nfb i fb le w)) = (r, Some e, w2)" "be_Error e = None"
  shows "fallbackLoop env attempt mark req p m nfb pe i le (fb # fbs) w = None"
proof -
  have "be_Error (errSetFallbackRoutingInfo p m e) = None" using assms(3) by (simp add: errSetFallbackRoutingInfo_def)
  with assms(1,2) show ?thesis
    by (cases "openFallback env nfb i fb le w") (simp add: shouldContinueWithFallbacks_def Let_def)
qed

theorem fallback_error_without_body_witness:
  "fallbackLoop (route_sample (\<lambda>_. True)) (\<lambda>i r w. (None :: nat option, Some ((newBifrostError ''e'')\<lparr>be_Error := None\<rparr>), w))
     (\<lambda>_ _ r. r) route_request ''openai'' ''gpt'' 1 (newBifrostError ''e'') 0 (newBifrostError ''e'')
     [\<lparr>fb_Provider = ''anthropic'', fb_Model = ''claude''\<rparr>] retry_world = None"
proof -
  have "prepareFallbackRequest (ro_hasConfig (route_sample (\<lambda>_. True))) route_request
      \<lparr>fb_Provider = ''anthropic'', fb_Model = ''claude''\<rparr> \<noteq> None"
    by (simp add: prepareFallbackRequest_def route_sample_def)
  then obtain fr where "prepareFallbackRequest (ro_hasConfig (route_sample (\<lambda>_. True))) route_request
      \<lparr>fb_Provider = ''anthropic'', fb_Model = ''claude''\<rparr> = Some fr" by blast
  then show ?thesis by (rule fallback_error_without_body) (rule refl, simp)
qed

text \<open>
  Every fallback starts with a context of its own: in a context that is not write-protected,
  its index and a new request identifier are set, and the pinned key, the keys governance admits,
  the type conversion, the attempt trail and the stream mark of the attempt before are gone, while
  every key not concerned is as it was.
\<close>

theorem fallback_context_fresh:
  assumes "openFallback env nfb i fb le w = (h, w')" "\<not> bc_blockRestrictedWrites (w_ctx w)"
  shows "Value (w_ctx w') BifrostContextKeyFallbackIndex = VInt (int i + 1)
    \<and> Value (w_ctx w') BifrostContextKeyFallbackRequestID = VStr (ro_uuid env (i + 1))
    \<and> Value (w_ctx w') BifrostContextKeySpanID = ro_spanID env h
    \<and> (\<forall>k\<in>{BifrostContextKeyAPIKeyID, BifrostContextKeyAPIKeyName, BifrostContextKeyGovernanceIncludeOnlyKeys,
          BifrostContextKeyChangeRequestType, BifrostContextKeyAttemptTrail, BifrostContextKeyStreamEndIndicator,
          BifrostContextKeySupportsAssistantPrefill}. Value (w_ctx w') k = VNil)
    \<and> (\<forall>k. k \<notin> {BifrostContextKeyAPIKeyID, BifrostContextKeyAPIKeyName, BifrostContextKeyGovernanceIncludeOnlyKeys,
          BifrostContextKeyChangeRequestType, BifrostContextKeyAttemptTrail, BifrostContextKeyStreamEndIndicator,
          BifrostContextKeySupportsAssistantPrefill, BifrostContextKeyFallbackIndex, BifrostContextKeyFallbackRequestID,
          BifrostContextKeySpanID, BifrostContextKeyRoutingEngineLogs} \<longrightarrow> Value (w_ctx w') k = Value (w_ctx w) k)"
proof -
  define msg where "msg = ''Trying fallback '' @ itoa (int i + 1) @ ''/'' @ itoa (int nfb) @ '': '' @ target fb
      @ '' (previous attempt failed: '' @ routingErrorSummary (Some le) @ '')''"
  let ?log = "AppendRoutingEngineLog (ro_nowMilli env (Suc i)) RoutingEngineCore LogLevelInfo msg"
  let ?c = "SetValue BifrostContextKeyFallbackRequestID (VStr (ro_uuid env (Suc i)))
      (?log (SetValue BifrostContextKeyFallbackIndex (VInt (int i + 1)) (w_ctx w)))"
  have c: "w_ctx w' = SetValue BifrostContextKeySpanID (ro_spanID env h) (clearCtxForFallback ?c)"
    using assms(1) by (auto simp: openFallback_def routeLog_def onCtx_def addSpans_def Let_def msg_def)
  have "\<not> bc_blockRestrictedWrites ?c" using assms(2) by simp
  note V = clearCtxForFallback_Value [OF this] Value_SetValue_unblocked Value_AppendLog_other
  have "Value (w_ctx w') k = (if k = BifrostContextKeySpanID then ro_spanID env h
      else if k \<in> {BifrostContextKeyAPIKeyID, BifrostContextKeyAPIKeyName,
        BifrostContextKeyGovernanceIncludeOnlyKeys, BifrostContextKeyChangeRequestType,
        BifrostContextKeyAttemptTrail, BifrostContextKeyStreamEndIndicator,
        BifrostContextKeySupportsAssistantPrefill} then VNil
      else if k = BifrostContextKeyFallbackRequestID then VStr (ro_uuid env (Suc i))
      else Value (?log (SetValue BifrostContextKeyFallbackIndex (VInt (int i + 1)) (w_ctx w))) k)" for k
    unfolding c using assms(2) by (simp add: V)
  then show ?thesis using assms(2) by (simp add: Value_AppendLog_other Value_SetValue_unblocked)
qed

theorem fallback_context_fresh_witness:
  "Value (w_ctx (snd (openFallback (route_sample (\<lambda>_. True)) 1 0 \<lparr>fb_Provider = ''anthropic'', fb_Model = ''claude''\<rparr>
      (newBifrostError ''e'') (onCtx (SetValue BifrostContextKeyAPIKeyID (VStr ''k1'')) retry_world)))) BifrostContextKeyAPIKeyID = VNil"
proof -
  let ?fb = "\<lparr>fb_Provider = ''anthropic'', fb_Model = ''claude''\<rparr>"
  let ?w = "onCtx (SetValue BifrostContextKeyAPIKeyID (VStr ''k1'')) retry_world"
  obtain h w' where o: "openFallback (route_sample (\<lambda>_. True)) 1 0 ?fb (newBifrostError ''e'') ?w = (h, w')" by fastforce
  have "\<not> bc_blockRestrictedWrites (w_ctx ?w)"
    by (simp add: retry_world_def onCtx_def NewBifrostContext_def)
  from fallback_context_fresh [OF o this] o show ?thesis by simp
qed

end
