(* ===== verification/Lifecycle.thy ===== *)
theory Lifecycle
  imports Prelude
begin

text \<open>
  The life of a provider's queues under concurrency (\<^verbatim>\<open>core/bifrost.go\<close>): producers of \<^verbatim>\<open>tryRequest\<close>
  and \<^verbatim>\<open>tryStreamRequest\<close>, the workers of \<^verbatim>\<open>requestWorker\<close>, and \<^verbatim>\<open>UpdateProvider\<close>, \<^verbatim>\<open>RemoveProvider\<close>,
  \<^verbatim>\<open>getProviderQueue\<close> and the cleanup of replaced workers, for one provider key.

  The state is what these goroutines share; an event is one of their steps between two
  synchronisations, and \<open>exec\<close> gives the state after it, or None when the step cannot be taken. Any
  interleaving is a list of events. Messages and queues are numbered. The per-provider lock shows
  in the events: those that take it for reading or writing need it free, the steps of an update
  or a removal hold it. Queues have room for at least one message, as the default of
  \<^verbatim>\<open>CheckAndSetDefaults\<close> gives it.
\<close>

section \<open>State\<close>

record pqueue =
  q_buffer :: "nat list"
  q_cap :: nat
  q_closing :: bool
  q_idle :: nat
  q_draining :: nat
  q_serving :: "nat list"
  q_orphan :: bool
  q_swept :: bool

text \<open>\<open>q_idle\<close> workers wait in their \<^verbatim>\<open>select\<close>, \<open>q_draining\<close> are in the loop after the done signal,
  \<open>q_serving\<close> are the messages the others work on. Two marks for the proofs: the queue was published
  without a worker; the last sweep of a closed queue has ended.\<close>

datatype producer = Idle | Holding nat | Committed nat | Enqueued | Refused

datatype answer = Result | ShuttingDown | QueueFull | Abandoned

datatype lock =
    Free
  | Transferring nat nat
  | Cancelling nat
  | Closing nat
  | Removing nat
  | Removed nat

record lifecycle =
  lc_queue :: "nat \<Rightarrow> pqueue"
  lc_next :: nat
  lc_current :: "nat option"
  lc_producer :: "nat \<Rightarrow> producer"
  lc_gone :: "nat \<Rightarrow> bool"
  lc_answers :: "nat \<Rightarrow> answer list"
  lc_lock :: lock
  lc_cleanups :: "nat list"

section \<open>Operations on the state\<close>

definition newQueue :: "nat \<Rightarrow> nat \<Rightarrow> pqueue" where
  "newQueue bufferSize concurrency =
     \<lparr>q_buffer = [], q_cap = bufferSize, q_closing = False, q_idle = concurrency, q_draining = 0, q_serving = [],
      q_orphan = (concurrency = 0), q_swept = False\<rparr>"

definition isClosing :: "pqueue \<Rightarrow> bool" where
  "isClosing pq = q_closing pq"

definition signalClosing :: "pqueue \<Rightarrow> pqueue" where
  "signalClosing pq = pq\<lparr>q_closing := True\<rparr>"

definition fullQueue :: "pqueue \<Rightarrow> bool" where
  "fullQueue pq \<longleftrightarrow> length (q_buffer pq) \<ge> q_cap pq"

text \<open>The workers a \<^verbatim>\<open>Wait\<close> on the queue's wait group waits for.\<close>

definition running :: "pqueue \<Rightarrow> nat" where
  "running pq = q_idle pq + q_draining pq + length (q_serving pq)"

definition upd_q :: "nat \<Rightarrow> (pqueue \<Rightarrow> pqueue) \<Rightarrow> lifecycle \<Rightarrow> lifecycle" where
  "upd_q q f s = s\<lparr>lc_queue := (lc_queue s)(q := f (lc_queue s q))\<rparr>"

definition setProducer :: "nat \<Rightarrow> producer \<Rightarrow> lifecycle \<Rightarrow> lifecycle" where
  "setProducer m p s = s\<lparr>lc_producer := (lc_producer s)(m := p)\<rparr>"

text \<open>An answer to a message; a caller that is gone may leave it unread.\<close>

definition reply :: "nat \<Rightarrow> answer \<Rightarrow> lifecycle \<Rightarrow> lifecycle" where
  "reply m a s = s\<lparr>lc_answers := (lc_answers s)(m := lc_answers s m @ [a])\<rparr>"

definition popped :: "pqueue \<Rightarrow> pqueue" where
  "popped pq = pq\<lparr>q_buffer := tl (q_buffer pq)\<rparr>"

definition pushed :: "nat \<Rightarrow> pqueue \<Rightarrow> pqueue" where
  "pushed m pq = pq\<lparr>q_buffer := q_buffer pq @ [m]\<rparr>"

text \<open>A new queue becomes the one producers find.\<close>

definition publish :: "pqueue \<Rightarrow> lifecycle \<Rightarrow> lifecycle" where
  "publish pq s = s\<lparr>lc_queue := (lc_queue s)(lc_next s := pq), lc_current := Some (lc_next s), lc_next := Suc (lc_next s)\<rparr>"

section \<open>Events\<close>

datatype producer_event =
    Acquire nat
  | Check nat
  | Send nat
  | GiveUp nat bool
  | Cancel nat

datatype worker_event =
    Take nat
  | Finish nat nat answer
  | StartDrain nat
  | DrainOne nat
  | WorkerExit nat

datatype update_event =
    BeginUpdate nat nat
  | Transfer
  | CancelRest
  | TransferDone
  | CloseOld
  | SweepOne nat
  | SweepEnd nat

datatype remove_event =
    BeginRemove
  | RemoveSweepOne
  | RemoveSweepEnd
  | EndRemove

datatype event =
    Create nat nat
  | Producer producer_event
  | Worker worker_event
  | Update update_event
  | Remove remove_event

text \<open>What a producer does with the queue it holds once it looks at its closing flag.\<close>

definition afterCheck :: "lifecycle \<Rightarrow> nat \<Rightarrow> producer" where
  "afterCheck s q =
     (if \<not> isClosing (lc_queue s q) then Committed q
      else
        (case lc_current s of
           Some q' \<Rightarrow> if q' \<noteq> q \<and> \<not> isClosing (lc_queue s q') then Committed q' else Refused
         | None \<Rightarrow> Refused))"

definition guarded :: "bool \<Rightarrow> lifecycle \<Rightarrow> lifecycle option" where
  "guarded b s = (if b then Some s else None)"

definition answerHead :: "nat \<Rightarrow> answer \<Rightarrow> lifecycle \<Rightarrow> lifecycle option" where
  "answerHead q a s =
     (case q_buffer (lc_queue s q) of
        [] \<Rightarrow> None
      | m # _ \<Rightarrow> Some (reply m a (upd_q q popped s)))"

text \<open>A producer gets the queue, looks at its closing flag and sends. \<open>GiveUp m drop\<close> is the way out of the
  send: the done signal, the caller's cancellation, or a full queue that drops.\<close>

fun producerStep :: "producer_event \<Rightarrow> lifecycle \<Rightarrow> lifecycle option" where
  "producerStep (Acquire m) s =
     (case lc_current s of
        Some q \<Rightarrow> guarded (lc_lock s = Free \<and> lc_producer s m = Idle) (setProducer m (Holding q) s)
      | None \<Rightarrow> None)"
| "producerStep (Check m) s =
     (case lc_producer s m of
        Holding q \<Rightarrow> Some (setProducer m (afterCheck s q) s)
      | _ \<Rightarrow> None)"
| "producerStep (Send m) s =
     (case lc_producer s m of
        Committed q \<Rightarrow> guarded (\<not> fullQueue (lc_queue s q)) (setProducer m Enqueued (upd_q q (pushed m) s))
      | _ \<Rightarrow> None)"
| "producerStep (GiveUp m dropExcess) s =
     (case lc_producer s m of
        Committed q \<Rightarrow>
          guarded (isClosing (lc_queue s q) \<or> lc_gone s m \<or> dropExcess \<and> fullQueue (lc_queue s q)) (setProducer m Refused s)
      | _ \<Rightarrow> None)"
| "producerStep (Cancel m) s = Some (s\<lparr>lc_gone := (lc_gone s)(m := True)\<rparr>)"

text \<open>A worker takes a message or, once the queue is closed, drains it and leaves.\<close>

fun workerStep :: "worker_event \<Rightarrow> lifecycle \<Rightarrow> lifecycle option" where
  "workerStep (Take q) s =
     (case q_buffer (lc_queue s q) of
        [] \<Rightarrow> None
      | m # _ \<Rightarrow>
          guarded (q_idle (lc_queue s q) > 0)
            (upd_q q (\<lambda>pq. popped pq\<lparr>q_idle := q_idle pq - 1, q_serving := m # q_serving pq\<rparr>) s))"
| "workerStep (Finish q m a) s =
     guarded (m \<in> set (q_serving (lc_queue s q)) \<and> (a = Result \<or> a = Abandoned \<and> lc_gone s m))
       (reply m a (upd_q q (\<lambda>pq. pq\<lparr>q_idle := q_idle pq + 1, q_serving := remove1 m (q_serving pq)\<rparr>) s))"
| "workerStep (StartDrain q) s =
     guarded (isClosing (lc_queue s q) \<and> q_idle (lc_queue s q) > 0)
       (upd_q q (\<lambda>pq. pq\<lparr>q_idle := q_idle pq - 1, q_draining := q_draining pq + 1\<rparr>) s)"
| "workerStep (DrainOne q) s = (if q_draining (lc_queue s q) > 0 then answerHead q ShuttingDown s else None)"
| "workerStep (WorkerExit q) s =
     guarded (q_draining (lc_queue s q) > 0 \<and> q_buffer (lc_queue s q) = [])
       (upd_q q (\<lambda>pq. pq\<lparr>q_draining := q_draining pq - 1\<rparr>) s)"

text \<open>An update publishes a new queue with its workers, moves the waiting messages, closes the old queue and
  leaves its last sweep to a cleanup that waits for the old workers.\<close>

fun updateStep :: "update_event \<Rightarrow> lifecycle \<Rightarrow> lifecycle option" where
  "updateStep (BeginUpdate bufferSize concurrency) s =
     (case lc_current s of
        Some q \<Rightarrow>
          guarded (lc_lock s = Free \<and> bufferSize > 0)
            (publish (newQueue bufferSize concurrency) (s\<lparr>lc_lock := Transferring q (lc_next s)\<rparr>))
      | None \<Rightarrow> None)"
| "updateStep Transfer s =
     (case lc_lock s of
        Transferring q q' \<Rightarrow>
          (case q_buffer (lc_queue s q) of
             [] \<Rightarrow> None
           | m # _ \<Rightarrow>
               if fullQueue (lc_queue s q')
               then Some (reply m QueueFull (upd_q q popped (s\<lparr>lc_lock := Cancelling q\<rparr>)))
               else Some (upd_q q' (pushed m) (upd_q q popped s)))
      | _ \<Rightarrow> None)"
| "updateStep CancelRest s = (case lc_lock s of Cancelling q \<Rightarrow> answerHead q QueueFull s | _ \<Rightarrow> None)"
| "updateStep TransferDone s =
     (case lc_lock s of
        Transferring q q' \<Rightarrow> guarded (q_buffer (lc_queue s q) = []) (s\<lparr>lc_lock := Closing q\<rparr>)
      | Cancelling q \<Rightarrow> guarded (q_buffer (lc_queue s q) = []) (s\<lparr>lc_lock := Closing q\<rparr>)
      | _ \<Rightarrow> None)"
| "updateStep CloseOld s =
     (case lc_lock s of
        Closing q \<Rightarrow> Some ((upd_q q signalClosing s)\<lparr>lc_lock := Free, lc_cleanups := q # lc_cleanups s\<rparr>)
      | _ \<Rightarrow> None)"
| "updateStep (SweepOne q) s =
     (if q \<in> set (lc_cleanups s) \<and> running (lc_queue s q) = 0 then answerHead q ShuttingDown s else None)"
| "updateStep (SweepEnd q) s =
     guarded (q \<in> set (lc_cleanups s) \<and> running (lc_queue s q) = 0 \<and> q_buffer (lc_queue s q) = [])
       ((upd_q q (\<lambda>pq. pq\<lparr>q_swept := True\<rparr>) s)\<lparr>lc_cleanups := remove1 q (lc_cleanups s)\<rparr>)"

text \<open>A removal closes the queue, waits for its workers, sweeps it, waits for the cleanups of earlier updates
  and takes it out.\<close>

fun removeStep :: "remove_event \<Rightarrow> lifecycle \<Rightarrow> lifecycle option" where
  "removeStep BeginRemove s =
     (case lc_current s of
        Some q \<Rightarrow> guarded (lc_lock s = Free) ((upd_q q signalClosing s)\<lparr>lc_lock := Removing q\<rparr>)
      | None \<Rightarrow> None)"
| "removeStep RemoveSweepOne s =
     (case lc_lock s of
        Removing q \<Rightarrow> (if running (lc_queue s q) = 0 then answerHead q ShuttingDown s else None)
      | _ \<Rightarrow> None)"
| "removeStep RemoveSweepEnd s =
     (case lc_lock s of
        Removing q \<Rightarrow>
          guarded (running (lc_queue s q) = 0 \<and> q_buffer (lc_queue s q) = [])
            ((upd_q q (\<lambda>pq. pq\<lparr>q_swept := True\<rparr>) s)\<lparr>lc_lock := Removed q\<rparr>)
      | _ \<Rightarrow> None)"
| "removeStep EndRemove s =
     (case lc_lock s of
        Removed q \<Rightarrow> guarded (lc_cleanups s = []) (s\<lparr>lc_lock := Free, lc_current := None\<rparr>)
      | _ \<Rightarrow> None)"

text \<open>\<open>Create\<close> publishes a queue for a provider without one; with no workers, because the provider could
  not be created or its concurrency is not positive, it is an orphan.\<close>

definition createStep :: "nat \<Rightarrow> nat \<Rightarrow> lifecycle \<Rightarrow> lifecycle option" where
  "createStep bufferSize concurrency s =
     guarded (lc_lock s = Free \<and> lc_current s = None \<and> bufferSize > 0) (publish (newQueue bufferSize concurrency) s)"

fun exec :: "event \<Rightarrow> lifecycle \<Rightarrow> lifecycle option" where
  "exec (Create bufferSize concurrency) s = createStep bufferSize concurrency s"
| "exec (Producer e) s = producerStep e s"
| "exec (Worker e) s = workerStep e s"
| "exec (Update e) s = updateStep e s"
| "exec (Remove e) s = removeStep e s"

text \<open>Runs from the start: no queue, every producer idle.\<close>

definition noQueue :: pqueue where
  "noQueue = \<lparr>q_buffer = [], q_cap = 0, q_closing = False, q_idle = 0, q_draining = 0, q_serving = [],
     q_orphan = True, q_swept = False\<rparr>"

definition initial :: lifecycle where
  "initial = \<lparr>lc_queue = (\<lambda>_. noQueue), lc_next = 0, lc_current = None, lc_producer = (\<lambda>_. Idle), lc_gone = (\<lambda>_. False),
     lc_answers = (\<lambda>_. []), lc_lock = Free, lc_cleanups = []\<rparr>"

inductive reach :: "lifecycle \<Rightarrow> bool" where
  reach_initial: "reach initial"
| reach_exec: "reach s \<Longrightarrow> exec e s = Some s' \<Longrightarrow> reach s'"

section \<open>Invariants\<close>

text \<open>The messages a queue or one of its workers has.\<close>

definition contents :: "lifecycle \<Rightarrow> nat \<Rightarrow> nat multiset" where
  "contents s q = mset (q_buffer (lc_queue s q)) + mset (q_serving (lc_queue s q))"

definition conserved :: "lifecycle \<Rightarrow> bool" where
  "conserved s \<longleftrightarrow>
     (\<forall>q m. count (contents s q) m \<le> 1)
     \<and> (\<forall>q q' m. m \<in># contents s q \<and> m \<in># contents s q' \<longrightarrow> q = q')
     \<and> (\<forall>q m. m \<in># contents s q \<longrightarrow> lc_producer s m = Enqueued \<and> lc_answers s m = [])
     \<and> (\<forall>m. lc_producer s m = Enqueued \<longrightarrow> (\<exists>q. m \<in># contents s q) \<or> length (lc_answers s m) = 1)
     \<and> (\<forall>m. lc_answers s m \<noteq> [] \<longrightarrow> lc_producer s m = Enqueued \<and> length (lc_answers s m) = 1)"

text \<open>Each queue on its own: workers leave only a closed queue, and none is left after the sweep.\<close>

definition queueOk :: "pqueue \<Rightarrow> bool" where
  "queueOk pq \<longleftrightarrow>
     (q_swept pq \<longrightarrow> q_closing pq \<and> running pq = 0)
     \<and> (\<not> q_closing pq \<longrightarrow> q_draining pq = 0 \<and> (q_orphan pq \<or> running pq > 0))"

text \<open>Only existing queues are referred to.\<close>

definition numbered :: "lifecycle \<Rightarrow> bool" where
  "numbered s \<longleftrightarrow>
     (\<forall>q\<ge>lc_next s. lc_queue s q = noQueue)
     \<and> (\<forall>q. lc_current s = Some q \<longrightarrow> q < lc_next s)
     \<and> (\<forall>m q. lc_producer s m = Holding q \<or> lc_producer s m = Committed q \<longrightarrow> q < lc_next s)
     \<and> (\<forall>q\<in>set (lc_cleanups s). q < lc_next s)"

text \<open>What the holder of the lock is doing, and who sweeps a closed queue.\<close>

definition lockOk :: "lifecycle \<Rightarrow> bool" where
  "lockOk s \<longleftrightarrow>
     (case lc_lock s of
        Free \<Rightarrow> (\<forall>q. lc_current s = Some q \<longrightarrow> \<not> q_closing (lc_queue s q))
      | Transferring q q' \<Rightarrow> q < q' \<and> lc_current s = Some q' \<and> \<not> q_closing (lc_queue s q) \<and> \<not> q_closing (lc_queue s q')
      | Cancelling q \<Rightarrow> (\<exists>q'. q < q' \<and> lc_current s = Some q' \<and> \<not> q_closing (lc_queue s q')) \<and> \<not> q_closing (lc_queue s q)
      | Closing q \<Rightarrow> (\<exists>q'. q < q' \<and> lc_current s = Some q' \<and> \<not> q_closing (lc_queue s q')) \<and> \<not> q_closing (lc_queue s q)
      | Removing q \<Rightarrow> lc_current s = Some q \<and> q_closing (lc_queue s q) \<and> \<not> q_swept (lc_queue s q) \<and> q \<notin> set (lc_cleanups s)
      | Removed q \<Rightarrow> lc_current s = Some q \<and> q_swept (lc_queue s q))"

definition sweepPending :: "lifecycle \<Rightarrow> nat \<Rightarrow> bool" where
  "sweepPending s q \<longleftrightarrow> q \<in> set (lc_cleanups s) \<or> lc_lock s = Removing q"

definition cleanupsOk :: "lifecycle \<Rightarrow> bool" where
  "cleanupsOk s \<longleftrightarrow>
     distinct (lc_cleanups s)
     \<and> (\<forall>q. q_closing (lc_queue s q) \<and> \<not> q_swept (lc_queue s q) \<longrightarrow> sweepPending s q)
     \<and> (\<forall>q\<in>set (lc_cleanups s). q_closing (lc_queue s q) \<and> \<not> q_swept (lc_queue s q))"

lemma lc_simps [simp]:
  "lc_queue (upd_q q f s) = (lc_queue s)(q := f (lc_queue s q))" "lc_next (upd_q q f s) = lc_next s"
  "lc_current (upd_q q f s) = lc_current s" "lc_producer (upd_q q f s) = lc_producer s"
  "lc_answers (upd_q q f s) = lc_answers s" "lc_lock (upd_q q f s) = lc_lock s"
  "lc_cleanups (upd_q q f s) = lc_cleanups s"
  "lc_queue (setProducer m p s) = lc_queue s" "lc_next (setProducer m p s) = lc_next s"
  "lc_current (setProducer m p s) = lc_current s" "lc_producer (setProducer m p s) = (lc_producer s)(m := p)"
  "lc_answers (setProducer m p s) = lc_answers s" "lc_lock (setProducer m p s) = lc_lock s"
  "lc_cleanups (setProducer m p s) = lc_cleanups s"
  "lc_queue (reply m a s) = lc_queue s" "lc_next (reply m a s) = lc_next s"
  "lc_current (reply m a s) = lc_current s" "lc_producer (reply m a s) = lc_producer s"
  "lc_answers (reply m a s) = (lc_answers s)(m := lc_answers s m @ [a])" "lc_lock (reply m a s) = lc_lock s"
  "lc_cleanups (reply m a s) = lc_cleanups s"
  "lc_queue (publish pq s) = (lc_queue s)(lc_next s := pq)" "lc_next (publish pq s) = Suc (lc_next s)"
  "lc_current (publish pq s) = Some (lc_next s)" "lc_producer (publish pq s) = lc_producer s"
  "lc_answers (publish pq s) = lc_answers s" "lc_lock (publish pq s) = lc_lock s"
  "lc_cleanups (publish pq s) = lc_cleanups s"
  by (simp_all add: upd_q_def setProducer_def reply_def publish_def)

lemma pqueue_simps [simp]:
  "q_closing (popped pq) = q_closing pq" "q_swept (popped pq) = q_swept pq" "q_orphan (popped pq) = q_orphan pq"
  "q_closing (pushed m pq) = q_closing pq" "q_swept (pushed m pq) = q_swept pq" "q_orphan (pushed m pq) = q_orphan pq"
  "q_closing (signalClosing pq)" "q_swept (signalClosing pq) = q_swept pq"
  "running (popped pq) = running pq" "running (pushed m pq) = running pq" "running (signalClosing pq) = running pq"
  "q_draining (popped pq) = q_draining pq" "q_draining (pushed m pq) = q_draining pq"
  "q_closing (newQueue b c) = False" "q_swept (newQueue b c) = False" "q_draining (newQueue b c) = 0"
  "q_orphan (newQueue b c) = (c = 0)" "running (newQueue b c) = c"
  "q_buffer noQueue = []" "q_serving noQueue = []" "q_idle noQueue = 0" "q_draining noQueue = 0"
  "\<not> q_closing noQueue" "\<not> q_swept noQueue" "q_orphan noQueue"
  "q_buffer (newQueue b c) = []" "q_serving (newQueue b c) = []"
  "q_serving (popped pq) = q_serving pq" "q_serving (pushed m pq) = q_serving pq"
  "q_buffer (popped pq) = tl (q_buffer pq)" "q_buffer (pushed m pq) = q_buffer pq @ [m]"
  "q_idle (popped pq) = q_idle pq"
  "q_buffer (signalClosing pq) = q_buffer pq" "q_serving (signalClosing pq) = q_serving pq"
  by (simp_all add: popped_def pushed_def signalClosing_def running_def newQueue_def noQueue_def)

lemma event_cases [case_names Create Acquire Check Send GiveUp Cancel Take Finish StartDrain DrainOne WorkerExit BeginUpdate Transfer CancelRest TransferDone CloseOld SweepOne SweepEnd BeginRemove RemoveSweepOne RemoveSweepEnd EndRemove]:
  assumes "\<And>b c. e = Create b c \<Longrightarrow> P"
    "\<And>m. e = Producer (Acquire m) \<Longrightarrow> P"
    "\<And>m. e = Producer (Check m) \<Longrightarrow> P"
    "\<And>m. e = Producer (Send m) \<Longrightarrow> P"
    "\<And>m d. e = Producer (GiveUp m d) \<Longrightarrow> P"
    "\<And>m. e = Producer (Cancel m) \<Longrightarrow> P"
    "\<And>q. e = Worker (Take q) \<Longrightarrow> P"
    "\<And>q m a. e = Worker (Finish q m a) \<Longrightarrow> P"
    "\<And>q. e = Worker (StartDrain q) \<Longrightarrow> P"
    "\<And>q. e = Worker (DrainOne q) \<Longrightarrow> P"
    "\<And>q. e = Worker (WorkerExit q) \<Longrightarrow> P"
    "\<And>b c. e = Update (BeginUpdate b c) \<Longrightarrow> P"
    "e = Update Transfer \<Longrightarrow> P"
    "e = Update CancelRest \<Longrightarrow> P"
    "e = Update TransferDone \<Longrightarrow> P"
    "e = Update CloseOld \<Longrightarrow> P"
    "\<And>q. e = Update (SweepOne q) \<Longrightarrow> P"
    "\<And>q. e = Update (SweepEnd q) \<Longrightarrow> P"
    "e = Remove BeginRemove \<Longrightarrow> P"
    "e = Remove RemoveSweepOne \<Longrightarrow> P"
    "e = Remove RemoveSweepEnd \<Longrightarrow> P"
    "e = Remove EndRemove \<Longrightarrow> P"
  shows P
proof (cases e)
  case (Producer x)
  with assms show ?thesis by (cases x) auto
next
  case (Worker x)
  with assms show ?thesis by (cases x) auto
next
  case (Update x)
  with assms show ?thesis by (cases x) auto
next
  case (Remove x)
  with assms show ?thesis by (cases x) auto
qed (use assms in auto)

lemmas event_splits = if_splits option.splits producer.splits lock.splits list.splits

lemmas event_defs = createStep_def guarded_def answerHead_def isClosing_def

lemma queueOk_exec:
  assumes "\<forall>q. queueOk (lc_queue s q)" "\<forall>q. sweepPending s q \<longrightarrow> q_closing (lc_queue s q)"
    and "exec e s = Some s'"
  shows "queueOk (lc_queue s' q)"
  using assms
  by (cases e rule: event_cases) (auto simp: queueOk_def event_defs running_def sweepPending_def signalClosing_def newQueue_def popped_def pushed_def
      split: event_splits)

lemma existing: "numbered s \<Longrightarrow> lc_queue s q \<noteq> noQueue \<Longrightarrow> q < lc_next s"
  by (auto simp: numbered_def not_le [symmetric])

lemma closing_exists: "numbered s \<Longrightarrow> q_closing (lc_queue s q) \<Longrightarrow> q < lc_next s"
  by (rule existing) auto

lemma numbered_exec:
  assumes "numbered s" "lockOk s" "exec e s = Some s'"
  shows "numbered s'"
proof -
  have lk: "lc_lock s = Transferring q q' \<Longrightarrow> q' < lc_next s \<and> q < lc_next s" for q q'
    using assms(1,2) by (auto simp: lockOk_def numbered_def)
  have cl: "lc_lock s = Closing q \<Longrightarrow> q < lc_next s" for q
    using assms(1,2) by (auto simp: lockOk_def numbered_def dest: less_trans)
  have rm: "lc_lock s = Removing q \<Longrightarrow> q < lc_next s" for q
    using assms(1,2) by (auto simp: lockOk_def numbered_def)
  have cm: "lc_producer s m = Committed q \<Longrightarrow> q < lc_next s" for m q
    using assms(1) by (auto simp: numbered_def)
  show ?thesis
  proof (cases e rule: event_cases)
    case RemoveSweepEnd
    with assms(1,3) rm show ?thesis
      by (cases "lc_lock s") (auto simp: numbered_def event_defs split: if_splits)
  next
    case (Send m)
    with assms(1,3) cm show ?thesis
      by (cases "lc_producer s m") (auto simp: numbered_def event_defs dest: cm split: if_splits)
  next
    case (Check m)
    with assms show ?thesis by (auto simp: numbered_def afterCheck_def split: event_splits)
  next
    case (Create b c)
    with assms show ?thesis by (auto simp: numbered_def event_defs less_SucI split: event_splits)
  next
    case (BeginUpdate b c)
    with assms show ?thesis by (auto simp: numbered_def event_defs less_SucI split: event_splits)
  next
    case Transfer
    with assms(1,3) lk show ?thesis
      by (cases "lc_lock s") (auto simp: numbered_def event_defs split: list.splits if_splits)
  next
    case CloseOld
    with assms(1,3) cl show ?thesis
      by (cases "lc_lock s") (auto simp: numbered_def event_defs)
  next
    case (SweepEnd q)
    with assms(1,3) show ?thesis by (auto simp: numbered_def event_defs dest: notin_set_remove1 split: if_splits)
  qed (use assms(1,3) in \<open>auto simp: numbered_def event_defs split: event_splits\<close>)
qed

text \<open>Most events leave the flags, the lock and the cleanups alone.\<close>

definition sameControl :: "lifecycle \<Rightarrow> lifecycle \<Rightarrow> bool" where
  "sameControl s s' \<longleftrightarrow>
     (\<forall>q. q_closing (lc_queue s' q) = q_closing (lc_queue s q) \<and> q_swept (lc_queue s' q) = q_swept (lc_queue s q))
     \<and> lc_lock s' = lc_lock s \<and> lc_current s' = lc_current s \<and> lc_cleanups s' = lc_cleanups s"

fun quiet :: "event \<Rightarrow> bool" where
  "quiet (Create b c) = False"
| "quiet (Update (BeginUpdate b c)) = False"
| "quiet (Update Transfer) = False"
| "quiet (Update TransferDone) = False"
| "quiet (Update CloseOld) = False"
| "quiet (Update (SweepEnd q)) = False"
| "quiet (Remove BeginRemove) = False"
| "quiet (Remove RemoveSweepEnd) = False"
| "quiet (Remove EndRemove) = False"
| "quiet e = True"

lemma quiet_exec: "quiet e \<Longrightarrow> exec e s = Some s' \<Longrightarrow> sameControl s s'"
  by (cases e rule: event_cases) (auto simp: sameControl_def event_defs split: event_splits)

lemma sameControl_ok:
  "sameControl s s' \<Longrightarrow> lockOk s' = lockOk s" "sameControl s s' \<Longrightarrow> cleanupsOk s' = cleanupsOk s"
  by (cases "lc_lock s"; simp add: sameControl_def lockOk_def)
     (simp add: sameControl_def cleanupsOk_def sweepPending_def)

definition controlOk :: "lifecycle \<Rightarrow> bool" where
  "controlOk s \<longleftrightarrow> numbered s \<and> lockOk s \<and> cleanupsOk s \<and> (\<forall>q. queueOk (lc_queue s q))"

lemma lockOk_exec:
  assumes "controlOk s" "exec e s = Some s'"
  shows "lockOk s'"
proof (cases "quiet e")
  case True
  with assms show ?thesis by (metis controlOk_def quiet_exec sameControl_ok(1))
next
  case False
  have n: "lc_current s = Some q \<Longrightarrow> q < lc_next s" for q using assms(1) by (simp add: controlOk_def numbered_def)
  have sw: "q_swept (lc_queue s q) \<Longrightarrow> q_closing (lc_queue s q)" for q
    using assms(1) by (simp add: controlOk_def queueOk_def)
  have cl: "q \<in> set (lc_cleanups s) \<Longrightarrow> q_closing (lc_queue s q)" for q
    using assms(1) by (simp add: controlOk_def cleanupsOk_def)
  have lock: "lockOk s" using assms(1) by (simp add: controlOk_def)
  from False show ?thesis
  proof (cases e rule: event_cases)
    case (BeginUpdate b c)
    with assms(2) lock n show ?thesis by (auto simp: lockOk_def event_defs split: option.splits if_splits)
  next
    case BeginRemove
    with assms(2) lock sw cl show ?thesis by (auto simp: lockOk_def event_defs split: option.splits if_splits)
  next
    case CloseOld
    with assms(2) lock show ?thesis by (auto simp: lockOk_def event_defs split: lock.splits)
  next
    case (SweepEnd q)
    with assms(2) lock cl show ?thesis
      by (cases "lc_lock s") (auto simp: lockOk_def event_defs split: if_splits dest: in_set_remove1 [THEN iffD1] notin_set_remove1)
  next
    case Transfer
    with assms(2) lock show ?thesis by (cases "lc_lock s") (auto simp: lockOk_def event_defs split: list.splits if_splits)
  qed (use assms(2) lock in \<open>auto simp: lockOk_def event_defs split: lock.splits if_splits\<close>)
qed

lemma cleanupsOk_flags:
  assumes "cleanupsOk s" "lc_cleanups s' = lc_cleanups s"
    and "\<And>q. q_closing (lc_queue s' q) = q_closing (lc_queue s q)" "\<And>q. q_swept (lc_queue s' q) = q_swept (lc_queue s q)"
    and "\<And>q. lc_lock s = Removing q \<Longrightarrow> lc_lock s' = Removing q"
  shows "cleanupsOk s'"
  using assms by (auto simp: cleanupsOk_def sweepPending_def)

lemma cleanupsOkD:
  assumes "cleanupsOk s"
  shows "distinct (lc_cleanups s)"
    "q_closing (lc_queue s q) \<Longrightarrow> \<not> q_swept (lc_queue s q) \<Longrightarrow> q \<in> set (lc_cleanups s) \<or> lc_lock s = Removing q"
    "q \<in> set (lc_cleanups s) \<Longrightarrow> q_closing (lc_queue s q) \<and> \<not> q_swept (lc_queue s q)"
  using assms unfolding cleanupsOk_def sweepPending_def by blast+

lemma cleanupsOkI:
  assumes "distinct (lc_cleanups s)"
    and "\<And>q. q_closing (lc_queue s q) \<Longrightarrow> \<not> q_swept (lc_queue s q) \<Longrightarrow> q \<in> set (lc_cleanups s) \<or> lc_lock s = Removing q"
    and "\<And>q. q \<in> set (lc_cleanups s) \<Longrightarrow> q_closing (lc_queue s q) \<and> \<not> q_swept (lc_queue s q)"
  shows "cleanupsOk s"
  using assms unfolding cleanupsOk_def sweepPending_def by blast

lemma cleanupsOk_exec:
  assumes "controlOk s" "exec e s = Some s'"
  shows "cleanupsOk s'"
proof (cases "quiet e")
  case True
  with assms show ?thesis by (metis controlOk_def quiet_exec sameControl_ok(2))
next
  case False
  have fresh: "lc_queue s (lc_next s) = noQueue"
    using assms(1) by (simp add: controlOk_def numbered_def)
  have ok: "cleanupsOk s" "lockOk s" using assms(1) by (simp_all add: controlOk_def)
  note D = cleanupsOkD [OF ok(1)]
  have sw: "q_swept (lc_queue s q) \<Longrightarrow> q_closing (lc_queue s q)" for q
    using assms(1) by (simp add: controlOk_def queueOk_def)
  from False show ?thesis
  proof (cases e rule: event_cases)
    case (Create b c)
    with assms(2) fresh show ?thesis
      by (intro cleanupsOk_flags [OF ok(1)]) (auto simp: event_defs split: if_splits)
  next
    case (BeginUpdate b c)
    with assms(2) fresh show ?thesis
      by (intro cleanupsOk_flags [OF ok(1)]) (auto simp: event_defs split: if_splits option.splits)
  next
    case Transfer
    with assms(2) show ?thesis
      by (intro cleanupsOk_flags [OF ok(1)]) (auto simp: event_defs split: lock.splits list.splits if_splits)
  next
    case TransferDone
    with assms(2) show ?thesis
      by (intro cleanupsOk_flags [OF ok(1)]) (auto simp: event_defs split: lock.splits if_splits)
  next
    case EndRemove
    with assms(2) show ?thesis
      by (intro cleanupsOk_flags [OF ok(1)]) (auto simp: event_defs split: lock.splits if_splits)
  next
    case CloseOld
    then obtain q where lk: "lc_lock s = Closing q"
        and s': "s' = (upd_q q signalClosing s)\<lparr>lc_lock := Free, lc_cleanups := q # lc_cleanups s\<rparr>"
      using assms(2) by (cases "lc_lock s") auto
    have "\<not> q_closing (lc_queue s q)" using ok(2) lk by (simp add: lockOk_def)
    then have q: "\<not> q_swept (lc_queue s q)" "q \<notin> set (lc_cleanups s)" using sw D(3) by blast+
    show ?thesis
      by (rule cleanupsOkI) (use q D lk in \<open>auto simp: s' split: if_splits\<close>)
  next
    case (SweepEnd q)
    then have q: "q \<in> set (lc_cleanups s)"
        and s': "s' = (upd_q q (\<lambda>pq. pq\<lparr>q_swept := True\<rparr>) s)\<lparr>lc_cleanups := remove1 q (lc_cleanups s)\<rparr>"
      using assms(2) by (auto simp: guarded_def split: if_splits)
    show ?thesis
      by (rule cleanupsOkI) (use q D in \<open>auto simp: s' set_remove1_eq split: if_splits\<close>)
  next
    case BeginRemove
    then obtain q where s': "s' = (upd_q q signalClosing s)\<lparr>lc_lock := Removing q\<rparr>" and lk: "lc_lock s = Free"
        and cur: "lc_current s = Some q"
      using assms(2) by (auto simp: guarded_def split: option.splits if_splits)
    have "\<not> q_closing (lc_queue s q)" using ok(2) lk cur by (simp add: lockOk_def)
    then have q: "q \<notin> set (lc_cleanups s)" using D(3) by blast
    show ?thesis
      by (rule cleanupsOkI) (use q D lk in \<open>auto simp: s' split: if_splits\<close>)
  next
    case RemoveSweepEnd
    then obtain q where s': "s' = (upd_q q (\<lambda>pq. pq\<lparr>q_swept := True\<rparr>) s)\<lparr>lc_lock := Removed q\<rparr>" and lk: "lc_lock s = Removing q"
      using assms(2) by (cases "lc_lock s") (auto simp: guarded_def split: if_splits)
    have q: "q \<notin> set (lc_cleanups s)" using ok(2) lk by (simp add: lockOk_def)
    show ?thesis
      by (rule cleanupsOkI) (use q D lk in \<open>auto simp: s' split: if_splits\<close>)
  qed auto
qed

lemma sweepPending_closing: "lockOk s \<Longrightarrow> cleanupsOk s \<Longrightarrow> sweepPending s q \<Longrightarrow> q_closing (lc_queue s q)"
  by (auto simp: lockOk_def cleanupsOk_def sweepPending_def)

lemma controlOk_exec: "controlOk s \<Longrightarrow> exec e s = Some s' \<Longrightarrow> controlOk s'"
  unfolding controlOk_def
  by (metis (no_types, lifting) cleanupsOk_exec controlOk_def lockOk_exec numbered_exec queueOk_exec sweepPending_closing)

lemma controlOk_initial: "controlOk initial"
  by (simp add: controlOk_def initial_def numbered_def lockOk_def cleanupsOk_def sweepPending_def queueOk_def)

lemma reach_controlOk: "reach s \<Longrightarrow> controlOk s"
  by (induction rule: reach.induct) (auto intro: controlOk_initial controlOk_exec)

section \<open>Conservation\<close>

lemma conservedD:
  assumes "conserved s"
  shows "count (contents s q) m \<le> 1" "m \<in># contents s q \<Longrightarrow> m \<in># contents s q' \<Longrightarrow> q = q'"
    "m \<in># contents s q \<Longrightarrow> lc_producer s m = Enqueued" "m \<in># contents s q \<Longrightarrow> lc_answers s m = []"
    "lc_producer s m = Enqueued \<Longrightarrow> (\<exists>q. m \<in># contents s q) \<or> length (lc_answers s m) = 1"
    "lc_answers s m \<noteq> [] \<Longrightarrow> lc_producer s m = Enqueued \<and> length (lc_answers s m) = 1"
  using assms unfolding conserved_def by blast+

text \<open>The four ways an event can change where messages are.\<close>

lemma conserved_same:
  assumes "conserved s" "contents s' = contents s" "lc_answers s' = lc_answers s"
    and "\<And>m. lc_producer s' m = Enqueued \<longleftrightarrow> lc_producer s m = Enqueued"
  shows "conserved s'"
  using assms by (simp add: conserved_def)

lemma mset_remove_one: "count M m = 1 \<Longrightarrow> x \<in># M - {#m#} \<longleftrightarrow> x \<in># M \<and> x \<noteq> m"
  by (cases "x = m") (simp_all add: in_diff_count)

lemma conservedI:
  assumes "\<And>q m. count (contents s q) m \<le> 1"
    and "\<And>q q' m. m \<in># contents s q \<Longrightarrow> m \<in># contents s q' \<Longrightarrow> q = q'"
    and "\<And>q m. m \<in># contents s q \<Longrightarrow> lc_producer s m = Enqueued \<and> lc_answers s m = []"
    and "\<And>m. lc_producer s m = Enqueued \<Longrightarrow> lc_answers s m = [] \<Longrightarrow> \<exists>q. m \<in># contents s q"
    and "\<And>m. lc_answers s m \<noteq> [] \<Longrightarrow> lc_producer s m = Enqueued \<and> length (lc_answers s m) = 1"
  shows "conserved s"
  unfolding conserved_def using assms by metis

lemma conserved_add:
  assumes "conserved s" "lc_producer s m \<noteq> Enqueued" "lc_producer s' = (lc_producer s)(m := Enqueued)"
    and "contents s' = (contents s)(q := contents s q + {#m#})" "lc_answers s' = lc_answers s"
  shows "conserved s'"
proof -
  have out: "m \<notin># contents s q'" for q' using assms(1,2) conservedD(3) by blast
  have ans: "lc_answers s m = []" using assms(1,2) conservedD(6) by blast
  have mem: "x \<in># contents s' q' \<longleftrightarrow> x \<in># contents s q' \<or> x = m \<and> q' = q" for x q'
    by (auto simp: assms(4))
  show ?thesis
  proof (rule conservedI)
    fix q' x
    show "count (contents s' q') x \<le> 1"
      using conservedD(1) [OF assms(1), of q' x] out [of q] by (auto simp: assms(4) not_in_iff)
    show "x \<in># contents s' q' \<Longrightarrow> lc_producer s' x = Enqueued \<and> lc_answers s' x = []"
      using conservedD(3,4) [OF assms(1), of x q'] ans by (auto simp: mem assms(3,5))
  next
    fix q1 q2 x
    show "x \<in># contents s' q1 \<Longrightarrow> x \<in># contents s' q2 \<Longrightarrow> q1 = q2"
      using conservedD(2) [OF assms(1), of x q1 q2] out by (auto simp: mem)
  next
    fix x
    show "lc_producer s' x = Enqueued \<Longrightarrow> lc_answers s' x = [] \<Longrightarrow> \<exists>q. x \<in># contents s' q"
      using conservedD(5) [OF assms(1), of x] by (auto simp: mem assms(3,5) split: if_splits)
    show "lc_answers s' x \<noteq> [] \<Longrightarrow> lc_producer s' x = Enqueued \<and> length (lc_answers s' x) = 1"
      using conservedD(6) [OF assms(1), of x] by (auto simp: assms(3,5))
  qed
qed

lemma conserved_answer:
  assumes "conserved s" "m \<in># contents s q" "lc_producer s' = lc_producer s"
    and "contents s' = (contents s)(q := contents s q - {#m#})" "lc_answers s' = (lc_answers s)(m := lc_answers s m @ [a])"
  shows "conserved s'"
proof -
  have here: "lc_answers s m = []" "lc_producer s m = Enqueued"
    using conservedD(3,4) [OF assms(1,2)] by auto
  have "count (contents s q) m \<noteq> 0" using assms(2) by simp
  with conservedD(1) [OF assms(1), of q m] have one: "count (contents s q) m = 1" by linarith
  have mem: "x \<in># contents s' q' \<longleftrightarrow> x \<in># contents s q' \<and> x \<noteq> m" for x q'
  proof (cases "q' = q")
    case True
    with mset_remove_one [OF one] show ?thesis by (simp add: assms(4))
  next
    case False
    with conservedD(2) [OF assms(1,2), of q'] show ?thesis by (auto simp: assms(4))
  qed
  show ?thesis
  proof (rule conservedI)
    fix q' x
    show "count (contents s' q') x \<le> 1"
      using conservedD(1) [OF assms(1), of q' x] by (auto simp: assms(4))
    show "x \<in># contents s' q' \<Longrightarrow> lc_producer s' x = Enqueued \<and> lc_answers s' x = []"
      using conservedD(3,4) [OF assms(1), of x q'] by (auto simp: mem assms(3,5))
  next
    fix q1 q2 x
    show "x \<in># contents s' q1 \<Longrightarrow> x \<in># contents s' q2 \<Longrightarrow> q1 = q2"
      using conservedD(2) [OF assms(1), of x q1 q2] by (auto simp: mem)
  next
    fix x
    show "lc_producer s' x = Enqueued \<Longrightarrow> lc_answers s' x = [] \<Longrightarrow> \<exists>q. x \<in># contents s' q"
      using conservedD(5) [OF assms(1), of x] by (auto simp: mem assms(3,5) split: if_splits)
    show "lc_answers s' x \<noteq> [] \<Longrightarrow> lc_producer s' x = Enqueued \<and> length (lc_answers s' x) = 1"
      using conservedD(6) [OF assms(1), of x] here by (auto simp: assms(3,5))
  qed
qed

lemma conserved_move:
  assumes "conserved s" "m \<in># contents s q" "q \<noteq> q'" "lc_producer s' = lc_producer s" "lc_answers s' = lc_answers s"
    and "contents s' = (contents s)(q := contents s q - {#m#}, q' := contents s q' + {#m#})"
  shows "conserved s'"
proof -
  have "count (contents s q) m \<noteq> 0" using assms(2) by simp
  with conservedD(1) [OF assms(1), of q m] have one: "count (contents s q) m = 1" by linarith
  have out: "m \<notin># contents s q1" if "q1 \<noteq> q" for q1 using conservedD(2) [OF assms(1,2)] that by blast
  have mem: "x \<in># contents s' q1 \<longleftrightarrow> (if x = m then q1 = q' else x \<in># contents s q1)" for x q1
    using mset_remove_one [OF one] out [of q1] assms(3) by (auto simp: assms(6))
  show ?thesis
  proof (rule conservedI)
    fix q1 x
    show "count (contents s' q1) x \<le> 1"
      using conservedD(1) [OF assms(1), of q1 x] out [of q'] assms(3) by (auto simp: assms(6) not_in_iff)
    show "x \<in># contents s' q1 \<Longrightarrow> lc_producer s' x = Enqueued \<and> lc_answers s' x = []"
      using conservedD(3,4) [OF assms(1), of x] assms(2) by (auto simp: mem assms(4,5) split: if_splits)
  next
    fix q1 q2 x
    show "x \<in># contents s' q1 \<Longrightarrow> x \<in># contents s' q2 \<Longrightarrow> q1 = q2"
      using conservedD(2) [OF assms(1), of x q1 q2] by (auto simp: mem split: if_splits)
  next
    fix x
    show "lc_producer s' x = Enqueued \<Longrightarrow> lc_answers s' x = [] \<Longrightarrow> \<exists>q. x \<in># contents s' q"
      using conservedD(5) [OF assms(1), of x] by (auto simp: mem assms(4,5) split: if_splits)
    show "lc_answers s' x \<noteq> [] \<Longrightarrow> lc_producer s' x = Enqueued \<and> length (lc_answers s' x) = 1"
      using conservedD(6) [OF assms(1), of x] by (auto simp: assms(4,5))
  qed
qed

lemma contents_simps [simp]:
  "contents (upd_q q f s) = (contents s)(q := mset (q_buffer (f (lc_queue s q))) + mset (q_serving (f (lc_queue s q))))"
  "contents (setProducer m p s) = contents s" "contents (reply m a s) = contents s"
  "contents (s\<lparr>lc_lock := l\<rparr>) = contents s" "contents (s\<lparr>lc_cleanups := cs\<rparr>) = contents s"
  "contents (s\<lparr>lc_current := c\<rparr>) = contents s" "contents (s\<lparr>lc_gone := g\<rparr>) = contents s"
  by (auto simp: contents_def)

lemma contents_publish: "lc_queue s (lc_next s) = noQueue \<Longrightarrow> contents (publish (newQueue b c) s) = contents s"
  by (auto simp: contents_def)

lemma contents_same:
  "q_buffer (f (lc_queue s q)) = q_buffer (lc_queue s q) \<Longrightarrow> q_serving (f (lc_queue s q)) = q_serving (lc_queue s q)
   \<Longrightarrow> contents (upd_q q f s) = contents s"
  by (simp add: contents_def fun_eq_iff)

lemma conserved_answerHead:
  assumes "conserved s" "answerHead q a s0 = Some s'"
    and "lc_queue s0 = lc_queue s" "lc_producer s0 = lc_producer s" "lc_answers s0 = lc_answers s"
  shows "conserved s'"
proof -
  obtain m ms where b: "q_buffer (lc_queue s q) = m # ms" and s': "s' = reply m a (upd_q q popped s0)"
    using assms(2,3) by (auto simp: answerHead_def split: list.splits)
  have "contents s0 = contents s" using assms(3) by (simp add: contents_def fun_eq_iff)
  then show ?thesis
    using b by (intro conserved_answer [OF assms(1), of m q]) (simp_all add: s' assms(3-5) contents_def)
qed

lemma conserved_exec:
  assumes "conserved s" "numbered s" "lockOk s" "exec e s = Some s'"
  shows "conserved s'"
proof -
  have fresh: "lc_queue s (lc_next s) = noQueue" using assms(2) by (simp add: numbered_def)
  have notEnq: "lc_producer s m \<noteq> Enqueued \<Longrightarrow> p \<noteq> Enqueued \<Longrightarrow> conserved (setProducer m p s)" for m p
    by (rule conserved_same [OF assms(1)]) auto
  show ?thesis
  proof (cases e rule: event_cases)
    case (Create b c)
    with assms(4) fresh show ?thesis
      by (intro conserved_same [OF assms(1)]) (auto simp: createStep_def guarded_def contents_publish split: if_splits)
  next
    case (Acquire m)
    with assms(4) notEnq show ?thesis by (auto simp: guarded_def split: option.splits if_splits)
  next
    case (Check m)
    with assms(4) notEnq show ?thesis
      by (auto simp: afterCheck_def split: option.splits if_splits producer.splits)
  next
    case (Send m)
    then obtain q where "lc_producer s m = Committed q" "s' = setProducer m Enqueued (upd_q q (pushed m) s)"
      using assms(4) by (auto simp: guarded_def split: producer.splits if_splits)
    then show ?thesis by (intro conserved_add [OF assms(1), of m _ q]) (auto simp: contents_def)
  next
    case (GiveUp m d)
    with assms(4) notEnq show ?thesis by (auto simp: guarded_def split: producer.splits if_splits)
  next
    case (Cancel m)
    with assms(4) show ?thesis by (intro conserved_same [OF assms(1)]) auto
  next
    case (Take q)
    then obtain m ms where b: "q_buffer (lc_queue s q) = m # ms"
        and "s' = upd_q q (\<lambda>pq. popped pq\<lparr>q_idle := q_idle pq - 1, q_serving := m # q_serving pq\<rparr>) s"
      using assms(4) by (auto simp: guarded_def split: list.splits if_splits)
    then show ?thesis
      by (intro conserved_same [OF assms(1)]) (auto simp: contents_def fun_eq_iff popped_def)
  next
    case (Finish q m a)
    then have m: "m \<in> set (q_serving (lc_queue s q))"
        and s': "s' = reply m a (upd_q q (\<lambda>pq. pq\<lparr>q_idle := q_idle pq + 1, q_serving := remove1 m (q_serving pq)\<rparr>) s)"
      using assms(4) by (auto simp: guarded_def split: if_splits)
    show ?thesis
      by (rule conserved_answer [OF assms(1), of m q _ a]) (use m in \<open>auto simp: s' contents_def\<close>)
  next
    case (StartDrain q)
    with assms(4) show ?thesis
      by (intro conserved_same [OF assms(1)]) (auto simp: guarded_def contents_same simp del: contents_simps split: if_splits)
  next
    case (DrainOne q)
    with assms(1,4) show ?thesis by (auto intro: conserved_answerHead split: if_splits)
  next
    case (WorkerExit q)
    with assms(4) show ?thesis
      by (intro conserved_same [OF assms(1)]) (auto simp: guarded_def contents_same simp del: contents_simps split: if_splits)
  next
    case (BeginUpdate b c)
    with assms(4) fresh show ?thesis
      by (intro conserved_same [OF assms(1)]) (auto simp: createStep_def guarded_def contents_publish split: option.splits if_splits)
  next
    case Transfer
    then obtain q q' m ms where lk: "lc_lock s = Transferring q q'" and b: "q_buffer (lc_queue s q) = m # ms"
      using assms(4) by (auto split: lock.splits list.splits)
    have ne: "q \<noteq> q'" using assms(3) lk by (auto simp: lockOk_def)
    show ?thesis
    proof (cases "fullQueue (lc_queue s q')")
      case True
      with Transfer assms(4) lk b have "answerHead q QueueFull (s\<lparr>lc_lock := Cancelling q\<rparr>) = Some s'"
        by (simp add: answerHead_def)
      then show ?thesis by (rule conserved_answerHead [OF assms(1)]) simp_all
    next
      case False
      with Transfer assms(4) lk b have s': "s' = upd_q q' (pushed m) (upd_q q popped s)" by simp
      show ?thesis
        by (rule conserved_move [OF assms(1), of m q q']) (use b ne in \<open>auto simp: s' contents_def fun_eq_iff\<close>)
    qed
  next
    case CancelRest
    with assms(1,4) show ?thesis by (auto intro: conserved_answerHead split: lock.splits)
  next
    case TransferDone
    with assms(4) show ?thesis
      by (intro conserved_same [OF assms(1)]) (auto simp: guarded_def split: lock.splits if_splits)
  next
    case CloseOld
    with assms(4) show ?thesis
      by (intro conserved_same [OF assms(1)])
         (auto simp: fun_eq_iff contents_def split: lock.splits)
  next
    case (SweepOne q)
    with assms(1,4) show ?thesis by (auto intro: conserved_answerHead split: if_splits)
  next
    case (SweepEnd q)
    with assms(4) show ?thesis
      by (intro conserved_same [OF assms(1)]) (auto simp: guarded_def fun_eq_iff contents_def split: if_splits)
  next
    case BeginRemove
    with assms(4) show ?thesis
      by (intro conserved_same [OF assms(1)]) (auto simp: guarded_def fun_eq_iff contents_def split: option.splits if_splits)
  next
    case RemoveSweepOne
    with assms(1,4) show ?thesis by (auto intro: conserved_answerHead split: lock.splits if_splits)
  next
    case RemoveSweepEnd
    with assms(4) show ?thesis
      by (intro conserved_same [OF assms(1)]) (auto simp: guarded_def fun_eq_iff contents_def split: lock.splits if_splits)
  next
    case EndRemove
    with assms(4) show ?thesis
      by (intro conserved_same [OF assms(1)]) (auto simp: guarded_def split: lock.splits if_splits)
  qed
qed

lemma reach_conserved: "reach s \<Longrightarrow> conserved s"
proof (induction rule: reach.induct)
  case reach_initial
  show ?case by (simp add: conserved_def initial_def contents_def)
next
  case (reach_exec s e s')
  then show ?case using conserved_exec reach_controlOk by (metis controlOk_def)
qed

section \<open>Properties\<close>

lemma popped_idle [simp]: "q_idle (popped pq) = q_idle pq"
  by (simp add: popped_def)

text \<open>
  C16. No message is answered twice and none gets lost: in every reachable state a message is in at
  most one queue or worker and there only once; it is in one of them, or has been answered exactly
  once and never both, exactly when its producer put it into a queue. So the channels of a message,
  which have room for one answer, never block the goroutine that answers.
\<close>

theorem messages_conserved:
  assumes "reach s"
  shows "count (contents s q) m \<le> 1
    \<and> (m \<in># contents s q \<and> m \<in># contents s q' \<longrightarrow> q = q')
    \<and> length (lc_answers s m) \<le> 1
    \<and> (lc_producer s m = Enqueued \<longleftrightarrow> (\<exists>q. m \<in># contents s q) \<or> lc_answers s m \<noteq> [])
    \<and> \<not> ((\<exists>q. m \<in># contents s q) \<and> lc_answers s m \<noteq> [])"
proof -
  note D = conservedD [OF reach_conserved [OF assms]]
  have "length (lc_answers s m) \<le> 1" using D(6) [of m] by (cases "lc_answers s m") auto
  moreover have "lc_producer s m = Enqueued \<Longrightarrow> (\<exists>q. m \<in># contents s q) \<or> lc_answers s m \<noteq> []"
    using D(5) [of m] by auto
  ultimately show ?thesis using D(1-4) D(6) [of m] by blast
qed

text \<open>A run: a queue with one worker, a request, an update that moves it, and its answer.\<close>

fun run :: "event list \<Rightarrow> lifecycle \<Rightarrow> lifecycle option" where
  "run [] s = Some s"
| "run (e # es) s = (case exec e s of None \<Rightarrow> None | Some s' \<Rightarrow> run es s')"

lemma run_reach: "run es s = Some s' \<Longrightarrow> reach s \<Longrightarrow> reach s'"
  by (induction es arbitrary: s) (auto split: option.splits intro: reach_exec)

definition update_run :: "event list" where
  "update_run = [Create 1 1, Producer (Acquire 7), Producer (Check 7), Producer (Send 7),
     Update (BeginUpdate 2 1), Update Transfer, Update TransferDone, Update CloseOld,
     Worker (Take 1), Worker (Finish 1 7 Result)]"

theorem messages_conserved_witness:
  "\<exists>s. run update_run initial = Some s \<and> length (lc_answers s 7) \<le> 1 \<and> lc_answers s 7 = [Result]"
proof -
  obtain s where s: "run update_run initial = Some s" "lc_answers s 7 = [Result]"
    by (simp add: update_run_def initial_def createStep_def guarded_def publish_def newQueue_def setProducer_def upd_q_def pushed_def
        popped_def reply_def afterCheck_def isClosing_def fullQueue_def signalClosing_def)
  have "length (lc_answers s 7) \<le> 1"
    using messages_conserved [OF run_reach [OF s(1) reach_initial], of 0 7 0] by blast
  with s show ?thesis by blast
qed

text \<open>
  C17. Somebody always comes for a waiting message: as long as a queue that was published with
  workers has not had its last sweep, a message in it can be taken, answered by a draining worker,
  or swept, or a worker of that queue can finish the message it is serving. Only a queue without
  workers, or one that was already swept, can hold messages nobody comes for.
\<close>

theorem no_message_stranded:
  assumes "reach s" "m \<in> set (q_buffer (lc_queue s q))"
    and "\<not> q_swept (lc_queue s q)" "\<not> q_orphan (lc_queue s q)"
  shows "\<exists>e s'. exec e s = Some s'
    \<and> (e \<in> {Worker (Take q), Worker (DrainOne q), Update (SweepOne q), Remove RemoveSweepOne}
         \<or> (\<exists>m'\<in>set (q_serving (lc_queue s q)). e = Worker (Finish q m' Result)))"
proof -
  have ok: "controlOk s" by (rule reach_controlOk [OF assms(1)])
  obtain x xs where b: "q_buffer (lc_queue s q) = x # xs" using assms(2) by (cases "q_buffer (lc_queue s q)") auto
  show ?thesis
  proof (cases "running (lc_queue s q) > 0")
    case True
    then consider "q_idle (lc_queue s q) > 0" | "q_draining (lc_queue s q) > 0" | "q_serving (lc_queue s q) \<noteq> []"
      by (auto simp: running_def)
    then show ?thesis
    proof cases
      case 1
      with b have "\<exists>s'. exec (Worker (Take q)) s = Some s'" by (simp add: guarded_def)
      then show ?thesis by blast
    next
      case 2
      with b have "\<exists>s'. exec (Worker (DrainOne q)) s = Some s'" by (simp add: answerHead_def)
      then show ?thesis by blast
    next
      case 3
      then obtain m' where m': "m' \<in> set (q_serving (lc_queue s q))" by (metis last_in_set)
      then have "\<exists>s'. exec (Worker (Finish q m' Result)) s = Some s'" by (simp add: guarded_def)
      with m' show ?thesis by blast
    qed
  next
    case False
    then have "q_closing (lc_queue s q)" using ok assms(4) by (auto simp: controlOk_def queueOk_def)
    then have "sweepPending s q" using ok assms(3) by (auto simp: controlOk_def cleanupsOk_def)
    then consider "q \<in> set (lc_cleanups s)" | "lc_lock s = Removing q" by (auto simp: sweepPending_def)
    then show ?thesis
    proof cases
      case 1
      with False b have "\<exists>s'. exec (Update (SweepOne q)) s = Some s'" by (simp add: answerHead_def)
      then show ?thesis by blast
    next
      case 2
      with False b have "\<exists>s'. exec (Remove RemoveSweepOne) s = Some s'" by (simp add: answerHead_def)
      then show ?thesis by blast
    qed
  qed
qed

theorem no_message_stranded_witness:
  "\<exists>s e s'. run [Create 1 1, Producer (Acquire 7), Producer (Check 7), Producer (Send 7)] initial = Some s \<and> exec e s = Some s' \<and> e \<noteq> Update Transfer"
proof -
  obtain s where s: "run [Create 1 1, Producer (Acquire 7), Producer (Check 7), Producer (Send 7)] initial = Some s" "7 \<in> set (q_buffer (lc_queue s 0))"
    "\<not> q_swept (lc_queue s 0)" "\<not> q_orphan (lc_queue s 0)"
    by (simp add: initial_def createStep_def guarded_def publish_def newQueue_def setProducer_def upd_q_def pushed_def
        afterCheck_def isClosing_def fullQueue_def)
  from no_message_stranded [OF run_reach [OF s(1) reach_initial] s(2-4)] s(1) show ?thesis by blast
qed

text \<open>
  C18. A provider whose creation failed swallows requests: its queue is published before the provider
  is created and stays when that fails, so requests are put into it although it has no worker. They
  are answered by no event but the ones of an update or a removal of the provider.
\<close>

theorem failed_creation_strands_requests:
  assumes "m \<in> set (q_buffer (lc_queue s q))" "q_orphan (lc_queue s q)" "running (lc_queue s q) = 0"
    and "lc_current s = Some q" "\<not> q_closing (lc_queue s q)" "lc_lock s = Free" "q \<notin> set (lc_cleanups s)" "q < lc_next s"
    and "exec e s = Some s'" "\<forall>b c. e \<noteq> Update (BeginUpdate b c)" "e \<noteq> Remove BeginRemove"
  shows "m \<in> set (q_buffer (lc_queue s' q)) \<and> q_orphan (lc_queue s' q) \<and> running (lc_queue s' q) = 0
    \<and> lc_current s' = Some q \<and> \<not> q_closing (lc_queue s' q) \<and> lc_lock s' = Free \<and> q \<notin> set (lc_cleanups s') \<and> q < lc_next s'"
proof -
  have none: "q_idle (lc_queue s q) = 0" "q_draining (lc_queue s q) = 0" "q_serving (lc_queue s q) = []"
    using assms(3) by (simp_all add: running_def)
  have "m \<in> set (q_buffer (lc_queue s' q)) \<and> lc_queue s' q \<in> {lc_queue s q} \<union> range (\<lambda>m. pushed m (lc_queue s q))"
    using assms(1,4,6,7,9-11) none
    by (cases e rule: event_cases) (auto simp: createStep_def guarded_def answerHead_def split: event_splits)
  moreover have "lc_current s' = Some q \<and> lc_lock s' = Free \<and> q \<notin> set (lc_cleanups s') \<and> q < lc_next s'"
    using assms(4,6-11)
    by (cases e rule: event_cases) (auto simp: createStep_def guarded_def answerHead_def dest: notin_set_remove1 split: event_splits)
  ultimately show ?thesis using assms(2,3,5) by auto
qed

theorem failed_creation_strands_requests_witness:
  "\<exists>s. run [Create 10 0, Producer (Acquire 7), Producer (Check 7), Producer (Send 7)] initial = Some s \<and> lc_answers s 7 = []
     \<and> (\<forall>e s'. exec e s = Some s' \<and> (\<forall>b c. e \<noteq> Update (BeginUpdate b c)) \<and> e \<noteq> Remove BeginRemove \<longrightarrow> 7 \<in> set (q_buffer (lc_queue s' 0)))"
proof -
  obtain s where s: "run [Create 10 0, Producer (Acquire 7), Producer (Check 7), Producer (Send 7)] initial = Some s"
    and f: "7 \<in> set (q_buffer (lc_queue s 0))" "q_orphan (lc_queue s 0)" "running (lc_queue s 0) = 0"
      "lc_current s = Some 0" "\<not> q_closing (lc_queue s 0)" "lc_lock s = Free" "0 \<notin> set (lc_cleanups s)" "0 < lc_next s"
    and a: "lc_answers s 7 = []"
    by (simp add: initial_def createStep_def guarded_def publish_def newQueue_def setProducer_def upd_q_def pushed_def
        afterCheck_def isClosing_def fullQueue_def running_def)
  have "7 \<in> set (q_buffer (lc_queue s' 0))"
    if "exec e s = Some s'" "\<forall>b c. e \<noteq> Update (BeginUpdate b c)" "e \<noteq> Remove BeginRemove" for e s'
    using failed_creation_strands_requests [OF f that] by blast
  with s a show ?thesis by blast
qed

end
