(* ===== verification/Gate.thy ===== *)
theory Gate
  imports RetryPolicy "HOL-Library.Sublist"
begin

text \<open>
  The pause/resume/end gate in front of a stream's consumer: \<^verbatim>\<open>framework/streaming/gate.go\<close>, the
  life of the accumulator that carries it (\<^verbatim>\<open>framework/streaming/accumulator.go\<close>), the calls a
  plugin makes on its context (\<^verbatim>\<open>core/schemas/context.go\<close>) and the send and the close of a
  provider's goroutine (\<^verbatim>\<open>GateSendChunk\<close>, \<^verbatim>\<open>CloseStream\<close> in \<^verbatim>\<open>core/providers/utils/utils.go\<close>).

  Everything a goroutine does between taking and releasing \<^verbatim>\<open>sa.mu\<close> is one step; a send on the
  consumer's channel, which happens without the lock, ends by a step of its own with the result
  of \<^verbatim>\<open>sendOrCancel\<close>. One stream, with one goroutine that produces its chunks; plugins call from any
  goroutine. \<open>chunkBytes\<close>, the length of a chunk's JSON, is a parameter.
\<close>

section \<open>State\<close>

datatype stream_state = StreamStateActive | StreamStatePaused | StreamStateEnded

text \<open>The flusher's goroutine: not running, runnable (it will take the lock and test its wait
  condition), asleep in \<^verbatim>\<open>gateCond.Wait\<close>, sending without the lock, back from a send and about to
  take the lock again.\<close>

datatype 'c flusher =
    Absent
  | Runnable
  | Asleep
  | Sending 'c
  | Sent bool
  | SendingError bifrost_error
  | ErrorSent

record 'c gate =
  g_state :: stream_state
  g_pausedAt :: int
  g_pendingTerminal :: bool
  g_seq :: int
  g_buf :: "'c list"
  g_bytes :: int
  g_endError :: "bifrost_error option"
  g_target :: bool
  g_flusher :: "'c flusher"
  g_done :: "nat option"
  g_doneMade :: nat
  g_doneClosed :: "nat list"
  g_pendingCleanup :: bool
  g_refCount :: int
  g_registered :: bool

text \<open>\<open>g_target\<close>: the consumer's channel and context were captured. \<open>g_done\<close> numbers the channels
  made for \<^verbatim>\<open>gateFlusherDone\<close>, \<open>g_doneClosed\<close> are those closed. \<open>g_registered\<close>: the accumulator is in
  the map of its \<^verbatim>\<open>Accumulator\<close>.\<close>

definition newGate :: "'c gate" where
  "newGate =
     \<lparr>g_state = StreamStateActive, g_pausedAt = -1, g_pendingTerminal = False, g_seq = 0, g_buf = [], g_bytes = 0,
      g_endError = None, g_target = False, g_flusher = Absent, g_done = None, g_doneMade = 0, g_doneClosed = [],
      g_pendingCleanup = False, g_refCount = 0, g_registered = True\<rparr>"

definition flusherOn :: "'c gate \<Rightarrow> bool" where
  "flusherOn g \<longleftrightarrow> g_flusher g \<noteq> Absent"

definition gateReplayBufMaxBytes :: int where
  "gateReplayBufMaxBytes = 100 * 1024 * 1024"

definition startFlusher :: "'c gate \<Rightarrow> 'c gate" where
  "startFlusher g = g\<lparr>g_flusher := Runnable, g_done := Some (g_doneMade g), g_doneMade := Suc (g_doneMade g)\<rparr>"

definition wakeFlusher :: "'c gate \<Rightarrow> 'c gate" where
  "wakeFlusher g = (if g_flusher g = Asleep then g\<lparr>g_flusher := Runnable\<rparr> else g)"

section \<open>Pause, resume, end\<close>

definition sa_Pause :: "'c gate \<Rightarrow> 'c gate" where
  "sa_Pause g =
     (if g_state g \<noteq> StreamStateActive then g
      else g\<lparr>g_state := StreamStatePaused, g_pausedAt := g_seq g\<rparr>)"

definition sa_Resume :: "'c gate \<Rightarrow> 'c gate" where
  "sa_Resume g =
     (if g_state g \<noteq> StreamStatePaused then g
      else wakeFlusher (g\<lparr>g_state := StreamStateActive\<rparr>))"

definition sa_End :: "bifrost_error option \<Rightarrow> 'c gate \<Rightarrow> 'c gate" where
  "sa_End err g =
     (if g_state g = StreamStateEnded then g
      else (let g1 = g\<lparr>g_state := StreamStateEnded,
                      g_endError := (case err of Some e \<Rightarrow> Some e | None \<Rightarrow> g_endError g)\<rparr>;
                g2 = (if \<not> flusherOn g1 \<and> g_target g1 \<and> (g_buf g1 \<noteq> [] \<or> g_endError g1 \<noteq> None)
                      then startFlusher g1 else g1)
            in wakeFlusher g2))"

section \<open>Sending a chunk through the gate\<close>

text \<open>\<open>Dropped\<close> and \<open>Kept\<close> are the returned false and true; \<open>Passing\<close> goes on to \<^verbatim>\<open>sendOrCancel\<close>
  without the lock.\<close>

datatype gate_verdict = Dropped | Kept | Passing

definition overflowError :: bifrost_error where
  "overflowError =
     \<lparr>be_Type = None, be_IsBifrostError = True, be_StatusCode = None,
      be_Error = Some \<lparr>ef_Type = Some ''paused_replay_buffer_overflow'', ef_Code = None,
                       ef_Message = ''paused stream replay buffer exceeded 104857600 bytes ''
                         @ [CHR 0xE2, CHR 0x80, CHR 0x94] @ '' ending stream'',
                       ef_Error = None\<rparr>,
      be_AllowFallbacks = None, be_ExtraFields = zeroExtraFields\<rparr>"

definition gate_buffer :: "('c \<Rightarrow> int) \<Rightarrow> 'c \<Rightarrow> 'c gate \<Rightarrow> 'c gate" where
  "gate_buffer chunkBytes c g = g\<lparr>g_buf := g_buf g @ [c], g_bytes := g_bytes g + chunkBytes c\<rparr>"

definition sa_GateSend ::
  "('c \<Rightarrow> int) \<Rightarrow> 'c \<Rightarrow> bool \<Rightarrow> bool \<Rightarrow> 'c gate \<Rightarrow> gate_verdict \<times> 'c gate" where
  "sa_GateSend chunkBytes c isFinal isHardErr g0 =
     (let g = g0\<lparr>g_seq := g_seq g0 + 1, g_target := True\<rparr>
      in case g_state g of
           StreamStateEnded \<Rightarrow> (Dropped, g)
         | StreamStatePaused \<Rightarrow>
             (if g_bytes g + chunkBytes c > gateReplayBufMaxBytes
              then (let g1 = g\<lparr>g_state := StreamStateEnded, g_endError := Some overflowError\<rparr>;
                        g2 = (if \<not> flusherOn g1 then startFlusher g1 else g1)
                    in (Dropped, wakeFlusher g2))
              else (let g1 = gate_buffer chunkBytes c g;
                        g2 = (if isFinal \<or> isHardErr then g1\<lparr>g_pendingTerminal := True\<rparr> else g1);
                        g3 = (if \<not> flusherOn g2 then startFlusher g2 else g2)
                    in (Kept, g3)))
         | StreamStateActive \<Rightarrow>
             (if isFinal \<or> isHardErr
              then (if flusherOn g \<or> g_buf g \<noteq> []
                    then (Kept, wakeFlusher ((gate_buffer chunkBytes c g)\<lparr>g_state := StreamStateEnded\<rparr>))
                    else (Passing, g\<lparr>g_state := StreamStateEnded\<rparr>))
              else if g_buf g \<noteq> [] then (Kept, wakeFlusher (gate_buffer chunkBytes c g))
              else (Passing, g)))"

section \<open>The accumulator's teardown\<close>

text \<open>\<^verbatim>\<open>cleanupStreamAccumulator\<close> on the gate; the chunk slices go back to their pools.\<close>

definition cleanupStreamAccumulator :: "bool \<Rightarrow> 'c gate \<Rightarrow> 'c gate" where
  "cleanupStreamAccumulator forceEndGate g =
     (if \<not> g_registered g then g
      else if \<not> forceEndGate \<and> (flusherOn g \<or> g_state g = StreamStatePaused) then g\<lparr>g_pendingCleanup := True\<rparr>
      else (let g1 = (if forceEndGate \<and> g_state g \<noteq> StreamStateEnded
                      then (wakeFlusher (g\<lparr>g_state := StreamStateEnded, g_pendingTerminal := False, g_endError := None\<rparr>))
                             \<lparr>g_buf := [], g_bytes := 0\<rparr>
                      else g)
            in g1\<lparr>g_registered := False\<rparr>))"

definition getOrCreateStreamAccumulator :: "'c gate \<Rightarrow> 'c gate" where
  "getOrCreateStreamAccumulator g =
     (if g_registered g then g else newGate\<lparr>g_doneMade := g_doneMade g, g_doneClosed := g_doneClosed g\<rparr>)"

definition CreateStreamAccumulator :: "'c gate \<Rightarrow> 'c gate" where
  "CreateStreamAccumulator g0 = (let g = getOrCreateStreamAccumulator g0 in g\<lparr>g_refCount := g_refCount g + 1\<rparr>)"

definition CleanupStreamAccumulator :: "'c gate \<Rightarrow> 'c gate" where
  "CleanupStreamAccumulator g =
     (if \<not> g_registered g then g
      else (let g1 = g\<lparr>g_refCount := g_refCount g - 1\<rparr>
            in if g_refCount g1 \<le> 0 then cleanupStreamAccumulator False g1 else g1))"

definition ForceCleanupStreamAccumulator :: "'c gate \<Rightarrow> 'c gate" where
  "ForceCleanupStreamAccumulator g = (if \<not> g_registered g then g else cleanupStreamAccumulator True g)"

section \<open>The flusher\<close>

text \<open>The deferred function of \<^verbatim>\<open>gateFlusher\<close>: the teardown that waited for it, and the close of the
  done channel.\<close>

definition flusherExit :: "'c gate \<Rightarrow> 'c gate" where
  "flusherExit g =
     (let g1 = g\<lparr>g_flusher := Absent, g_done := None\<rparr>;
          g2 = (if g_pendingCleanup g1 then cleanupStreamAccumulator False g1 else g1)
      in case g_done g of None \<Rightarrow> g2 | Some d \<Rightarrow> g2\<lparr>g_doneClosed := d # g_doneClosed g2\<rparr>)"

text \<open>From the return of \<^verbatim>\<open>drainBufferLocked\<close> to the next time the lock is released. When the gate is
  not ended the loop comes back to its wait condition, which holds then.\<close>

definition afterDrain :: "'c gate \<Rightarrow> 'c gate" where
  "afterDrain g =
     (let g1 = (if g_pendingTerminal g \<and> g_state g = StreamStateActive
                then g\<lparr>g_pendingTerminal := False, g_state := StreamStateEnded\<rparr> else g)
      in if g_state g1 = StreamStateEnded
         then (case g_endError g1 of
                 Some e \<Rightarrow> g1\<lparr>g_endError := None, g_flusher := SendingError e\<rparr>
               | None \<Rightarrow> flusherExit g1)
         else g1\<lparr>g_flusher := Asleep\<rparr>)"

text \<open>The loop of \<^verbatim>\<open>drainBufferLocked\<close> up to its next send or its end.\<close>

definition drainBufferLocked :: "('c \<Rightarrow> int) \<Rightarrow> 'c gate \<Rightarrow> 'c gate" where
  "drainBufferLocked chunkBytes g =
     (case g_buf g of
        c # rest \<Rightarrow>
          if g_state g \<noteq> StreamStatePaused
          then g\<lparr>g_buf := rest, g_bytes := max 0 (g_bytes g - chunkBytes c), g_flusher := Sending c\<rparr>
          else afterDrain g
      | [] \<Rightarrow> afterDrain (g\<lparr>g_bytes := 0\<rparr>))"

definition waitsForWork :: "'c gate \<Rightarrow> bool" where
  "waitsForWork g \<longleftrightarrow> g_state g \<noteq> StreamStateEnded \<and> (g_state g = StreamStatePaused \<or> g_buf g = [])"

definition abandonBuffer :: "'c gate \<Rightarrow> 'c gate" where
  "abandonBuffer g = afterDrain (g\<lparr>g_buf := [], g_bytes := 0, g_state := StreamStateEnded\<rparr>)"

text \<open>The flusher takes the lock and runs until it releases it.\<close>

definition flusherStep :: "('c \<Rightarrow> int) \<Rightarrow> 'c gate \<Rightarrow> 'c gate option" where
  "flusherStep chunkBytes g =
     (case g_flusher g of
        Runnable \<Rightarrow> Some (if waitsForWork g then g\<lparr>g_flusher := Asleep\<rparr> else drainBufferLocked chunkBytes g)
      | Sent ok \<Rightarrow> Some (if ok then drainBufferLocked chunkBytes g else abandonBuffer g)
      | ErrorSent \<Rightarrow> Some (flusherExit g)
      | _ \<Rightarrow> None)"

section \<open>The calls on the request context\<close>

definition streamTracer :: "bctx \<Rightarrow> bool" where
  "streamTracer c \<longleftrightarrow> Value c BifrostContextKeyTracer = VTracer \<and> GetStringFromContext c BifrostContextKeyTraceID \<noteq> []"

text \<open>\<^verbatim>\<open>PauseStream\<close>, \<^verbatim>\<open>ResumeStream\<close> and \<^verbatim>\<open>EndStream\<close> on the context: they mark the stream as gated and
  forward to the gate of its trace.\<close>

definition engageGate :: "('c gate \<Rightarrow> 'c gate) \<Rightarrow> bctx \<times> 'c gate \<Rightarrow> bctx \<times> 'c gate" where
  "engageGate f cg =
     (if \<not> streamTracer (fst cg) then cg
      else (setReservedValue BifrostContextKeyStreamGated (VBool True) (fst cg),
            f (getOrCreateStreamAccumulator (snd cg))))"

definition PauseStream :: "bctx \<times> 'c gate \<Rightarrow> bctx \<times> 'c gate" where
  "PauseStream = engageGate sa_Pause"

definition ResumeStream :: "bctx \<times> 'c gate \<Rightarrow> bctx \<times> 'c gate" where
  "ResumeStream = engageGate sa_Resume"

definition EndStream :: "bifrost_error option \<Rightarrow> bctx \<times> 'c gate \<Rightarrow> bctx \<times> 'c gate" where
  "EndStream err = engageGate (sa_End err)"

definition gateRegistered :: "(stream_state \<Rightarrow> bool) \<Rightarrow> bctx \<times> 'c gate \<Rightarrow> bool" where
  "gateRegistered p cg \<longleftrightarrow> streamTracer (fst cg) \<and> g_registered (snd cg) \<and> p (g_state (snd cg))"

definition IsStreamEnded :: "bctx \<times> 'c gate \<Rightarrow> bool" where
  "IsStreamEnded = gateRegistered (\<lambda>st. st = StreamStateEnded)"

definition IsStreamPaused :: "bctx \<times> 'c gate \<Rightarrow> bool" where
  "IsStreamPaused = gateRegistered (\<lambda>st. st = StreamStatePaused)"

section \<open>The producer\<close>

definition streamGated :: "bctx \<Rightarrow> bool" where
  "streamGated c \<longleftrightarrow> ctxBool c BifrostContextKeyStreamGated = Some True"

definition engaged :: "bctx \<Rightarrow> bool" where
  "engaged c \<longleftrightarrow> streamGated c \<and> streamTracer c"

text \<open>\<^verbatim>\<open>GateSendChunk\<close>: the send goes through the gate, or straight to \<^verbatim>\<open>sendOrCancel\<close>'s select.\<close>

definition GateSendChunk ::
  "('p chunk option \<Rightarrow> int) \<Rightarrow> 'p chunk option \<Rightarrow> bctx \<times> 'p chunk option gate \<Rightarrow> gate_verdict \<times> 'p chunk option gate" where
  "GateSendChunk chunkBytes c cg =
     (let isFinal = (ctxBool (fst cg) BifrostContextKeyStreamEndIndicator = Some True);
          isHardErr = (case c of None \<Rightarrow> False
                       | Some ch \<Rightarrow> (case ch_Error ch of None \<Rightarrow> False | Some e \<Rightarrow> be_IsBifrostError e))
      in if engaged (fst cg)
         then sa_GateSend chunkBytes c isFinal isHardErr (getOrCreateStreamAccumulator (snd cg))
         else (Passing, snd cg))"

text \<open>Where the goroutine of the provider is: between two sends, in a send without the lock, in
  \<^verbatim>\<open>CloseStream\<close> waiting for a flusher, done.\<close>

datatype 'c producing = Between | InSend 'c | AwaitFlusher "nat option" | ClosedStream

text \<open>What the consumer's channel received.\<close>

datatype 'c delivery = Chunk 'c | TerminalError bifrost_error

record 'p stream =
  sw_ctx :: bctx
  sw_gate :: "'p chunk option gate"
  sw_producer :: "'p chunk option producing"
  sw_out :: "'p chunk option delivery list"
  sw_sent :: "'p chunk option list"
  sw_accepted :: "'p chunk option list"

text \<open>\<open>sw_sent\<close> are the chunks handed to \<^verbatim>\<open>GateSendChunk\<close>, \<open>sw_accepted\<close> those it did not drop.\<close>

definition newStream :: "bctx \<Rightarrow> 'p stream" where
  "newStream c =
     \<lparr>sw_ctx = c, sw_gate = newGate, sw_producer = Between, sw_out = [], sw_sent = [], sw_accepted = []\<rparr>"

definition onPair ::
  "(bctx \<times> 'p chunk option gate \<Rightarrow> bctx \<times> 'p chunk option gate) \<Rightarrow> 'p stream \<Rightarrow> 'p stream" where
  "onPair f s = (case f (sw_ctx s, sw_gate s) of (c, g) \<Rightarrow> s\<lparr>sw_ctx := c, sw_gate := g\<rparr>)"

definition onGate :: "('p chunk option gate \<Rightarrow> 'p chunk option gate) \<Rightarrow> 'p stream \<Rightarrow> 'p stream" where
  "onGate f s = s\<lparr>sw_gate := f (sw_gate s)\<rparr>"

definition producerSend :: "('p chunk option \<Rightarrow> int) \<Rightarrow> 'p chunk option \<Rightarrow> 'p stream \<Rightarrow> 'p stream" where
  "producerSend chunkBytes c s =
     (case GateSendChunk chunkBytes c (sw_ctx s, sw_gate s) of (v, g) \<Rightarrow>
        s\<lparr>sw_gate := g, sw_sent := sw_sent s @ [c],
          sw_accepted := (if v = Dropped then sw_accepted s else sw_accepted s @ [c]),
          sw_producer := (if v = Passing then InSend c else Between)\<rparr>)"

text \<open>\<^verbatim>\<open>CloseStream\<close> up to its wait: an ungated stream has nothing to wait for. \<^verbatim>\<open>WaitForFlusher\<close> does
  not create an accumulator.\<close>

definition closeStart :: "'p stream \<Rightarrow> 'p stream" where
  "closeStart s =
     (if engaged (sw_ctx s)
      then (let g = sa_End None (getOrCreateStreamAccumulator (sw_gate s))
            in s\<lparr>sw_gate := g, sw_producer := AwaitFlusher (if g_registered g then g_done g else None)\<rparr>)
      else s\<lparr>sw_producer := AwaitFlusher None\<rparr>)"

section \<open>Events\<close>

datatype 'p stream_event =
    Pause
  | Resume
  | End "bifrost_error option"
  | Acquire
  | Release
  | Reap
  | LastChunk
  | SendChunk "'p chunk option"
  | SendDone bool
  | Flush
  | FlushDone bool
  | Close
  | CloseDone

text \<open>\<open>Acquire\<close>, \<open>Release\<close> and \<open>Reap\<close> are the calls that create the accumulator, release it and reap it by
  force; \<open>LastChunk\<close> sets the end indicator. A channel that is closed takes nothing any more: the
  send panics and is recovered. One accumulator at a time: a reaped one whose flusher still runs
  is followed to that flusher's end before another is created.\<close>

definition reusable :: "'c gate \<Rightarrow> bool" where
  "reusable g \<longleftrightarrow> g_registered g \<or> \<not> flusherOn g"

definition deliverable :: "'p stream \<Rightarrow> bool \<Rightarrow> bool" where
  "deliverable s ok \<longleftrightarrow> (ok \<longrightarrow> sw_producer s \<noteq> ClosedStream)"

definition flushDone :: "bool \<Rightarrow> 'p stream \<Rightarrow> 'p stream option" where
  "flushDone ok s =
     (if \<not> deliverable s ok then None
      else case g_flusher (sw_gate s) of
             Sending c \<Rightarrow> Some (s\<lparr>sw_gate := (sw_gate s)\<lparr>g_flusher := Sent ok\<rparr>,
                                sw_out := (if ok then sw_out s @ [Chunk c] else sw_out s)\<rparr>)
           | SendingError e \<Rightarrow> Some (s\<lparr>sw_gate := (sw_gate s)\<lparr>g_flusher := ErrorSent\<rparr>,
                                      sw_out := (if ok then sw_out s @ [TerminalError e] else sw_out s)\<rparr>)
           | _ \<Rightarrow> None)"

fun sexec :: "('p chunk option \<Rightarrow> int) \<Rightarrow> 'p stream_event \<Rightarrow> 'p stream \<Rightarrow> 'p stream option" where
  "sexec chunkBytes Pause s = (if reusable (sw_gate s) then Some (onPair PauseStream s) else None)"
| "sexec chunkBytes Resume s = (if reusable (sw_gate s) then Some (onPair ResumeStream s) else None)"
| "sexec chunkBytes (End err) s = (if reusable (sw_gate s) then Some (onPair (EndStream err) s) else None)"
| "sexec chunkBytes Acquire s = (if reusable (sw_gate s) then Some (onGate CreateStreamAccumulator s) else None)"
| "sexec chunkBytes Release s = Some (onGate CleanupStreamAccumulator s)"
| "sexec chunkBytes Reap s = Some (onGate ForceCleanupStreamAccumulator s)"
| "sexec chunkBytes LastChunk s =
     Some (s\<lparr>sw_ctx := SetValue BifrostContextKeyStreamEndIndicator (VBool True) (sw_ctx s)\<rparr>)"
| "sexec chunkBytes (SendChunk c) s =
     (if sw_producer s = Between \<and> reusable (sw_gate s) then Some (producerSend chunkBytes c s) else None)"
| "sexec chunkBytes (SendDone ok) s =
     (case sw_producer s of
        InSend c \<Rightarrow> Some (s\<lparr>sw_producer := Between, sw_out := (if ok then sw_out s @ [Chunk c] else sw_out s)\<rparr>)
      | _ \<Rightarrow> None)"
| "sexec chunkBytes Flush s =
     (case flusherStep chunkBytes (sw_gate s) of None \<Rightarrow> None | Some g \<Rightarrow> Some (s\<lparr>sw_gate := g\<rparr>))"
| "sexec chunkBytes (FlushDone ok) s = flushDone ok s"
| "sexec chunkBytes Close s =
     (if sw_producer s = Between \<and> reusable (sw_gate s) then Some (closeStart s) else None)"
| "sexec chunkBytes CloseDone s =
     (case sw_producer s of
        AwaitFlusher None \<Rightarrow> Some (s\<lparr>sw_producer := ClosedStream\<rparr>)
      | AwaitFlusher (Some d) \<Rightarrow>
          if d \<in> set (g_doneClosed (sw_gate s)) then Some (s\<lparr>sw_producer := ClosedStream\<rparr>) else None
      | _ \<Rightarrow> None)"

fun srun :: "('p chunk option \<Rightarrow> int) \<Rightarrow> 'p stream_event list \<Rightarrow> 'p stream \<Rightarrow> 'p stream option" where
  "srun chunkBytes [] s = Some s"
| "srun chunkBytes (e # es) s = (case sexec chunkBytes e s of None \<Rightarrow> None | Some s' \<Rightarrow> srun chunkBytes es s')"

section \<open>The state of the gate is consistent\<close>

text \<open>Buffered chunks have a flusher; a sleeping flusher has nothing to do, so no wake-up is lost; a
  flusher runs exactly while there is an open done channel; the counter is the sum of the sizes.\<close>

fun terminating :: "'c flusher \<Rightarrow> bool" where
  "terminating (SendingError e) = True"
| "terminating ErrorSent = True"
| "terminating _ = False"

definition doneOk :: "bool \<Rightarrow> nat option \<Rightarrow> nat \<Rightarrow> nat list \<Rightarrow> bool" where
  "doneOk on current made closed \<longleftrightarrow>
     (on \<longleftrightarrow> current \<noteq> None) \<and> (\<forall>d. current = Some d \<longrightarrow> d < made \<and> d \<notin> set closed) \<and> (\<forall>d \<in> set closed. d < made)"

definition gateShape :: "('c \<Rightarrow> int) \<Rightarrow> 'c gate \<Rightarrow> bool" where
  "gateShape chunkBytes g \<longleftrightarrow>
     (g_buf g \<noteq> [] \<longrightarrow> flusherOn g)
     \<and> (terminating (g_flusher g) \<longrightarrow> g_state g = StreamStateEnded \<and> g_buf g = [])
     \<and> doneOk (flusherOn g) (g_done g) (g_doneMade g) (g_doneClosed g)
     \<and> g_bytes g = sum_list (map chunkBytes (g_buf g))"

definition gateOk :: "('c \<Rightarrow> int) \<Rightarrow> 'c gate \<Rightarrow> bool" where
  "gateOk chunkBytes g \<longleftrightarrow> gateShape chunkBytes g \<and> (g_flusher g = Asleep \<longrightarrow> waitsForWork g)"

lemma doneOk_start: "doneOk False current made closed \<Longrightarrow> doneOk True (Some made) (Suc made) closed"
  by (auto simp: doneOk_def)

lemma doneOk_stop: "doneOk True (Some d) made closed \<Longrightarrow> doneOk False None made (d # closed)"
  by (auto simp: doneOk_def)

lemma doneOk_on: "doneOk True current made closed \<Longrightarrow> \<exists>d. current = Some d"
  by (auto simp: doneOk_def)

lemma doneOk_fresh: "doneOk on current made closed \<Longrightarrow> doneOk False None made closed"
  by (auto simp: doneOk_def)

lemma flusherOn_simps [simp]:
  "flusherOn (g\<lparr>g_state := st\<rparr>) = flusherOn g" "flusherOn (g\<lparr>g_buf := b\<rparr>) = flusherOn g"
  "flusherOn (g\<lparr>g_bytes := n\<rparr>) = flusherOn g" "flusherOn (g\<lparr>g_seq := m\<rparr>) = flusherOn g"
  "flusherOn (g\<lparr>g_target := t\<rparr>) = flusherOn g" "flusherOn (g\<lparr>g_endError := e\<rparr>) = flusherOn g"
  "flusherOn (g\<lparr>g_pendingTerminal := q\<rparr>) = flusherOn g" "flusherOn (g\<lparr>g_flusher := f\<rparr>) \<longleftrightarrow> f \<noteq> Absent"
  "flusherOn (g\<lparr>g_pausedAt := m\<rparr>) = flusherOn g" "flusherOn (g\<lparr>g_registered := r\<rparr>) = flusherOn g"
  "flusherOn (g\<lparr>g_pendingCleanup := r\<rparr>) = flusherOn g" "flusherOn (g\<lparr>g_refCount := m\<rparr>) = flusherOn g"
  "flusherOn (g\<lparr>g_done := d\<rparr>) = flusherOn g" "flusherOn (g\<lparr>g_doneClosed := ds\<rparr>) = flusherOn g"
  "flusherOn (g\<lparr>g_doneMade := n'\<rparr>) = flusherOn g"
  by (simp_all add: flusherOn_def)

lemma wakeFlusher_sel [simp]:
  "g_state (wakeFlusher g) = g_state g" "g_buf (wakeFlusher g) = g_buf g" "g_bytes (wakeFlusher g) = g_bytes g"
  "g_done (wakeFlusher g) = g_done g" "g_doneMade (wakeFlusher g) = g_doneMade g"
  "g_doneClosed (wakeFlusher g) = g_doneClosed g" "flusherOn (wakeFlusher g) = flusherOn g"
  "g_registered (wakeFlusher g) = g_registered g" "g_target (wakeFlusher g) = g_target g"
  "g_endError (wakeFlusher g) = g_endError g" "g_flusher (wakeFlusher g) \<noteq> Asleep"
  "terminating (g_flusher (wakeFlusher g)) = terminating (g_flusher g)"
  by (simp_all add: wakeFlusher_def flusherOn_def)

lemma startFlusher_sel [simp]:
  "g_state (startFlusher g) = g_state g" "g_buf (startFlusher g) = g_buf g" "g_bytes (startFlusher g) = g_bytes g"
  "g_registered (startFlusher g) = g_registered g" "g_target (startFlusher g) = g_target g"
  "g_endError (startFlusher g) = g_endError g" "g_flusher (startFlusher g) = Runnable" "flusherOn (startFlusher g)"
  "g_done (startFlusher g) = Some (g_doneMade g)" "g_doneMade (startFlusher g) = Suc (g_doneMade g)"
  "g_doneClosed (startFlusher g) = g_doneClosed g"
  by (simp_all add: startFlusher_def flusherOn_def)

lemma gate_buffer_sel [simp]:
  "g_state (gate_buffer chunkBytes c g) = g_state g" "g_buf (gate_buffer chunkBytes c g) = g_buf g @ [c]"
  "g_bytes (gate_buffer chunkBytes c g) = g_bytes g + chunkBytes c" "g_flusher (gate_buffer chunkBytes c g) = g_flusher g"
  "g_done (gate_buffer chunkBytes c g) = g_done g" "g_doneMade (gate_buffer chunkBytes c g) = g_doneMade g"
  "g_doneClosed (gate_buffer chunkBytes c g) = g_doneClosed g"
  "flusherOn (gate_buffer chunkBytes c g) = flusherOn g" "g_registered (gate_buffer chunkBytes c g) = g_registered g"
  by (simp_all add: gate_buffer_def flusherOn_def)

lemma asleep_on [dest]: "g_flusher g = Asleep \<Longrightarrow> flusherOn g"
  by (simp add: flusherOn_def)

lemma gateOk_wake: "gateShape chunkBytes g \<Longrightarrow> gateOk chunkBytes (wakeFlusher g)"
  by (auto simp: gateOk_def gateShape_def)

lemma gateOk_start:
  assumes "\<not> flusherOn g" "doneOk (flusherOn g) (g_done g) (g_doneMade g) (g_doneClosed g)"
    and "g_bytes g = sum_list (map chunkBytes (g_buf g))"
  shows "gateOk chunkBytes (startFlusher g)"
  using assms by (auto simp: gateOk_def gateShape_def intro: doneOk_start)

lemma gateOk_shape: "gateOk chunkBytes g \<Longrightarrow> gateShape chunkBytes g"
  by (simp add: gateOk_def)

lemma gateOk_newGate [simp]: "gateOk chunkBytes newGate"
  by (simp add: gateOk_def gateShape_def newGate_def flusherOn_def doneOk_def)

lemma gateOk_fresh: "gateOk chunkBytes g \<Longrightarrow> gateOk chunkBytes (getOrCreateStreamAccumulator g)"
  by (auto simp: gateOk_def gateShape_def getOrCreateStreamAccumulator_def newGate_def flusherOn_def intro: doneOk_fresh)

lemma gateOk_Pause: "gateOk chunkBytes g \<Longrightarrow> gateOk chunkBytes (sa_Pause g)"
  by (auto simp: gateOk_def gateShape_def sa_Pause_def waitsForWork_def)

lemma gateOk_Resume: "gateOk chunkBytes g \<Longrightarrow> gateOk chunkBytes (sa_Resume g)"
  by (auto simp: sa_Resume_def gateOk_def gateShape_def)

lemma gateOk_End: "gateOk chunkBytes g \<Longrightarrow> gateOk chunkBytes (sa_End err g)"
  by (auto simp: sa_End_def gateOk_def gateShape_def Let_def doneOk_start)

lemma gateOk_cleanup: "gateOk chunkBytes g \<Longrightarrow> gateOk chunkBytes (cleanupStreamAccumulator force g)"
  by (auto simp: cleanupStreamAccumulator_def gateOk_def gateShape_def Let_def waitsForWork_def)

lemma gateOk_refCount [simp]: "gateOk chunkBytes (g\<lparr>g_refCount := n\<rparr>) = gateOk chunkBytes g"
  by (simp add: gateOk_def gateShape_def waitsForWork_def)

lemma gateOk_send:
  assumes "gateOk chunkBytes g" "sa_GateSend chunkBytes c isFinal isHardErr g = (v, g')"
  shows "gateOk chunkBytes g'"
proof (cases "g_state g")
  case StreamStateActive
  with assms show ?thesis
    by (auto simp: gateOk_def gateShape_def sa_GateSend_def Let_def waitsForWork_def split: if_splits)
next
  case StreamStatePaused
  with assms show ?thesis
    by (auto simp: gateOk_def gateShape_def sa_GateSend_def Let_def waitsForWork_def doneOk_start split: if_splits)
next
  case StreamStateEnded
  with assms show ?thesis
    by (auto simp: gateOk_def gateShape_def sa_GateSend_def Let_def waitsForWork_def)
qed

lemma gateOk_exit:
  assumes "gateShape chunkBytes g" "g_buf g = []" "flusherOn g"
  shows "gateOk chunkBytes (flusherExit g)"
proof -
  obtain d where d: "g_done g = Some d" using assms doneOk_on [of "g_done g"] by (auto simp: gateShape_def)
  with assms show ?thesis
    by (auto simp: gateOk_def gateShape_def flusherExit_def cleanupStreamAccumulator_def Let_def doneOk_stop)
qed

lemma gateOk_afterDrain:
  assumes "gateShape chunkBytes g" "flusherOn g" "\<not> terminating (g_flusher g)"
    and "g_buf g = [] \<or> g_state g = StreamStatePaused"
  shows "gateOk chunkBytes (afterDrain g)"
proof -
  let ?g1 = "if g_pendingTerminal g \<and> g_state g = StreamStateActive
             then g\<lparr>g_pendingTerminal := False, g_state := StreamStateEnded\<rparr> else g"
  have shape: "gateShape chunkBytes ?g1" "flusherOn ?g1" using assms by (auto simp: gateShape_def)
  show ?thesis
  proof (cases "g_state ?g1 = StreamStateEnded")
    case True
    then have "g_buf ?g1 = []" using assms(4) by (auto split: if_splits)
    then show ?thesis using True shape gateOk_exit [of chunkBytes ?g1]
      by (auto simp: afterDrain_def Let_def gateOk_def gateShape_def split: option.splits)
  next
    case False
    then show ?thesis using shape assms(4)
      by (auto simp: afterDrain_def Let_def gateOk_def gateShape_def waitsForWork_def)
  qed
qed

lemma gateOk_drain:
  assumes "gateShape chunkBytes g" "flusherOn g" "\<not> terminating (g_flusher g)" "\<And>c. chunkBytes c \<ge> 0"
  shows "gateOk chunkBytes (drainBufferLocked chunkBytes g)"
proof (cases "g_buf g")
  case Nil
  then show ?thesis using assms gateOk_afterDrain [of chunkBytes "g\<lparr>g_bytes := 0\<rparr>"]
    by (simp add: drainBufferLocked_def gateShape_def)
next
  case (Cons c rest)
  have "sum_list (map chunkBytes rest) \<ge> 0" by (rule sum_list_nonneg) (use assms(4) in auto)
  with Cons show ?thesis using assms gateOk_afterDrain [of chunkBytes g]
    by (auto simp: drainBufferLocked_def gateOk_def gateShape_def)
qed

lemma gateOk_flusherStep:
  assumes "gateOk chunkBytes g" "flusherStep chunkBytes g = Some g'" "\<And>c. chunkBytes c \<ge> 0"
  shows "gateOk chunkBytes g'"
proof -
  have shape: "gateShape chunkBytes g" using assms(1) by (rule gateOk_shape)
  have drain: "gateOk chunkBytes (drainBufferLocked chunkBytes g)" if "flusherOn g" "\<not> terminating (g_flusher g)"
    using gateOk_drain [OF shape that assms(3)] .
  show ?thesis
  proof (cases "g_flusher g")
    case Runnable
    have "gateOk chunkBytes (g\<lparr>g_flusher := Asleep\<rparr>)" if "waitsForWork g"
      using shape that Runnable by (simp add: gateOk_def gateShape_def waitsForWork_def flusherOn_def)
    then show ?thesis using Runnable assms(2) drain by (auto simp: flusherStep_def flusherOn_def split: if_splits)
  next
    case (Sent ok)
    have "gateOk chunkBytes (abandonBuffer g)"
      unfolding abandonBuffer_def
      by (rule gateOk_afterDrain) (use shape Sent in \<open>simp_all add: gateShape_def flusherOn_def\<close>)
    then show ?thesis using Sent assms(2) drain by (auto simp: flusherStep_def flusherOn_def split: if_splits)
  next
    case ErrorSent
    then show ?thesis using assms(2) shape gateOk_exit [of chunkBytes g]
      by (simp add: flusherStep_def gateShape_def flusherOn_def)
  qed (use assms(2) in \<open>simp_all add: flusherStep_def\<close>)
qed

lemma gateOk_refs:
  assumes "gateOk chunkBytes g"
  shows "gateOk chunkBytes (CreateStreamAccumulator g)" "gateOk chunkBytes (CleanupStreamAccumulator g)"
    "gateOk chunkBytes (ForceCleanupStreamAccumulator g)"
  using assms gateOk_fresh [OF assms]
  by (simp_all add: CreateStreamAccumulator_def CleanupStreamAccumulator_def ForceCleanupStreamAccumulator_def
      gateOk_cleanup Let_def)

section \<open>Every step of a stream keeps its gate consistent\<close>

lemma onPair_sel:
  "sw_gate (onPair (engageGate f) s) =
     (if streamTracer (sw_ctx s) then f (getOrCreateStreamAccumulator (sw_gate s)) else sw_gate s)"
  "sw_ctx (onPair (engageGate f) s) =
     (if streamTracer (sw_ctx s) then setReservedValue BifrostContextKeyStreamGated (VBool True) (sw_ctx s) else sw_ctx s)"
  "sw_producer (onPair (engageGate f) s) = sw_producer s"
  "sw_out (onPair (engageGate f) s) = sw_out s" "sw_sent (onPair (engageGate f) s) = sw_sent s"
  "sw_accepted (onPair (engageGate f) s) = sw_accepted s"
  by (simp_all add: onPair_def engageGate_def)

lemmas stream_calls = PauseStream_def ResumeStream_def EndStream_def

lemma gateOk_flushDone:
  assumes "gateOk chunkBytes (sw_gate s)" "flushDone ok s = Some s'"
  shows "gateOk chunkBytes (sw_gate s')"
  using assms
  by (auto simp: flushDone_def gateOk_def gateShape_def flusherOn_def split: flusher.splits if_splits)

lemma gateOk_producerSend:
  assumes "gateOk chunkBytes (sw_gate s)"
  shows "gateOk chunkBytes (sw_gate (producerSend chunkBytes c s))"
  using assms gateOk_send [OF gateOk_fresh [OF assms]]
  by (auto simp: producerSend_def GateSendChunk_def Let_def split: prod.splits if_splits)

lemma gateOk_sexec:
  assumes "sexec chunkBytes e s = Some s'" "gateOk chunkBytes (sw_gate s)" "\<And>c. chunkBytes c \<ge> 0"
  shows "gateOk chunkBytes (sw_gate s')"
proof (cases e)
  case (SendChunk c)
  then show ?thesis using assms gateOk_producerSend by (auto split: if_splits)
next
  case Flush
  then show ?thesis using assms gateOk_flusherStep by (fastforce split: option.splits)
next
  case (FlushDone ok)
  then show ?thesis using assms gateOk_flushDone by simp
qed (use assms in \<open>auto simp: stream_calls onPair_sel onGate_def closeStart_def Let_def gateOk_Pause gateOk_Resume
       gateOk_End gateOk_fresh gateOk_refs split: if_splits producing.splits option.splits\<close>)

lemma srun_induct_inv:
  assumes "srun chunkBytes es s = Some s'" "P s"
    and step: "\<And>e t t'. \<lbrakk>sexec chunkBytes e t = Some t'; P t\<rbrakk> \<Longrightarrow> P t'"
  shows "P s'"
  using assms(1,2)
proof (induction es arbitrary: s)
  case (Cons e es)
  then obtain t where "sexec chunkBytes e s = Some t" "srun chunkBytes es t = Some s'" by (auto split: option.splits)
  with Cons step show ?case by blast
qed simp

lemma gateOk_srun:
  assumes "srun chunkBytes es (newStream c) = Some s" "\<And>c. chunkBytes c \<ge> 0"
  shows "gateOk chunkBytes (sw_gate s)"
  using assms(1)
  by (rule srun_induct_inv) (auto simp: newStream_def dest: gateOk_sexec [OF _ _ assms(2)])

section \<open>Where the chunks are\<close>

fun flushing :: "'c flusher \<Rightarrow> 'c list" where
  "flushing (Sending c) = [c]"
| "flushing _ = []"

fun sending :: "'c producing \<Rightarrow> 'c list" where
  "sending (InSend c) = [c]"
| "sending _ = []"

definition delivered :: "'p stream \<Rightarrow> 'p chunk option list" where
  "delivered s = concat (map (\<lambda>d. case d of Chunk c \<Rightarrow> [c] | TerminalError _ \<Rightarrow> []) (sw_out s))"

definition gateLoad :: "'c gate \<Rightarrow> 'c list" where
  "gateLoad g = flushing (g_flusher g) @ g_buf g"

definition chunks :: "'p stream \<Rightarrow> 'p chunk option list" where
  "chunks s = delivered s @ flushing (g_flusher (sw_gate s)) @ sending (sw_producer s) @ g_buf (sw_gate s)"

text \<open>Steps that lose chunks: a send that found its context done or its channel closed, and the
  forced reaping of the accumulator. A step overtakes when a send past the gate completes while
  the flusher is in the middle of its own.\<close>

fun lossy :: "'p stream_event \<Rightarrow> bool" where
  "lossy (SendDone ok) = (\<not> ok)"
| "lossy (FlushDone ok) = (\<not> ok)"
| "lossy Reap = True"
| "lossy _ = False"

fun overtakes :: "'p stream_event \<Rightarrow> 'p stream \<Rightarrow> bool" where
  "overtakes (SendDone ok) s = (flushing (g_flusher (sw_gate s)) \<noteq> [])"
| "overtakes _ s = False"

fun undisturbed :: "('p chunk option \<Rightarrow> int) \<Rightarrow> 'p stream_event list \<Rightarrow> 'p stream \<Rightarrow> bool" where
  "undisturbed chunkBytes [] s = True"
| "undisturbed chunkBytes (e # es) s =
     (\<not> overtakes e s \<and> (case sexec chunkBytes e s of None \<Rightarrow> True | Some s' \<Rightarrow> undisturbed chunkBytes es s'))"

lemma load_wake [simp]: "flushing (g_flusher (wakeFlusher g)) = flushing (g_flusher g)"
  by (simp add: wakeFlusher_def)

lemma absent_flushing: "\<not> flusherOn g \<Longrightarrow> flushing (g_flusher g) = []"
  by (simp add: flusherOn_def)

lemma load_Pause [simp]: "flushing (g_flusher (sa_Pause g)) = flushing (g_flusher g)" "g_buf (sa_Pause g) = g_buf g"
  by (simp_all add: sa_Pause_def)

lemma load_Resume [simp]: "flushing (g_flusher (sa_Resume g)) = flushing (g_flusher g)" "g_buf (sa_Resume g) = g_buf g"
  by (simp_all add: sa_Resume_def)

lemma load_End [simp]: "flushing (g_flusher (sa_End err g)) = flushing (g_flusher g)" "g_buf (sa_End err g) = g_buf g"
  by (auto simp: sa_End_def Let_def absent_flushing)

lemma load_fresh:
  assumes "gateOk chunkBytes g" "reusable g"
  shows "flushing (g_flusher (getOrCreateStreamAccumulator g)) = flushing (g_flusher g)"
    "g_buf (getOrCreateStreamAccumulator g) = g_buf g"
  using assms absent_flushing [of g]
  by (auto simp: getOrCreateStreamAccumulator_def reusable_def newGate_def gateOk_def gateShape_def)

lemma load_cleanup:
  "flushing (g_flusher (cleanupStreamAccumulator force g)) = flushing (g_flusher g)"
  "g_buf (cleanupStreamAccumulator False g) = g_buf g"
  "g_buf (cleanupStreamAccumulator True g) = g_buf g \<or> g_buf (cleanupStreamAccumulator True g) = []"
  by (auto simp: cleanupStreamAccumulator_def Let_def)

lemma load_exit:
  "flushing (g_flusher (flusherExit g)) = []" "g_buf (flusherExit g) = g_buf g"
  by (auto simp: flusherExit_def Let_def load_cleanup split: option.splits)

lemma load_afterDrain:
  "flushing (g_flusher (afterDrain g)) = []" "g_buf (afterDrain g) = g_buf g"
  by (auto simp: afterDrain_def Let_def load_exit split: option.splits)

lemma load_drain: "flushing (g_flusher g) = [] \<Longrightarrow> gateLoad (drainBufferLocked chunkBytes g) = g_buf g"
  by (auto simp: gateLoad_def drainBufferLocked_def load_afterDrain split: list.splits)

lemma load_flusherStep:
  assumes "flusherStep chunkBytes g = Some g'"
  shows "flushing (g_flusher g) = []"
    "gateLoad g' = (if g_flusher g = Sent False then [] else g_buf g)"
  using assms load_drain [of g]
  by (auto simp: flusherStep_def gateLoad_def load_exit abandonBuffer_def load_afterDrain
      split: flusher.splits if_splits)

lemma load_send:
  assumes "sa_GateSend chunkBytes c isFinal isHardErr g = (v, g')"
  shows "flushing (g_flusher g') = flushing (g_flusher g)"
    "g_buf g' = (if v = Kept then g_buf g @ [c] else g_buf g)" "v = Passing \<longrightarrow> g_buf g = []"
  using assms
  by (auto simp: sa_GateSend_def Let_def absent_flushing split: stream_state.splits if_splits)

lemma delivered_snoc [simp]:
  "delivered (s\<lparr>sw_out := sw_out s @ [Chunk c]\<rparr>) = delivered s @ [c]"
  "delivered (s\<lparr>sw_out := sw_out s @ [TerminalError err]\<rparr>) = delivered s"
  by (simp_all add: delivered_def)

lemma delivered_cong: "sw_out s' = sw_out s \<Longrightarrow> delivered s' = delivered s"
  by (simp add: delivered_def)

text \<open>The gate of a stream that no plugin engaged is untouched, and a chunk is sent past the gate only
  while nothing is buffered.\<close>

definition ungatedOk :: "'p stream \<Rightarrow> bool" where
  "ungatedOk s \<longleftrightarrow> engaged (sw_ctx s)
     \<or> (g_buf (sw_gate s) = [] \<and> \<not> flusherOn (sw_gate s) \<and> \<not> g_target (sw_gate s))"

definition directOk :: "'p stream \<Rightarrow> bool" where
  "directOk s \<longleftrightarrow> sending (sw_producer s) = [] \<or> g_buf (sw_gate s) = []"

definition streamOk :: "('p chunk option \<Rightarrow> int) \<Rightarrow> 'p stream \<Rightarrow> bool" where
  "streamOk chunkBytes s \<longleftrightarrow> gateOk chunkBytes (sw_gate s) \<and> ungatedOk s \<and> directOk s"

lemma engaged_setReserved:
  "streamTracer c \<Longrightarrow> engaged (setReservedValue BifrostContextKeyStreamGated (VBool True) c)"
  by (simp add: engaged_def streamGated_def streamTracer_def ctxBool_def Value_setReserved GetStringFromContext_def
      ctxString_def)

lemma engaged_LastChunk: "engaged (SetValue BifrostContextKeyStreamEndIndicator (VBool True) c) = engaged c"
  by (simp add: engaged_def streamGated_def streamTracer_def ctxBool_def Value_SetValue GetStringFromContext_def
      ctxString_def)

lemma cleanup_idle [simp]:
  "flusherOn (cleanupStreamAccumulator force g) = flusherOn g"
  "g_buf g = [] \<Longrightarrow> g_buf (cleanupStreamAccumulator force g) = []"
  "g_target (cleanupStreamAccumulator force g) = g_target g"
  by (simp_all add: cleanupStreamAccumulator_def Let_def)

definition untouched :: "'c gate \<Rightarrow> bool" where
  "untouched g \<longleftrightarrow> g_buf g = [] \<and> \<not> flusherOn g \<and> \<not> g_target g"

lemma newGate_idle [simp]: "\<not> flusherOn newGate" "g_buf newGate = []" "\<not> g_target newGate"
  by (simp_all add: newGate_def flusherOn_def)

lemma refs_untouched:
  assumes "untouched g"
  shows "untouched (CreateStreamAccumulator g)" "untouched (CleanupStreamAccumulator g)"
    "untouched (ForceCleanupStreamAccumulator g)"
  using assms
  by (simp_all add: untouched_def CreateStreamAccumulator_def CleanupStreamAccumulator_def
      ForceCleanupStreamAccumulator_def getOrCreateStreamAccumulator_def Let_def)

lemma refs_empty:
  assumes "g_buf g = []"
  shows "g_buf (CreateStreamAccumulator g) = []" "g_buf (CleanupStreamAccumulator g) = []"
    "g_buf (ForceCleanupStreamAccumulator g) = []"
  using assms
  by (simp_all add: CreateStreamAccumulator_def CleanupStreamAccumulator_def
      ForceCleanupStreamAccumulator_def getOrCreateStreamAccumulator_def Let_def newGate_def)

lemma GateSendChunk_cases:
  assumes "GateSendChunk chunkBytes c (ctx, g) = (v, g')"
  obtains isFinal isHardErr where "engaged ctx"
    "sa_GateSend chunkBytes c isFinal isHardErr (getOrCreateStreamAccumulator g) = (v, g')"
  | "\<not> engaged ctx" "v = Passing" "g' = g"
  using assms by (auto simp: GateSendChunk_def Let_def split: if_splits)

lemma GateSendChunk_buf:
  assumes "GateSendChunk chunkBytes c (ctx, g) = (v, g')" "gateOk chunkBytes g" "reusable g"
    and "engaged ctx \<or> g_buf g = []"
  shows "flushing (g_flusher g') = flushing (g_flusher g)"
    "g_buf g' = (if v = Kept then g_buf g @ [c] else g_buf g)" "v = Passing \<Longrightarrow> g_buf g = []"
proof -
  have "flushing (g_flusher g') = flushing (g_flusher g) \<and> g_buf g' = (if v = Kept then g_buf g @ [c] else g_buf g)
      \<and> (v = Passing \<longrightarrow> g_buf g = [])"
    using assms(1)
  proof (cases rule: GateSendChunk_cases)
    case (1 isFinal isHardErr)
    from load_send [OF 1(2)] show ?thesis by (simp add: load_fresh [OF assms(2,3)])
  qed (use assms in auto)
  then show "flushing (g_flusher g') = flushing (g_flusher g)"
    "g_buf g' = (if v = Kept then g_buf g @ [c] else g_buf g)" "v = Passing \<Longrightarrow> g_buf g = []" by blast+
qed

lemma ungatedOk_sexec:
  assumes "sexec chunkBytes e s = Some s'" "ungatedOk s"
  shows "ungatedOk s'"
proof (cases "engaged (sw_ctx s)")
  case True
  then have "streamTracer (sw_ctx s)" by (simp add: engaged_def)
  with True assms(1) have "engaged (sw_ctx s')"
    by (cases e) (auto simp: stream_calls onPair_sel onGate_def engaged_setReserved engaged_LastChunk producerSend_def
        closeStart_def flushDone_def Let_def
        split: if_splits producing.splits option.splits prod.splits flusher.splits)
  then show ?thesis by (simp add: ungatedOk_def)
next
  case False
  with assms(2) have "untouched (sw_gate s)" by (simp add: ungatedOk_def untouched_def)
  moreover from this have "g_flusher (sw_gate s) = Absent" by (simp add: untouched_def flusherOn_def)
  ultimately have "engaged (sw_ctx s') \<or> untouched (sw_gate s')" using assms(1) False
    by (cases e) (auto simp: stream_calls onPair_sel onGate_def engaged_setReserved engaged_LastChunk refs_untouched
        producerSend_def closeStart_def flushDone_def Let_def flusherStep_def GateSendChunk_def
        split: if_splits producing.splits option.splits prod.splits)
  then show ?thesis by (auto simp: ungatedOk_def untouched_def)
qed

lemma directOk_sexec:
  assumes "sexec chunkBytes e s = Some s'" "streamOk chunkBytes s"
  shows "directOk s'"
proof (cases e)
  case (SendChunk c)
  obtain v g where r: "GateSendChunk chunkBytes c (sw_ctx s, sw_gate s) = (v, g)" by fastforce
  from assms SendChunk have "reusable (sw_gate s)" "gateOk chunkBytes (sw_gate s)"
    "engaged (sw_ctx s) \<or> g_buf (sw_gate s) = []"
    by (auto simp: streamOk_def ungatedOk_def split: if_splits)
  from GateSendChunk_buf(2,3) [OF r this(2,1,3)] assms(1) show ?thesis
    by (auto simp: SendChunk producerSend_def directOk_def r split: if_splits)
next
  case Flush
  then obtain g where g: "flusherStep chunkBytes (sw_gate s) = Some g" "s' = s\<lparr>sw_gate := g\<rparr>"
    using assms by (auto split: option.splits)
  have "g_buf g = []" if "g_buf (sw_gate s) = []" using load_flusherStep(2) [OF g(1)] that
    by (auto simp: gateLoad_def split: if_splits)
  then show ?thesis using assms(2) g by (auto simp: directOk_def streamOk_def)
next
  case (FlushDone ok)
  then show ?thesis using assms by (auto simp: directOk_def streamOk_def flushDone_def split: flusher.splits if_splits)
next
  case Close
  then show ?thesis using assms(1) by (auto simp: directOk_def closeStart_def Let_def split: if_splits)
next
  case CloseDone
  then show ?thesis using assms(1) by (auto simp: directOk_def split: producing.splits option.splits if_splits)
next
  case (SendDone ok)
  then show ?thesis using assms(1) by (auto simp: directOk_def split: producing.splits)
next
  case Acquire
  then show ?thesis using assms refs_empty [of "sw_gate s"] by (auto simp: directOk_def streamOk_def onGate_def split: if_splits)
next
  case Release
  then show ?thesis using assms refs_empty [of "sw_gate s"] by (auto simp: directOk_def streamOk_def onGate_def)
next
  case Reap
  then show ?thesis using assms refs_empty [of "sw_gate s"] by (auto simp: directOk_def streamOk_def onGate_def)
next
  case LastChunk
  then show ?thesis using assms by (auto simp: directOk_def streamOk_def)
qed (use assms load_fresh [of chunkBytes "sw_gate s"] in
     \<open>auto simp: directOk_def streamOk_def stream_calls onPair_sel split: if_splits\<close>)

lemma streamOk_sexec:
  assumes "sexec chunkBytes e s = Some s'" "streamOk chunkBytes s" "\<And>c. chunkBytes c \<ge> 0"
  shows "streamOk chunkBytes s'"
  using assms gateOk_sexec [OF assms(1)] ungatedOk_sexec [OF assms(1)] directOk_sexec [OF assms(1)]
  by (auto simp: streamOk_def)

lemma streamOk_new [simp]: "streamOk chunkBytes (newStream c)"
  by (simp add: streamOk_def newStream_def ungatedOk_def directOk_def newGate_def flusherOn_def gateOk_def
      gateShape_def doneOk_def)

section \<open>Chunks flow in order\<close>

lemma chunks_SendChunk:
  assumes "sexec chunkBytes (SendChunk c) s = Some s'" "streamOk chunkBytes s"
  shows "\<exists>new. chunks s' = chunks s @ new \<and> sw_accepted s' = sw_accepted s @ new"
proof -
  obtain v g where r: "GateSendChunk chunkBytes c (sw_ctx s, sw_gate s) = (v, g)" by fastforce
  from assms have b: "sw_producer s = Between" "reusable (sw_gate s)" "gateOk chunkBytes (sw_gate s)"
    "engaged (sw_ctx s) \<or> g_buf (sw_gate s) = []"
    by (auto simp: streamOk_def ungatedOk_def split: if_splits)
  from assms(1) have s': "s' = producerSend chunkBytes c s" by (simp split: if_splits)
  have "delivered s' = delivered s" by (simp add: s' producerSend_def r delivered_def)
  with GateSendChunk_buf [OF r b(3,2,4)] show ?thesis
    by (cases v) (auto simp: s' producerSend_def r chunks_def b)
qed

lemma chunks_Flush:
  assumes "sexec chunkBytes Flush s = Some s'" "streamOk chunkBytes s"
  shows "subseq (chunks s') (chunks s) \<and> (g_flusher (sw_gate s) \<noteq> Sent False \<longrightarrow> chunks s' = chunks s)
    \<and> sw_accepted s' = sw_accepted s"
proof -
  obtain g where g: "flusherStep chunkBytes (sw_gate s) = Some g" "s' = s\<lparr>sw_gate := g\<rparr>"
    using assms by (auto split: option.splits)
  have "delivered s' = delivered s" by (simp add: g delivered_def)
  moreover have "sending (sw_producer s) = [] \<or> g_buf (sw_gate s) = []"
    using assms(2) by (simp add: streamOk_def directOk_def)
  ultimately show ?thesis using load_flusherStep [OF g(1)]
    by (auto simp: g(2) chunks_def gateLoad_def split: if_splits)
qed

lemma chunks_same:
  assumes "sw_out s' = sw_out s" "sending (sw_producer s') = sending (sw_producer s)"
    and "flushing (g_flusher (sw_gate s')) = flushing (g_flusher (sw_gate s))" "g_buf (sw_gate s') = g_buf (sw_gate s)"
  shows "chunks s' = chunks s"
  using assms by (simp add: chunks_def delivered_def)

lemma subseq_cleanup: "subseq (g_buf (cleanupStreamAccumulator True g)) (g_buf g)"
  using load_cleanup(3) [of g] by auto

lemma refs_load:
  assumes "gateOk chunkBytes g"
  shows "reusable g \<Longrightarrow> flushing (g_flusher (CreateStreamAccumulator g)) = flushing (g_flusher g)"
    "reusable g \<Longrightarrow> g_buf (CreateStreamAccumulator g) = g_buf g"
    "flushing (g_flusher (CleanupStreamAccumulator g)) = flushing (g_flusher g)"
    "g_buf (CleanupStreamAccumulator g) = g_buf g"
    "flushing (g_flusher (ForceCleanupStreamAccumulator g)) = flushing (g_flusher g)"
    "subseq (g_buf (ForceCleanupStreamAccumulator g)) (g_buf g)"
  using load_fresh [OF assms] subseq_cleanup [of g]
  by (auto simp: CreateStreamAccumulator_def CleanupStreamAccumulator_def ForceCleanupStreamAccumulator_def Let_def
      load_cleanup)

fun moves :: "'p stream_event \<Rightarrow> bool" where
  "moves (SendChunk c) = True"
| "moves (SendDone ok) = True"
| "moves Flush = True"
| "moves (FlushDone ok) = True"
| "moves Reap = True"
| "moves _ = False"

lemma chunks_still:
  assumes "sexec chunkBytes e s = Some s'" "streamOk chunkBytes s" "\<not> moves e"
  shows "chunks s' = chunks s \<and> sw_accepted s' = sw_accepted s"
proof -
  have ok: "gateOk chunkBytes (sw_gate s)" using assms(2) by (simp add: streamOk_def)
  show ?thesis using assms(1,3) load_fresh [OF ok] refs_load [OF ok]
    by (cases e) (auto intro!: chunks_same simp: stream_calls onPair_sel onGate_def closeStart_def Let_def
        split: if_splits producing.splits option.splits)
qed

lemma chunks_SendDone:
  assumes "sexec chunkBytes (SendDone ok) s = Some s'" "streamOk chunkBytes s"
  shows "\<exists>c. chunks s = delivered s @ flushing (g_flusher (sw_gate s)) @ [c]
    \<and> chunks s' = delivered s @ (if ok then [c] else []) @ flushing (g_flusher (sw_gate s))
    \<and> sw_accepted s' = sw_accepted s"
  using assms
  by (auto simp: streamOk_def directOk_def chunks_def delivered_def split: producing.splits)

lemma chunks_FlushDone:
  assumes "sexec chunkBytes (FlushDone ok) s = Some s'"
  shows "subseq (chunks s') (chunks s) \<and> (ok \<longrightarrow> chunks s' = chunks s) \<and> sw_accepted s' = sw_accepted s"
  using assms
  by (auto simp: flushDone_def chunks_def delivered_def subseq_append' split: flusher.splits if_splits)

lemma chunks_Reap:
  assumes "sexec chunkBytes Reap s = Some s'" "streamOk chunkBytes s"
  shows "subseq (chunks s') (chunks s) \<and> sw_accepted s' = sw_accepted s"
  using assms refs_load(5,6) [of chunkBytes "sw_gate s"]
  by (auto simp: streamOk_def chunks_def delivered_def onGate_def subseq_append')

text \<open>A step that neither loses nor overtakes appends what it accepts; one that loses leaves a
  subsequence; one that overtakes permutes.\<close>

definition unfailed :: "'p stream \<Rightarrow> bool" where
  "unfailed s \<longleftrightarrow> g_flusher (sw_gate s) \<noteq> Sent False"

lemma flow_step:
  assumes "sexec chunkBytes e s = Some s'" "streamOk chunkBytes s"
  obtains new where "sw_accepted s' = sw_accepted s @ new"
    "\<not> overtakes e s \<Longrightarrow> subseq (chunks s') (chunks s @ new)"
    "\<not> lossy e \<Longrightarrow> unfailed s \<Longrightarrow> mset (chunks s') = mset (chunks s @ new)"
    "\<not> lossy e \<Longrightarrow> unfailed s \<Longrightarrow> \<not> overtakes e s \<Longrightarrow> chunks s' = chunks s @ new"
proof (cases "moves e")
  case False
  then show thesis using chunks_still [OF assms] that [of "[]"] by simp
next
  case True
  then show thesis
  proof (cases e)
    case (SendChunk c)
    then show ?thesis using chunks_SendChunk assms that by (metis subseq_order.refl)
  next
    case Flush
    then show ?thesis using chunks_Flush assms that [of "[]"] by (auto simp: unfailed_def)
  next
    case (FlushDone ok)
    then show ?thesis using chunks_FlushDone assms that [of "[]"] by auto
  next
    case Reap
    then show ?thesis using chunks_Reap assms that [of "[]"] by auto
  next
    case (SendDone ok)
    obtain c where c: "chunks s = delivered s @ flushing (g_flusher (sw_gate s)) @ [c]"
      "chunks s' = delivered s @ (if ok then [c] else []) @ flushing (g_flusher (sw_gate s))"
      "sw_accepted s' = sw_accepted s"
      using chunks_SendDone assms SendDone by blast
    show ?thesis by (rule that [of "[]"]) (use c SendDone in \<open>auto split: if_splits\<close>)
  qed auto
qed

lemma sent_steps [simp]:
  "g_flusher (wakeFlusher g) = Sent ok \<longleftrightarrow> g_flusher g = Sent ok"
  "g_flusher (cleanupStreamAccumulator force g) = Sent ok \<longleftrightarrow> g_flusher g = Sent ok"
  "g_flusher (flusherExit g) \<noteq> Sent ok" "g_flusher (afterDrain g) \<noteq> Sent ok"
  "g_flusher (drainBufferLocked chunkBytes g) \<noteq> Sent ok" "g_flusher (abandonBuffer g) \<noteq> Sent ok"
  "g_flusher (sa_Pause g) = g_flusher g" "g_flusher (sa_Resume g) = Sent ok \<longleftrightarrow> g_flusher g = Sent ok"
proof -
  show wake: "g_flusher (wakeFlusher g) = Sent ok \<longleftrightarrow> g_flusher g = Sent ok" for g :: "'a gate"
    by (simp add: wakeFlusher_def)
  show cleanup: "g_flusher (cleanupStreamAccumulator force g) = Sent ok \<longleftrightarrow> g_flusher g = Sent ok" for g :: "'a gate" and force
    by (simp add: cleanupStreamAccumulator_def Let_def wake)
  show exit: "g_flusher (flusherExit g) \<noteq> Sent ok" for g :: "'a gate"
    by (simp add: flusherExit_def Let_def cleanup split: option.split)
  show drained: "g_flusher (afterDrain g) \<noteq> Sent ok" for g :: "'a gate"
    by (simp add: afterDrain_def Let_def exit split: option.split)
  show "g_flusher (drainBufferLocked chunkBytes g) \<noteq> Sent ok"
    by (simp add: drainBufferLocked_def drained split: list.split)
  show "g_flusher (abandonBuffer g) \<noteq> Sent ok" by (simp add: abandonBuffer_def drained)
  show "g_flusher (sa_Pause g) = g_flusher g" by (simp add: sa_Pause_def)
  show "g_flusher (sa_Resume g) = Sent ok \<longleftrightarrow> g_flusher g = Sent ok" by (simp add: sa_Resume_def wake)
qed

lemma sent_End: "g_flusher (sa_End err g) = Sent ok \<Longrightarrow> g_flusher g = Sent ok"
  by (auto simp: sa_End_def Let_def split: if_splits)

lemma sent_fresh: "g_flusher (getOrCreateStreamAccumulator g) = Sent ok \<Longrightarrow> g_flusher g = Sent ok"
  by (auto simp: getOrCreateStreamAccumulator_def newGate_def split: if_splits)

lemma sent_End_fresh: "g_flusher (sa_End err (getOrCreateStreamAccumulator g)) = Sent ok \<Longrightarrow> g_flusher g = Sent ok"
  using sent_End sent_fresh by blast

lemma sent_refs:
  "g_flusher (CreateStreamAccumulator g) = Sent ok \<Longrightarrow> g_flusher g = Sent ok"
  "g_flusher (CleanupStreamAccumulator g) = Sent ok \<Longrightarrow> g_flusher g = Sent ok"
  using sent_fresh by (auto simp: CreateStreamAccumulator_def CleanupStreamAccumulator_def Let_def split: if_splits)

lemma sent_send:
  assumes "GateSendChunk chunkBytes c (ctx, g) = (v, g')" "g_flusher g' = Sent ok"
  shows "g_flusher g = Sent ok"
  using assms(1)
proof (cases rule: GateSendChunk_cases)
  case (1 isFinal isHardErr)
  with assms(2) have "g_flusher (getOrCreateStreamAccumulator g) = Sent ok"
    by (auto simp: sa_GateSend_def Let_def split: stream_state.splits if_splits)
  then show ?thesis by (rule sent_fresh)
qed (use assms in auto)

lemma unfailed_sexec:
  assumes "sexec chunkBytes e s = Some s'" "unfailed s" "\<not> lossy e"
  shows "unfailed s'"
proof (cases e)
  case (SendChunk c)
  with assms show ?thesis
    by (auto simp: unfailed_def producerSend_def dest: sent_send split: if_splits prod.splits)
next
  case Flush
  with assms show ?thesis
    by (auto simp: unfailed_def flusherStep_def split: option.splits flusher.splits if_splits)
next
  case (FlushDone ok)
  with assms show ?thesis by (auto simp: unfailed_def flushDone_def split: flusher.splits if_splits)
qed (use assms in \<open>auto simp: unfailed_def stream_calls onPair_sel onGate_def closeStart_def Let_def
       dest: sent_End_fresh sent_fresh sent_refs split: if_splits producing.splits option.splits\<close>)

section \<open>A closed stream has delivered what it accepted\<close>

text \<open>\<open>drained\<close>: no flusher, nothing buffered and none will start. What \<^verbatim>\<open>CloseStream\<close> waits for is
  either that or a flusher of an ended gate that has not closed its channel yet.\<close>

definition drained :: "'c gate \<Rightarrow> bool" where
  "drained g \<longleftrightarrow> g_buf g = [] \<and> \<not> flusherOn g \<and> (g_state g = StreamStateEnded \<or> \<not> g_target g)"

definition closingOk :: "'p stream \<Rightarrow> bool" where
  "closingOk s \<longleftrightarrow>
     (case sw_producer s of
        AwaitFlusher None \<Rightarrow> drained (sw_gate s)
      | AwaitFlusher (Some d) \<Rightarrow>
          drained (sw_gate s) \<or> g_state (sw_gate s) = StreamStateEnded \<and> g_done (sw_gate s) = Some d
      | ClosedStream \<Rightarrow> drained (sw_gate s)
      | _ \<Rightarrow> True)"

lemma drained_calls:
  assumes "drained g"
  shows "drained (sa_Pause g)" "drained (sa_Resume g)" "drained (sa_End err g)"
    "drained (getOrCreateStreamAccumulator g)" "drained (cleanupStreamAccumulator force g)"
    "drained (CreateStreamAccumulator g)" "drained (CleanupStreamAccumulator g)"
    "drained (ForceCleanupStreamAccumulator g)" "drained (g\<lparr>g_refCount := n\<rparr>)"
proof -
  show "drained (sa_Pause g)" "drained (sa_Resume g)" "drained (sa_End err g)"
    using assms by (auto simp: drained_def sa_Pause_def sa_Resume_def sa_End_def Let_def)
  show fresh: "drained (getOrCreateStreamAccumulator g)"
    using assms by (auto simp: drained_def getOrCreateStreamAccumulator_def)
  show cleanup: "drained (cleanupStreamAccumulator force g)" for force
    using assms by (auto simp: drained_def cleanupStreamAccumulator_def Let_def)
  show refs: "drained (g\<lparr>g_refCount := n\<rparr>)" for n using assms by (simp add: drained_def)
  show "drained (CreateStreamAccumulator g)"
    using fresh by (simp add: CreateStreamAccumulator_def Let_def drained_def)
  show "drained (CleanupStreamAccumulator g)"
    using assms by (auto simp: CleanupStreamAccumulator_def Let_def drained_def cleanupStreamAccumulator_def)
  show "drained (ForceCleanupStreamAccumulator g)"
    using assms cleanup by (simp add: ForceCleanupStreamAccumulator_def)
qed

text \<open>The flusher of an ended gate only ever stops, and closes the channel it was given.\<close>

definition finishing :: "nat \<Rightarrow> 'c gate \<Rightarrow> bool" where
  "finishing d g \<longleftrightarrow> drained g \<or> g_state g = StreamStateEnded \<and> g_done g = Some d"

lemma finishing_exit:
  assumes "g_buf g = []" "g_done g = Some d" "g_state g = StreamStateEnded"
  shows "finishing d (flusherExit g)"
  using assms by (auto simp: finishing_def drained_def flusherExit_def Let_def cleanupStreamAccumulator_def)

lemma finishing_afterDrain:
  assumes "g_buf g = []" "g_done g = Some d" "g_state g = StreamStateEnded"
  shows "finishing d (afterDrain g)"
  using assms finishing_exit [OF assms] by (simp add: afterDrain_def Let_def finishing_def split: option.split)

lemma finishing_step:
  assumes "flusherStep chunkBytes g = Some g'" "gateOk chunkBytes g" "finishing d g"
  shows "finishing d g'"
proof (cases "drained g")
  case True
  then show ?thesis using assms(1) by (simp add: drained_def flusherOn_def flusherStep_def)
next
  case False
  with assms(3) have e: "g_state g = StreamStateEnded" "g_done g = Some d" by (simp_all add: finishing_def)
  have drain: "finishing d (drainBufferLocked chunkBytes g)"
    using e finishing_afterDrain [of "g\<lparr>g_bytes := 0\<rparr>" d]
    by (cases "g_buf g") (simp_all add: drainBufferLocked_def finishing_def)
  have abandon: "finishing d (abandonBuffer g)"
    using e by (simp add: abandonBuffer_def finishing_afterDrain)
  show ?thesis
    using assms(1,2) e drain abandon finishing_exit [of g d]
    by (auto simp: flusherStep_def waitsForWork_def gateOk_def gateShape_def split: flusher.splits if_splits)
qed

lemma finishing_calls:
  assumes "finishing d g"
    and "f \<in> {CleanupStreamAccumulator, ForceCleanupStreamAccumulator}
      \<or> reusable g \<and> f \<in> {CreateStreamAccumulator, sa_Pause \<circ> getOrCreateStreamAccumulator,
          sa_Resume \<circ> getOrCreateStreamAccumulator, sa_End err \<circ> getOrCreateStreamAccumulator}"
    and "gateOk chunkBytes g"
  shows "finishing d (f g)"
proof (cases "drained g")
  case True
  then show ?thesis using assms(2) by (auto simp: finishing_def drained_calls)
next
  case False
  with assms(1) have e: "g_state g = StreamStateEnded" "g_done g = Some d" by (simp_all add: finishing_def)
  with assms(3) have "flusherOn g" by (auto simp: gateOk_def gateShape_def doneOk_def)
  then have "g_registered g" if "reusable g" using that by (simp add: reusable_def)
  with assms(2) e show ?thesis
    by (auto simp: finishing_def CleanupStreamAccumulator_def ForceCleanupStreamAccumulator_def
        cleanupStreamAccumulator_def CreateStreamAccumulator_def getOrCreateStreamAccumulator_def Let_def
        sa_Pause_def sa_Resume_def sa_End_def)
qed

lemma closeStart_finishing:
  assumes "streamOk chunkBytes s" "reusable (sw_gate s)"
  shows "closingOk (closeStart s)"
proof (cases "engaged (sw_ctx s)")
  case True
  define g where "g = sa_End None (getOrCreateStreamAccumulator (sw_gate s))"
  have ok: "gateOk chunkBytes g" using assms(1) by (simp add: g_def streamOk_def gateOk_End gateOk_fresh)
  have e: "g_state g = StreamStateEnded" by (simp add: g_def sa_End_def Let_def)
  have "g_registered g"
    by (simp add: g_def sa_End_def Let_def getOrCreateStreamAccumulator_def newGate_def)
  moreover have "drained g" if "g_done g = None"
    using ok e that by (auto simp: gateOk_def gateShape_def doneOk_def drained_def)
  ultimately show ?thesis using True e by (auto simp: closeStart_def g_def [symmetric] closingOk_def Let_def split: option.split)
next
  case False
  then have "drained (sw_gate s)" using assms(1) by (auto simp: streamOk_def ungatedOk_def drained_def)
  then show ?thesis using False by (simp add: closeStart_def closingOk_def)
qed

lemma closingOk_iff:
  "closingOk s \<longleftrightarrow>
     (case sw_producer s of AwaitFlusher (Some d) \<Rightarrow> finishing d (sw_gate s)
      | AwaitFlusher None \<Rightarrow> drained (sw_gate s) | ClosedStream \<Rightarrow> drained (sw_gate s) | _ \<Rightarrow> True)"
  by (simp add: closingOk_def finishing_def split: producing.split option.split)

lemma drained_step: "drained g \<Longrightarrow> flusherStep chunkBytes g = None"
  by (simp add: drained_def flusherOn_def flusherStep_def)

lemma closingOk_gate:
  assumes "closingOk s" "sw_producer s' = sw_producer s"
    and "drained (sw_gate s) \<Longrightarrow> drained (sw_gate s')"
    and "\<And>d. finishing d (sw_gate s) \<Longrightarrow> finishing d (sw_gate s')"
  shows "closingOk s'"
  using assms by (auto simp: closingOk_iff split: producing.splits option.splits)

lemma closingOk_call:
  assumes "closingOk s" "streamOk chunkBytes s" "reusable (sw_gate s)"
    and "f \<in> {sa_Pause, sa_Resume, sa_End err}"
  shows "closingOk (onPair (engageGate f) s)"
proof (rule closingOk_gate [OF assms(1)])
  show "drained (sw_gate (onPair (engageGate f) s))" if "drained (sw_gate s)"
    using that assms(4) by (auto simp: onPair_sel drained_calls)
  show "finishing d (sw_gate (onPair (engageGate f) s))" if "finishing d (sw_gate s)" for d
    using that finishing_calls [of d "sw_gate s" "f \<circ> getOrCreateStreamAccumulator" err chunkBytes] assms(2-4)
    by (auto simp: onPair_sel streamOk_def)
qed (simp add: onPair_sel)

lemma closingOk_refs:
  assumes "closingOk s" "streamOk chunkBytes s"
    and "reusable (sw_gate s) \<and> f = CreateStreamAccumulator \<or> f \<in> {CleanupStreamAccumulator, ForceCleanupStreamAccumulator}"
  shows "closingOk (onGate f s)"
proof (rule closingOk_gate [OF assms(1)])
  show "drained (sw_gate (onGate f s))" if "drained (sw_gate s)"
    using that assms(3) by (auto simp: onGate_def drained_calls)
  show "finishing d (sw_gate (onGate f s))" if "finishing d (sw_gate s)" for d
    using that finishing_calls [of d "sw_gate s" f None chunkBytes] assms(2,3)
    by (auto simp: onGate_def streamOk_def)
qed (simp add: onGate_def)

lemma closingOk_flushDone:
  assumes "flushDone ok s = Some s'" "closingOk s"
  shows "closingOk s'"
  using assms(1)
  by (intro closingOk_gate [OF assms(2)])
     (auto simp: flushDone_def finishing_def drained_def flusherOn_def split: flusher.splits if_splits)

lemma closingOk_CloseDone:
  assumes "sexec chunkBytes CloseDone s = Some s'" "streamOk chunkBytes s" "closingOk s"
  shows "closingOk s'"
proof -
  have "drained (sw_gate s)" if "sw_producer s = AwaitFlusher (Some d)" "d \<in> set (g_doneClosed (sw_gate s))" for d
  proof -
    have "g_done (sw_gate s) \<noteq> Some d"
      using that(2) assms(2) by (auto simp: streamOk_def gateOk_def gateShape_def doneOk_def)
    with assms(3) that(1) show ?thesis by (simp add: closingOk_iff finishing_def)
  qed
  with assms(1,3) show ?thesis
    by (auto simp: closingOk_iff split: producing.splits option.splits if_splits)
qed

lemma closingOk_sexec:
  assumes "sexec chunkBytes e s = Some s'" "streamOk chunkBytes s" "closingOk s"
  shows "closingOk s'"
proof (cases e)
  case Flush
  then obtain g where g: "flusherStep chunkBytes (sw_gate s) = Some g" "s' = s\<lparr>sw_gate := g\<rparr>"
    using assms by (auto split: option.splits)
  then show ?thesis using assms(2) drained_step [of "sw_gate s" chunkBytes]
    by (intro closingOk_gate [OF assms(3)]) (auto simp: streamOk_def intro: finishing_step)
next
  case (FlushDone ok)
  then show ?thesis using assms closingOk_flushDone by simp
next
  case Close
  then show ?thesis using assms closeStart_finishing by (auto split: if_splits)
next
  case CloseDone
  then show ?thesis using assms closingOk_CloseDone by simp
next
  case (SendChunk c)
  then show ?thesis using assms
    by (auto simp: producerSend_def closingOk_iff split: if_splits prod.splits)
next
  case (SendDone ok)
  then show ?thesis using assms by (auto simp: closingOk_iff split: producing.splits)
next
  case LastChunk
  then show ?thesis using assms(1) by (intro closingOk_gate [OF assms(3)]) auto
qed (use assms closingOk_call [OF assms(3,2)] closingOk_refs [OF assms(3,2)] in
     \<open>auto simp: stream_calls split: if_splits\<close>)

section \<open>What holds of a whole stream\<close>

definition sizesOk :: "('p chunk option \<Rightarrow> int) \<Rightarrow> bool" where
  "sizesOk chunkBytes \<longleftrightarrow> (\<forall>c. chunkBytes c \<ge> 0)"

lemma streamOk_srun:
  assumes "srun chunkBytes es (newStream c) = Some s" "sizesOk chunkBytes"
  shows "streamOk chunkBytes s"
  using assms(1) by (rule srun_induct_inv) (use assms(2) in \<open>auto simp: sizesOk_def intro: streamOk_sexec\<close>)

lemma new_facts [simp]:
  "closingOk (newStream c)" "unfailed (newStream c)" "chunks (newStream c) = []" "sw_accepted (newStream c) = []"
  "sw_sent (newStream c) = []"
  by (simp_all add: closingOk_def unfailed_def newStream_def newGate_def chunks_def delivered_def)

lemma order_srun:
  assumes "srun chunkBytes es s = Some s'" "undisturbed chunkBytes es s" "streamOk chunkBytes s" "sizesOk chunkBytes"
    and "subseq (chunks s) (sw_accepted s)"
  shows "subseq (chunks s') (sw_accepted s')"
  using assms(1-3,5)
proof (induction es arbitrary: s)
  case (Cons e es)
  then obtain t where t: "sexec chunkBytes e s = Some t" "srun chunkBytes es t = Some s'"
    "undisturbed chunkBytes es t" "\<not> overtakes e s" by (auto split: option.splits)
  obtain new where new: "sw_accepted t = sw_accepted s @ new" "subseq (chunks t) (chunks s @ new)"
    using flow_step [OF t(1) Cons.prems(3)] t(4) by metis
  have "subseq (chunks t) (sw_accepted t)"
    using new Cons.prems(4) by (metis subseq_append subseq_order.trans)
  moreover have "streamOk chunkBytes t" using streamOk_sexec [OF t(1) Cons.prems(3)] assms(4) by (simp add: sizesOk_def)
  ultimately show ?case using Cons.IH t by blast
qed simp

lemma lossless_srun:
  assumes "srun chunkBytes es s = Some s'" "\<not> list_ex lossy es" "streamOk chunkBytes s" "sizesOk chunkBytes"
    and "unfailed s" "mset (chunks s) = mset (sw_accepted s)"
  shows "mset (chunks s') = mset (sw_accepted s')"
    "undisturbed chunkBytes es s \<Longrightarrow> chunks s = sw_accepted s \<Longrightarrow> chunks s' = sw_accepted s'"
proof -
  have "mset (chunks s') = mset (sw_accepted s')
      \<and> (undisturbed chunkBytes es s \<longrightarrow> chunks s = sw_accepted s \<longrightarrow> chunks s' = sw_accepted s')"
    using assms(1-3,5,6)
  proof (induction es arbitrary: s)
    case (Cons e es)
    then obtain t where t: "sexec chunkBytes e s = Some t" "srun chunkBytes es t = Some s'" "\<not> lossy e"
      by (auto split: option.splits)
    obtain new where new: "sw_accepted t = sw_accepted s @ new" "mset (chunks t) = mset (chunks s @ new)"
      "\<not> overtakes e s \<Longrightarrow> chunks t = chunks s @ new"
      using flow_step [OF t(1) Cons.prems(3)] t(3) Cons.prems(4) by metis
    have "streamOk chunkBytes t" "unfailed t"
      using streamOk_sexec [OF t(1) Cons.prems(3)] unfailed_sexec [OF t(1)] Cons.prems(4) t(3) assms(4)
      by (simp_all add: sizesOk_def)
    with Cons.IH [OF t(2)] Cons.prems(2,5) new t(1) show ?case by auto
  qed simp
  then show "mset (chunks s') = mset (sw_accepted s')"
    "undisturbed chunkBytes es s \<Longrightarrow> chunks s = sw_accepted s \<Longrightarrow> chunks s' = sw_accepted s'" by blast+
qed

lemma unfailed_srun:
  assumes "srun chunkBytes es (newStream c) = Some s" "\<not> list_ex lossy es"
  shows "unfailed s"
proof -
  have "unfailed t'" if "srun chunkBytes es t = Some t'" "\<not> list_ex lossy es" "unfailed t" for t t'
    using that by (induction es arbitrary: t) (auto split: option.splits dest: unfailed_sexec)
  then show ?thesis using assms by simp
qed

lemma srun_append:
  "srun chunkBytes (es @ es') s = (case srun chunkBytes es s of None \<Rightarrow> None | Some t \<Rightarrow> srun chunkBytes es' t)"
  by (induction es arbitrary: s) (auto split: option.split)

lemma accepted_sent:
  assumes "srun chunkBytes es (newStream c) = Some s"
  shows "subseq (sw_accepted s) (sw_sent s)"
  using assms
proof (rule srun_induct_inv)
  fix e and t t' :: "'a stream"
  assume "sexec chunkBytes e t = Some t'" "subseq (sw_accepted t) (sw_sent t)"
  then show "subseq (sw_accepted t') (sw_sent t')"
    by (cases e) (auto simp: stream_calls onPair_sel onGate_def producerSend_def closeStart_def flushDone_def Let_def
        subseq_rev_drop_many split: if_splits prod.splits producing.splits option.splits flusher.splits)
qed simp

lemma closingOk_srun:
  assumes "srun chunkBytes es (newStream c) = Some s" "sizesOk chunkBytes"
  shows "closingOk s"
proof -
  have "streamOk chunkBytes s \<and> closingOk s"
    using assms(1)
    by (rule srun_induct_inv)
       (use assms(2) closingOk_sexec in \<open>auto simp: sizesOk_def intro: streamOk_sexec\<close>)
  then show ?thesis ..
qed

section \<open>Properties\<close>

definition traced :: bctx where
  "traced = NewBifrostContext (\<lambda>k. if k = BifrostContextKeyTracer then VTracer
     else if k = BifrostContextKeyTraceID then VStr ''trace'' else VNil)"

definition sampleChunk :: "string \<Rightarrow> string chunk option" where
  "sampleChunk text = Some \<lparr>ch_Error = None, ch_ResponsesType = None, ch_payload = text\<rparr>"

text \<open>Pause, two chunks, resume, the flusher delivers both, the last chunk goes after them, the
  provider closes.\<close>

definition resumedRun :: "string stream_event list" where
  "resumedRun =
     [Pause, SendChunk (sampleChunk ''a''), Flush, SendChunk (sampleChunk ''b''), Resume, Flush, FlushDone True,
      LastChunk, SendChunk (sampleChunk ''c''), Flush, FlushDone True, Flush, FlushDone True, Close, Flush, CloseDone]"

lemmas stream_eval = newStream_def newGate_def stream_calls engageGate_def onPair_def onGate_def
  streamTracer_def GetStringFromContext_def ctxString_def ctxBool_def Value_def setReservedValue_def SetValue_def
  writeDropped_def engaged_def streamGated_def traced_def NewBifrostContext_def getOrCreateStreamAccumulator_def
  sa_Pause_def sa_Resume_def sa_End_def sa_GateSend_def producerSend_def GateSendChunk_def gate_buffer_def
  startFlusher_def wakeFlusher_def flusherStep_def drainBufferLocked_def afterDrain_def flusherExit_def
  waitsForWork_def flushDone_def deliverable_def closeStart_def reusable_def Let_def flusherOn_def delivered_def
  gateReplayBufMaxBytes_def sampleChunk_def

lemma resumedRun_srun:
  "\<exists>s. srun (\<lambda>_. 1) resumedRun (newStream traced) = Some s \<and> sw_producer s = ClosedStream
     \<and> delivered s = [sampleChunk ''a'', sampleChunk ''b'', sampleChunk ''c'']"
  "undisturbed (\<lambda>_. 1) resumedRun (newStream traced)"
  by (simp_all add: resumedRun_def stream_eval)

text \<open>
  C20. Chunks reach the consumer in the order they were produced: as long as no send past the
  gate completes while the flusher is in the middle of its own send, what was delivered is a
  subsequence of what was accepted, and that of what was produced, through any interleaving of
  pauses, resumes, ends, cancelled sends and teardowns.\<close>

theorem gate_delivers_in_order:
  assumes "srun chunkBytes es (newStream c) = Some s" "sizesOk chunkBytes" "undisturbed chunkBytes es (newStream c)"
  shows "subseq (delivered s) (sw_accepted s) \<and> subseq (sw_accepted s) (sw_sent s)"
proof -
  have "subseq (delivered s) (chunks s)" by (simp add: chunks_def subseq_rev_drop_many)
  also have "subseq (chunks s) (sw_accepted s)"
    by (rule order_srun [OF assms(1,3) streamOk_new assms(2)]) simp
  finally show ?thesis using accepted_sent [OF assms(1)] by blast
qed

theorem gate_delivers_in_order_witness:
  "\<exists>s. srun (\<lambda>_. 1) resumedRun (newStream traced) = Some s \<and> delivered s \<noteq> []
     \<and> subseq (delivered s) (sw_accepted s)"
proof -
  obtain s where "srun (\<lambda>_. 1) resumedRun (newStream traced) = Some s" "delivered s \<noteq> []"
    using resumedRun_srun(1) by auto
  with gate_delivers_in_order [OF this(1) _ resumedRun_srun(2)] show ?thesis by (auto simp: sizesOk_def)
qed

text \<open>
  The order is not kept when they meet: after a resume the flusher takes the last buffered
  chunk out of the buffer and sends it without the lock, the next chunk finds the gate active and
  the buffer empty, is sent past the flusher and can arrive first.\<close>

theorem gate_overtaken:
  "\<exists>es s. srun (\<lambda>_. 1) es (newStream traced) = Some s \<and> \<not> list_ex lossy es
     \<and> sw_sent s = [sampleChunk ''a'', sampleChunk ''b''] \<and> sw_accepted s = sw_sent s
     \<and> delivered s = [sampleChunk ''b'', sampleChunk ''a'']"
  by (rule exI [of _ "[Pause, SendChunk (sampleChunk ''a''), Resume, Flush, SendChunk (sampleChunk ''b''),
        SendDone True, FlushDone True]"])
     (simp add: stream_eval)

text \<open>
  C19. When the provider's goroutine has closed the stream, nothing it handed to the gate is
  missing: unless a send failed or the accumulator was reaped by force, the consumer received
  exactly the accepted chunks, also those buffered by a pause that was never resumed, and in
  their order when no send overtook the flusher.\<close>

theorem closed_stream_complete:
  assumes "srun chunkBytes es (newStream c) = Some s" "sizesOk chunkBytes" "\<not> list_ex lossy es"
    and "sw_producer s = ClosedStream"
  shows "mset (delivered s) = mset (sw_accepted s)
    \<and> (undisturbed chunkBytes es (newStream c) \<longrightarrow> delivered s = sw_accepted s)"
proof -
  have "drained (sw_gate s)" using closingOk_srun [OF assms(1,2)] assms(4) by (simp add: closingOk_iff)
  then have "chunks s = delivered s" by (simp add: chunks_def drained_def absent_flushing assms(4))
  with lossless_srun [OF assms(1,3) streamOk_new assms(2)] show ?thesis by simp
qed

theorem closed_stream_complete_witness:
  "\<exists>s. srun (\<lambda>_. 1) resumedRun (newStream traced) = Some s
     \<and> delivered s = sw_accepted s \<and> sw_accepted s = [sampleChunk ''a'', sampleChunk ''b'', sampleChunk ''c'']"
proof -
  obtain s where s: "srun (\<lambda>_. 1) resumedRun (newStream traced) = Some s" "sw_producer s = ClosedStream"
    "delivered s = [sampleChunk ''a'', sampleChunk ''b'', sampleChunk ''c'']"
    using resumedRun_srun(1) by auto
  have "\<not> list_ex lossy resumedRun" "sizesOk (\<lambda>_. 1)" by (simp_all add: resumedRun_def sizesOk_def)
  from closed_stream_complete [OF s(1) this(2,1) s(2)] resumedRun_srun(2) s(1,3) show ?thesis by auto
qed

definition flusherEvents :: "'p stream_event list \<Rightarrow> bool" where
  "flusherEvents es \<longleftrightarrow> list_all (\<lambda>e. e = Flush \<or> e = FlushDone True) es"

lemma flush_send:
  assumes "g_flusher (sw_gate s) = Sending c" "sw_producer s \<noteq> ClosedStream"
  shows "flushDone True s =
    Some (s\<lparr>sw_gate := (sw_gate s)\<lparr>g_flusher := Sent True\<rparr>, sw_out := sw_out s @ [Chunk c]\<rparr>)"
  using assms by (simp add: flushDone_def deliverable_def)

lemma flush_next:
  assumes "gateOk chunkBytes (sw_gate s)" "unfailed s" "g_buf (sw_gate s) = c # rest" "g_state (sw_gate s) \<noteq> StreamStatePaused"
    and "flushing (g_flusher (sw_gate s)) = []"
  shows "\<exists>s'. sexec chunkBytes Flush s = Some s' \<and> g_flusher (sw_gate s') = Sending c \<and> g_buf (sw_gate s') = rest
    \<and> g_state (sw_gate s') = g_state (sw_gate s) \<and> sw_out s' = sw_out s \<and> sw_producer s' = sw_producer s"
proof -
  have "flusherStep chunkBytes (sw_gate s) = Some (drainBufferLocked chunkBytes (sw_gate s))"
    using assms
    by (cases "g_flusher (sw_gate s)")
       (auto simp: flusherStep_def gateOk_def gateShape_def waitsForWork_def unfailed_def flusherOn_def)
  then show ?thesis using assms(3,4) by (simp add: drainBufferLocked_def)
qed

lemma drains_sending:
  assumes "g_flusher (sw_gate s) = Sending c" "length (g_buf (sw_gate s)) = n"
    and "gateOk chunkBytes (sw_gate s)" "sizesOk chunkBytes" "g_state (sw_gate s) \<noteq> StreamStatePaused"
    and "sw_producer s \<noteq> ClosedStream"
  shows "\<exists>es s'. flusherEvents es \<and> srun chunkBytes es s = Some s' \<and> gateLoad (sw_gate s') = []
    \<and> delivered s' = delivered s @ c # g_buf (sw_gate s)"
  using assms(1-3,5,6)
proof (induction n arbitrary: s c)
  case 0
  then show ?case
    by (intro exI [of _ "[FlushDone True]"]) (simp add: flush_send flusherEvents_def gateLoad_def delivered_def)
next
  case (Suc n)
  then obtain d rest where b: "g_buf (sw_gate s) = d # rest" by (cases "g_buf (sw_gate s)") auto
  define s1 where "s1 = s\<lparr>sw_gate := (sw_gate s)\<lparr>g_flusher := Sent True\<rparr>, sw_out := sw_out s @ [Chunk c]\<rparr>"
  have step1: "sexec chunkBytes (FlushDone True) s = Some s1"
    using flush_send [OF Suc.prems(1,5)] by (simp add: s1_def)
  then have ok1: "gateOk chunkBytes (sw_gate s1)" using gateOk_sexec [OF step1 Suc.prems(3)] assms(4) by (simp add: sizesOk_def)
  then obtain s2 where s2: "sexec chunkBytes Flush s1 = Some s2" "g_flusher (sw_gate s2) = Sending d"
    "g_buf (sw_gate s2) = rest" "g_state (sw_gate s2) = g_state (sw_gate s)" "sw_out s2 = sw_out s @ [Chunk c]"
    "sw_producer s2 = sw_producer s"
    using flush_next [of chunkBytes s1 d rest] b Suc.prems(4) by (auto simp: s1_def unfailed_def)
  have "gateOk chunkBytes (sw_gate s2)" using gateOk_sexec [OF s2(1) ok1] assms(4) by (simp add: sizesOk_def)
  then obtain es s' where es: "flusherEvents es" "srun chunkBytes es s2 = Some s'" "gateLoad (sw_gate s') = []"
    "delivered s' = delivered s2 @ d # rest"
    using Suc.IH [of s2 d] s2 b Suc.prems by auto
  then show ?case
    by (intro exI [of _ "FlushDone True # Flush # es"])
       (use step1 s2 b in \<open>auto simp: flusherEvents_def delivered_def\<close>)
qed


lemma twoBuffered_srun:
  "\<exists>s. srun (\<lambda>_. 1) [Pause, SendChunk (sampleChunk ''a''), Flush, SendChunk (sampleChunk ''b''), Resume] (newStream traced)
       = Some s \<and> sw_producer s = Between \<and> g_state (sw_gate s) = StreamStateActive \<and> delivered s = []
     \<and> gateLoad (sw_gate s) = [sampleChunk ''a'', sampleChunk ''b'']"
  by (simp add: stream_eval gateLoad_def)


text \<open>
  A paused stream holds at most 100 MB: a chunk handed to a paused gate is buffered when the
  buffer, counted exactly, stays within the cap, and otherwise ends the stream with the overflow
  error, keeps what was buffered and has a flusher running to deliver it.\<close>

theorem paused_buffer_bounded:
  assumes "srun chunkBytes es (newStream c) = Some s" "sizesOk chunkBytes" "engaged (sw_ctx s)"
    and "g_registered (sw_gate s)" "g_state (sw_gate s) = StreamStatePaused"
    and "sexec chunkBytes (SendChunk x) s = Some s'"
  shows "g_bytes (sw_gate s') = sum_list (map chunkBytes (g_buf (sw_gate s')))
    \<and> (if sum_list (map chunkBytes (g_buf (sw_gate s) @ [x])) \<le> gateReplayBufMaxBytes
       then g_buf (sw_gate s') = g_buf (sw_gate s) @ [x] \<and> g_state (sw_gate s') = StreamStatePaused
         \<and> sw_accepted s' = sw_accepted s @ [x]
       else g_buf (sw_gate s') = g_buf (sw_gate s) \<and> g_state (sw_gate s') = StreamStateEnded
         \<and> g_endError (sw_gate s') = Some overflowError \<and> flusherOn (sw_gate s') \<and> sw_accepted s' = sw_accepted s)"
proof -
  have ok: "gateOk chunkBytes (sw_gate s)" using streamOk_srun [OF assms(1,2)] by (simp add: streamOk_def)
  have "gateOk chunkBytes (sw_gate s')" using gateOk_sexec [OF assms(6) ok] assms(2) by (simp add: sizesOk_def)
  then have bytes: "g_bytes (sw_gate s') = sum_list (map chunkBytes (g_buf (sw_gate s')))"
    "g_bytes (sw_gate s) = sum_list (map chunkBytes (g_buf (sw_gate s)))"
    using ok by (simp_all add: gateOk_def gateShape_def)
  have "s' = producerSend chunkBytes x s" using assms(6) by (simp split: if_splits)
  with assms(3-5) bytes show ?thesis
    by (simp add: producerSend_def GateSendChunk_def getOrCreateStreamAccumulator_def sa_GateSend_def Let_def
        split: prod.split)
qed

theorem paused_buffer_bounded_witness:
  "\<exists>s s'. srun (\<lambda>_. 60 * 1024 * 1024) [Pause, SendChunk (sampleChunk ''a'')] (newStream traced) = Some s
     \<and> sexec (\<lambda>_. 60 * 1024 * 1024) (SendChunk (sampleChunk ''b'')) s = Some s'
     \<and> g_endError (sw_gate s') = Some overflowError \<and> g_buf (sw_gate s') = [sampleChunk ''a'']"
proof -
  let ?cb = "\<lambda>_ :: string chunk option. 60 * 1024 * 1024 :: int"
  have "\<exists>s. srun ?cb [Pause, SendChunk (sampleChunk ''a'')] (newStream traced) = Some s \<and> engaged (sw_ctx s)
      \<and> g_registered (sw_gate s) \<and> g_state (sw_gate s) = StreamStatePaused \<and> sw_producer s = Between
      \<and> reusable (sw_gate s) \<and> g_buf (sw_gate s) = [sampleChunk ''a'']"
    by (simp add: stream_eval)
  then obtain s where s: "srun ?cb [Pause, SendChunk (sampleChunk ''a'')] (newStream traced) = Some s"
    "engaged (sw_ctx s)" "g_registered (sw_gate s)" "g_state (sw_gate s) = StreamStatePaused"
    "sw_producer s = Between" "reusable (sw_gate s)" "g_buf (sw_gate s) = [sampleChunk ''a'']" by blast
  define s' where "s' = producerSend ?cb (sampleChunk ''b'') s"
  have step: "sexec ?cb (SendChunk (sampleChunk ''b'')) s = Some s'" using s(5,6) by (simp add: s'_def)
  have "sizesOk ?cb" by (simp add: sizesOk_def)
  from paused_buffer_bounded [OF s(1) this s(2-4) step] s(7)
  have "g_endError (sw_gate s') = Some overflowError \<and> g_buf (sw_gate s') = [sampleChunk ''a'']"
    by (simp add: gateReplayBufMaxBytes_def)
  with s(1) step show ?thesis by blast
qed

text \<open>A stream whose chunks went straight to the channel until a plugin ends it.\<close>

fun plainSends :: "'p chunk option list \<Rightarrow> 'p stream_event list" where
  "plainSends [] = []"
| "plainSends (c # cs) = SendChunk c # SendDone True # plainSends cs"

lemma plainSends_srun:
  assumes "\<not> streamGated (sw_ctx s)" "sw_producer s = Between" "reusable (sw_gate s)"
  shows "srun chunkBytes (plainSends cs @ es) s =
    srun chunkBytes es (s\<lparr>sw_out := sw_out s @ map Chunk cs, sw_sent := sw_sent s @ cs, sw_accepted := sw_accepted s @ cs\<rparr>)"
  using assms
proof (induction cs arbitrary: s)
  case (Cons c cs)
  define t where "t = s\<lparr>sw_out := sw_out s @ [Chunk c], sw_sent := sw_sent s @ [c], sw_accepted := sw_accepted s @ [c]\<rparr>"
  have "srun chunkBytes (plainSends (c # cs) @ es) s = srun chunkBytes (plainSends cs @ es) t"
    using Cons.prems by (cases s) (simp add: producerSend_def GateSendChunk_def engaged_def t_def)
  with Cons.IH [of t] Cons.prems show ?case by (simp add: t_def)
qed simp

text \<open>
  An error given to \<^verbatim>\<open>EndStream\<close> is lost when the call is the first to engage the gate: the
  chunks before it were delivered without the gate, so the gate never captured the channel, no
  flusher is started, and the consumer sees its stream end without the error.\<close>

theorem end_error_lost:
  assumes "streamTracer c" "\<not> streamGated c"
  shows "\<exists>s. srun chunkBytes (plainSends cs @ [End (Some err), SendChunk x, Close, CloseDone]) (newStream c) = Some s
    \<and> sw_producer s = ClosedStream \<and> sw_out s = map Chunk cs"
proof -
  have "engaged (setReservedValue BifrostContextKeyStreamGated (VBool True) c)"
    using assms(1) by (rule engaged_setReserved)
  with assms(1) show ?thesis
    by (simp add: plainSends_srun assms(2) newStream_def reusable_def newGate_def stream_calls onPair_def
        engageGate_def getOrCreateStreamAccumulator_def sa_End_def flusherOn_def Let_def wakeFlusher_def
        producerSend_def GateSendChunk_def sa_GateSend_def closeStart_def)
qed

theorem end_error_lost_witness:
  "\<exists>s. srun (\<lambda>_. 1) (plainSends [sampleChunk ''a''] @ [End (Some (newBifrostErrorFromMsg ''blocked'')),
       SendChunk (sampleChunk ''b''), Close, CloseDone]) (newStream traced) = Some s
     \<and> sw_producer s = ClosedStream \<and> sw_out s = map Chunk [sampleChunk ''a'']"
proof (rule end_error_lost)
  show "streamTracer traced" "\<not> streamGated traced"
    by (simp_all add: traced_def streamTracer_def streamGated_def ctxBool_def Value_def NewBifrostContext_def
        GetStringFromContext_def ctxString_def)
qed



end
