(* ===== verification/Calendar.thy ===== *)
theory Calendar
  imports Prelude
begin

text \<open>
  Reset windows of budgets and rate limits: \<^verbatim>\<open>framework/configstore/tables/utils.go\<close>. Times are
  nanoseconds since the start of 1970 in UTC, durations are nanoseconds; \<open>goParse\<close> is the standard
  library's \<^verbatim>\<open>time.ParseDuration\<close>, None its error. The calendar fields of \<^verbatim>\<open>time.Time\<close> are computed
  by walking the years and the months of the Gregorian calendar from 1970.
\<close>

section \<open>The calendar\<close>

definition dayNanos :: int where
  "dayNanos = 86400 * 1000000000"

definition isLeapYear :: "nat \<Rightarrow> bool" where
  "isLeapYear y \<longleftrightarrow> y mod 4 = 0 \<and> (y mod 100 \<noteq> 0 \<or> y mod 400 = 0)"

definition daysInYear :: "nat \<Rightarrow> nat" where
  "daysInYear y = (if isLeapYear y then 366 else 365)"

definition monthLengths :: "nat \<Rightarrow> nat list" where
  "monthLengths y = [31, if isLeapYear y then 29 else 28, 31, 30, 31, 30, 31, 31, 30, 31, 30, 31]"

text \<open>The year of the \<open>d\<close>-th day after the start of year \<open>y\<close>, and that day's number in it.\<close>

function civilYear :: "nat \<Rightarrow> nat \<Rightarrow> nat \<times> nat" where
  "civilYear y d = (if d < daysInYear y then (y, d) else civilYear (Suc y) (d - daysInYear y))"
  by auto
termination by (relation "measure snd") (auto simp: daysInYear_def)

declare civilYear.simps [simp del]

fun civilMonth :: "nat list \<Rightarrow> nat \<Rightarrow> nat \<times> nat" where
  "civilMonth [] d = (0, d)"
| "civilMonth (l # ls) d = (if d < l then (0, d) else (case civilMonth ls (d - l) of (m, r) \<Rightarrow> (Suc m, r)))"

definition dayOfYear :: "nat \<Rightarrow> nat" where
  "dayOfYear day = snd (civilYear 1970 day)"

definition dayOfMonth :: "nat \<Rightarrow> nat" where
  "dayOfMonth day = (case civilYear 1970 day of (y, r) \<Rightarrow> snd (civilMonth (monthLengths y) r))"

text \<open>Days since Monday: 1 January 1970 was a Thursday.\<close>

definition daysFromMonday :: "nat \<Rightarrow> nat" where
  "daysFromMonday day = (day + 3) mod 7"

section \<open>Durations\<close>

definition IsCalendarAlignableDuration :: "string \<Rightarrow> bool" where
  "IsCalendarAlignableDuration duration \<longleftrightarrow> duration \<noteq> [] \<and> last duration \<in> set ''dwMY''"

text \<open>How many days before its day the period of a time starts.\<close>

definition daysIntoPeriod :: "char \<Rightarrow> nat \<Rightarrow> nat" where
  "daysIntoPeriod suffix day =
     (if suffix = CHR ''d'' then 0
      else if suffix = CHR ''w'' then daysFromMonday day
      else if suffix = CHR ''M'' then dayOfMonth day
      else dayOfYear day)"

definition GetCalendarPeriodStart :: "string \<Rightarrow> int \<Rightarrow> int" where
  "GetCalendarPeriodStart duration t =
     (if \<not> IsCalendarAlignableDuration duration then t
      else (let day = nat (t div dayNanos)
            in (int day - int (daysIntoPeriod (last duration) day)) * dayNanos))"

definition unitHours :: "char \<Rightarrow> int option" where
  "unitHours c =
     (if c = CHR ''d'' then Some 24
      else if c = CHR ''w'' then Some (24 * 7)
      else if c = CHR ''M'' then Some (24 * 30)
      else if c = CHR ''Y'' then Some (24 * 365)
      else None)"

definition ParseDuration :: "(string \<Rightarrow> int option) \<Rightarrow> string \<Rightarrow> int option" where
  "ParseDuration goParse duration =
     (if duration = [] then None
      else case unitHours (last duration) of
             Some hours \<Rightarrow> map_option (\<lambda>d. wrap64 (d * hours)) (goParse (butlast duration @ ''h''))
           | None \<Rightarrow> goParse duration)"

text \<open>The test every check and every counter makes: is a window of this length over?\<close>

definition windowOver :: "(string \<Rightarrow> int option) \<Rightarrow> int \<Rightarrow> string \<Rightarrow> int \<Rightarrow> bool" where
  "windowOver goParse now duration lastReset =
     (case ParseDuration goParse duration of None \<Rightarrow> False | Some d \<Rightarrow> now - lastReset \<ge> d)"

section \<open>Lemmas\<close>

lemma daysInYear_pos: "daysInYear y > 0"
  by (simp add: daysInYear_def)

lemma monthLengths_sum: "sum_list (monthLengths y) = daysInYear y"
  by (simp add: monthLengths_def daysInYear_def)

lemma civilYear_bounds:
  assumes "civilYear y d = (y', r)"
  shows "r < daysInYear y' \<and> r \<le> d"
  using assms
proof (induction y d rule: civilYear.induct)
  case (1 y d)
  then show ?case by (subst (asm) (2) civilYear.simps) (auto split: if_splits)
qed

text \<open>A day earlier in the same year is in the same year.\<close>

lemma civilYear_earlier:
  assumes "civilYear y d = (y', r)" "k \<le> r"
  shows "civilYear y (d - k) = (y', r - k)"
  using assms
proof (induction y d rule: civilYear.induct)
  case (1 y d)
  show ?case
  proof (cases "d < daysInYear y")
    case True
    with "1.prems"(1) have "y' = y" "r = d" by (simp_all add: civilYear.simps [of y d])
    moreover have "d - k < daysInYear y" using True by simp
    ultimately show ?thesis by (simp add: civilYear.simps [of y "d - k"])
  next
    case False
    then have rec: "civilYear (Suc y) (d - daysInYear y) = (y', r)"
      using "1.prems"(1) by (simp add: civilYear.simps [of y])
    have "k \<le> d - daysInYear y" using civilYear_bounds [OF rec] "1.prems"(2) by simp
    then have "\<not> d - k < daysInYear y" "d - k - daysInYear y = d - daysInYear y - k" using False by auto
    with "1.IH" [OF False rec "1.prems"(2)] show ?thesis by (simp add: civilYear.simps [of y "d - k"])
  qed
qed

lemma civilMonth_le: "snd (civilMonth ls d) \<le> d"
proof (induction ls arbitrary: d)
  case (Cons l ls)
  from Cons [of "d - l"] show ?case by (auto split: prod.split)
qed simp

lemma civilMonth_earlier:
  assumes "civilMonth ls d = (m, r)" "k \<le> r"
  shows "civilMonth ls (d - k) = (m, r - k)"
  using assms
proof (induction ls arbitrary: d m)
  case (Cons l ls)
  show ?case
  proof (cases "d < l")
    case False
    then obtain m' where m: "civilMonth ls (d - l) = (m', r)" "m = Suc m'"
      using Cons.prems(1) by (auto split: prod.splits)
    have "k \<le> d - l" using civilMonth_le [of ls "d - l"] m(1) Cons.prems(2) by simp
    then have "\<not> d - k < l" "d - k - l = d - l - k" using False by auto
    with Cons.IH [OF m(1) Cons.prems(2)] m(2) show ?thesis by simp
  qed (use Cons.prems in auto)
qed simp

lemma dayOfYear_earlier: "k \<le> dayOfYear d \<Longrightarrow> dayOfYear (d - k) = dayOfYear d - k"
  using civilYear_earlier [of 1970 d] by (cases "civilYear 1970 d") (simp add: dayOfYear_def)

lemma dayOfYear_le: "dayOfYear d \<le> d"
  using civilYear_bounds [of 1970 d] by (cases "civilYear 1970 d") (simp add: dayOfYear_def)

lemma dayOfMonth_earlier:
  assumes "k \<le> dayOfMonth d"
  shows "dayOfMonth (d - k) = dayOfMonth d - k"
proof -
  obtain y r where y: "civilYear 1970 d = (y, r)" by fastforce
  obtain m q where m: "civilMonth (monthLengths y) r = (m, q)" by fastforce
  have "k \<le> q" using assms by (simp add: dayOfMonth_def y m)
  moreover have "q \<le> r" using civilMonth_le [of "monthLengths y" r] by (simp add: m)
  ultimately show ?thesis
    using civilYear_earlier [OF y, of k] civilMonth_earlier [OF m, of k] by (simp add: dayOfMonth_def y m)
qed

lemma dayOfMonth_le: "dayOfMonth d \<le> d"
proof -
  obtain y r where y: "civilYear 1970 d = (y, r)" by fastforce
  have "snd (civilMonth (monthLengths y) r) \<le> r" by (rule civilMonth_le)
  then show ?thesis using civilYear_bounds [OF y] by (simp add: dayOfMonth_def y)
qed

lemma daysFromMonday_earlier: "k \<le> daysFromMonday d \<Longrightarrow> k \<le> d \<Longrightarrow> daysFromMonday (d - k) = daysFromMonday d - k"
proof -
  assume k: "k \<le> daysFromMonday d" "k \<le> d"
  then have "(d - k + 3) + k = d + 3" by simp
  then have "d - k + 3 = (d + 3) div 7 * 7 + ((d + 3) mod 7 - k)"
    using k(1) div_mult_mod_eq [of "d + 3" 7] by (simp add: daysFromMonday_def)
  moreover have "(d + 3) mod 7 - k < 7" by (simp add: less_imp_diff_less)
  ultimately show ?thesis by (simp add: daysFromMonday_def)
qed

lemma daysIntoPeriod_earlier:
  assumes "k \<le> daysIntoPeriod c d" "k \<le> d"
  shows "daysIntoPeriod c (d - k) = daysIntoPeriod c d - k"
  using assms
  by (simp add: daysIntoPeriod_def daysFromMonday_earlier dayOfMonth_earlier dayOfYear_earlier split: if_splits)

lemma daysIntoPeriod_le:
  assumes "6 \<le> d"
  shows "daysIntoPeriod c d \<le> d"
proof -
  have "daysFromMonday d \<le> 6" by (simp add: daysFromMonday_def)
  then show ?thesis using assms dayOfMonth_le [of d] dayOfYear_le [of d] by (simp add: daysIntoPeriod_def)
qed

section \<open>Properties\<close>

text \<open>
  A calendar window starts at or before now, and every moment between its start and now is in
  the same window: it has the same start. So a counter reset to the start of its window is not
  reset again in that window.\<close>

theorem calendar_window_stable:
  assumes "IsCalendarAlignableDuration duration" "7 * dayNanos \<le> t"
  shows "GetCalendarPeriodStart duration t \<le> t
    \<and> (\<forall>u. GetCalendarPeriodStart duration t \<le> u \<and> u \<le> t
      \<longrightarrow> GetCalendarPeriodStart duration u = GetCalendarPeriodStart duration t)"
proof -
  define d where "d = t div dayNanos"
  define into where "into = daysIntoPeriod (last duration) (nat d)"
  have pos: "dayNanos > 0" by (simp add: dayNanos_def)
  have d7: "d \<ge> 7" using zdiv_mono1 [OF assms(2) pos] pos by (simp add: d_def)
  have into_le: "into \<le> nat d" unfolding into_def using d7 by (intro daysIntoPeriod_le) simp
  have start: "GetCalendarPeriodStart duration t = (d - int into) * dayNanos"
    using assms(1) d7 by (simp add: GetCalendarPeriodStart_def Let_def d_def into_def)
  have dt: "d * dayNanos \<le> t" using div_mult_mod_eq [of t dayNanos] pos_mod_sign [OF pos, of t] unfolding d_def by linarith
  have "(d - int into) * dayNanos \<le> d * dayNanos" using pos by (simp add: mult_right_mono)
  with dt have "GetCalendarPeriodStart duration t \<le> t" by (simp add: start)
  moreover have "GetCalendarPeriodStart duration u = GetCalendarPeriodStart duration t"
    if u: "(d - int into) * dayNanos \<le> u" "u \<le> t" for u
  proof -
    define e where "e = u div dayNanos"
    have e: "d - int into \<le> e" "e \<le> d"
      using zdiv_mono1 [OF u(1) pos] zdiv_mono1 [OF u(2) pos] pos by (simp_all add: e_def d_def)
    define k where "k = nat (d - e)"
    have k: "k \<le> into" "k \<le> nat d" "nat e = nat d - k" using e into_le d7 by (auto simp: k_def)
    have "daysIntoPeriod (last duration) (nat e) = into - k"
      unfolding k(3) into_def by (rule daysIntoPeriod_earlier) (use k in \<open>simp_all add: into_def\<close>)
    moreover have "int (nat e) = e" "e = d - int k" using e d7 into_le by (simp_all add: k_def)
    ultimately have "GetCalendarPeriodStart duration u = (d - int k - int (into - k)) * dayNanos"
      using assms(1) by (simp add: GetCalendarPeriodStart_def Let_def e_def [symmetric])
    then show ?thesis using k(1) by (simp add: start of_nat_diff)
  qed
  ultimately show ?thesis by (simp add: start)
qed

lemma march_start: "GetCalendarPeriodStart ''1M'' (60 * dayNanos + 5) = 59 * dayNanos"
  by (simp add: GetCalendarPeriodStart_def IsCalendarAlignableDuration_def dayNanos_def daysIntoPeriod_def dayOfMonth_def
      monthLengths_def isLeapYear_def civilYear.simps [of 1970] daysInYear_def)

text \<open>2 March 1970: the window of the month starts on 1 March, also seen from that day's morning.\<close>

theorem calendar_window_stable_witness:
  "GetCalendarPeriodStart ''1M'' (59 * dayNanos + 7) = 59 * dayNanos"
proof -
  have a: "IsCalendarAlignableDuration ''1M''" by (simp add: IsCalendarAlignableDuration_def)
  have t: "7 * dayNanos \<le> 60 * dayNanos + 5" "59 * dayNanos \<le> 59 * dayNanos + 7"
    "59 * dayNanos + 7 \<le> 60 * dayNanos + 5" by (simp_all add: dayNanos_def)
  from calendar_window_stable [OF a t(1)] t(2,3) show ?thesis by (simp add: march_start)
qed

text \<open>The count in front of a calendar unit is ignored: a window of three months, aligned to the
  calendar, starts again every month, so such a budget is granted three times over.\<close>

lemma calendar_count_ignored:
  assumes "IsCalendarAlignableDuration (number @ [unit])"
  shows "GetCalendarPeriodStart (number @ [unit]) t = GetCalendarPeriodStart [unit] t"
  using assms by (simp add: GetCalendarPeriodStart_def IsCalendarAlignableDuration_def)

end
