(* ===== verification/Governance.thy ===== *)
theory Governance
  imports Calendar Context Utils
begin

text \<open>
  Budgets and rate limits (\<^verbatim>\<open>plugins/governance\<close>): the in-memory store of \<^verbatim>\<open>store.go\<close> with its
  checks and counters, the decisions of \<^verbatim>\<open>resolver.go\<close> and \<^verbatim>\<open>EvaluateGovernanceRequest\<close> of \<^verbatim>\<open>main.go\<close>,
  and the accounting of \<^verbatim>\<open>tracker.go\<close>.

  A \<^verbatim>\<open>sync.Map\<close> is a partial map; a relation that the store re-reads by identifier is its
  identifier. Money (\<^verbatim>\<open>float64\<close>) is any ordered type with a sum and a zero: nothing rests on how sums
  round. Tokens and requests are 64-bit integers that wrap. A Go map that is iterated is a list of
  its entries in the order of the iteration. Messages are constructors with their arguments.
\<close>

section \<open>Tables\<close>

record 'f budget =
  bg_ID :: string
  bg_MaxLimit :: 'f
  bg_ResetDuration :: string
  bg_LastReset :: int
  bg_CurrentUsage :: 'f
  bg_IsCalendarAligned :: bool

record rate_limit =
  rl_ID :: string
  rl_TokenMaxLimit :: "int option"
  rl_TokenResetDuration :: "string option"
  rl_TokenCurrentUsage :: int
  rl_TokenLastReset :: int
  rl_RequestMaxLimit :: "int option"
  rl_RequestResetDuration :: "string option"
  rl_RequestCurrentUsage :: int
  rl_RequestLastReset :: int
  rl_IsCalendarAligned :: bool

record customer_table =
  cu_ID :: string
  cu_Name :: string
  cu_Budgets :: "string list"
  cu_RateLimitID :: "string option"

record team_table =
  tm_ID :: string
  tm_Name :: string
  tm_Budgets :: "string list"
  tm_RateLimitID :: "string option"
  tm_CustomerID :: "string option"
  tm_Customer :: "customer_table option"

record vk_provider_config =
  vp_ID :: int
  vp_Provider :: string
  vp_AllowedModels :: "string list"
  vp_BlacklistedModels :: "string list"
  vp_AllowAllKeys :: bool
  vp_Keys :: "string list"
  vp_Budgets :: "string list"
  vp_RateLimitID :: "string option"

record virtual_key =
  vk_ID :: string
  vk_Name :: string
  vk_IsActive :: "bool option"
  vk_ProviderConfigs :: "vk_provider_config list"
  vk_Budgets :: "string list"
  vk_RateLimitID :: "string option"
  vk_TeamID :: "string option"
  vk_Team :: "team_table option"
  vk_CustomerID :: "string option"
  vk_Customer :: "customer_table option"

record model_config =
  mc_ID :: string
  mc_ModelName :: string
  mc_Provider :: "string option"
  mc_Scope :: string
  mc_ScopeID :: "string option"
  mc_Budgets :: "string list"
  mc_RateLimitID :: "string option"

record provider_table =
  pt_BudgetID :: "string option"
  pt_RateLimitID :: "string option"

record 'f gov_store =
  gs_virtualKeys :: "string \<Rightarrow> virtual_key option"
  gs_teams :: "string \<Rightarrow> team_table option"
  gs_customers :: "string \<Rightarrow> customer_table option"
  gs_budgets :: "string \<Rightarrow> 'f budget option"
  gs_rateLimits :: "string \<Rightarrow> rate_limit option"
  gs_modelConfigs :: "string \<Rightarrow> model_config option"
  gs_providers :: "string \<Rightarrow> provider_table option"
  gs_LastDBUsagesBudgets :: "string \<Rightarrow> 'f option"
  gs_LastDBUsagesTokens :: "string \<Rightarrow> int option"
  gs_LastDBUsagesRequests :: "string \<Rightarrow> int option"

text \<open>What the store and the resolver get from elsewhere: the clock, the standard library's duration
  parser, the base name a model catalogue gives a model, its model check, and the provider
  configurations of a system pool when there is an in-memory store.\<close>

record gov_env =
  gv_now :: int
  gv_goParse :: "string \<Rightarrow> int option"
  gv_baseModelName :: "(string \<Rightarrow> string) option"
  gv_modelAllowed :: "(string \<Rightarrow> string \<Rightarrow> string list \<Rightarrow> bool) option"
  gv_systemPool :: "(string \<Rightarrow> vk_provider_config list) option"

section \<open>Counters\<close>

definition LoadBudget :: "'f gov_store \<Rightarrow> string \<Rightarrow> 'f budget option" where
  "LoadBudget gs i = gs_budgets gs i"

definition LoadRateLimit :: "'f gov_store \<Rightarrow> string \<Rightarrow> rate_limit option" where
  "LoadRateLimit gs i = gs_rateLimits gs i"

text \<open>Publishing a configuration keeps the counter of the stored one.\<close>

definition mergeBudget :: "'f budget \<Rightarrow> 'f budget \<Rightarrow> 'f budget" where
  "mergeBudget config old = config\<lparr>bg_CurrentUsage := bg_CurrentUsage old, bg_LastReset := bg_LastReset old\<rparr>"

definition UpsertBudgetConfig :: "string \<Rightarrow> 'f budget option \<Rightarrow> 'f gov_store \<Rightarrow> 'f gov_store" where
  "UpsertBudgetConfig i config gs =
     (case config of
        None \<Rightarrow> gs
      | Some c \<Rightarrow> gs\<lparr>gs_budgets := (gs_budgets gs)(i \<mapsto> (case gs_budgets gs i of None \<Rightarrow> c | Some old \<Rightarrow> mergeBudget c old))\<rparr>)"

definition DeleteBudget :: "string \<Rightarrow> 'f gov_store \<Rightarrow> 'f gov_store" where
  "DeleteBudget i gs =
     gs\<lparr>gs_budgets := (gs_budgets gs)(i := None), gs_LastDBUsagesBudgets := (gs_LastDBUsagesBudgets gs)(i := None)\<rparr>"

definition SetBudgetDBBaseline :: "string \<Rightarrow> 'f \<Rightarrow> 'f gov_store \<Rightarrow> 'f gov_store" where
  "SetBudgetDBBaseline i usage gs = gs\<lparr>gs_LastDBUsagesBudgets := (gs_LastDBUsagesBudgets gs)(i \<mapsto> usage)\<rparr>"

definition mergeRateLimit :: "rate_limit \<Rightarrow> rate_limit \<Rightarrow> rate_limit" where
  "mergeRateLimit config old =
     config\<lparr>rl_TokenCurrentUsage := rl_TokenCurrentUsage old, rl_TokenLastReset := rl_TokenLastReset old,
            rl_RequestCurrentUsage := rl_RequestCurrentUsage old, rl_RequestLastReset := rl_RequestLastReset old\<rparr>"

definition UpsertRateLimitConfig :: "string \<Rightarrow> rate_limit option \<Rightarrow> 'f gov_store \<Rightarrow> 'f gov_store" where
  "UpsertRateLimitConfig i config gs =
     (case config of
        None \<Rightarrow> gs
      | Some c \<Rightarrow> gs\<lparr>gs_rateLimits := (gs_rateLimits gs)(i \<mapsto>
          (case gs_rateLimits gs i of None \<Rightarrow> c | Some old \<Rightarrow> mergeRateLimit c old))\<rparr>)"

definition DeleteRateLimit :: "string \<Rightarrow> 'f gov_store \<Rightarrow> 'f gov_store" where
  "DeleteRateLimit i gs =
     gs\<lparr>gs_rateLimits := (gs_rateLimits gs)(i := None),
        gs_LastDBUsagesTokens := (gs_LastDBUsagesTokens gs)(i := None),
        gs_LastDBUsagesRequests := (gs_LastDBUsagesRequests gs)(i := None)\<rparr>"

definition SetRateLimitDBBaseline :: "string \<Rightarrow> int \<Rightarrow> int \<Rightarrow> 'f gov_store \<Rightarrow> 'f gov_store" where
  "SetRateLimitDBBaseline i tokens requests gs =
     gs\<lparr>gs_LastDBUsagesTokens := (gs_LastDBUsagesTokens gs)(i \<mapsto> tokens),
        gs_LastDBUsagesRequests := (gs_LastDBUsagesRequests gs)(i \<mapsto> requests)\<rparr>"

text \<open>One successful round of the compare-and-swap loop of \<^verbatim>\<open>BumpBudgetUsage\<close>, on the snapshot it
  loaded; \<open>BudgetCells\<close> below has the loop under concurrency.\<close>

definition bumpedBudget :: "gov_env \<Rightarrow> 'f \<Rightarrow> ('f :: {zero, plus}) budget \<Rightarrow> 'f budget" where
  "bumpedBudget env cost b =
     (let b1 = (if bg_ResetDuration b \<noteq> [] \<and> windowOver (gv_goParse env) (gv_now env) (bg_ResetDuration b) (bg_LastReset b)
                then b\<lparr>bg_CurrentUsage := 0, bg_LastReset := gv_now env\<rparr> else b)
      in b1\<lparr>bg_CurrentUsage := bg_CurrentUsage b1 + cost\<rparr>)"

definition BumpBudgetUsage :: "gov_env \<Rightarrow> string \<Rightarrow> 'f \<Rightarrow> ('f :: {zero, plus}) gov_store \<Rightarrow> 'f gov_store" where
  "BumpBudgetUsage env i cost gs =
     (case gs_budgets gs i of
        None \<Rightarrow> gs
      | Some b \<Rightarrow> gs\<lparr>gs_budgets := (gs_budgets gs)(i \<mapsto> bumpedBudget env cost b)\<rparr>)"

definition optWindowOver :: "gov_env \<Rightarrow> string option \<Rightarrow> int \<Rightarrow> bool" where
  "optWindowOver env duration lastReset =
     (case duration of None \<Rightarrow> False | Some d \<Rightarrow> windowOver (gv_goParse env) (gv_now env) d lastReset)"

definition bumpedRateLimit :: "gov_env \<Rightarrow> int \<Rightarrow> bool \<Rightarrow> bool \<Rightarrow> rate_limit \<Rightarrow> rate_limit" where
  "bumpedRateLimit env tokensUsed updateTokens updateRequests r =
     (let r1 = (if optWindowOver env (rl_TokenResetDuration r) (rl_TokenLastReset r)
                then r\<lparr>rl_TokenCurrentUsage := 0, rl_TokenLastReset := gv_now env\<rparr> else r);
          r2 = (if optWindowOver env (rl_RequestResetDuration r1) (rl_RequestLastReset r1)
                then r1\<lparr>rl_RequestCurrentUsage := 0, rl_RequestLastReset := gv_now env\<rparr> else r1);
          r3 = (if updateTokens then r2\<lparr>rl_TokenCurrentUsage := wrap64 (rl_TokenCurrentUsage r2 + tokensUsed)\<rparr> else r2)
      in if updateRequests then r3\<lparr>rl_RequestCurrentUsage := wrap64 (rl_RequestCurrentUsage r3 + 1)\<rparr> else r3)"

definition BumpRateLimitUsage :: "gov_env \<Rightarrow> string \<Rightarrow> int \<Rightarrow> bool \<Rightarrow> bool \<Rightarrow> 'f gov_store \<Rightarrow> 'f gov_store" where
  "BumpRateLimitUsage env i tokensUsed updateTokens updateRequests gs =
     (case gs_rateLimits gs i of
        None \<Rightarrow> gs
      | Some r \<Rightarrow> gs\<lparr>gs_rateLimits := (gs_rateLimits gs)(i \<mapsto> bumpedRateLimit env tokensUsed updateTokens updateRequests r)\<rparr>)"

definition BumpRateLimitUsageBy :: "string \<Rightarrow> int \<Rightarrow> int \<Rightarrow> 'f gov_store \<Rightarrow> 'f gov_store" where
  "BumpRateLimitUsageBy i tokenDelta requestDelta gs =
     (if tokenDelta = 0 \<and> requestDelta = 0 then gs
      else case gs_rateLimits gs i of
             None \<Rightarrow> gs
           | Some r \<Rightarrow> gs\<lparr>gs_rateLimits := (gs_rateLimits gs)(i \<mapsto>
               r\<lparr>rl_TokenCurrentUsage := wrap64 (rl_TokenCurrentUsage r + tokenDelta),
                 rl_RequestCurrentUsage := wrap64 (rl_RequestCurrentUsage r + requestDelta)\<rparr>)\<rparr>)"

text \<open>None: absent, or already advanced that far.\<close>

definition ResetBudgetAt :: "string \<Rightarrow> int \<Rightarrow> ('f :: zero) gov_store \<Rightarrow> 'f budget option \<times> 'f gov_store" where
  "ResetBudgetAt i newLastReset gs =
     (case gs_budgets gs i of
        None \<Rightarrow> (None, gs)
      | Some b \<Rightarrow>
          if \<not> bg_LastReset b < newLastReset then (None, gs)
          else (let b' = b\<lparr>bg_CurrentUsage := 0, bg_LastReset := newLastReset\<rparr>
                in (Some b', gs\<lparr>gs_budgets := (gs_budgets gs)(i \<mapsto> b')\<rparr>)))"

definition ResetRateLimitAt ::
  "string \<Rightarrow> int option \<Rightarrow> int option \<Rightarrow> 'f gov_store \<Rightarrow> rate_limit option \<times> 'f gov_store" where
  "ResetRateLimitAt i tokenReset requestReset gs =
     (case gs_rateLimits gs i of
        None \<Rightarrow> (None, gs)
      | Some r \<Rightarrow>
          (let doTokens = (case tokenReset of None \<Rightarrow> False | Some t \<Rightarrow> rl_TokenLastReset r < t);
               doRequests = (case requestReset of None \<Rightarrow> False | Some t \<Rightarrow> rl_RequestLastReset r < t);
               r1 = (if doTokens then r\<lparr>rl_TokenCurrentUsage := 0, rl_TokenLastReset := the tokenReset\<rparr> else r);
               r2 = (if doRequests then r1\<lparr>rl_RequestCurrentUsage := 0, rl_RequestLastReset := the requestReset\<rparr> else r1)
           in if \<not> doTokens \<and> \<not> doRequests then (None, gs)
              else (Some r2, gs\<lparr>gs_rateLimits := (gs_rateLimits gs)(i \<mapsto> r2)\<rparr>)))"

section \<open>The periodic reset\<close>

definition nextReset :: "gov_env \<Rightarrow> bool \<Rightarrow> string \<Rightarrow> int \<Rightarrow> int option" where
  "nextReset env calendarAligned duration lastReset =
     (if calendarAligned
      then (let start = GetCalendarPeriodStart duration (gv_now env)
            in if start > lastReset then Some start else None)
      else if windowOver (gv_goParse env) (gv_now env) duration lastReset then Some (gv_now env) else None)"

definition resetExpiredBudget ::
  "gov_env \<Rightarrow> string \<Rightarrow> ('f :: zero) budget list \<times> 'f gov_store \<Rightarrow> 'f budget list \<times> 'f gov_store" where
  "resetExpiredBudget env i acc =
     (case acc of (resets, gs) \<Rightarrow>
        (case gs_budgets gs i of
           None \<Rightarrow> acc
         | Some b \<Rightarrow>
             (case nextReset env (bg_IsCalendarAligned b) (bg_ResetDuration b) (bg_LastReset b) of
                None \<Rightarrow> acc
              | Some t \<Rightarrow>
                  (case ResetBudgetAt (bg_ID b) t gs of
                     (None, _) \<Rightarrow> acc
                   | (Some b', gs') \<Rightarrow>
                       (resets @ [b'], gs'\<lparr>gs_LastDBUsagesBudgets := (gs_LastDBUsagesBudgets gs')(bg_ID b' \<mapsto> 0)\<rparr>)))))"

text \<open>\<open>ids\<close> is the order in which \<^verbatim>\<open>Range\<close> visits the map; the copies of a budget inside its owners,
  which \<^verbatim>\<open>updateBudgetReferences\<close> refreshes, are identifiers here.\<close>

definition ResetExpiredBudgetsInMemory ::
  "gov_env \<Rightarrow> string list \<Rightarrow> ('f :: zero) gov_store \<Rightarrow> 'f budget list \<times> 'f gov_store" where
  "ResetExpiredBudgetsInMemory env ids gs = fold (resetExpiredBudget env) ids ([], gs)"

definition optNextReset :: "gov_env \<Rightarrow> bool \<Rightarrow> string option \<Rightarrow> int \<Rightarrow> int option" where
  "optNextReset env calendarAligned duration lastReset =
     (case duration of None \<Rightarrow> None | Some d \<Rightarrow> nextReset env calendarAligned d lastReset)"

definition resetExpiredRateLimit ::
  "gov_env \<Rightarrow> string \<Rightarrow> rate_limit list \<times> 'f gov_store \<Rightarrow> rate_limit list \<times> 'f gov_store" where
  "resetExpiredRateLimit env i acc =
     (case acc of (resets, gs) \<Rightarrow>
        (case gs_rateLimits gs i of
           None \<Rightarrow> acc
         | Some r \<Rightarrow>
             (let tokenReset = optNextReset env (rl_IsCalendarAligned r) (rl_TokenResetDuration r) (rl_TokenLastReset r);
                  requestReset = optNextReset env (rl_IsCalendarAligned r) (rl_RequestResetDuration r) (rl_RequestLastReset r)
              in if tokenReset = None \<and> requestReset = None then acc
                 else (case ResetRateLimitAt (rl_ID r) tokenReset requestReset gs of
                         (None, _) \<Rightarrow> acc
                       | (Some r', gs') \<Rightarrow>
                           (resets @ [r'],
                            gs'\<lparr>gs_LastDBUsagesTokens :=
                                   (if tokenReset \<noteq> None then (gs_LastDBUsagesTokens gs')(rl_ID r' \<mapsto> 0) else gs_LastDBUsagesTokens gs'),
                                 gs_LastDBUsagesRequests :=
                                   (if requestReset \<noteq> None then (gs_LastDBUsagesRequests gs')(rl_ID r' \<mapsto> 0)
                                    else gs_LastDBUsagesRequests gs')\<rparr>)))))"

definition ResetExpiredRateLimitsInMemory ::
  "gov_env \<Rightarrow> string list \<Rightarrow> 'f gov_store \<Rightarrow> rate_limit list \<times> 'f gov_store" where
  "ResetExpiredRateLimitsInMemory env ids gs = fold (resetExpiredRateLimit env) ids ([], gs)"

section \<open>Checks\<close>

datatype decision =
    DecisionAllow
  | DecisionVirtualKeyNotFound
  | DecisionVirtualKeyBlocked
  | DecisionRateLimited
  | DecisionBudgetExceeded
  | DecisionTokenLimited
  | DecisionRequestLimited
  | DecisionModelBlocked
  | DecisionProviderBlocked

datatype violation = TokenLimitExceeded int int "string option" | RequestLimitExceeded int int "string option"

datatype 'f gov_error =
    RateLimitViolated string "violation list"
  | BudgetLimitExceeded string 'f 'f
  | VirtualKeyNil

definition baselineOf :: "('f :: zero) \<Rightarrow> (string \<Rightarrow> 'f option) \<Rightarrow> string \<Rightarrow> 'f" where
  "baselineOf z baselines i = (case baselines i of None \<Rightarrow> z | Some x \<Rightarrow> x)"

definition budgetExpired :: "gov_env \<Rightarrow> 'f budget \<Rightarrow> bool" where
  "budgetExpired env b \<longleftrightarrow>
     bg_ResetDuration b \<noteq> [] \<and> windowOver (gv_goParse env) (gv_now env) (bg_ResetDuration b) (bg_LastReset b)"

definition budgetError ::
  "gov_env \<Rightarrow> (string \<Rightarrow> 'f option) \<Rightarrow> string \<Rightarrow> ('f :: {zero, plus, linorder}) budget \<Rightarrow> 'f gov_error option" where
  "budgetError env baselines entity b =
     (let total = bg_CurrentUsage b + baselineOf 0 baselines (bg_ID b)
      in if budgetExpired env b then None
         else if total \<ge> bg_MaxLimit b then Some (BudgetLimitExceeded entity total (bg_MaxLimit b)) else None)"

definition rateViolations :: "gov_env \<Rightarrow> (string \<Rightarrow> int option) \<Rightarrow> (string \<Rightarrow> int option) \<Rightarrow> rate_limit \<Rightarrow> violation list" where
  "rateViolations env tokens requests r =
     (let tokenTotal = wrap64 (rl_TokenCurrentUsage r + baselineOf 0 tokens (rl_ID r));
          requestTotal = wrap64 (rl_RequestCurrentUsage r + baselineOf 0 requests (rl_ID r))
      in (case rl_TokenMaxLimit r of
            None \<Rightarrow> []
          | Some m \<Rightarrow> if \<not> optWindowOver env (rl_TokenResetDuration r) (rl_TokenLastReset r) \<and> tokenTotal \<ge> m
                       then [TokenLimitExceeded tokenTotal m (rl_TokenResetDuration r)] else [])
       @ (case rl_RequestMaxLimit r of
            None \<Rightarrow> []
          | Some m \<Rightarrow> if \<not> optWindowOver env (rl_RequestResetDuration r) (rl_RequestLastReset r) \<and> requestTotal \<ge> m
                       then [RequestLimitExceeded requestTotal m (rl_RequestResetDuration r)] else []))"

definition rateError ::
  "gov_env \<Rightarrow> (string \<Rightarrow> int option) \<Rightarrow> (string \<Rightarrow> int option) \<Rightarrow> string \<Rightarrow> rate_limit \<Rightarrow> (decision \<times> 'f gov_error) option" where
  "rateError env tokens requests entity r =
     (case rateViolations env tokens requests r of
        [] \<Rightarrow> None
      | [TokenLimitExceeded u m d] \<Rightarrow> Some (DecisionTokenLimited, RateLimitViolated entity [TokenLimitExceeded u m d])
      | [RequestLimitExceeded u m d] \<Rightarrow> Some (DecisionRequestLimited, RateLimitViolated entity [RequestLimitExceeded u m d])
      | vs \<Rightarrow> Some (DecisionRateLimited, RateLimitViolated entity vs))"

text \<open>The first error in the order of the iteration.\<close>

fun firstError :: "(string \<Rightarrow> 'x \<Rightarrow> 'e option) \<Rightarrow> string \<Rightarrow> 'x list \<Rightarrow> 'e option" where
  "firstError f entity [] = None"
| "firstError f entity (x # xs) = (case f entity x of Some e \<Rightarrow> Some e | None \<Rightarrow> firstError f entity xs)"

fun firstEntityError :: "(string \<Rightarrow> 'x \<Rightarrow> 'e option) \<Rightarrow> (string \<times> 'x list) list \<Rightarrow> 'e option" where
  "firstEntityError f [] = None"
| "firstEntityError f ((entity, xs) # m) =
     (case firstError f entity xs of Some e \<Rightarrow> Some e | None \<Rightarrow> firstEntityError f m)"

definition CheckBudget ::
  "gov_env \<Rightarrow> (string \<times> ('f :: {zero, plus, linorder}) budget list) list \<Rightarrow> (string \<Rightarrow> 'f option)
   \<Rightarrow> decision \<times> 'f gov_error option" where
  "CheckBudget env m baselines =
     (case firstEntityError (budgetError env baselines) m of
        None \<Rightarrow> (DecisionAllow, None)
      | Some e \<Rightarrow> (DecisionBudgetExceeded, Some e))"

definition CheckRateLimit ::
  "gov_env \<Rightarrow> (string \<times> rate_limit list) list \<Rightarrow> (string \<Rightarrow> int option) \<Rightarrow> (string \<Rightarrow> int option)
   \<Rightarrow> decision \<times> 'f gov_error option" where
  "CheckRateLimit env m tokens requests =
     (case firstEntityError (rateError env tokens requests) m of
        None \<Rightarrow> (DecisionAllow, None)
      | Some (d, e) \<Rightarrow> (d, Some e))"

section \<open>What applies to a request\<close>

text \<open>Appending to an entry of the map.\<close>

fun addEntity :: "string \<Rightarrow> 'x \<Rightarrow> (string \<times> 'x list) list \<Rightarrow> (string \<times> 'x list) list" where
  "addEntity entity x [] = [(entity, [x])]"
| "addEntity entity x ((e, xs) # m) = (if e = entity then (e, xs @ [x]) # m else (e, xs) # addEntity entity x m)"

text \<open>A level of the hierarchy: its budgets that are loaded and, where the level looks, not seen
  before.\<close>

fun addBudgets ::
  "'f gov_store \<Rightarrow> bool \<Rightarrow> string \<Rightarrow> string list \<Rightarrow> string list \<times> (string \<times> 'f budget list) list
   \<Rightarrow> string list \<times> (string \<times> 'f budget list) list" where
  "addBudgets gs skipSeen entity [] acc = acc"
| "addBudgets gs skipSeen entity (i # is) (seen, m) =
     addBudgets gs skipSeen entity is
       (if skipSeen \<and> i \<in> set seen then (seen, m)
        else case gs_budgets gs i of None \<Rightarrow> (seen, m) | Some b \<Rightarrow> (bg_ID b # seen, addEntity entity b m))"

definition addRateLimit ::
  "'f gov_store \<Rightarrow> string \<Rightarrow> string option \<Rightarrow> (string \<times> rate_limit list) list \<Rightarrow> (string \<times> rate_limit list) list" where
  "addRateLimit gs entity i m =
     (case i of
        None \<Rightarrow> m
      | Some i' \<Rightarrow> (case gs_rateLimits gs i' of None \<Rightarrow> m | Some r \<Rightarrow> addEntity entity r m))"

text \<open>The team of a key, the customer the team is charged to, and the customer of the key itself
  when it is another one. \<open>scoped\<close> is the customer the request is scoped to, empty when none.\<close>

definition teamOf :: "'f gov_store \<Rightarrow> virtual_key \<Rightarrow> team_table option" where
  "teamOf gs vk = (case vk_TeamID vk of None \<Rightarrow> None | Some i \<Rightarrow> gs_teams gs i)"

definition teamCustomerID :: "'f gov_store \<Rightarrow> virtual_key \<Rightarrow> string" where
  "teamCustomerID gs vk =
     (case teamOf gs vk of None \<Rightarrow> [] | Some t \<Rightarrow> (case tm_CustomerID t of None \<Rightarrow> [] | Some c \<Rightarrow> c))"

definition chargedTeamCustomer :: "string \<Rightarrow> 'f gov_store \<Rightarrow> virtual_key \<Rightarrow> customer_table option" where
  "chargedTeamCustomer scoped gs vk =
     (case teamOf gs vk of
        None \<Rightarrow> None
      | Some t \<Rightarrow> (case tm_CustomerID t of
                    None \<Rightarrow> None
                  | Some c \<Rightarrow> if scoped = [] \<or> scoped = c then gs_customers gs c else None))"

definition chargedOwnCustomer :: "'f gov_store \<Rightarrow> virtual_key \<Rightarrow> customer_table option" where
  "chargedOwnCustomer gs vk =
     (case vk_CustomerID vk of
        None \<Rightarrow> None
      | Some c \<Rightarrow> if teamCustomerID gs vk = [] \<or> c \<noteq> teamCustomerID gs vk then gs_customers gs c else None)"

definition collectBudgetsFromHierarchy ::
  "string \<Rightarrow> 'f gov_store \<Rightarrow> virtual_key \<Rightarrow> string \<Rightarrow> (string \<times> 'f budget list) list" where
  "collectBudgetsFromHierarchy scoped gs vk provider =
     (let configs = filter (\<lambda>pc. vp_Provider pc = provider) (vk_ProviderConfigs vk);
          a1 = fold (\<lambda>pc. addBudgets gs True (vp_Provider pc) (vp_Budgets pc)) configs ([], []);
          a2 = addBudgets gs True ''VK'' (vk_Budgets vk) a1;
          a3 = (case teamOf gs vk of None \<Rightarrow> a2 | Some t \<Rightarrow> addBudgets gs True ''Team'' (tm_Budgets t) a2);
          a4 = (case chargedTeamCustomer scoped gs vk of None \<Rightarrow> a3 | Some c \<Rightarrow> addBudgets gs False ''Customer'' (cu_Budgets c) a3);
          a5 = (case chargedOwnCustomer gs vk of None \<Rightarrow> a4 | Some c \<Rightarrow> addBudgets gs False ''Customer'' (cu_Budgets c) a4)
      in snd a5)"

definition collectRateLimitsFromHierarchy ::
  "string \<Rightarrow> 'f gov_store \<Rightarrow> virtual_key \<Rightarrow> string \<Rightarrow> (string \<times> rate_limit list) list" where
  "collectRateLimitsFromHierarchy scoped gs vk provider =
     (let configs = filter (\<lambda>pc. vp_Provider pc = provider) (vk_ProviderConfigs vk);
          m1 = fold (\<lambda>pc. addRateLimit gs (vp_Provider pc) (vp_RateLimitID pc)) configs [];
          m2 = addRateLimit gs ''VK'' (vk_RateLimitID vk) m1;
          m3 = (case teamOf gs vk of None \<Rightarrow> m2 | Some t \<Rightarrow> addRateLimit gs ''Team'' (tm_RateLimitID t) m2);
          m4 = (case chargedTeamCustomer scoped gs vk of None \<Rightarrow> m3 | Some c \<Rightarrow> addRateLimit gs ''Customer'' (cu_RateLimitID c) m3)
      in (case chargedOwnCustomer gs vk of None \<Rightarrow> m4 | Some c \<Rightarrow> addRateLimit gs ''Customer'' (cu_RateLimitID c) m4))"

definition collectBudgetIDsFromMemory :: "string \<Rightarrow> 'f gov_store \<Rightarrow> virtual_key \<Rightarrow> string \<Rightarrow> string list" where
  "collectBudgetIDsFromMemory scoped gs vk provider =
     map bg_ID (concat (map snd (collectBudgetsFromHierarchy scoped gs vk provider)))"

definition collectRateLimitIDsFromMemory :: "string \<Rightarrow> 'f gov_store \<Rightarrow> virtual_key \<Rightarrow> string \<Rightarrow> string list" where
  "collectRateLimitIDsFromMemory scoped gs vk provider =
     map rl_ID (concat (map snd (collectRateLimitsFromHierarchy scoped gs vk provider)))"

section \<open>Model configurations\<close>

definition ModelConfigScopeGlobal :: string where "ModelConfigScopeGlobal = ''global''"
definition ModelConfigScopeVirtualKey :: string where "ModelConfigScopeVirtualKey = ''virtual_key''"
definition ModelConfigScopeUser :: string where "ModelConfigScopeUser = ''user''"

definition modelConfigWildcard :: string where "modelConfigWildcard = ''*''"

definition modelConfigStoreKey :: "string \<Rightarrow> string \<Rightarrow> string \<Rightarrow> string option \<Rightarrow> string" where
  "modelConfigStoreKey scope scopeID modelKey provider =
     (let base = (case provider of None \<Rightarrow> modelKey | Some p \<Rightarrow> modelKey @ '':'' @ p)
      in if scope = [] \<or> scope = ModelConfigScopeGlobal then base else scope @ '':'' @ scopeID @ '':'' @ base)"

definition loadModelConfig :: "'f gov_store \<Rightarrow> string \<Rightarrow> string \<Rightarrow> string \<Rightarrow> string option \<Rightarrow> model_config option" where
  "loadModelConfig gs scope scopeID modelKey provider =
     gs_modelConfigs gs (modelConfigStoreKey scope scopeID modelKey provider)"

definition findScopedModelOnlyConfig :: "gov_env \<Rightarrow> 'f gov_store \<Rightarrow> string \<Rightarrow> string \<Rightarrow> string \<Rightarrow> model_config option" where
  "findScopedModelOnlyConfig env gs scope scopeID model =
     (let direct = loadModelConfig gs scope scopeID model None
      in case gv_baseModelName env of
           None \<Rightarrow> direct
         | Some baseName \<Rightarrow>
             if baseName model \<noteq> model
             then (case loadModelConfig gs scope scopeID (baseName model) None of Some mc \<Rightarrow> Some mc | None \<Rightarrow> direct)
             else direct)"

fun addConfigs :: "model_config option list \<Rightarrow> model_config list \<Rightarrow> model_config list" where
  "addConfigs [] out = out"
| "addConfigs (None # cs) out = addConfigs cs out"
| "addConfigs (Some mc # cs) out =
     addConfigs cs (if mc_ID mc \<in> mc_ID ` set out then out else out @ [mc])"

definition collectModelConfigsFor ::
  "gov_env \<Rightarrow> 'f gov_store \<Rightarrow> string \<Rightarrow> string \<Rightarrow> string \<Rightarrow> string option \<Rightarrow> model_config list" where
  "collectModelConfigsFor env gs scope scopeID model provider =
     addConfigs
       [if provider \<noteq> None then loadModelConfig gs scope scopeID model provider else None,
        findScopedModelOnlyConfig env gs scope scopeID model,
        if provider \<noteq> None then loadModelConfig gs scope scopeID modelConfigWildcard provider else None,
        loadModelConfig gs scope scopeID modelConfigWildcard None] []"

definition modelConfigEntityKey :: "model_config \<Rightarrow> string" where
  "modelConfigEntityKey mc =
     ''Model:'' @ (if mc_ModelName mc = modelConfigWildcard then ''AllModels'' else mc_ModelName mc)
     @ (case mc_Provider mc of None \<Rightarrow> [] | Some p \<Rightarrow> '':Provider:'' @ p)
     @ (if mc_Scope mc \<noteq> [] \<and> mc_Scope mc \<noteq> ModelConfigScopeGlobal
        then '':'' @ mc_Scope mc @ '':'' @ (case mc_ScopeID mc of None \<Rightarrow> [] | Some i \<Rightarrow> i) else [])"

definition optProvider :: "string \<Rightarrow> string option" where
  "optProvider provider = (if provider = [] then None else Some provider)"

text \<open>The loaded budgets of an owner; a store under a key replaces the entry.\<close>

definition loadedBudgets :: "'f gov_store \<Rightarrow> string list \<Rightarrow> 'f budget list" where
  "loadedBudgets gs is = List.map_filter (gs_budgets gs) is"

fun putEntity :: "string \<Rightarrow> 'x list \<Rightarrow> (string \<times> 'x list) list \<Rightarrow> (string \<times> 'x list) list" where
  "putEntity entity xs [] = [(entity, xs)]"
| "putEntity entity xs ((e, ys) # m) = (if e = entity then (e, xs) # m else (e, ys) # putEntity entity xs m)"

definition modelBudgets :: "'f gov_store \<Rightarrow> model_config list \<Rightarrow> (string \<times> 'f budget list) list" where
  "modelBudgets gs mcs =
     fold (\<lambda>mc m. let bs = loadedBudgets gs (mc_Budgets mc) in if bs = [] then m else putEntity (modelConfigEntityKey mc) bs m) mcs []"

definition modelRateLimits :: "'f gov_store \<Rightarrow> model_config list \<Rightarrow> (string \<times> rate_limit list) list" where
  "modelRateLimits gs mcs =
     fold (\<lambda>mc m. case mc_RateLimitID mc of
                     None \<Rightarrow> m
                   | Some i \<Rightarrow> (case gs_rateLimits gs i of None \<Rightarrow> m | Some r \<Rightarrow> putEntity (modelConfigEntityKey mc) [r] m)) mcs []"

section \<open>The checks of the store\<close>

text \<open>The resolver passes no baselines of other nodes.\<close>

abbreviation noBaselines :: "string \<Rightarrow> 'f option" where
  "noBaselines \<equiv> \<lambda>_. None"

type_synonym 'f checked = "decision \<times> 'f gov_error option"

definition CheckVirtualKeyBudget ::
  "gov_env \<Rightarrow> string \<Rightarrow> ('f :: {zero, plus, linorder}) gov_store \<Rightarrow> virtual_key option \<Rightarrow> string \<Rightarrow> 'f checked" where
  "CheckVirtualKeyBudget env scoped gs vk provider =
     (case vk of
        None \<Rightarrow> (DecisionVirtualKeyNotFound, Some VirtualKeyNil)
      | Some k \<Rightarrow> CheckBudget env (collectBudgetsFromHierarchy scoped gs k provider) noBaselines)"

definition CheckVirtualKeyRateLimit ::
  "gov_env \<Rightarrow> string \<Rightarrow> 'f gov_store \<Rightarrow> virtual_key option \<Rightarrow> string \<Rightarrow> 'f checked" where
  "CheckVirtualKeyRateLimit env scoped gs vk provider =
     CheckRateLimit env (case vk of None \<Rightarrow> [] | Some k \<Rightarrow> collectRateLimitsFromHierarchy scoped gs k provider) noBaselines noBaselines"

definition CheckProviderBudget :: "gov_env \<Rightarrow> ('f :: {zero, plus, linorder}) gov_store \<Rightarrow> string \<Rightarrow> 'f checked" where
  "CheckProviderBudget env gs provider =
     (case Option.bind (gs_providers gs provider) (\<lambda>pt. Option.bind (pt_BudgetID pt) (gs_budgets gs)) of
        None \<Rightarrow> (DecisionAllow, None)
      | Some b \<Rightarrow> CheckBudget env [(provider, [b])] noBaselines)"

definition CheckProviderRateLimit :: "gov_env \<Rightarrow> 'f gov_store \<Rightarrow> string \<Rightarrow> 'f checked" where
  "CheckProviderRateLimit env gs provider =
     (case Option.bind (gs_providers gs provider) (\<lambda>pt. Option.bind (pt_RateLimitID pt) (gs_rateLimits gs)) of
        None \<Rightarrow> (DecisionAllow, None)
      | Some r \<Rightarrow> CheckRateLimit env [(provider, [r])] noBaselines noBaselines)"

definition CheckModelBudget :: "gov_env \<Rightarrow> ('f :: {zero, plus, linorder}) gov_store \<Rightarrow> string \<Rightarrow> string \<Rightarrow> 'f checked" where
  "CheckModelBudget env gs provider model =
     CheckBudget env (modelBudgets gs (collectModelConfigsFor env gs ModelConfigScopeGlobal [] model (optProvider provider))) noBaselines"

definition CheckModelRateLimit :: "gov_env \<Rightarrow> 'f gov_store \<Rightarrow> string \<Rightarrow> string \<Rightarrow> 'f checked" where
  "CheckModelRateLimit env gs provider model =
     CheckRateLimit env (modelRateLimits gs (collectModelConfigsFor env gs ModelConfigScopeGlobal [] model (optProvider provider)))
       noBaselines noBaselines"

definition CheckScopedModelBudget ::
  "gov_env \<Rightarrow> ('f :: {zero, plus, linorder}) gov_store \<Rightarrow> string \<Rightarrow> string \<Rightarrow> string \<Rightarrow> string \<Rightarrow> 'f checked" where
  "CheckScopedModelBudget env gs scope scopeID provider model =
     (if scope = [] \<or> scopeID = [] then (DecisionAllow, None)
      else CheckBudget env (modelBudgets gs (collectModelConfigsFor env gs scope scopeID model (optProvider provider))) noBaselines)"

definition CheckScopedModelRateLimit ::
  "gov_env \<Rightarrow> 'f gov_store \<Rightarrow> string \<Rightarrow> string \<Rightarrow> string \<Rightarrow> string \<Rightarrow> 'f checked" where
  "CheckScopedModelRateLimit env gs scope scopeID provider model =
     (if scope = [] \<or> scopeID = [] then (DecisionAllow, None)
      else CheckRateLimit env (modelRateLimits gs (collectModelConfigsFor env gs scope scopeID model (optProvider provider)))
             noBaselines noBaselines)"

definition CheckTeamBudget :: "gov_env \<Rightarrow> ('f :: {zero, plus, linorder}) gov_store \<Rightarrow> string \<Rightarrow> 'f checked" where
  "CheckTeamBudget env gs teamID =
     (if teamID = [] then (DecisionAllow, None)
      else case gs_teams gs teamID of
             None \<Rightarrow> (DecisionAllow, None)
           | Some t \<Rightarrow> (case loadedBudgets gs (tm_Budgets t) of
                         [] \<Rightarrow> (DecisionAllow, None)
                       | bs \<Rightarrow> CheckBudget env [(''Team:'' @ teamID, bs)] noBaselines))"

definition CheckTeamRateLimit :: "gov_env \<Rightarrow> 'f gov_store \<Rightarrow> string \<Rightarrow> 'f checked" where
  "CheckTeamRateLimit env gs teamID =
     (case Option.bind (gs_teams gs teamID) (\<lambda>t. Option.bind (tm_RateLimitID t) (gs_rateLimits gs)) of
        None \<Rightarrow> (DecisionAllow, None)
      | Some r \<Rightarrow> CheckRateLimit env [(''Team:'' @ teamID, [r])] noBaselines noBaselines)"

definition CheckCustomerBudget :: "gov_env \<Rightarrow> ('f :: {zero, plus, linorder}) gov_store \<Rightarrow> string \<Rightarrow> 'f checked" where
  "CheckCustomerBudget env gs customerID =
     (if customerID = [] then (DecisionAllow, None)
      else case gs_customers gs customerID of
             None \<Rightarrow> (DecisionAllow, None)
           | Some c \<Rightarrow> (case loadedBudgets gs (cu_Budgets c) of
                         [] \<Rightarrow> (DecisionAllow, None)
                       | bs \<Rightarrow> CheckBudget env [(''Customer:'' @ customerID, bs)] noBaselines))"

definition CheckCustomerRateLimit :: "gov_env \<Rightarrow> 'f gov_store \<Rightarrow> string \<Rightarrow> 'f checked" where
  "CheckCustomerRateLimit env gs customerID =
     (if customerID = [] then (DecisionAllow, None)
      else case Option.bind (gs_customers gs customerID) (\<lambda>c. Option.bind (cu_RateLimitID c) (gs_rateLimits gs)) of
             None \<Rightarrow> (DecisionAllow, None)
           | Some r \<Rightarrow> CheckRateLimit env [(''Customer:'' @ customerID, [r])] noBaselines noBaselines)"

text \<open>Users have no governance of their own in this build.\<close>

definition CheckUserBudget :: "string \<Rightarrow> 'f checked" where
  "CheckUserBudget userID = (DecisionAllow, None)"

definition CheckUserRateLimit :: "string \<Rightarrow> 'f checked" where
  "CheckUserRateLimit userID = (DecisionAllow, None)"

section \<open>Charging\<close>

definition bumpBudgets :: "gov_env \<Rightarrow> 'f \<Rightarrow> string list \<Rightarrow> ('f :: {zero, plus}) gov_store \<Rightarrow> 'f gov_store" where
  "bumpBudgets env cost is gs = fold (\<lambda>i. BumpBudgetUsage env i cost) is gs"

definition bumpRateLimits :: "gov_env \<Rightarrow> int \<Rightarrow> bool \<Rightarrow> bool \<Rightarrow> string list \<Rightarrow> 'f gov_store \<Rightarrow> 'f gov_store" where
  "bumpRateLimits env tokensUsed updateTokens updateRequests is gs =
     fold (\<lambda>i. BumpRateLimitUsage env i tokensUsed updateTokens updateRequests) is gs"

text \<open>None is the error of a nil key.\<close>

definition UpdateVirtualKeyBudgetUsageInMemory ::
  "gov_env \<Rightarrow> string \<Rightarrow> virtual_key option \<Rightarrow> string \<Rightarrow> 'f \<Rightarrow> ('f :: {zero, plus}) gov_store \<Rightarrow> 'f gov_store option" where
  "UpdateVirtualKeyBudgetUsageInMemory env scoped vk provider cost gs =
     map_option (\<lambda>k. bumpBudgets env cost (collectBudgetIDsFromMemory scoped gs k provider) gs) vk"

definition UpdateVirtualKeyRateLimitUsageInMemory ::
  "gov_env \<Rightarrow> string \<Rightarrow> virtual_key option \<Rightarrow> string \<Rightarrow> int \<Rightarrow> bool \<Rightarrow> bool \<Rightarrow> 'f gov_store \<Rightarrow> 'f gov_store option" where
  "UpdateVirtualKeyRateLimitUsageInMemory env scoped vk provider tokensUsed updateTokens updateRequests gs =
     map_option (\<lambda>k. bumpRateLimits env tokensUsed updateTokens updateRequests
                        (collectRateLimitIDsFromMemory scoped gs k provider) gs) vk"

definition providerBudgetID :: "'f gov_store \<Rightarrow> string \<Rightarrow> string option" where
  "providerBudgetID gs provider = (if provider = [] then None else Option.bind (gs_providers gs provider) pt_BudgetID)"

definition providerRateLimitID :: "'f gov_store \<Rightarrow> string \<Rightarrow> string option" where
  "providerRateLimitID gs provider = (if provider = [] then None else Option.bind (gs_providers gs provider) pt_RateLimitID)"

definition bumpModelBudgets :: "gov_env \<Rightarrow> 'f \<Rightarrow> model_config list \<Rightarrow> ('f :: {zero, plus}) gov_store \<Rightarrow> 'f gov_store" where
  "bumpModelBudgets env cost mcs gs = fold (\<lambda>mc. bumpBudgets env cost (mc_Budgets mc)) mcs gs"

definition bumpModelRateLimits ::
  "gov_env \<Rightarrow> int \<Rightarrow> bool \<Rightarrow> bool \<Rightarrow> model_config list \<Rightarrow> 'f gov_store \<Rightarrow> 'f gov_store" where
  "bumpModelRateLimits env tokensUsed updateTokens updateRequests mcs gs =
     fold (\<lambda>mc. bumpRateLimits env tokensUsed updateTokens updateRequests
                  (case mc_RateLimitID mc of None \<Rightarrow> [] | Some i \<Rightarrow> [i])) mcs gs"

definition UpdateProviderAndModelBudgetUsageInMemory ::
  "gov_env \<Rightarrow> string \<Rightarrow> string \<Rightarrow> 'f \<Rightarrow> ('f :: {zero, plus}) gov_store \<Rightarrow> 'f gov_store" where
  "UpdateProviderAndModelBudgetUsageInMemory env model provider cost gs =
     (let gs1 = (case providerBudgetID gs provider of None \<Rightarrow> gs | Some i \<Rightarrow> BumpBudgetUsage env i cost gs)
      in bumpModelBudgets env cost
           (collectModelConfigsFor env gs1 ModelConfigScopeGlobal [] model (optProvider provider)) gs1)"

definition UpdateProviderAndModelRateLimitUsageInMemory ::
  "gov_env \<Rightarrow> string \<Rightarrow> string \<Rightarrow> int \<Rightarrow> bool \<Rightarrow> bool \<Rightarrow> 'f gov_store \<Rightarrow> 'f gov_store" where
  "UpdateProviderAndModelRateLimitUsageInMemory env model provider tokensUsed updateTokens updateRequests gs =
     (let gs1 = (case providerRateLimitID gs provider of
                   None \<Rightarrow> gs
                 | Some i \<Rightarrow> BumpRateLimitUsage env i tokensUsed updateTokens updateRequests gs)
      in bumpModelRateLimits env tokensUsed updateTokens updateRequests
           (collectModelConfigsFor env gs1 ModelConfigScopeGlobal [] model (optProvider provider)) gs1)"

definition UpdateScopedModelBudgetUsageInMemory ::
  "gov_env \<Rightarrow> string \<Rightarrow> string \<Rightarrow> string \<Rightarrow> string \<Rightarrow> 'f \<Rightarrow> ('f :: {zero, plus}) gov_store \<Rightarrow> 'f gov_store" where
  "UpdateScopedModelBudgetUsageInMemory env scope scopeID model provider cost gs =
     (if scope = [] \<or> scopeID = [] then gs
      else bumpModelBudgets env cost (collectModelConfigsFor env gs scope scopeID model (optProvider provider)) gs)"

definition UpdateScopedModelRateLimitUsageInMemory ::
  "gov_env \<Rightarrow> string \<Rightarrow> string \<Rightarrow> string \<Rightarrow> string \<Rightarrow> int \<Rightarrow> bool \<Rightarrow> bool \<Rightarrow> 'f gov_store \<Rightarrow> 'f gov_store" where
  "UpdateScopedModelRateLimitUsageInMemory env scope scopeID model provider tokensUsed updateTokens updateRequests gs =
     (if scope = [] \<or> scopeID = [] then gs
      else bumpModelRateLimits env tokensUsed updateTokens updateRequests
             (collectModelConfigsFor env gs scope scopeID model (optProvider provider)) gs)"

definition UpdateUserBudgetUsageInMemory :: "string \<Rightarrow> 'f \<Rightarrow> 'f gov_store \<Rightarrow> 'f gov_store" where
  "UpdateUserBudgetUsageInMemory userID cost gs = gs"

definition UpdateUserRateLimitUsageInMemory :: "string \<Rightarrow> int \<Rightarrow> bool \<Rightarrow> bool \<Rightarrow> 'f gov_store \<Rightarrow> 'f gov_store" where
  "UpdateUserRateLimitUsageInMemory userID tokensUsed updateTokens updateRequests gs = gs"

text \<open>The identifiers a request touches, each once, in the order they are found.\<close>

fun addUnseen :: "string list \<Rightarrow> string list \<Rightarrow> string list" where
  "addUnseen [] out = out"
| "addUnseen (i # is) out = addUnseen is (if i \<in> set out then out else out @ [i])"

definition optList :: "'a option \<Rightarrow> 'a list" where
  "optList x = (case x of None \<Rightarrow> [] | Some y \<Rightarrow> [y])"

definition GetVirtualKey :: "'f gov_store \<Rightarrow> string \<Rightarrow> virtual_key option" where
  "GetVirtualKey gs vkValue = gs_virtualKeys gs vkValue"

definition nonGlobalModelConfigScopeChain :: "virtual_key option \<Rightarrow> (string \<times> string) list" where
  "nonGlobalModelConfigScopeChain vk = (case vk of None \<Rightarrow> [] | Some k \<Rightarrow> [(ModelConfigScopeVirtualKey, vk_ID k)])"

text \<open>The model configurations that apply: global, of the user, of the key.\<close>

definition applicableConfigs ::
  "gov_env \<Rightarrow> 'f gov_store \<Rightarrow> virtual_key option \<Rightarrow> string \<Rightarrow> string \<Rightarrow> string \<Rightarrow> model_config list" where
  "applicableConfigs env gs vk userID provider model =
     (if model = [] then []
      else collectModelConfigsFor env gs ModelConfigScopeGlobal [] model (optProvider provider)
        @ (if userID = [] then [] else collectModelConfigsFor env gs ModelConfigScopeUser userID model (optProvider provider))
        @ concat (map (\<lambda>(name, i). collectModelConfigsFor env gs name i model (optProvider provider))
                   (nonGlobalModelConfigScopeChain vk)))"

definition CollectApplicableGovernanceIDs ::
  "gov_env \<Rightarrow> string \<Rightarrow> 'f gov_store \<Rightarrow> string \<Rightarrow> string \<Rightarrow> string \<Rightarrow> string \<Rightarrow> string list \<times> string list" where
  "CollectApplicableGovernanceIDs env scoped gs virtualKey userID provider model =
     (let vk = (if virtualKey = [] then None else GetVirtualKey gs virtualKey);
          mcs = applicableConfigs env gs vk userID provider model
      in (addUnseen (optList (providerBudgetID gs provider) @ concat (map mc_Budgets mcs)
                     @ (case vk of None \<Rightarrow> [] | Some k \<Rightarrow> collectBudgetIDsFromMemory scoped gs k provider)) [],
          addUnseen (optList (providerRateLimitID gs provider) @ concat (map (optList \<circ> mc_RateLimitID) mcs)
                     @ (case vk of None \<Rightarrow> [] | Some k \<Rightarrow> collectRateLimitIDsFromMemory scoped gs k provider)) []))"

lemma set_addUnseen: "set (addUnseen is out) = set is \<union> set out"
  by (induction "is" arbitrary: out) auto

lemma distinct_addUnseen: "distinct out \<Longrightarrow> distinct (addUnseen is out)"
  by (induction "is" arbitrary: out) auto

section \<open>When a check allows\<close>

definition entityItems :: "(string \<times> 'x list) list \<Rightarrow> 'x set" where
  "entityItems m = \<Union> ((set \<circ> snd) ` set m)"

lemma entityItems_simps [simp]:
  "entityItems [] = {}"
  "entityItems ((e, xs) # m) = set xs \<union> entityItems m"
  by (auto simp: entityItems_def)

lemma firstError_None: "firstError f e xs = None \<longleftrightarrow> (\<forall>x\<in>set xs. f e x = None)"
  by (induction xs) (auto split: option.splits)

lemma firstEntityError_None: "firstEntityError f m = None \<longleftrightarrow> (\<forall>(e, xs)\<in>set m. \<forall>x\<in>set xs. f e x = None)"
  by (induction f m rule: firstEntityError.induct) (auto simp: firstError_None [symmetric] split: option.splits)

text \<open>A limit that is not reached, or whose window is over. The sum with zero is the usage with the
  baseline of the other nodes, none here.\<close>

definition withinBudget :: "gov_env \<Rightarrow> ('f :: {zero, plus, linorder}) budget \<Rightarrow> bool" where
  "withinBudget env b \<longleftrightarrow> budgetExpired env b \<or> bg_CurrentUsage b + 0 < bg_MaxLimit b"

definition withinRateLimit :: "gov_env \<Rightarrow> rate_limit \<Rightarrow> bool" where
  "withinRateLimit env r \<longleftrightarrow>
     (\<forall>m. rl_TokenMaxLimit r = Some m
        \<longrightarrow> optWindowOver env (rl_TokenResetDuration r) (rl_TokenLastReset r) \<or> wrap64 (rl_TokenCurrentUsage r) < m)
   \<and> (\<forall>m. rl_RequestMaxLimit r = Some m
        \<longrightarrow> optWindowOver env (rl_RequestResetDuration r) (rl_RequestLastReset r) \<or> wrap64 (rl_RequestCurrentUsage r) < m)"

lemma budgetError_None: "budgetError env noBaselines e b = None \<longleftrightarrow> withinBudget env b"
  by (auto simp: budgetError_def withinBudget_def Let_def baselineOf_def)

lemma rateViolations_None: "rateViolations env noBaselines noBaselines r = [] \<longleftrightarrow> withinRateLimit env r"
  by (auto simp: rateViolations_def withinRateLimit_def Let_def baselineOf_def split: option.splits)

lemma rateError_None: "rateError env noBaselines noBaselines e r = None \<longleftrightarrow> withinRateLimit env r"
  by (auto simp: rateError_def rateViolations_None [symmetric] split: list.splits violation.splits)

lemma rateError_decision: "rateError env tokens requests e r = Some (d, err) \<Longrightarrow> d \<noteq> DecisionAllow"
  by (auto simp: rateError_def split: list.splits violation.splits)

lemma firstEntityError_Some:
  "firstEntityError f m = Some x \<Longrightarrow> \<exists>(e, xs)\<in>set m. \<exists>y\<in>set xs. f e y = Some x"
proof (induction f m rule: firstEntityError.induct)
  case (2 f entity xs m)
  have "firstError f entity xs = Some x \<Longrightarrow> \<exists>y\<in>set xs. f entity y = Some x"
    by (induction xs) (auto split: option.splits)
  with 2 show ?case by (fastforce split: option.splits)
qed simp

text \<open>A check answers with an error exactly when it does not allow.\<close>

definition coherent :: "'f checked \<Rightarrow> bool" where
  "coherent ch \<longleftrightarrow> (snd ch = None \<longleftrightarrow> fst ch = DecisionAllow)"

lemma coherent_allow [simp]: "coherent (DecisionAllow, None)"
  by (simp add: coherent_def)

lemma coherent_CheckBudget [simp]: "coherent (CheckBudget env m baselines)"
  by (simp add: CheckBudget_def coherent_def split: option.split)

lemma coherent_CheckRateLimit [simp]: "coherent (CheckRateLimit env m tokens requests)"
  unfolding CheckRateLimit_def coherent_def
  by (auto split: option.splits dest!: firstEntityError_Some rateError_decision)

lemma CheckBudget_allow:
  "fst (CheckBudget env m noBaselines) = DecisionAllow \<longleftrightarrow> (\<forall>b\<in>entityItems m. withinBudget env b)"
proof -
  have "fst (CheckBudget env m noBaselines) = DecisionAllow \<longleftrightarrow> firstEntityError (budgetError env noBaselines) m = None"
    by (simp add: CheckBudget_def split: option.split)
  then show ?thesis by (auto simp: firstEntityError_None budgetError_None entityItems_def)
qed

lemma CheckRateLimit_allow:
  "fst (CheckRateLimit env m noBaselines noBaselines :: 'f checked) = DecisionAllow
   \<longleftrightarrow> (\<forall>r\<in>entityItems m. withinRateLimit env r)"
proof -
  let ?e = "firstEntityError (rateError env noBaselines noBaselines :: _ \<Rightarrow> _ \<Rightarrow> (decision \<times> 'f gov_error) option) m"
  have "fst (CheckRateLimit env m noBaselines noBaselines :: 'f checked) = DecisionAllow \<longleftrightarrow> ?e = None"
    by (auto simp: CheckRateLimit_def split: option.split dest!: firstEntityError_Some rateError_decision)
  then show ?thesis by (auto simp: firstEntityError_None rateError_None entityItems_def)
qed

lemma coherent_checks [simp]:
  "coherent (CheckVirtualKeyBudget env scoped gs (Some vk) provider)"
  "coherent (CheckVirtualKeyRateLimit env scoped gs vkey provider)"
  "coherent (CheckProviderBudget env gs provider)" "coherent (CheckProviderRateLimit env gs provider)"
  "coherent (CheckModelBudget env gs provider model)" "coherent (CheckModelRateLimit env gs provider model)"
  "coherent (CheckScopedModelBudget env gs scope i provider model)"
  "coherent (CheckScopedModelRateLimit env gs scope i provider model)"
  "coherent (CheckTeamBudget env gs i)" "coherent (CheckTeamRateLimit env gs i)"
  "coherent (CheckCustomerBudget env gs i)" "coherent (CheckCustomerRateLimit env gs i)"
  "coherent (CheckUserBudget i)" "coherent (CheckUserRateLimit i)"
  by (simp_all add: CheckVirtualKeyBudget_def CheckVirtualKeyRateLimit_def CheckProviderBudget_def CheckProviderRateLimit_def
      CheckModelBudget_def CheckModelRateLimit_def CheckScopedModelBudget_def CheckScopedModelRateLimit_def
      CheckTeamBudget_def CheckTeamRateLimit_def CheckCustomerBudget_def CheckCustomerRateLimit_def
      CheckUserBudget_def CheckUserRateLimit_def split: option.split list.split)

section \<open>What the collectors find\<close>

lemma entityItems_addEntity [simp]: "entityItems (addEntity e x m) = insert x (entityItems m)"
  by (induction e x m rule: addEntity.induct) auto

lemma entityItems_ids: "set (map g (concat (map snd m))) = g ` entityItems m"
  by (auto simp: entityItems_def)

text \<open>Every counter is stored under its own identifier.\<close>

definition budgetIDsOk :: "'f gov_store \<Rightarrow> bool" where
  "budgetIDsOk gs \<longleftrightarrow> (\<forall>i b. gs_budgets gs i = Some b \<longrightarrow> bg_ID b = i)"

definition rateIDsOk :: "'f gov_store \<Rightarrow> bool" where
  "rateIDsOk gs \<longleftrightarrow> (\<forall>i r. gs_rateLimits gs i = Some r \<longrightarrow> rl_ID r = i)"

lemma budgetIDsOkD: "budgetIDsOk gs \<Longrightarrow> gs_budgets gs i = Some b \<Longrightarrow> bg_ID b = i"
  by (simp add: budgetIDsOk_def)

definition loadedFrom :: "(string \<Rightarrow> 'x option) \<Rightarrow> string set \<Rightarrow> 'x set" where
  "loadedFrom f is = {x. \<exists>i\<in>is. f i = Some x}"

lemma loadedFrom_simps [simp]:
  "loadedFrom f {} = {}"
  "loadedFrom f (A \<union> B) = loadedFrom f A \<union> loadedFrom f B"
  "loadedFrom f (insert i A) = set_option (f i) \<union> loadedFrom f A"
  by (auto simp: loadedFrom_def)

lemma addBudgets_items:
  assumes "budgetIDsOk gs"
    and "\<forall>i\<in>set (fst acc). set_option (gs_budgets gs i) \<subseteq> entityItems (snd acc)"
  shows "entityItems (snd (addBudgets gs skipSeen e is acc)) = entityItems (snd acc) \<union> loadedFrom (gs_budgets gs) (set is)
    \<and> (\<forall>i\<in>set (fst (addBudgets gs skipSeen e is acc)).
         set_option (gs_budgets gs i) \<subseteq> entityItems (snd (addBudgets gs skipSeen e is acc)))"
  using assms(2)
proof (induction "is" arbitrary: acc)
  case (Cons i "is")
  obtain seen m where acc: "acc = (seen, m)" by fastforce
  have inv: "\<forall>j\<in>set seen. set_option (gs_budgets gs j) \<subseteq> entityItems m" using Cons.prems by (simp add: acc)
  define a1 where "a1 = (if skipSeen \<and> i \<in> set seen then (seen, m)
    else case gs_budgets gs i of None \<Rightarrow> (seen, m) | Some b \<Rightarrow> (bg_ID b # seen, addEntity e b m))"
  have step: "addBudgets gs skipSeen e (i # is) acc = addBudgets gs skipSeen e is a1"
    unfolding acc a1_def by simp
  have a1: "\<forall>j\<in>set (fst a1). set_option (gs_budgets gs j) \<subseteq> entityItems (snd a1)"
  proof (cases "gs_budgets gs i")
    case (Some b)
    then have "gs_budgets gs (bg_ID b) = Some b" using budgetIDsOkD [OF assms(1) Some] by simp
    then show ?thesis using inv Some by (auto simp: a1_def)
  qed (use inv in \<open>auto simp: a1_def\<close>)
  have items: "entityItems (snd a1) = entityItems m \<union> set_option (gs_budgets gs i)"
    using inv by (auto simp: a1_def split: option.splits)
  show ?case unfolding step
    by (rule conjI [OF _ conjunct2 [OF Cons.IH [OF a1]]]) (simp add: conjunct1 [OF Cons.IH [OF a1]] items acc Un_assoc)
qed simp

text \<open>The owners of a request's limits: the configurations of the provider, the key, its team and the
  customers it is charged to.\<close>

definition hierarchyBudgetIDs :: "string \<Rightarrow> 'f gov_store \<Rightarrow> virtual_key \<Rightarrow> string \<Rightarrow> string set" where
  "hierarchyBudgetIDs scoped gs vk provider =
     (\<Union>pc\<in>{pc \<in> set (vk_ProviderConfigs vk). vp_Provider pc = provider}. set (vp_Budgets pc))
     \<union> set (vk_Budgets vk)
     \<union> (\<Union>t\<in>set_option (teamOf gs vk). set (tm_Budgets t))
     \<union> (\<Union>c\<in>set_option (chargedTeamCustomer scoped gs vk). set (cu_Budgets c))
     \<union> (\<Union>c\<in>set_option (chargedOwnCustomer gs vk). set (cu_Budgets c))"

definition hierarchyRateLimitIDs :: "string \<Rightarrow> 'f gov_store \<Rightarrow> virtual_key \<Rightarrow> string \<Rightarrow> string set" where
  "hierarchyRateLimitIDs scoped gs vk provider =
     (\<Union>pc\<in>{pc \<in> set (vk_ProviderConfigs vk). vp_Provider pc = provider}. set_option (vp_RateLimitID pc))
     \<union> set_option (vk_RateLimitID vk)
     \<union> (\<Union>t\<in>set_option (teamOf gs vk). set_option (tm_RateLimitID t))
     \<union> (\<Union>c\<in>set_option (chargedTeamCustomer scoped gs vk). set_option (cu_RateLimitID c))
     \<union> (\<Union>c\<in>set_option (chargedOwnCustomer gs vk). set_option (cu_RateLimitID c))"

definition seenOk :: "'f gov_store \<Rightarrow> string list \<times> (string \<times> 'f budget list) list \<Rightarrow> bool" where
  "seenOk gs acc \<longleftrightarrow> (\<forall>i\<in>set (fst acc). set_option (gs_budgets gs i) \<subseteq> entityItems (snd acc))"

lemma seenOk_addBudgets: "budgetIDsOk gs \<Longrightarrow> seenOk gs acc \<Longrightarrow> seenOk gs (addBudgets gs skipSeen e is acc)"
  using addBudgets_items [of gs acc skipSeen e "is"] unfolding seenOk_def by blast

lemma items_addBudgets:
  "budgetIDsOk gs \<Longrightarrow> seenOk gs acc \<Longrightarrow>
   entityItems (snd (addBudgets gs skipSeen e is acc)) = entityItems (snd acc) \<union> loadedFrom (gs_budgets gs) (set is)"
  using addBudgets_items [of gs acc skipSeen e "is"] by (simp add: seenOk_def)

lemma fold_addBudgets:
  assumes "budgetIDsOk gs" "seenOk gs acc"
  shows "seenOk gs (fold (\<lambda>pc. addBudgets gs True (vp_Provider pc) (vp_Budgets pc)) pcs acc)
    \<and> entityItems (snd (fold (\<lambda>pc. addBudgets gs True (vp_Provider pc) (vp_Budgets pc)) pcs acc))
      = entityItems (snd acc) \<union> loadedFrom (gs_budgets gs) (\<Union>pc\<in>set pcs. set (vp_Budgets pc))"
  using assms(2)
  by (induction pcs arbitrary: acc) (simp_all add: seenOk_addBudgets items_addBudgets assms(1) Un_assoc)

lemma collectBudgets_items:
  assumes "budgetIDsOk gs"
  shows "entityItems (collectBudgetsFromHierarchy scoped gs vk provider)
    = loadedFrom (gs_budgets gs) (hierarchyBudgetIDs scoped gs vk provider)"
proof -
  have empty: "seenOk gs ([], [])" by (simp add: seenOk_def)
  show ?thesis
    unfolding collectBudgetsFromHierarchy_def hierarchyBudgetIDs_def Let_def
    by (cases "teamOf gs vk"; cases "chargedTeamCustomer scoped gs vk"; cases "chargedOwnCustomer gs vk")
      (simp_all add: items_addBudgets seenOk_addBudgets fold_addBudgets [OF assms empty] assms)
qed

lemma addRateLimit_items:
  "entityItems (addRateLimit gs e i m) = entityItems m \<union> loadedFrom (gs_rateLimits gs) (set_option i)"
  by (auto simp: addRateLimit_def split: option.split)

lemma fold_addRateLimit:
  "entityItems (fold (\<lambda>pc. addRateLimit gs (vp_Provider pc) (vp_RateLimitID pc)) pcs m)
   = entityItems m \<union> loadedFrom (gs_rateLimits gs) (\<Union>pc\<in>set pcs. set_option (vp_RateLimitID pc))"
  by (induction pcs arbitrary: m) (simp_all add: addRateLimit_items Un_assoc)

lemma collectRateLimits_items:
  "entityItems (collectRateLimitsFromHierarchy scoped gs vk provider)
   = loadedFrom (gs_rateLimits gs) (hierarchyRateLimitIDs scoped gs vk provider)"
  unfolding collectRateLimitsFromHierarchy_def hierarchyRateLimitIDs_def Let_def
  by (cases "teamOf gs vk"; cases "chargedTeamCustomer scoped gs vk"; cases "chargedOwnCustomer gs vk")
    (simp_all add: addRateLimit_items fold_addRateLimit)

lemma collectBudgetIDs_set:
  assumes "budgetIDsOk gs"
  shows "set (collectBudgetIDsFromMemory scoped gs vk provider) = hierarchyBudgetIDs scoped gs vk provider \<inter> dom (gs_budgets gs)"
  unfolding collectBudgetIDsFromMemory_def entityItems_ids collectBudgets_items [OF assms] loadedFrom_def
  using assms by (force simp: budgetIDsOk_def)

lemma collectRateLimitIDs_set:
  assumes "rateIDsOk gs"
  shows "set (collectRateLimitIDsFromMemory scoped gs vk provider)
    = hierarchyRateLimitIDs scoped gs vk provider \<inter> dom (gs_rateLimits gs)"
  unfolding collectRateLimitIDsFromMemory_def entityItems_ids collectRateLimits_items loadedFrom_def
  using assms by (force simp: rateIDsOk_def)

section \<open>What the model configurations give\<close>

lemma addConfigs_set: "set (addConfigs cs out) \<subseteq> set out \<union> {mc. Some mc \<in> set cs}"
  by (induction cs out rule: addConfigs.induct) auto

lemma addConfigs_distinct: "distinct (map mc_ID out) \<Longrightarrow> distinct (map mc_ID (addConfigs cs out))"
  by (induction cs out rule: addConfigs.induct) auto

lemma collectModelConfigsFor_stored:
  "set (collectModelConfigsFor env gs scope i model provider) \<subseteq> ran (gs_modelConfigs gs)"
proof
  fix mc assume "mc \<in> set (collectModelConfigsFor env gs scope i model provider)"
  then have "Some mc \<in> set
     [if provider \<noteq> None then loadModelConfig gs scope i model provider else None,
      findScopedModelOnlyConfig env gs scope i model,
      if provider \<noteq> None then loadModelConfig gs scope i modelConfigWildcard provider else None,
      loadModelConfig gs scope i modelConfigWildcard None]"
    unfolding collectModelConfigsFor_def by (auto dest: addConfigs_set [THEN subsetD])
  then show "mc \<in> ran (gs_modelConfigs gs)"
    by (auto simp: loadModelConfig_def findScopedModelOnlyConfig_def Let_def intro: ranI split: if_splits option.splits)
qed

lemma collectModelConfigsFor_distinct: "distinct (collectModelConfigsFor env gs scope i model provider)"
  unfolding collectModelConfigsFor_def by (rule distinct_map [THEN iffD1, THEN conjunct1, OF addConfigs_distinct]) simp

lemma putEntity_items: "e \<notin> fst ` set m \<Longrightarrow> entityItems (putEntity e xs m) = set xs \<union> entityItems m"
  by (induction e xs m rule: putEntity.induct) auto

lemma putEntity_keys: "fst ` set (putEntity e xs m) = insert e (fst ` set m)"
  by (induction e xs m rule: putEntity.induct) auto

text \<open>No two stored configurations print alike.\<close>

definition keysOk :: "'f gov_store \<Rightarrow> bool" where
  "keysOk gs \<longleftrightarrow> inj_on modelConfigEntityKey (ran (gs_modelConfigs gs))"

lemma set_loadedBudgets: "set (loadedBudgets gs is) = loadedFrom (gs_budgets gs) (set is)"
  by (force simp: loadedBudgets_def List.map_filter_def loadedFrom_def)

lemma fold_modelBudgets:
  assumes "inj_on modelConfigEntityKey (set mcs)" "distinct mcs" "fst ` set m \<inter> modelConfigEntityKey ` set mcs = {}"
  shows "entityItems (fold (\<lambda>mc m. let bs = loadedBudgets gs (mc_Budgets mc)
                                   in if bs = [] then m else putEntity (modelConfigEntityKey mc) bs m) mcs m)
    = entityItems m \<union> loadedFrom (gs_budgets gs) (\<Union>mc\<in>set mcs. set (mc_Budgets mc))"
  using assms
proof (induction mcs arbitrary: m)
  case (Cons mc mcs)
  define m1 where "m1 = (let bs = loadedBudgets gs (mc_Budgets mc)
    in if bs = [] then m else putEntity (modelConfigEntityKey mc) bs m)"
  have fresh: "modelConfigEntityKey mc \<notin> fst ` set m" using Cons.prems(3) by auto
  have items: "entityItems m1 = entityItems m \<union> loadedFrom (gs_budgets gs) (set (mc_Budgets mc))"
    using set_loadedBudgets [of gs "mc_Budgets mc"] fresh by (auto simp: m1_def Let_def putEntity_items)
  have "modelConfigEntityKey mc \<notin> modelConfigEntityKey ` set mcs"
    using Cons.prems(1,2) by (auto simp: inj_on_def)
  then have "fst ` set m1 \<inter> modelConfigEntityKey ` set mcs = {}"
    using Cons.prems(3) by (auto simp: m1_def Let_def putEntity_keys)
  with Cons.IH [of m1] Cons.prems(1,2) items show ?case by (simp add: m1_def [symmetric] Un_assoc)
qed simp

lemma fold_modelRateLimits:
  assumes "inj_on modelConfigEntityKey (set mcs)" "distinct mcs" "fst ` set m \<inter> modelConfigEntityKey ` set mcs = {}"
  shows "entityItems (fold (\<lambda>mc m. case mc_RateLimitID mc of
                     None \<Rightarrow> m
                   | Some i \<Rightarrow> (case gs_rateLimits gs i of None \<Rightarrow> m | Some r \<Rightarrow> putEntity (modelConfigEntityKey mc) [r] m)) mcs m)
    = entityItems m \<union> loadedFrom (gs_rateLimits gs) (\<Union>mc\<in>set mcs. set_option (mc_RateLimitID mc))"
  using assms
proof (induction mcs arbitrary: m)
  case (Cons mc mcs)
  define m1 where "m1 = (case mc_RateLimitID mc of
      None \<Rightarrow> m
    | Some i \<Rightarrow> (case gs_rateLimits gs i of None \<Rightarrow> m | Some r \<Rightarrow> putEntity (modelConfigEntityKey mc) [r] m))"
  have fresh: "modelConfigEntityKey mc \<notin> fst ` set m" using Cons.prems(3) by auto
  have items: "entityItems m1 = entityItems m \<union> loadedFrom (gs_rateLimits gs) (set_option (mc_RateLimitID mc))"
    using fresh by (auto simp: m1_def putEntity_items split: option.split)
  have "modelConfigEntityKey mc \<notin> modelConfigEntityKey ` set mcs"
    using Cons.prems(1,2) by (auto simp: inj_on_def)
  then have "fst ` set m1 \<inter> modelConfigEntityKey ` set mcs = {}"
    using Cons.prems(3) by (auto simp: m1_def putEntity_keys split: option.split)
  with Cons.IH [of m1] Cons.prems(1,2) items show ?case by (simp add: m1_def [symmetric] Un_assoc)
qed simp

lemma modelBudgets_items:
  assumes "keysOk gs"
  shows "entityItems (modelBudgets gs (collectModelConfigsFor env gs scope i model provider))
    = loadedFrom (gs_budgets gs) (\<Union>mc\<in>set (collectModelConfigsFor env gs scope i model provider). set (mc_Budgets mc))"
  unfolding modelBudgets_def
  by (subst fold_modelBudgets)
    (use assms inj_on_subset [OF _ collectModelConfigsFor_stored] collectModelConfigsFor_distinct in \<open>auto simp: keysOk_def\<close>)

lemma modelRateLimits_items:
  assumes "keysOk gs"
  shows "entityItems (modelRateLimits gs (collectModelConfigsFor env gs scope i model provider))
    = loadedFrom (gs_rateLimits gs) (\<Union>mc\<in>set (collectModelConfigsFor env gs scope i model provider). set_option (mc_RateLimitID mc))"
  unfolding modelRateLimits_def
  by (subst fold_modelRateLimits)
    (use assms inj_on_subset [OF _ collectModelConfigsFor_stored] collectModelConfigsFor_distinct in \<open>auto simp: keysOk_def\<close>)

section \<open>Counters keep their place\<close>

text \<open>A charge changes counters only: the rest of the store stays, every budget and every rate limit
  stays loaded, and a budget has been bumped \<open>n\<close> times, at least once if and only if it is in \<open>S\<close>.\<close>

definition sameConfig :: "'f gov_store \<Rightarrow> 'f gov_store \<Rightarrow> bool" where
  "sameConfig gs gs' \<longleftrightarrow> gs' = gs\<lparr>gs_budgets := gs_budgets gs', gs_rateLimits := gs_rateLimits gs'\<rparr>"

definition charges :: "gov_env \<Rightarrow> 'f \<Rightarrow> string set \<Rightarrow> ('f :: {zero, plus}) gov_store \<Rightarrow> 'f gov_store \<Rightarrow> bool" where
  "charges env cost S gs gs' \<longleftrightarrow> sameConfig gs gs'
     \<and> (\<forall>i. \<exists>n. gs_budgets gs' i = map_option (bumpedBudget env cost ^^ n) (gs_budgets gs i) \<and> (n > 0 \<longleftrightarrow> i \<in> S))"

lemma sameConfig_refl [simp]: "sameConfig gs gs"
  by (simp add: sameConfig_def)

lemma sameConfig_trans:
  assumes "sameConfig a b" "sameConfig b c"
  shows "sameConfig a c"
proof -
  have "c = b\<lparr>gs_budgets := gs_budgets c, gs_rateLimits := gs_rateLimits c\<rparr>" using assms(2) by (simp add: sameConfig_def)
  moreover have "b = a\<lparr>gs_budgets := gs_budgets b, gs_rateLimits := gs_rateLimits b\<rparr>" using assms(1) by (simp add: sameConfig_def)
  ultimately have "c = a\<lparr>gs_budgets := gs_budgets b, gs_rateLimits := gs_rateLimits b\<rparr>
    \<lparr>gs_budgets := gs_budgets c, gs_rateLimits := gs_rateLimits c\<rparr>" by metis
  then show ?thesis unfolding sameConfig_def by simp
qed

lemma charges_none: "sameConfig gs gs' \<Longrightarrow> gs_budgets gs' = gs_budgets gs \<Longrightarrow> charges env cost {} gs gs'"
  unfolding charges_def by (auto intro!: exI [of _ 0] simp: option.map_id)

lemma charges_trans:
  assumes "charges env cost S a b" "charges env cost T b c"
  shows "charges env cost (S \<union> T) a c"
proof -
  have "\<exists>n. gs_budgets c i = map_option (bumpedBudget env cost ^^ n) (gs_budgets a i) \<and> (n > 0 \<longleftrightarrow> i \<in> S \<union> T)" for i
  proof -
    obtain n m where n: "gs_budgets b i = map_option (bumpedBudget env cost ^^ n) (gs_budgets a i)" "n > 0 \<longleftrightarrow> i \<in> S"
      and m: "gs_budgets c i = map_option (bumpedBudget env cost ^^ m) (gs_budgets b i)" "m > 0 \<longleftrightarrow> i \<in> T"
      using assms unfolding charges_def by metis
    have "gs_budgets c i = map_option (bumpedBudget env cost ^^ (m + n)) (gs_budgets a i)"
      by (simp add: n(1) m(1) funpow_add option.map_comp)
    moreover have "m + n > 0 \<longleftrightarrow> i \<in> S \<union> T" using n(2) m(2) by auto
    ultimately show ?thesis by blast
  qed
  then show ?thesis using assms sameConfig_trans unfolding charges_def by blast
qed

lemma charges_bump: "charges env cost {i} gs (BumpBudgetUsage env i cost gs)"
proof -
  have "sameConfig gs (BumpBudgetUsage env i cost gs)"
    by (simp add: BumpBudgetUsage_def sameConfig_def split: option.split)
  moreover have "\<exists>n. gs_budgets (BumpBudgetUsage env i cost gs) j = map_option (bumpedBudget env cost ^^ n) (gs_budgets gs j)
      \<and> (n > 0 \<longleftrightarrow> j \<in> {i})" for j
    by (rule exI [of _ "if j = i then 1 else 0"]) (simp add: BumpBudgetUsage_def option.map_id split: option.split)
  ultimately show ?thesis by (simp add: charges_def)
qed

lemma charges_bumpBudgets: "charges env cost (set is) gs (bumpBudgets env cost is gs)"
proof (induction "is" arbitrary: gs)
  case (Cons i "is")
  from charges_trans [OF charges_bump Cons.IH] show ?case by (simp add: bumpBudgets_def)
qed (simp add: bumpBudgets_def charges_none)

lemma charges_bumpModelBudgets:
  "charges env cost (\<Union>mc\<in>set mcs. set (mc_Budgets mc)) gs (bumpModelBudgets env cost mcs gs)"
proof (induction mcs arbitrary: gs)
  case (Cons mc mcs)
  from charges_trans [OF charges_bumpBudgets Cons.IH] show ?case by (simp add: bumpModelBudgets_def)
qed (simp add: bumpModelBudgets_def charges_none)

lemma charges_rate: "charges env cost {} gs (BumpRateLimitUsage env i tokens ut ur gs)"
  by (rule charges_none) (simp_all add: BumpRateLimitUsage_def sameConfig_def split: option.split)

lemma charges_bumpRateLimits: "charges env cost {} gs (bumpRateLimits env tokens ut ur is gs)"
proof (induction "is" arbitrary: gs)
  case (Cons i "is")
  from charges_trans [OF charges_rate Cons.IH] show ?case by (simp add: bumpRateLimits_def)
qed (simp add: bumpRateLimits_def charges_none)

lemma charges_bumpModelRateLimits: "charges env cost {} gs (bumpModelRateLimits env tokens ut ur mcs gs)"
proof (induction mcs arbitrary: gs)
  case (Cons mc mcs)
  from charges_trans [OF charges_bumpRateLimits Cons.IH] show ?case by (simp add: bumpModelRateLimits_def)
qed (simp add: bumpModelRateLimits_def charges_none)

lemma sameConfig_simps:
  assumes "sameConfig gs gs'"
  shows "collectModelConfigsFor env gs' scope i model provider = collectModelConfigsFor env gs scope i model provider"
    and "hierarchyBudgetIDs scoped gs' vk p = hierarchyBudgetIDs scoped gs vk p"
    and "hierarchyRateLimitIDs scoped gs' vk p = hierarchyRateLimitIDs scoped gs vk p"
    and "GetVirtualKey gs' v = GetVirtualKey gs v"
    and "providerBudgetID gs' p = providerBudgetID gs p" "providerRateLimitID gs' p = providerRateLimitID gs p"
    and "applicableConfigs env gs' vko u p model = applicableConfigs env gs vko u p model"
proof -
  obtain B R where eq: "gs' = gs\<lparr>gs_budgets := B, gs_rateLimits := R\<rparr>" using assms unfolding sameConfig_def by blast
  have f: "gs_teams gs' = gs_teams gs" "gs_customers gs' = gs_customers gs" "gs_providers gs' = gs_providers gs"
    "gs_virtualKeys gs' = gs_virtualKeys gs" by (simp_all add: eq)
  have l: "loadModelConfig gs' = loadModelConfig gs" by (intro ext) (simp add: eq loadModelConfig_def)
  show c: "collectModelConfigsFor env gs' scope i model provider = collectModelConfigsFor env gs scope i model provider"
    for env scope i model provider
    by (simp only: collectModelConfigsFor_def findScopedModelOnlyConfig_def l)
  show "hierarchyBudgetIDs scoped gs' vk p = hierarchyBudgetIDs scoped gs vk p"
    "hierarchyRateLimitIDs scoped gs' vk p = hierarchyRateLimitIDs scoped gs vk p"
    by (simp_all only: hierarchyBudgetIDs_def hierarchyRateLimitIDs_def teamOf_def teamCustomerID_def
        chargedTeamCustomer_def chargedOwnCustomer_def f)
  show "GetVirtualKey gs' v = GetVirtualKey gs v" by (simp only: GetVirtualKey_def f)
  show "providerBudgetID gs' p = providerBudgetID gs p" "providerRateLimitID gs' p = providerRateLimitID gs p"
    by (simp_all only: providerBudgetID_def providerRateLimitID_def f)
  show "applicableConfigs env gs' vko u p model = applicableConfigs env gs vko u p model"
    by (simp only: applicableConfigs_def c)
qed

lemma bumpedBudget_ID [simp]: "bg_ID ((bumpedBudget env cost ^^ n) b) = bg_ID b"
  by (induction n) (simp_all add: bumpedBudget_def Let_def)

lemma charges_config: "charges env cost S gs gs' \<Longrightarrow> sameConfig gs gs'"
  by (simp add: charges_def)

lemma charges_dom: "charges env cost S gs gs' \<Longrightarrow> dom (gs_budgets gs') = dom (gs_budgets gs)"
  unfolding charges_def dom_def by (metis (no_types, lifting) option.map_disc_iff)

lemma charges_budgetIDsOk:
  assumes "charges env cost S gs gs'" "budgetIDsOk gs"
  shows "budgetIDsOk gs'"
  unfolding budgetIDsOk_def
proof (intro allI impI)
  fix i b assume b: "gs_budgets gs' i = Some b"
  obtain n where "gs_budgets gs' i = map_option (bumpedBudget env cost ^^ n) (gs_budgets gs i)"
    using assms(1) unfolding charges_def by metis
  with b obtain b0 where "gs_budgets gs i = Some b0" "b = (bumpedBudget env cost ^^ n) b0" by auto
  then show "bg_ID b = i" using budgetIDsOkD [OF assms(2)] by simp
qed

text \<open>Budgets that are not loaded do not matter.\<close>

lemma charges_cong:
  assumes "charges env cost S gs gs'" "S \<inter> dom (gs_budgets gs) = T \<inter> dom (gs_budgets gs)"
  shows "charges env cost T gs gs'"
proof -
  have "\<exists>n. gs_budgets gs' i = map_option (bumpedBudget env cost ^^ n) (gs_budgets gs i) \<and> (n > 0 \<longleftrightarrow> i \<in> T)" for i
  proof (cases "gs_budgets gs i")
    case None
    then have "gs_budgets gs' i = None" using charges_dom [OF assms(1)] by blast
    then show ?thesis using None by (auto intro: exI [of _ "if i \<in> T then 1 else 0"])
  next
    case (Some b)
    then have "i \<in> S \<longleftrightarrow> i \<in> T" using assms(2) by blast
    then show ?thesis using assms(1) by (auto simp: charges_def)
  qed
  then show ?thesis using assms(1) by (simp add: charges_def)
qed

lemma charges_providerModelBudget:
  "charges env cost (set_option (providerBudgetID gs p)
      \<union> (\<Union>mc\<in>set (collectModelConfigsFor env gs ModelConfigScopeGlobal [] model (optProvider p)). set (mc_Budgets mc)))
     gs (UpdateProviderAndModelBudgetUsageInMemory env model p cost gs)"
proof -
  define gs1 where "gs1 = (case providerBudgetID gs p of None \<Rightarrow> gs | Some i \<Rightarrow> BumpBudgetUsage env i cost gs)"
  have 1: "charges env cost (set_option (providerBudgetID gs p)) gs gs1"
    using charges_bump [of env cost _ gs] by (simp add: gs1_def charges_none split: option.split)
  from charges_trans [OF 1 charges_bumpModelBudgets] show ?thesis
    unfolding UpdateProviderAndModelBudgetUsageInMemory_def gs1_def [symmetric] Let_def
    by (simp add: sameConfig_simps(1) [OF charges_config [OF 1]])
qed

lemma charges_providerModelRate: "charges env cost {} gs (UpdateProviderAndModelRateLimitUsageInMemory env model p n ut ur gs)"
proof -
  have 1: "charges env cost {} gs (case providerRateLimitID gs p of None \<Rightarrow> gs | Some i \<Rightarrow> BumpRateLimitUsage env i n ut ur gs)"
    by (simp add: charges_none charges_rate split: option.split)
  from charges_trans [OF 1 charges_bumpModelRateLimits] show ?thesis
    by (simp add: UpdateProviderAndModelRateLimitUsageInMemory_def Let_def)
qed

lemma charges_scopedBudget:
  "scope \<noteq> [] \<Longrightarrow> i \<noteq> [] \<Longrightarrow>
   charges env cost (\<Union>mc\<in>set (collectModelConfigsFor env gs scope i model (optProvider p)). set (mc_Budgets mc))
     gs (UpdateScopedModelBudgetUsageInMemory env scope i model p cost gs)"
  by (simp add: UpdateScopedModelBudgetUsageInMemory_def charges_bumpModelBudgets)

lemma charges_scopedRate: "charges env cost {} gs (UpdateScopedModelRateLimitUsageInMemory env scope i model p n ut ur gs)"
  by (simp add: UpdateScopedModelRateLimitUsageInMemory_def charges_bumpModelRateLimits charges_none)

lemma charges_keyBudget:
  assumes "budgetIDsOk gs"
  shows "charges env cost (hierarchyBudgetIDs scoped gs vk p) gs
    (the (UpdateVirtualKeyBudgetUsageInMemory env scoped (Some vk) p cost gs))"
  unfolding UpdateVirtualKeyBudgetUsageInMemory_def
  by (simp, rule charges_cong [OF charges_bumpBudgets]) (auto simp: collectBudgetIDs_set [OF assms])

lemma charges_keyRate:
  "charges env cost {} gs (the (UpdateVirtualKeyRateLimitUsageInMemory env scoped (Some vk) p n ut ur gs))"
  by (simp add: UpdateVirtualKeyRateLimitUsageInMemory_def charges_bumpRateLimits)

end
