(* ===== verification/Cells.thy ===== *)
theory Cells
  imports Governance
begin

text \<open>
  The counters under concurrency: \<^verbatim>\<open>plugins/governance/store.go\<close> changes a budget or a rate limit by a
  loop that loads the stored pointer, works on a copy and stores it by \<^verbatim>\<open>CompareAndSwap\<close>, again when
  the pointer has changed. A stored pointer is a version number with the value it points at: every
  store allocates, so a version is never stored twice. A thread runs one operation; \<open>schedule\<close> lists
  which thread takes its next step.
\<close>

section \<open>The loop\<close>

text \<open>Before its load, after its load with what it saw, and returned with whether it wrote.\<close>

datatype 'a thread = Starting | Loaded nat 'a | Returned bool

record ('op, 'a) cell_state =
  cs_cell :: "(nat \<times> 'a) option"
  cs_next :: nat
  cs_threads :: "nat \<Rightarrow> 'a thread"
  cs_log :: "nat list"

text \<open>One step of thread \<open>t\<close>: a load, which returns at once when nothing is stored, or the rest of the
  round: an operation with nothing to write returns, one that writes stores a new pointer if the
  loaded one is still there and goes back to its load otherwise. The log remembers who wrote.\<close>

definition setThread :: "nat \<Rightarrow> 'a thread \<Rightarrow> ('op, 'a) cell_state \<Rightarrow> ('op, 'a) cell_state" where
  "setThread t x s = s\<lparr>cs_threads := (cs_threads s)(t := x)\<rparr>"

definition storeNew :: "nat \<Rightarrow> 'a \<Rightarrow> ('op, 'a) cell_state \<Rightarrow> ('op, 'a) cell_state" where
  "storeNew t new s =
     s\<lparr>cs_cell := Some (cs_next s, new), cs_next := Suc (cs_next s), cs_threads := (cs_threads s)(t := Returned True),
       cs_log := cs_log s @ [t]\<rparr>"

definition cellStep :: "('op \<Rightarrow> 'a \<Rightarrow> 'a option) \<Rightarrow> (nat \<Rightarrow> 'op) \<Rightarrow> nat \<Rightarrow> ('op, 'a) cell_state \<Rightarrow> ('op, 'a) cell_state" where
  "cellStep upd ops t s =
     (case cs_threads s t of
        Returned w \<Rightarrow> s
      | Starting \<Rightarrow>
          (case cs_cell s of
             None \<Rightarrow> setThread t (Returned False) s
           | Some (v, a) \<Rightarrow> setThread t (Loaded v a) s)
      | Loaded v a \<Rightarrow>
          (case upd (ops t) a of
             None \<Rightarrow> setThread t (Returned False) s
           | Some new \<Rightarrow>
               if map_option fst (cs_cell s) = Some v then storeNew t new s
               else setThread t Starting s))"

definition cellInit :: "'a option \<Rightarrow> ('op, 'a) cell_state" where
  "cellInit x = \<lparr>cs_cell = map_option (Pair 0) x, cs_next = 1, cs_threads = (\<lambda>_. Starting), cs_log = []\<rparr>"

definition cellRun :: "('op \<Rightarrow> 'a \<Rightarrow> 'a option) \<Rightarrow> (nat \<Rightarrow> 'op) \<Rightarrow> nat list \<Rightarrow> ('op, 'a) cell_state \<Rightarrow> ('op, 'a) cell_state" where
  "cellRun upd ops schedule s = fold (cellStep upd ops) schedule s"

text \<open>The effect of the writers, one after the other.\<close>

definition applyOp :: "('op \<Rightarrow> 'a \<Rightarrow> 'a option) \<Rightarrow> 'op \<Rightarrow> 'a \<Rightarrow> 'a" where
  "applyOp upd x a = (case upd x a of None \<Rightarrow> a | Some a' \<Rightarrow> a')"

section \<open>The operations\<close>

text \<open>What a round computes from the loaded copy; None: it returns without a store. The clock is read
  in the round.\<close>

datatype 'f budget_op = OpBump gov_env 'f | OpReset int

definition budgetRound :: "('f :: {zero, plus}) budget_op \<Rightarrow> 'f budget \<Rightarrow> 'f budget option" where
  "budgetRound x b =
     (case x of
        OpBump env cost \<Rightarrow> Some (bumpedBudget env cost b)
      | OpReset newLastReset \<Rightarrow>
          if \<not> bg_LastReset b < newLastReset then None
          else Some (b\<lparr>bg_CurrentUsage := 0, bg_LastReset := newLastReset\<rparr>))"

datatype rate_op = OpBumpRate gov_env int bool bool | OpBumpBy int int | OpResetRate "int option" "int option"

definition rateRound :: "rate_op \<Rightarrow> rate_limit \<Rightarrow> rate_limit option" where
  "rateRound x r =
     (case x of
        OpBumpRate env n updateTokens updateRequests \<Rightarrow> Some (bumpedRateLimit env n updateTokens updateRequests r)
      | OpBumpBy tokenDelta requestDelta \<Rightarrow>
          if tokenDelta = 0 \<and> requestDelta = 0 then None
          else Some (r\<lparr>rl_TokenCurrentUsage := wrap64 (rl_TokenCurrentUsage r + tokenDelta),
                       rl_RequestCurrentUsage := wrap64 (rl_RequestCurrentUsage r + requestDelta)\<rparr>)
      | OpResetRate tokenReset requestReset \<Rightarrow>
          (let doTokens = (case tokenReset of None \<Rightarrow> False | Some t \<Rightarrow> rl_TokenLastReset r < t);
               doRequests = (case requestReset of None \<Rightarrow> False | Some t \<Rightarrow> rl_RequestLastReset r < t);
               r1 = (if doTokens then r\<lparr>rl_TokenCurrentUsage := 0, rl_TokenLastReset := the tokenReset\<rparr> else r);
               r2 = (if doRequests then r1\<lparr>rl_RequestCurrentUsage := 0, rl_RequestLastReset := the requestReset\<rparr> else r1)
           in if \<not> doTokens \<and> \<not> doRequests then None else Some r2))"

text \<open>The same operations as the sequential ones of the store.\<close>

definition runBudgetOp :: "string \<Rightarrow> 'f budget_op \<Rightarrow> ('f :: {zero, plus}) gov_store \<Rightarrow> 'f gov_store" where
  "runBudgetOp i x gs =
     (case x of OpBump env cost \<Rightarrow> BumpBudgetUsage env i cost gs | OpReset t \<Rightarrow> snd (ResetBudgetAt i t gs))"

definition runRateOp :: "string \<Rightarrow> rate_op \<Rightarrow> 'f gov_store \<Rightarrow> 'f gov_store" where
  "runRateOp i x gs =
     (case x of
        OpBumpRate env n ut ur \<Rightarrow> BumpRateLimitUsage env i n ut ur gs
      | OpBumpBy dt dr \<Rightarrow> BumpRateLimitUsageBy i dt dr gs
      | OpResetRate tt tr \<Rightarrow> snd (ResetRateLimitAt i tt tr gs))"

section \<open>The invariant of the loop\<close>

text \<open>The cell holds the effect of the writers so far, a loaded version that is still current has the
  current value, and every thread that wrote is in the log once.\<close>

definition cellInv :: "('op \<Rightarrow> 'a \<Rightarrow> 'a option) \<Rightarrow> (nat \<Rightarrow> 'op) \<Rightarrow> 'a \<Rightarrow> ('op, 'a) cell_state \<Rightarrow> bool" where
  "cellInv upd ops a s \<longleftrightarrow>
     (\<exists>v x. cs_cell s = Some (v, x) \<and> v < cs_next s \<and> x = fold (\<lambda>t. applyOp upd (ops t)) (cs_log s) a
        \<and> (\<forall>t w y. cs_threads s t = Loaded w y \<longrightarrow> w < cs_next s \<and> (w = v \<longrightarrow> y = x)))
     \<and> distinct (cs_log s)
     \<and> (\<forall>t. t \<in> set (cs_log s) \<longleftrightarrow> cs_threads s t = Returned True)
     \<and> (\<forall>t. cs_threads s t = Returned False \<longrightarrow> (\<exists>y. upd (ops t) y = None))"

lemma cellInv_init: "cellInv upd ops a (cellInit (Some a))"
  by (simp add: cellInv_def cellInit_def)

lemma setThread_sel [simp]:
  "cs_cell (setThread t x s) = cs_cell s" "cs_next (setThread t x s) = cs_next s" "cs_log (setThread t x s) = cs_log s"
  "cs_threads (setThread t x s) = (cs_threads s)(t := x)"
  by (simp_all add: setThread_def)

lemma storeNew_sel [simp]:
  "cs_cell (storeNew t new s) = Some (cs_next s, new)" "cs_next (storeNew t new s) = Suc (cs_next s)"
  "cs_log (storeNew t new s) = cs_log s @ [t]" "cs_threads (storeNew t new s) = (cs_threads s)(t := Returned True)"
  by (simp_all add: storeNew_def)

lemma cellInv_step:
  assumes "cellInv upd ops a s"
  shows "cellInv upd ops a (cellStep upd ops t s)"
proof -
  obtain v x where cell: "cs_cell s = Some (v, x)" "v < cs_next s" "x = fold (\<lambda>t. applyOp upd (ops t)) (cs_log s) a"
    and loaded: "\<And>t w y. cs_threads s t = Loaded w y \<Longrightarrow> w < cs_next s \<and> (w = v \<longrightarrow> y = x)"
    and log: "distinct (cs_log s)" "\<And>t. t \<in> set (cs_log s) \<longleftrightarrow> cs_threads s t = Returned True"
    and none: "\<And>t. cs_threads s t = Returned False \<Longrightarrow> \<exists>y. upd (ops t) y = None"
    using assms unfolding cellInv_def by blast
  show ?thesis
  proof (cases "cs_threads s t")
    case Starting
    then have "cellStep upd ops t s = setThread t (Loaded v x) s" by (simp add: cellStep_def cell)
    then show ?thesis using cell loaded log none Starting by (auto simp: cellInv_def)
  next
    case (Loaded w y)
    show ?thesis
    proof (cases "upd (ops t) y")
      case None
      then have "cellStep upd ops t s = setThread t (Returned False) s" by (simp add: cellStep_def Loaded)
      then show ?thesis using cell loaded log none None Loaded by (auto simp: cellInv_def)
    next
      case (Some new)
      show ?thesis
      proof (cases "w = v")
        case True
        then have step: "cellStep upd ops t s = storeNew t new s" by (simp add: cellStep_def Loaded Some cell)
        have new: "new = applyOp upd (ops t) x" using loaded [OF Loaded] True Some by (simp add: applyOp_def)
        have fresh: "t \<notin> set (cs_log s)" using log(2) Loaded by simp
        have old: "w' < cs_next s" if "cs_threads s t' = Loaded w' y'" for t' w' y' using loaded [OF that] by simp
        have "new = fold (\<lambda>t. applyOp upd (ops t)) (cs_log (storeNew t new s)) a" using cell(3) new by simp
        moreover have "w' < Suc (cs_next s) \<and> (w' = cs_next s \<longrightarrow> y' = new)"
          if "cs_threads (storeNew t new s) t' = Loaded w' y'" for t' w' y'
          using that old [of t' w' y'] by (simp split: if_splits)
        moreover have "distinct (cs_log (storeNew t new s))" using log(1) fresh by simp
        moreover have "t' \<in> set (cs_log (storeNew t new s)) \<longleftrightarrow> cs_threads (storeNew t new s) t' = Returned True" for t'
          using log(2) by simp
        moreover have "\<exists>y. upd (ops t') y = None" if "cs_threads (storeNew t new s) t' = Returned False" for t'
          using that none by (simp split: if_splits)
        ultimately show ?thesis unfolding step cellInv_def by simp
      next
        case False
        then have "cellStep upd ops t s = setThread t Starting s" by (simp add: cellStep_def Loaded Some cell)
        then show ?thesis using cell loaded log none Loaded by (auto simp: cellInv_def)
      qed
    qed
  next
    case (Returned w)
    then show ?thesis using assms by (simp add: cellStep_def)
  qed
qed

lemma cellInv_run: "cellInv upd ops a s \<Longrightarrow> cellInv upd ops a (cellRun upd ops schedule s)"
  unfolding cellRun_def by (induction schedule arbitrary: s) (simp_all add: cellInv_step)

text \<open>A thread that runs alone returns after at most a failed round and a good one.\<close>

lemma thread_returns_alone:
  assumes "cellInv upd ops a s"
  shows "\<exists>w. cs_threads (cellRun upd ops [t, t, t] s) t = Returned w"
proof -
  obtain v x where cell: "cs_cell s = Some (v, x)" using assms unfolding cellInv_def by blast
  have fresh: "\<exists>w. cs_threads (cellRun upd ops [t, t] s') t = Returned w"
    if "cs_threads s' t = Starting" "cs_cell s' = Some (v, x)" for s'
    using that by (cases "upd (ops t) x") (auto simp: cellRun_def cellStep_def)
  have stay: "cs_threads (cellStep upd ops t s') t = Returned w" if "cs_threads s' t = Returned w" for s' w
    using that by (simp add: cellStep_def)
  show ?thesis
  proof (cases "cs_threads s t")
    case Starting
    from fresh [OF this cell] stay show ?thesis by (fastforce simp: cellRun_def)
  next
    case (Loaded w y)
    show ?thesis
    proof (cases "upd (ops t) y \<noteq> None \<and> w \<noteq> v")
      case True
      then have "cellStep upd ops t s = setThread t Starting s" by (auto simp: cellStep_def Loaded cell)
      then show ?thesis using fresh [of "setThread t Starting s"] cell by (simp add: cellRun_def)
    next
      case False
      then have "\<exists>b. cs_threads (cellStep upd ops t s) t = Returned b"
        by (cases "upd (ops t) y") (auto simp: cellStep_def Loaded cell)
      then show ?thesis using stay by (fastforce simp: cellRun_def)
    qed
  next
    case (Returned w)
    then show ?thesis using stay by (fastforce simp: cellRun_def)
  qed
qed

section \<open>Linearisation\<close>

text \<open>The interface between a counter of the store and the rounds of its loop: a sequential call has
  the effect of one round on what is stored.\<close>

locale counter_ops =
  fixes upd :: "'op \<Rightarrow> 'a \<Rightarrow> 'a option"
    and run :: "'op \<Rightarrow> 's \<Rightarrow> 's"
    and get :: "'s \<Rightarrow> 'a option"
  assumes get_run: "get (run x s) = map_option (applyOp upd x) (get s)"
begin

lemma get_fold: "get (fold (\<lambda>t. run (ops t)) ts s) = map_option (fold (\<lambda>t. applyOp upd (ops t)) ts) (get s)"
  by (induction ts arbitrary: s) (simp_all add: get_run option.map_comp comp_def option.map_id)

lemma linearises:
  assumes "get st = Some a" "s = cellRun upd ops schedule (cellInit (Some a))"
  shows "map_option snd (cs_cell s) = get (fold (\<lambda>t. run (ops t)) (cs_log s) st)"
    and "distinct (cs_log s)"
    and "cs_threads s t = Returned w \<Longrightarrow> (\<And>y. upd (ops t) y \<noteq> None) \<Longrightarrow> t \<in> set (cs_log s)"
proof -
  have inv: "cellInv upd ops a s" unfolding assms(2) by (intro cellInv_run cellInv_init)
  then show "map_option snd (cs_cell s) = get (fold (\<lambda>t. run (ops t)) (cs_log s) st)"
    unfolding cellInv_def by (auto simp: get_fold assms(1))
  show "distinct (cs_log s)" using inv by (simp add: cellInv_def)
  assume returned: "cs_threads s t = Returned w" and writes: "\<And>y. upd (ops t) y \<noteq> None"
  have w
  proof (rule ccontr)
    assume "\<not> w"
    then obtain y where "upd (ops t) y = None" using inv returned by (auto simp: cellInv_def)
    then show False using writes by blast
  qed
  then show "t \<in> set (cs_log s)" using inv returned by (simp add: cellInv_def)
qed

end

interpretation budget_ops: counter_ops budgetRound "runBudgetOp i" "\<lambda>gs. gs_budgets gs i" for i
  by unfold_locales
    (auto simp: applyOp_def budgetRound_def runBudgetOp_def BumpBudgetUsage_def ResetBudgetAt_def Let_def
      split: budget_op.split option.split)

interpretation rate_ops: counter_ops rateRound "runRateOp i" "\<lambda>gs. gs_rateLimits gs i" for i
  by unfold_locales
    (auto simp: applyOp_def rateRound_def runRateOp_def BumpRateLimitUsage_def BumpRateLimitUsageBy_def ResetRateLimitAt_def
      Let_def split: rate_op.split option.split)

section \<open>Properties\<close>

text \<open>
  C27. No charge is lost or made twice under concurrency: however the loads and compare-and-swaps of
  any number of concurrent charges and resets of a budget interleave, the stored budget is what the
  sequential calls leave, one after the other in the order of their writes, each writer once, and
  every charge that has returned is among them.\<close>

theorem concurrent_charges_linearise:
  assumes "gs_budgets gs i = Some b" "s = cellRun budgetRound ops schedule (cellInit (Some b))"
  shows "map_option snd (cs_cell s) = gs_budgets (fold (\<lambda>t. runBudgetOp i (ops t)) (cs_log s) gs) i
    \<and> distinct (cs_log s)
    \<and> (\<forall>t w env cost. cs_threads s t = Returned w \<and> ops t = OpBump env cost \<longrightarrow> t \<in> set (cs_log s))"
  using budget_ops.linearises [OF assms] by (auto simp: budgetRound_def)

definition sharedBudget :: "int budget" where
  "sharedBudget = \<lparr>bg_ID = ''b'', bg_MaxLimit = 100, bg_ResetDuration = [], bg_LastReset = 0, bg_CurrentUsage = 1, bg_IsCalendarAligned = False\<rparr>"

definition threeOps :: "gov_env \<Rightarrow> nat \<Rightarrow> int budget_op" where
  "threeOps env t = (if t = 0 then OpBump env 3 else if t = 1 then OpBump env 5 else OpReset 7)"

definition sharedEnv :: gov_env where
  "sharedEnv = \<lparr>gv_now = 9, gv_goParse = (\<lambda>_. None), gv_baseModelName = None, gv_modelAllowed = None, gv_systemPool = None\<rparr>"

text \<open>Both charges load the same pointer, the second swaps first, the first goes round again and a
  reset comes between.\<close>

lemma three_threads:
  "cellRun budgetRound (threeOps env) [0, 1, 1, 0, 2, 2, 0, 0] (cellInit (Some sharedBudget))
   = \<lparr>cs_cell = Some (3, sharedBudget\<lparr>bg_CurrentUsage := 3, bg_LastReset := 7\<rparr>), cs_next = 4,
      cs_threads = (\<lambda>t. if t \<le> 2 then Returned True else Starting), cs_log = [1, 2, 0]\<rparr>"
  by (rule cell_state.equality)
    (auto simp: cellRun_def cellStep_def cellInit_def threeOps_def budgetRound_def bumpedBudget_def sharedBudget_def Let_def
      setThread_def storeNew_def fun_eq_iff)

theorem concurrent_charges_linearise_witness:
  "gs_budgets (fold (\<lambda>t. runBudgetOp ''b'' (threeOps sharedEnv t)) [1, 2, 0]
      \<lparr>gs_virtualKeys = Map.empty, gs_teams = Map.empty, gs_customers = Map.empty, gs_budgets = [''b'' \<mapsto> sharedBudget],
       gs_rateLimits = Map.empty, gs_modelConfigs = Map.empty, gs_providers = Map.empty, gs_LastDBUsagesBudgets = Map.empty,
       gs_LastDBUsagesTokens = Map.empty, gs_LastDBUsagesRequests = Map.empty\<rparr>) ''b''
   = Some (sharedBudget\<lparr>bg_CurrentUsage := 3, bg_LastReset := 7\<rparr>)"
proof -
  let ?gs = "\<lparr>gs_virtualKeys = Map.empty, gs_teams = Map.empty, gs_customers = Map.empty, gs_budgets = [''b'' \<mapsto> sharedBudget],
       gs_rateLimits = Map.empty, gs_modelConfigs = Map.empty, gs_providers = Map.empty, gs_LastDBUsagesBudgets = Map.empty,
       gs_LastDBUsagesTokens = Map.empty, gs_LastDBUsagesRequests = Map.empty\<rparr>"
  have "gs_budgets ?gs ''b'' = Some sharedBudget" by simp
  from conjunct1 [OF concurrent_charges_linearise [OF this refl, of "threeOps sharedEnv" "[0, 1, 1, 0, 2, 2, 0, 0]"],
      unfolded three_threads]
  show ?thesis by simp
qed

text \<open>The rate limits likewise, with the tokens and requests that are folded in from elsewhere.\<close>

lemma concurrent_rates_linearise:
  assumes "gs_rateLimits gs i = Some r" "s = cellRun rateRound ops schedule (cellInit (Some r))"
  shows "map_option snd (cs_cell s) = gs_rateLimits (fold (\<lambda>t. runRateOp i (ops t)) (cs_log s) gs) i
    \<and> distinct (cs_log s)
    \<and> (\<forall>t w env n ut ur. cs_threads s t = Returned w \<and> ops t = OpBumpRate env n ut ur \<longrightarrow> t \<in> set (cs_log s))"
  using rate_ops.linearises [OF assms] by (auto simp: rateRound_def)

end
