(* ===== verification/Resolver.thy ===== *)
theory Resolver
  imports Governance
begin

text \<open>
  Who may send a request and who is charged for it: the decisions of
  \<^verbatim>\<open>plugins/governance/resolver.go\<close>, \<^verbatim>\<open>EvaluateGovernanceRequest\<close> and the hooks of
  \<^verbatim>\<open>plugins/governance/main.go\<close>, and the accounting of \<^verbatim>\<open>plugins/governance/tracker.go\<close>. A reason
  keeps its text and the error it prints. The goroutine that accounts for a response is the event
  \<open>Account\<close> with its arguments; when it runs is up to the caller.
\<close>

abbreviation governanceRejectedContextKey :: ctxkey where
  "governanceRejectedContextKey \<equiv> CK ''bf-governance-rejected''"

abbreviation BifrostContextKeyGovernanceScopedCustomerID :: ctxkey where
  "BifrostContextKeyGovernanceScopedCustomerID \<equiv> CK ''bifrost-governance-scoped-customer-id''"

abbreviation BifrostContextKeySkipVirtualKeyUsageTracking :: ctxkey where
  "BifrostContextKeySkipVirtualKeyUsageTracking \<equiv> CK ''bifrost-skip-virtual-key-usage-tracking''"

abbreviation BifrostContextKeyGovernanceBudgetIDs :: ctxkey where
  "BifrostContextKeyGovernanceBudgetIDs \<equiv> CK ''bifrost-governance-budget-ids''"

abbreviation BifrostContextKeyGovernanceRateLimitIDs :: ctxkey where
  "BifrostContextKeyGovernanceRateLimitIDs \<equiv> CK ''bifrost-governance-rate-limit-ids''"

definition scopedCustomer :: "bctx \<Rightarrow> string" where
  "scopedCustomer c = GetStringFromContext c BifrostContextKeyGovernanceScopedCustomerID"

section \<open>Decisions\<close>

record eval_request =
  evq_VirtualKey :: string
  evq_Provider :: string
  evq_Model :: string
  evq_UserID :: string

text \<open>The text of a reason and what it prints: nothing, a string, or the error of a check with its
  decision.\<close>

datatype 'f reason = Reason string | ReasonFor string string | ReasonFromErr string "'f gov_error option" decision

record 'f eval_result =
  er_Decision :: decision
  er_Reason :: "'f reason"
  er_VirtualKey :: "virtual_key option"
  er_RateLimitInfo :: "string option"

definition resultOf :: "decision \<Rightarrow> 'f reason \<Rightarrow> virtual_key option \<Rightarrow> 'f eval_result" where
  "resultOf d r vk = \<lparr>er_Decision = d, er_Reason = r, er_VirtualKey = vk, er_RateLimitInfo = None\<rparr>"

definition isRateLimitViolation :: "decision \<Rightarrow> bool" where
  "isRateLimitViolation d \<longleftrightarrow> d \<in> {DecisionRateLimited, DecisionTokenLimited, DecisionRequestLimited}"

definition isBudgetViolation :: "decision \<Rightarrow> bool" where
  "isBudgetViolation d \<longleftrightarrow> d = DecisionBudgetExceeded"

text \<open>A check that stops the evaluation: an error, or a violating decision.\<close>

definition rateStops :: "'f checked \<Rightarrow> bool" where
  "rateStops ch \<longleftrightarrow> snd ch \<noteq> None \<or> isRateLimitViolation (fst ch)"

definition budgetStops :: "'f checked \<Rightarrow> bool" where
  "budgetStops ch \<longleftrightarrow> snd ch \<noteq> None \<or> isBudgetViolation (fst ch)"

definition stopped :: "string \<Rightarrow> 'f checked \<Rightarrow> virtual_key option \<Rightarrow> 'f eval_result" where
  "stopped msg ch vk = resultOf (fst ch) (ReasonFromErr msg (snd ch) (fst ch)) vk"

definition EvaluateModelAndProviderRequest ::
  "gov_env \<Rightarrow> ('f :: {zero, plus, linorder}) gov_store \<Rightarrow> string \<Rightarrow> string \<Rightarrow> 'f eval_result" where
  "EvaluateModelAndProviderRequest env gs provider model =
     (if provider \<noteq> [] \<and> rateStops (CheckProviderRateLimit env gs provider :: 'f checked)
      then stopped ''Provider-level rate limit check failed: '' (CheckProviderRateLimit env gs provider) None
      else if provider \<noteq> [] \<and> budgetStops (CheckProviderBudget env gs provider)
      then stopped ''Provider-level budget exceeded: '' (CheckProviderBudget env gs provider) None
      else if model \<noteq> [] \<and> rateStops (CheckModelRateLimit env gs provider model :: 'f checked)
      then stopped ''Model-level rate limit check failed: '' (CheckModelRateLimit env gs provider model) None
      else if model \<noteq> [] \<and> budgetStops (CheckModelBudget env gs provider model)
      then stopped ''Model-level budget exceeded: '' (CheckModelBudget env gs provider model) None
      else resultOf DecisionAllow
             (Reason ''Request allowed by governance policy (provider-level and model-level checks passed)'') None)"

definition EvaluateCustomerRequest :: "gov_env \<Rightarrow> ('f :: {zero, plus, linorder}) gov_store \<Rightarrow> string \<Rightarrow> 'f eval_result" where
  "EvaluateCustomerRequest env gs customerID =
     (if customerID = [] then resultOf DecisionAllow (Reason ''No customer ID provided, skipping customer-level checks'') None
      else if rateStops (CheckCustomerRateLimit env gs customerID :: 'f checked)
      then stopped ''Customer-level rate limit exceeded: '' (CheckCustomerRateLimit env gs customerID) None
      else if budgetStops (CheckCustomerBudget env gs customerID)
      then stopped ''Customer-level budget exceeded: '' (CheckCustomerBudget env gs customerID) None
      else resultOf DecisionAllow (Reason ''Customer-level checks passed'') None)"

definition EvaluateTeamRequest :: "gov_env \<Rightarrow> ('f :: {zero, plus, linorder}) gov_store \<Rightarrow> string \<Rightarrow> 'f eval_result" where
  "EvaluateTeamRequest env gs teamID =
     (if teamID = [] then resultOf DecisionAllow (Reason ''No team ID provided, skipping team-level checks'') None
      else if rateStops (CheckTeamRateLimit env gs teamID :: 'f checked)
      then stopped ''Team-level rate limit exceeded: '' (CheckTeamRateLimit env gs teamID) None
      else if budgetStops (CheckTeamBudget env gs teamID)
      then stopped ''Team-level budget exceeded: '' (CheckTeamBudget env gs teamID) None
      else resultOf DecisionAllow (Reason ''Team-level checks passed'') None)"

definition EvaluateUserRequest ::
  "gov_env \<Rightarrow> ('f :: {zero, plus, linorder}) gov_store \<Rightarrow> eval_request \<Rightarrow> 'f eval_result" where
  "EvaluateUserRequest env gs rq =
     (let u = evq_UserID rq; p = evq_Provider rq; m = evq_Model rq
      in if u = [] then resultOf DecisionAllow (Reason ''No user ID provided, skipping user-level checks'') None
         else if rateStops (CheckUserRateLimit u :: 'f checked)
         then stopped ''User-level rate limit exceeded: '' (CheckUserRateLimit u) None
         else if budgetStops (CheckUserBudget u :: 'f checked)
         then stopped ''User-level budget exceeded: '' (CheckUserBudget u) None
         else if m \<noteq> [] \<and> rateStops (CheckScopedModelRateLimit env gs ModelConfigScopeUser u p m :: 'f checked)
         then stopped ''User-level model rate limit exceeded: '' (CheckScopedModelRateLimit env gs ModelConfigScopeUser u p m) None
         else if m \<noteq> [] \<and> budgetStops (CheckScopedModelBudget env gs ModelConfigScopeUser u p m)
         then stopped ''User-level model budget exceeded: '' (CheckScopedModelBudget env gs ModelConfigScopeUser u p m) None
         else resultOf DecisionAllow (Reason ''User-level checks passed'') None)"

section \<open>The virtual key\<close>

definition IsModelRequiredForRequest :: "request_type \<Rightarrow> bool" where
  "IsModelRequiredForRequest t \<longleftrightarrow> t \<notin>
     {ListModelsRequest, BatchCreateRequest, BatchListRequest, BatchRetrieveRequest, BatchCancelRequest, BatchResultsRequest,
      FileUploadRequest, FileListRequest, FileRetrieveRequest, FileDeleteRequest, FileContentRequest,
      ContainerCreateRequest, ContainerListRequest, ContainerRetrieveRequest, ContainerDeleteRequest,
      ContainerFileCreateRequest, ContainerFileListRequest, ContainerFileRetrieveRequest, ContainerFileContentRequest,
      ContainerFileDeleteRequest, CachedContentListRequest, CachedContentRetrieveRequest, CachedContentUpdateRequest,
      CachedContentDeleteRequest, VideoRetrieveRequest, VideoDownloadRequest, VideoListRequest, VideoDeleteRequest,
      VideoRemixRequest, PassthroughRequest, PassthroughStreamRequest}"

definition IsActiveValue :: "virtual_key \<Rightarrow> bool" where
  "IsActiveValue vk = (case vk_IsActive vk of None \<Rightarrow> True | Some x \<Rightarrow> x)"

definition SystemPoolLow :: string where "SystemPoolLow = ''gpt_low''"
definition SystemPoolStable :: string where "SystemPoolStable = ''gpt_stable''"

definition IsSystemPoolVirtualKeyName :: "string \<Rightarrow> bool" where
  "IsSystemPoolVirtualKeyName name \<longleftrightarrow> trimSpace name \<in> {SystemPoolLow, SystemPoolStable}"

text \<open>A key of a system pool is evaluated with the provider configurations of the pool.\<close>

definition virtualKeyForEvaluation :: "gov_env \<Rightarrow> virtual_key \<Rightarrow> virtual_key" where
  "virtualKeyForEvaluation env vk =
     (case gv_systemPool env of
        None \<Rightarrow> vk
      | Some pool \<Rightarrow> if \<not> IsSystemPoolVirtualKeyName (vk_Name vk) then vk
                     else vk\<lparr>vk_ProviderConfigs := pool (vk_Name vk)\<rparr>)"

definition isProviderAllowed :: "virtual_key \<Rightarrow> string \<Rightarrow> bool" where
  "isProviderAllowed vk provider \<longleftrightarrow> provider \<in> vp_Provider ` set (vk_ProviderConfigs vk)"

definition isModelAllowed :: "gov_env \<Rightarrow> virtual_key \<Rightarrow> string \<Rightarrow> string \<Rightarrow> bool" where
  "isModelAllowed env vk provider model =
     (let pcs = filter (\<lambda>pc. vp_Provider pc = provider) (vk_ProviderConfigs vk)
      in if list_ex (\<lambda>pc. bl_IsBlocked (vp_BlacklistedModels pc) model) pcs then False
         else list_ex (\<lambda>pc. case gv_modelAllowed env of
                              Some allowed \<Rightarrow> allowed provider model (vp_AllowedModels pc)
                            | None \<Rightarrow> wl_IsAllowed (vp_AllowedModels pc) model) pcs)"

text \<open>The writes that tell later plugins who the request is for.\<close>

definition setOwner :: "ctxkey \<Rightarrow> string \<Rightarrow> ctxkey \<Rightarrow> string \<Rightarrow> bctx \<Rightarrow> bctx" where
  "setOwner k i k' n c = SetValue k' (VStr n) (SetValue k (VStr i) c)"

definition stampCustomer :: "customer_table option \<Rightarrow> bctx \<Rightarrow> bctx" where
  "stampCustomer cu c =
     (case cu of
        None \<Rightarrow> c
      | Some x \<Rightarrow> setOwner BifrostContextKeyGovernanceCustomerID (cu_ID x) BifrostContextKeyGovernanceCustomerName (cu_Name x) c)"

definition stampTeam :: "team_table option \<Rightarrow> bctx \<Rightarrow> bctx" where
  "stampTeam tm c =
     (case tm of
        None \<Rightarrow> c
      | Some t \<Rightarrow> stampCustomer (tm_Customer t)
                    (setOwner BifrostContextKeyGovernanceTeamID (tm_ID t) BifrostContextKeyGovernanceTeamName (tm_Name t) c))"

definition stampVirtualKey :: "virtual_key \<Rightarrow> bctx \<Rightarrow> bctx" where
  "stampVirtualKey vk c =
     stampCustomer (vk_Customer vk) (stampTeam (vk_Team vk)
       (setOwner BifrostContextKeyGovernanceVirtualKeyID (vk_ID vk) BifrostContextKeyGovernanceVirtualKeyName (vk_Name vk) c))"

text \<open>The key filter of the first configuration of the provider.\<close>

definition restrictKeys :: "virtual_key \<Rightarrow> string \<Rightarrow> bctx \<Rightarrow> bctx" where
  "restrictKeys vk provider c =
     (case find (\<lambda>pc. vp_Provider pc = provider) (vk_ProviderConfigs vk) of
        None \<Rightarrow> c
      | Some pc \<Rightarrow> if vp_AllowAllKeys pc then c else SetValue BifrostContextKeyGovernanceIncludeOnlyKeys (VStrs (vp_Keys pc)) c)"

definition checkRateLimitHierarchy ::
  "gov_env \<Rightarrow> string \<Rightarrow> ('f :: {zero, plus, linorder}) gov_store \<Rightarrow> virtual_key \<Rightarrow> string \<Rightarrow> 'f eval_result option" where
  "checkRateLimitHierarchy env scoped gs vk provider =
     (let ch = (CheckVirtualKeyRateLimit env scoped gs (Some vk) provider :: 'f checked)
      in if \<not> rateStops ch then None
         else Some ((stopped ''Rate limit check failed: '' ch (Some vk))
           \<lparr>er_RateLimitInfo :=
              (case find (\<lambda>pc. vp_Provider pc = provider \<and> vp_RateLimitID pc \<noteq> None) (vk_ProviderConfigs vk) of
                 Some pc \<Rightarrow> vp_RateLimitID pc
               | None \<Rightarrow> vk_RateLimitID vk)\<rparr>))"

definition checkBudgetHierarchy ::
  "gov_env \<Rightarrow> string \<Rightarrow> ('f :: {zero, plus, linorder}) gov_store \<Rightarrow> virtual_key \<Rightarrow> string \<Rightarrow> 'f eval_result option" where
  "checkBudgetHierarchy env scoped gs vk provider =
     (let ch = CheckVirtualKeyBudget env scoped gs (Some vk) provider
      in if budgetStops ch then Some (stopped ''Budget exceeded: '' ch (Some vk)) else None)"

text \<open>The limits of a key, in the order they are checked; None when all hold.\<close>

definition checkKeyLimits ::
  "gov_env \<Rightarrow> string \<Rightarrow> ('f :: {zero, plus, linorder}) gov_store \<Rightarrow> virtual_key \<Rightarrow> string \<Rightarrow> string \<Rightarrow> 'f eval_result option" where
  "checkKeyLimits env scoped gs vk provider model =
     (case checkRateLimitHierarchy env scoped gs vk provider of
        Some r \<Rightarrow> Some r
      | None \<Rightarrow>
     (case checkBudgetHierarchy env scoped gs vk provider of
        Some r \<Rightarrow> Some r
      | None \<Rightarrow>
          (let rate = (CheckScopedModelRateLimit env gs ModelConfigScopeVirtualKey (vk_ID vk) provider model :: 'f checked);
               budget = CheckScopedModelBudget env gs ModelConfigScopeVirtualKey (vk_ID vk) provider model
           in if model = [] then None
              else if rateStops rate then Some (stopped ''Model-level rate limit check failed (virtual key scope): '' rate (Some vk))
              else if budgetStops budget then Some (stopped ''Model-level budget exceeded (virtual key scope): '' budget (Some vk))
              else None)))"

definition EvaluateVirtualKeyRequest ::
  "gov_env \<Rightarrow> ('f :: {zero, plus, linorder}) gov_store \<Rightarrow> string \<Rightarrow> string \<Rightarrow> string \<Rightarrow> request_type \<Rightarrow> bool \<Rightarrow> bctx
   \<Rightarrow> 'f eval_result \<times> bctx" where
  "EvaluateVirtualKeyRequest env gs virtualKeyValue provider model t skipLimits c =
     (case GetVirtualKey gs virtualKeyValue of
        None \<Rightarrow> (resultOf DecisionVirtualKeyNotFound (Reason ''Virtual key not found'') None, c)
      | Some vk0 \<Rightarrow>
          (let c1 = stampVirtualKey vk0 c;
               vk = virtualKeyForEvaluation env vk0;
               isPassthrough = (t = PassthroughRequest \<or> t = PassthroughStreamRequest)
           in if \<not> IsActiveValue vk0
              then (resultOf DecisionVirtualKeyBlocked (Reason ''Virtual key is inactive'') None, c1)
              else if t \<noteq> ListModelsRequest \<and> \<not> isProviderAllowed vk provider
              then (resultOf DecisionProviderBlocked (ReasonFor ''Provider is not allowed for this virtual key'' provider) (Some vk), c1)
              else if (IsModelRequiredForRequest t \<or> isPassthrough \<and> model \<noteq> []) \<and> \<not> isModelAllowed env vk provider model
              then (resultOf DecisionModelBlocked (ReasonFor ''Model is not allowed for this virtual key'' model) (Some vk), c1)
              else (case if skipLimits then None else checkKeyLimits env (scopedCustomer c1) gs vk provider model of
                      Some r \<Rightarrow> (r, c1)
                    | None \<Rightarrow> (resultOf DecisionAllow (Reason ''Request allowed by governance policy'') (Some vk),
                               restrictKeys vk provider c1))))"

text \<open>Helpers of the load balancer: a configuration whose limits are used up.\<close>

definition isProviderBudgetViolated ::
  "gov_env \<Rightarrow> string \<Rightarrow> ('f :: {zero, plus, linorder}) gov_store \<Rightarrow> virtual_key \<Rightarrow> vk_provider_config \<Rightarrow> bool" where
  "isProviderBudgetViolated env scoped gs vk config =
     (if snd (CheckProviderBudget env gs (vp_Provider config)) \<noteq> None then True
      else if vp_Budgets config = [] then False
      else snd (CheckVirtualKeyBudget env scoped gs (Some vk) (vp_Provider config)) \<noteq> None)"

definition isProviderRateLimitViolated ::
  "gov_env \<Rightarrow> string \<Rightarrow> ('f :: {zero, plus, linorder}) gov_store \<Rightarrow> virtual_key \<Rightarrow> vk_provider_config \<Rightarrow> bool" where
  "isProviderRateLimitViolated env scoped gs vk config =
     (if rateStops (CheckProviderRateLimit env gs (vp_Provider config) :: 'f checked) then True
      else if vp_RateLimitID config = None then False
      else rateStops (CheckVirtualKeyRateLimit env scoped gs (Some vk) (vp_Provider config) :: 'f checked))"

section \<open>The decision of the plugin\<close>

record gov_config =
  gp_isVkMandatory :: "bool option"
  gp_isEnterprise :: bool

record 'f gov_rejection =
  gj_Type :: string
  gj_StatusCode :: "int option"
  gj_Message :: "'f reason"

fun decisionName :: "decision \<Rightarrow> string" where
  "decisionName DecisionAllow = ''allow''"
| "decisionName DecisionVirtualKeyNotFound = ''virtual_key_not_found''"
| "decisionName DecisionVirtualKeyBlocked = ''virtual_key_blocked''"
| "decisionName DecisionRateLimited = ''rate_limited''"
| "decisionName DecisionBudgetExceeded = ''budget_exceeded''"
| "decisionName DecisionTokenLimited = ''token_limited''"
| "decisionName DecisionRequestLimited = ''request_limited''"
| "decisionName DecisionModelBlocked = ''model_blocked''"
| "decisionName DecisionProviderBlocked = ''provider_blocked''"

definition rejection :: "string \<Rightarrow> int \<Rightarrow> 'f reason \<Rightarrow> 'f gov_rejection" where
  "rejection type status msg = \<lparr>gj_Type = type, gj_StatusCode = Some status, gj_Message = msg\<rparr>"

text \<open>The customer of a key and whether it comes from the key's team; the identifier column wins
  over the loaded relation.\<close>

definition hierarchyCustomer :: "virtual_key \<Rightarrow> string \<times> bool" where
  "hierarchyCustomer vk =
     (case (vk_CustomerID vk, vk_Customer vk) of
        (Some i, _) \<Rightarrow> (i, False)
      | (None, Some cu) \<Rightarrow> (cu_ID cu, False)
      | (None, None) \<Rightarrow>
          (case vk_Team vk of
             None \<Rightarrow> ([], False)
           | Some t \<Rightarrow>
               (case (tm_CustomerID t, tm_Customer t) of
                  (Some i, _) \<Rightarrow> (i, True)
                | (None, Some cu) \<Rightarrow> (cu_ID cu, True)
                | (None, None) \<Rightarrow> ([], False))))"

definition hierarchyTeam :: "virtual_key \<Rightarrow> string" where
  "hierarchyTeam vk =
     (case vk_TeamID vk of Some i \<Rightarrow> i | None \<Rightarrow> (case vk_Team vk of Some t \<Rightarrow> tm_ID t | None \<Rightarrow> []))"

definition scopedAway :: "bctx \<Rightarrow> string \<times> bool \<Rightarrow> bool" where
  "scopedAway c cu \<longleftrightarrow> snd cu \<and> scopedCustomer c \<noteq> [] \<and> scopedCustomer c \<noteq> fst cu"

definition customerStep ::
  "gov_env \<Rightarrow> ('f :: {zero, plus, linorder}) gov_store \<Rightarrow> virtual_key \<Rightarrow> bctx \<Rightarrow> 'f eval_result \<Rightarrow> 'f eval_result" where
  "customerStep env gs vk c result =
     (let cu = hierarchyCustomer vk
      in if fst cu \<noteq> [] \<and> \<not> scopedAway c cu then EvaluateCustomerRequest env gs (fst cu) else result)"

definition teamStep :: "gov_env \<Rightarrow> ('f :: {zero, plus, linorder}) gov_store \<Rightarrow> virtual_key \<Rightarrow> 'f eval_result \<Rightarrow> 'f eval_result" where
  "teamStep env gs vk result =
     (if hierarchyTeam vk \<noteq> [] then EvaluateTeamRequest env gs (hierarchyTeam vk) else result)"

text \<open>The four steps: provider and model, then key, customer, team and user, each while allowed.\<close>

definition evaluateSteps ::
  "gov_env \<Rightarrow> ('f :: {zero, plus, linorder}) gov_store \<Rightarrow> eval_request \<Rightarrow> request_type \<Rightarrow> bctx \<Rightarrow> 'f eval_result \<times> bctx" where
  "evaluateSteps env gs rq t c =
     (let skip = GetBoolFromContext c BifrostContextKeySkipBudgetAndRateLimits;
          vk = (if evq_VirtualKey rq = [] then None else GetVirtualKey gs (evq_VirtualKey rq));
          r0 = EvaluateModelAndProviderRequest env gs (evq_Provider rq) (evq_Model rq);
          (r1, c1) = (if er_Decision r0 = DecisionAllow \<and> evq_VirtualKey rq \<noteq> []
                      then EvaluateVirtualKeyRequest env gs (evq_VirtualKey rq) (evq_Provider rq) (evq_Model rq) t
                             (evq_UserID rq \<noteq> [] \<or> skip) c
                      else (r0, c));
          r2 = (case vk of None \<Rightarrow> r1
                | Some k \<Rightarrow> if \<not> skip \<and> er_Decision r1 = DecisionAllow then customerStep env gs k c1 r1 else r1);
          r3 = (case vk of None \<Rightarrow> r2
                | Some k \<Rightarrow> if \<not> skip \<and> er_Decision r2 = DecisionAllow then teamStep env gs k r2 else r2);
          r4 = (if \<not> skip \<and> er_Decision r3 = DecisionAllow then EvaluateUserRequest env gs rq else r3)
      in (r4, c1))"

definition markRejected :: "decision \<Rightarrow> bctx \<Rightarrow> bctx" where
  "markRejected d c =
     (if d = DecisionAllow then ClearValue governanceRejectedContextKey c
      else if ctxBool c governanceRejectedContextKey = None then SetValue governanceRejectedContextKey (VBool True) c
      else c)"

definition rejectionOf :: "'f eval_result \<Rightarrow> 'f gov_rejection option" where
  "rejectionOf r =
     (let d = er_Decision r;
          pool = (case er_VirtualKey r of None \<Rightarrow> False | Some vk \<Rightarrow> IsSystemPoolVirtualKeyName (vk_Name vk));
          answer = (\<lambda>status. Some (rejection (decisionName d) status (er_Reason r)))
      in (case d of
            DecisionAllow \<Rightarrow> None
          | DecisionVirtualKeyNotFound \<Rightarrow> answer 403
          | DecisionVirtualKeyBlocked \<Rightarrow> answer 403
          | DecisionModelBlocked \<Rightarrow> answer (if pool then 503 else 403)
          | DecisionProviderBlocked \<Rightarrow> answer (if pool then 503 else 403)
          | DecisionRateLimited \<Rightarrow> answer 429
          | DecisionTokenLimited \<Rightarrow> answer 429
          | DecisionRequestLimited \<Rightarrow> answer 429
          | DecisionBudgetExceeded \<Rightarrow> answer 402))"

definition EvaluateGovernanceRequest ::
  "gov_config \<Rightarrow> gov_env \<Rightarrow> ('f :: {zero, plus, linorder}) gov_store \<Rightarrow> eval_request \<Rightarrow> request_type \<Rightarrow> bctx
   \<Rightarrow> 'f eval_result option \<times> 'f gov_rejection option \<times> bctx" where
  "EvaluateGovernanceRequest cfg env gs rq t c =
     (let known = (evq_VirtualKey rq \<noteq> [] \<and> GetVirtualKey gs (evq_VirtualKey rq) \<noteq> None)
      in if evq_VirtualKey rq \<noteq> [] \<and> \<not> known
         then (None, Some (rejection ''virtual_key_not_found'' 401
                (Reason ''virtual key not found. The provided virtual key does not exist or has been revoked.'')), c)
         else if \<not> known \<and> evq_UserID rq = [] \<and> gp_isVkMandatory cfg = Some True
         then (None, Some (rejection ''virtual_key_required'' 401
                (Reason (if gp_isEnterprise cfg
                         then ''authentication is required. Provide a virtual key (x-bf-vk), API key, or user token.''
                         else ''virtual key is required. Provide a virtual key via the x-bf-vk header.''))), c)
         else (case evaluateSteps env gs rq t c of
                 (r, c') \<Rightarrow> (Some r, rejectionOf r, markRejected (er_Decision r) c')))"

text \<open>\<open>headerError\<close> is what \<^verbatim>\<open>validateRequiredHeaders\<close> answers.\<close>

definition PreLLMHook ::
  "gov_config \<Rightarrow> gov_env \<Rightarrow> 'f gov_rejection option \<Rightarrow> string \<Rightarrow> string \<Rightarrow> request_type
   \<Rightarrow> ('f :: {zero, plus, linorder}) gov_store \<Rightarrow> bctx \<Rightarrow> 'f gov_rejection option \<times> bctx" where
  "PreLLMHook cfg env headerError provider model t gs c =
     (case headerError of
        Some e \<Rightarrow> (Some e, c)
      | None \<Rightarrow>
          (let rq = \<lparr>evq_VirtualKey = GetStringFromContext c BifrostContextKeyVirtualKey, evq_Provider = provider,
                      evq_Model = model, evq_UserID = GetStringFromContext c BifrostContextKeyUserID\<rparr>
           in snd (EvaluateGovernanceRequest cfg env gs rq t c)))"

section \<open>Accounting\<close>

record 'f usage_update =
  uu_VirtualKey :: string
  uu_Provider :: string
  uu_Model :: string
  uu_Success :: bool
  uu_TokensUsed :: int
  uu_Cost :: 'f
  uu_RequestID :: string
  uu_UserID :: string
  uu_IsStreaming :: bool
  uu_IsFinalChunk :: bool
  uu_HasUsageData :: bool
  uu_AttemptNumber :: int
  uu_BilledReason :: string

text \<open>The store and the set of settled calls with the times they were settled at.\<close>

record 'f tracker =
  tk_store :: "'f gov_store"
  tk_billed :: "string \<Rightarrow> int option"

definition billedEntryTTL :: int where
  "billedEntryTTL = 5 * 60 * 1000000000"

definition billedKey :: "string \<Rightarrow> int \<Rightarrow> string" where
  "billedKey requestID attempt = requestID @ '':'' @ itoa attempt"

definition tryClaimBilling :: "int \<Rightarrow> 'f usage_update \<Rightarrow> (string \<Rightarrow> int option) \<Rightarrow> bool \<times> (string \<Rightarrow> int option)" where
  "tryClaimBilling now u billed =
     (let key = billedKey (uu_RequestID u) (uu_AttemptNumber u)
      in if uu_RequestID u = [] then (True, billed)
         else if billed key \<noteq> None then (False, billed)
         else (True, billed(key \<mapsto> now)))"

definition sweepBilled :: "int \<Rightarrow> 'f tracker \<Rightarrow> 'f tracker" where
  "sweepBilled now tk =
     tk\<lparr>tk_billed := (\<lambda>k. case tk_billed tk k of
                            None \<Rightarrow> None
                          | Some t \<Rightarrow> if t < now - billedEntryTTL then None else Some t)\<rparr>"

definition updateUserUsage ::
  "gov_env \<Rightarrow> 'f usage_update \<Rightarrow> bool \<Rightarrow> bool \<Rightarrow> bool \<Rightarrow> ('f :: {zero, plus, linorder}) gov_store \<Rightarrow> 'f gov_store" where
  "updateUserUsage env u tokens requests budget gs =
     (if uu_UserID u = [] then gs
      else (let charge = (budget \<and> uu_Cost u > 0);
                gs1 = UpdateUserRateLimitUsageInMemory (uu_UserID u) (uu_TokensUsed u) tokens requests gs;
                gs2 = (if charge then UpdateUserBudgetUsageInMemory (uu_UserID u) (uu_Cost u) gs1 else gs1)
            in if uu_Model u = [] then gs2
               else (let gs3 = UpdateScopedModelRateLimitUsageInMemory env ModelConfigScopeUser (uu_UserID u) (uu_Model u)
                                 (uu_Provider u) (uu_TokensUsed u) tokens requests gs2
                     in if charge
                        then UpdateScopedModelBudgetUsageInMemory env ModelConfigScopeUser (uu_UserID u) (uu_Model u)
                               (uu_Provider u) (uu_Cost u) gs3
                        else gs3)))"

definition updateKeyUsage ::
  "gov_env \<Rightarrow> string \<Rightarrow> 'f usage_update \<Rightarrow> bool \<Rightarrow> bool \<Rightarrow> bool \<Rightarrow> virtual_key
   \<Rightarrow> ('f :: {zero, plus, linorder}) gov_store \<Rightarrow> 'f gov_store" where
  "updateKeyUsage env scoped u tokens requests budget vk gs =
     (let charge = (budget \<and> uu_Cost u > 0);
          gs1 = (if uu_Model u = [] then gs
                 else UpdateScopedModelRateLimitUsageInMemory env ModelConfigScopeVirtualKey (vk_ID vk) (uu_Model u)
                        (uu_Provider u) (uu_TokensUsed u) tokens requests gs);
          gs2 = (if uu_Model u \<noteq> [] \<and> charge
                 then UpdateScopedModelBudgetUsageInMemory env ModelConfigScopeVirtualKey (vk_ID vk) (uu_Model u)
                        (uu_Provider u) (uu_Cost u) gs1
                 else gs1);
          limited = (vk_RateLimitID vk \<noteq> None \<or> vk_ProviderConfigs vk \<noteq> [] \<or> vk_TeamID vk \<noteq> None \<or> vk_CustomerID vk \<noteq> None);
          gs3 = (if limited
                 then (case UpdateVirtualKeyRateLimitUsageInMemory env scoped (Some vk) (uu_Provider u) (uu_TokensUsed u)
                              tokens requests gs2 of None \<Rightarrow> gs2 | Some g \<Rightarrow> g)
                 else gs2)
      in if charge
         then (case UpdateVirtualKeyBudgetUsageInMemory env scoped (Some vk) (uu_Provider u) (uu_Cost u) gs3 of
                 None \<Rightarrow> gs3 | Some g \<Rightarrow> g)
         else gs3)"

definition applyUsage ::
  "gov_env \<Rightarrow> string \<Rightarrow> 'f usage_update \<Rightarrow> ('f :: {zero, plus, linorder}) gov_store \<Rightarrow> 'f gov_store" where
  "applyUsage env scoped u gs =
     (let tokens = (\<not> uu_IsStreaming u \<or> uu_HasUsageData u);
          requests = (uu_Success u \<and> (\<not> uu_IsStreaming u \<or> uu_IsFinalChunk u));
          budget = (\<not> uu_IsStreaming u \<or> uu_HasUsageData u);
          gs1 = (if uu_Model u = [] then gs
                 else UpdateProviderAndModelRateLimitUsageInMemory env (uu_Model u) (uu_Provider u) (uu_TokensUsed u)
                        tokens requests gs);
          gs2 = (if uu_Model u \<noteq> [] \<and> budget \<and> uu_Cost u > 0
                 then UpdateProviderAndModelBudgetUsageInMemory env (uu_Model u) (uu_Provider u) (uu_Cost u) gs1
                 else gs1);
          gs3 = updateUserUsage env u tokens requests budget gs2
      in if uu_VirtualKey u = [] then gs3
         else case GetVirtualKey gs3 (uu_VirtualKey u) of
                None \<Rightarrow> gs3
              | Some vk \<Rightarrow> updateKeyUsage env scoped u tokens requests budget vk gs3)"

text \<open>\<open>scoped\<close> is the scoped customer of the context that \<^verbatim>\<open>UpdateUsage\<close> is called with.\<close>

definition UpdateUsage ::
  "gov_env \<Rightarrow> string \<Rightarrow> 'f usage_update \<Rightarrow> ('f :: {zero, plus, linorder}) tracker \<Rightarrow> 'f tracker" where
  "UpdateUsage env scoped u tk =
     (let hasUsage = (uu_TokensUsed u > 0 \<or> uu_Cost u > 0);
          isTerminal = (\<not> uu_IsStreaming u \<or> uu_IsFinalChunk u);
          (claimed, billed) = (if isTerminal then tryClaimBilling (gv_now env) u (tk_billed tk) else (True, tk_billed tk))
      in if \<not> uu_Success u \<and> \<not> hasUsage then tk
         else if \<not> claimed then tk\<lparr>tk_billed := billed\<rparr>
         else tk\<lparr>tk_store := applyUsage env scoped u (tk_store tk), tk_billed := billed\<rparr>)"

text \<open>The order in which the two maps are visited is an argument of the tick; writing to the database
  is left out.\<close>

definition resetExpiredCounters ::
  "gov_env \<Rightarrow> string list \<Rightarrow> string list \<Rightarrow> ('f :: zero) tracker \<Rightarrow> 'f tracker" where
  "resetExpiredCounters env rateIDs budgetIDs tk =
     sweepBilled (gv_now env)
       (tk\<lparr>tk_store := snd (ResetExpiredBudgetsInMemory env budgetIDs
                              (snd (ResetExpiredRateLimitsInMemory env rateIDs (tk_store tk))))\<rparr>)"

section \<open>After the response\<close>

definition isAccountConcurrencyLimitText :: "string \<Rightarrow> bool" where
  "isAccountConcurrencyLimitText text =
     (let lower = toLower text
      in strContains lower ''concurrency limit exceeded for account'' \<or> strContains lower ''account_concurrency''
         \<or> strContains lower ''too many pending requests'' \<or> strContains lower ''upstream rate limit exceeded'')"

text \<open>Message, type and code of an error that has an error field.\<close>

definition isAccountConcurrencyLimitError :: "(string \<times> string option \<times> string option) option \<Rightarrow> bool" where
  "isAccountConcurrencyLimitError err =
     (case err of
        None \<Rightarrow> False
      | Some (message, type, code) \<Rightarrow>
          isAccountConcurrencyLimitText message
          \<or> (case type of None \<Rightarrow> False | Some x \<Rightarrow> isAccountConcurrencyLimitText x)
          \<or> (case code of None \<Rightarrow> False | Some x \<Rightarrow> isAccountConcurrencyLimitText x))"

record cooldown =
  cd_Provider :: string
  cd_CooldownUntil :: int
  cd_Reason :: string
  cd_WindowSeconds :: int
  cd_UpdatedAt :: int

text \<open>The cooldown that is recorded for the provider, if any; \<open>routed\<close> is the provider of the error's
  routing information.\<close>

definition cooldownProviderOnAccountConcurrencyLimit ::
  "int \<Rightarrow> string \<Rightarrow> string \<Rightarrow> (string \<times> string option \<times> string option) option \<Rightarrow> cooldown option" where
  "cooldownProviderOnAccountConcurrencyLimit now provider routed err =
     (let p = (if provider = [] then routed else provider)
      in if \<not> isAccountConcurrencyLimitError err \<or> p = [] then None
         else Some \<lparr>cd_Provider = p, cd_CooldownUntil = now + 30 * 1000000000, cd_Reason = ''account_concurrency_limit'',
                    cd_WindowSeconds = 30, cd_UpdatedAt = now\<rparr>)"

text \<open>What the hook reads of the response or the error: the tokens of the response's usage by variant,
  the usage an error carries, and the costs the catalogue computes for the two (zero without one).\<close>

record 'f outcome =
  oc_result :: "int option list option"
  oc_billedTokens :: "int option"
  oc_cost :: 'f
  oc_billedCost :: 'f

definition responseTokens :: "int option list \<Rightarrow> int" where
  "responseTokens usages = (case List.map_filter (\<lambda>x. x) usages of [] \<Rightarrow> 0 | t # _ \<Rightarrow> t)"

text \<open>The update of a finished response; chunks before the last one make none.\<close>

definition postHookWorker ::
  "('f :: {zero, linorder}) outcome \<Rightarrow> string \<Rightarrow> string \<Rightarrow> request_type \<Rightarrow> string \<Rightarrow> string \<Rightarrow> string \<Rightarrow> bool \<Rightarrow> int
   \<Rightarrow> 'f usage_update option" where
  "postHookWorker out provider model t virtualKey requestID userID isFinalChunk attempt =
     (let isStreaming = IsStreamRequestType t;
          success = (oc_result out \<noteq> None);
          partial = (\<not> success \<and> oc_billedTokens out \<noteq> None);
          tokens = (case oc_result out of
                      Some us \<Rightarrow> responseTokens us
                    | None \<Rightarrow> (case oc_billedTokens out of None \<Rightarrow> 0 | Some n \<Rightarrow> n));
          cost = (if success then oc_cost out else if partial then oc_billedCost out else 0)
      in if isStreaming \<and> \<not> isFinalChunk then None
         else Some \<lparr>uu_VirtualKey = virtualKey, uu_Provider = provider, uu_Model = model, uu_Success = success,
                    uu_TokensUsed = tokens, uu_Cost = cost, uu_RequestID = requestID, uu_UserID = userID,
                    uu_IsStreaming = isStreaming, uu_IsFinalChunk = isFinalChunk,
                    uu_HasUsageData = (tokens > 0 \<or> cost > 0), uu_AttemptNumber = attempt,
                    uu_BilledReason = (if partial then ''partial_usage_on_error'' else ''success'')\<rparr>)"

definition attachIDs :: "string list \<times> string list \<Rightarrow> bctx \<Rightarrow> bctx" where
  "attachIDs ids c =
     (let c1 = (if fst ids = [] then c else SetValue BifrostContextKeyGovernanceBudgetIDs (VStrs (fst ids)) c)
      in if snd ids = [] then c1 else SetValue BifrostContextKeyGovernanceRateLimitIDs (VStrs (snd ids)) c1)"

text \<open>The context and the update that the spawned goroutine sends to the tracker. The filter of the
  models a listing shows and the cooldown are separate results of the hook.\<close>

definition PostLLMHook ::
  "gov_env \<Rightarrow> ('f :: {zero, plus, linorder}) outcome \<Rightarrow> string \<Rightarrow> string \<Rightarrow> request_type \<Rightarrow> 'f gov_store \<Rightarrow> bctx
   \<Rightarrow> bctx \<times> 'f usage_update option" where
  "PostLLMHook env out provider requestedModel t gs c =
     (let effectiveVK = (if GetBoolFromContext c BifrostContextKeySkipVirtualKeyUsageTracking then []
                         else GetStringFromContext c BifrostContextKeyVirtualKey);
          userID = GetStringFromContext c BifrostContextKeyUserID
      in if ctxBool c governanceRejectedContextKey \<noteq> None \<or> requestedModel = [] then (c, None)
         else (attachIDs (CollectApplicableGovernanceIDs env (scopedCustomer c) gs effectiveVK userID provider requestedModel) c,
               postHookWorker out provider requestedModel t effectiveVK (GetStringFromContext c BifrostContextKeyRequestID)
                 userID (IsFinalChunk (Some c)) (GetIntFromContext c BifrostContextKeyNumberOfRetries)))"

section \<open>An allowed request is within its limits\<close>

lemma stops_iff [simp]:
  assumes "coherent ch"
  shows "rateStops ch \<longleftrightarrow> fst ch \<noteq> DecisionAllow" and "budgetStops ch \<longleftrightarrow> fst ch \<noteq> DecisionAllow"
  using assms by (auto simp: coherent_def rateStops_def budgetStops_def isRateLimitViolation_def isBudgetViolation_def)

lemma resultOf_sel [simp]:
  "er_Decision (resultOf d r vk) = d" "er_VirtualKey (resultOf d r vk) = vk" "er_Reason (resultOf d r vk) = r"
  by (simp_all add: resultOf_def)

lemma stopped_sel [simp]: "er_Decision (stopped msg ch vk) = fst ch" "er_VirtualKey (stopped msg ch vk) = vk"
  by (simp_all add: stopped_def)

lemma modelAndProvider_allow:
  fixes gs :: "('f :: {zero, plus, linorder}) gov_store"
  shows "er_Decision (EvaluateModelAndProviderRequest env gs provider model) = DecisionAllow \<longleftrightarrow>
    (provider \<noteq> [] \<longrightarrow> fst (CheckProviderRateLimit env gs provider :: 'f checked) = DecisionAllow
                    \<and> fst (CheckProviderBudget env gs provider) = DecisionAllow)
    \<and> (model \<noteq> [] \<longrightarrow> fst (CheckModelRateLimit env gs provider model :: 'f checked) = DecisionAllow
                    \<and> fst (CheckModelBudget env gs provider model) = DecisionAllow)"
  by (simp add: EvaluateModelAndProviderRequest_def)

lemma checkKeyLimits_None:
  fixes gs :: "('f :: {zero, plus, linorder}) gov_store"
  shows "checkKeyLimits env scoped gs vk provider model = None \<longleftrightarrow>
    fst (CheckVirtualKeyRateLimit env scoped gs (Some vk) provider :: 'f checked) = DecisionAllow
    \<and> fst (CheckVirtualKeyBudget env scoped gs (Some vk) provider) = DecisionAllow
    \<and> (model \<noteq> [] \<longrightarrow>
        fst (CheckScopedModelRateLimit env gs ModelConfigScopeVirtualKey (vk_ID vk) provider model :: 'f checked) = DecisionAllow
        \<and> fst (CheckScopedModelBudget env gs ModelConfigScopeVirtualKey (vk_ID vk) provider model) = DecisionAllow)"
  by (simp add: checkKeyLimits_def checkRateLimitHierarchy_def checkBudgetHierarchy_def Let_def)

lemma checkKeyLimits_Some: "checkKeyLimits env scoped gs vk provider model = Some r \<Longrightarrow> er_Decision r \<noteq> DecisionAllow"
  by (auto simp: checkKeyLimits_def checkRateLimitHierarchy_def checkBudgetHierarchy_def Let_def split: if_splits option.splits)

text \<open>The stamps leave the scope of the request alone.\<close>

lemma scopedCustomer_stamp [simp]: "scopedCustomer (stampVirtualKey vk c) = scopedCustomer c"
  by (simp add: scopedCustomer_def GetStringFromContext_def ctxString_def stampVirtualKey_def stampCustomer_def stampTeam_def
      setOwner_def Value_SetValue_other split: option.split)

lemma virtualKey_allow:
  fixes gs :: "('f :: {zero, plus, linorder}) gov_store"
  assumes "er_Decision (fst (EvaluateVirtualKeyRequest env gs v provider model t False c)) = DecisionAllow"
  shows "\<exists>vk. GetVirtualKey gs v = Some vk \<and> IsActiveValue vk
    \<and> (t \<noteq> ListModelsRequest \<longrightarrow> isProviderAllowed (virtualKeyForEvaluation env vk) provider)
    \<and> (IsModelRequiredForRequest t \<longrightarrow> isModelAllowed env (virtualKeyForEvaluation env vk) provider model)
    \<and> checkKeyLimits env (scopedCustomer c) gs (virtualKeyForEvaluation env vk) provider model = None"
  using assms
  by (auto simp: EvaluateVirtualKeyRequest_def Let_def split: option.splits if_splits dest: checkKeyLimits_Some)

lemma rejectionOf_None: "rejectionOf r = None \<longleftrightarrow> er_Decision r = DecisionAllow"
  by (simp add: rejectionOf_def Let_def split: decision.split)

lemma evaluateSteps_allow:
  fixes gs :: "('f :: {zero, plus, linorder}) gov_store"
  assumes "er_Decision (fst (evaluateSteps env gs rq t c)) = DecisionAllow"
  shows "er_Decision (EvaluateModelAndProviderRequest env gs (evq_Provider rq) (evq_Model rq)) = DecisionAllow"
    and "evq_VirtualKey rq \<noteq> [] \<Longrightarrow>
      er_Decision (fst (EvaluateVirtualKeyRequest env gs (evq_VirtualKey rq) (evq_Provider rq) (evq_Model rq) t
        (evq_UserID rq \<noteq> [] \<or> GetBoolFromContext c BifrostContextKeySkipBudgetAndRateLimits) c)) = DecisionAllow"
  using assms by (auto simp: evaluateSteps_def Let_def split: prod.splits if_splits option.splits)

text \<open>Every stored key has an identifier, counters are stored under theirs, configurations print
  apart.\<close>

definition storeOk :: "'f gov_store \<Rightarrow> bool" where
  "storeOk gs \<longleftrightarrow> budgetIDsOk gs \<and> rateIDsOk gs \<and> keysOk gs
     \<and> (\<forall>v vk. gs_virtualKeys gs v = Some vk \<longrightarrow> vk_ID vk \<noteq> [])"

lemma collectApplicable_budgets:
  "set (fst (CollectApplicableGovernanceIDs env scoped gs v u provider model)) =
    set_option (providerBudgetID gs provider)
    \<union> (\<Union>mc\<in>set (applicableConfigs env gs (if v = [] then None else GetVirtualKey gs v) u provider model). set (mc_Budgets mc))
    \<union> (\<Union>vk\<in>set_option (if v = [] then None else GetVirtualKey gs v). set (collectBudgetIDsFromMemory scoped gs vk provider))"
  by (auto simp: CollectApplicableGovernanceIDs_def Let_def set_addUnseen optList_def split: option.splits)

lemma collectApplicable_rates:
  "set (snd (CollectApplicableGovernanceIDs env scoped gs v u provider model)) =
    set_option (providerRateLimitID gs provider)
    \<union> (\<Union>mc\<in>set (applicableConfigs env gs (if v = [] then None else GetVirtualKey gs v) u provider model). set_option (mc_RateLimitID mc))
    \<union> (\<Union>vk\<in>set_option (if v = [] then None else GetVirtualKey gs v). set (collectRateLimitIDsFromMemory scoped gs vk provider))"
  by (auto simp: CollectApplicableGovernanceIDs_def Let_def set_addUnseen optList_def split: option.splits)

lemma applicableConfigs_key:
  assumes "mc \<in> set (applicableConfigs env gs vk [] provider model)"
  shows "model \<noteq> [] \<and> (mc \<in> set (collectModelConfigsFor env gs ModelConfigScopeGlobal [] model (optProvider provider))
    \<or> (\<exists>k. vk = Some k \<and> mc \<in> set (collectModelConfigsFor env gs ModelConfigScopeVirtualKey (vk_ID k) model (optProvider provider))))"
  using assms by (auto simp: applicableConfigs_def nonGlobalModelConfigScopeChain_def split: if_splits option.splits)

lemma providerBudget_within:
  assumes "fst (CheckProviderBudget env gs provider) = DecisionAllow" "providerBudgetID gs provider = Some i" "gs_budgets gs i = Some b"
  shows "withinBudget env b"
  using assms
  by (auto simp: CheckProviderBudget_def providerBudgetID_def CheckBudget_allow split: option.splits if_splits bind_splits)

lemma providerRate_within:
  assumes "fst (CheckProviderRateLimit env gs provider :: 'f checked) = DecisionAllow"
    "providerRateLimitID gs provider = Some i" "gs_rateLimits gs i = Some r"
  shows "withinRateLimit env r"
  using assms
  by (auto simp: CheckProviderRateLimit_def providerRateLimitID_def CheckRateLimit_allow split: option.splits if_splits bind_splits)

lemma model_within:
  fixes gs :: "('f :: {zero, plus, linorder}) gov_store"
  assumes "keysOk gs" "mc \<in> set (collectModelConfigsFor env gs ModelConfigScopeGlobal [] model (optProvider provider))"
  shows "fst (CheckModelBudget env gs provider model) = DecisionAllow \<Longrightarrow> i \<in> set (mc_Budgets mc) \<Longrightarrow> gs_budgets gs i = Some b
      \<Longrightarrow> withinBudget env b"
    and "fst (CheckModelRateLimit env gs provider model :: 'f checked) = DecisionAllow \<Longrightarrow> mc_RateLimitID mc = Some j
      \<Longrightarrow> gs_rateLimits gs j = Some r \<Longrightarrow> withinRateLimit env r"
  using assms(2)
  by (auto simp: CheckModelBudget_def CheckModelRateLimit_def CheckBudget_allow CheckRateLimit_allow
      modelBudgets_items [OF assms(1)] modelRateLimits_items [OF assms(1)] loadedFrom_def)

lemma scopedModel_within:
  fixes gs :: "('f :: {zero, plus, linorder}) gov_store"
  assumes "keysOk gs" "scope \<noteq> []" "k \<noteq> []" "mc \<in> set (collectModelConfigsFor env gs scope k model (optProvider provider))"
  shows "fst (CheckScopedModelBudget env gs scope k provider model) = DecisionAllow \<Longrightarrow> i \<in> set (mc_Budgets mc)
      \<Longrightarrow> gs_budgets gs i = Some b \<Longrightarrow> withinBudget env b"
    and "fst (CheckScopedModelRateLimit env gs scope k provider model :: 'f checked) = DecisionAllow \<Longrightarrow> mc_RateLimitID mc = Some j
      \<Longrightarrow> gs_rateLimits gs j = Some r \<Longrightarrow> withinRateLimit env r"
  using assms(2-4)
  by (auto simp: CheckScopedModelBudget_def CheckScopedModelRateLimit_def CheckBudget_allow CheckRateLimit_allow
      modelBudgets_items [OF assms(1)] modelRateLimits_items [OF assms(1)] loadedFrom_def)

lemma hierarchy_within:
  fixes gs :: "('f :: {zero, plus, linorder}) gov_store"
  assumes "budgetIDsOk gs" "rateIDsOk gs"
  shows "fst (CheckVirtualKeyBudget env scoped gs (Some vk) provider) = DecisionAllow
      \<Longrightarrow> i \<in> set (collectBudgetIDsFromMemory scoped gs vk provider) \<Longrightarrow> gs_budgets gs i = Some b \<Longrightarrow> withinBudget env b"
    and "fst (CheckVirtualKeyRateLimit env scoped gs (Some vk) provider :: 'f checked) = DecisionAllow
      \<Longrightarrow> j \<in> set (collectRateLimitIDsFromMemory scoped gs vk provider) \<Longrightarrow> gs_rateLimits gs j = Some r \<Longrightarrow> withinRateLimit env r"
  by (auto simp: CheckVirtualKeyBudget_def CheckVirtualKeyRateLimit_def CheckBudget_allow CheckRateLimit_allow
      collectBudgets_items [OF assms(1)] collectRateLimits_items collectBudgetIDs_set [OF assms(1)]
      collectRateLimitIDs_set [OF assms(2)] loadedFrom_def)

lemma scopeKey_nonempty: "ModelConfigScopeVirtualKey \<noteq> []"
  by (simp add: ModelConfigScopeVirtualKey_def)

lemma allowed_parts:
  fixes gs :: "('f :: {zero, plus, linorder}) gov_store"
  assumes "EvaluateGovernanceRequest cfg env gs rq t c = (r, None, c')"
    and "evq_UserID rq = []" "\<not> GetBoolFromContext c BifrostContextKeySkipBudgetAndRateLimits" "gv_systemPool env = None"
  shows "er_Decision (EvaluateModelAndProviderRequest env gs (evq_Provider rq) (evq_Model rq)) = DecisionAllow"
    and "evq_VirtualKey rq \<noteq> [] \<Longrightarrow> \<exists>vk. GetVirtualKey gs (evq_VirtualKey rq) = Some vk
      \<and> checkKeyLimits env (scopedCustomer c) gs vk (evq_Provider rq) (evq_Model rq) = None"
proof -
  have allow: "er_Decision (fst (evaluateSteps env gs rq t c)) = DecisionAllow"
    using assms(1) by (auto simp: EvaluateGovernanceRequest_def Let_def rejectionOf_None split: if_splits prod.splits)
  then show "er_Decision (EvaluateModelAndProviderRequest env gs (evq_Provider rq) (evq_Model rq)) = DecisionAllow"
    by (rule evaluateSteps_allow)
  assume "evq_VirtualKey rq \<noteq> []"
  from evaluateSteps_allow(2) [OF allow this] virtualKey_allow [of env gs "evq_VirtualKey rq"]
  show "\<exists>vk. GetVirtualKey gs (evq_VirtualKey rq) = Some vk
      \<and> checkKeyLimits env (scopedCustomer c) gs vk (evq_Provider rq) (evq_Model rq) = None"
    using assms(2-4) by (fastforce simp: virtualKeyForEvaluation_def)
qed

lemma allowed_budget:
  fixes gs :: "('f :: {zero, plus, linorder}) gov_store"
  assumes "EvaluateGovernanceRequest cfg env gs rq t c = (r, None, c')" "storeOk gs"
    and "evq_UserID rq = []" "\<not> GetBoolFromContext c BifrostContextKeySkipBudgetAndRateLimits" "gv_systemPool env = None"
    and i: "i \<in> set (fst (CollectApplicableGovernanceIDs env (scopedCustomer c) gs (evq_VirtualKey rq) (evq_UserID rq)
                        (evq_Provider rq) (evq_Model rq)))"
    and b: "gs_budgets gs i = Some b"
  shows "withinBudget env b"
proof -
  note parts = allowed_parts [OF assms(1) assms(3-5)]
  have ok: "budgetIDsOk gs" "rateIDsOk gs" "keysOk gs" and ids: "\<And>v vk. gs_virtualKeys gs v = Some vk \<Longrightarrow> vk_ID vk \<noteq> []"
    using assms(2) by (auto simp: storeOk_def)
  let ?p = "evq_Provider rq" let ?m = "evq_Model rq"
  consider (provider) "providerBudgetID gs ?p = Some i"
    | (global) mc where "?m \<noteq> []" "mc \<in> set (collectModelConfigsFor env gs ModelConfigScopeGlobal [] ?m (optProvider ?p))" "i \<in> set (mc_Budgets mc)"
    | (scoped) vk mc where "?m \<noteq> []" "evq_VirtualKey rq \<noteq> []" "GetVirtualKey gs (evq_VirtualKey rq) = Some vk"
        "mc \<in> set (collectModelConfigsFor env gs ModelConfigScopeVirtualKey (vk_ID vk) ?m (optProvider ?p))" "i \<in> set (mc_Budgets mc)"
    | (hierarchy) vk where "evq_VirtualKey rq \<noteq> []" "GetVirtualKey gs (evq_VirtualKey rq) = Some vk"
        "i \<in> set (collectBudgetIDsFromMemory (scopedCustomer c) gs vk ?p)"
    using i unfolding collectApplicable_budgets assms(3)
    by (fastforce dest: applicableConfigs_key split: if_splits)
  then show ?thesis
  proof cases
    case provider
    then have "?p \<noteq> []" by (auto simp: providerBudgetID_def)
    then show ?thesis using parts(1) providerBudget_within [OF _ provider b] by (simp add: modelAndProvider_allow)
  next
    case global
    then show ?thesis using parts(1) model_within(1) [OF ok(3) global(2) _ global(3) b] by (simp add: modelAndProvider_allow)
  next
    case scoped
    then have "vk_ID vk \<noteq> []" using ids by (simp add: GetVirtualKey_def)
    then show ?thesis
      using parts(2) scoped scopedModel_within(1) [OF ok(3) scopeKey_nonempty _ scoped(4) _ scoped(5) b] by (auto simp: checkKeyLimits_None)
  next
    case hierarchy
    then show ?thesis using parts(2) hierarchy_within(1) [OF ok(1,2) _ hierarchy(3) b] by (auto simp: checkKeyLimits_None)
  qed
qed

lemma allowed_rateLimit:
  fixes gs :: "('f :: {zero, plus, linorder}) gov_store"
  assumes "EvaluateGovernanceRequest cfg env gs rq t c = (r, None, c')" "storeOk gs"
    and "evq_UserID rq = []" "\<not> GetBoolFromContext c BifrostContextKeySkipBudgetAndRateLimits" "gv_systemPool env = None"
    and i: "i \<in> set (snd (CollectApplicableGovernanceIDs env (scopedCustomer c) gs (evq_VirtualKey rq) (evq_UserID rq)
                        (evq_Provider rq) (evq_Model rq)))"
    and l: "gs_rateLimits gs i = Some l"
  shows "withinRateLimit env l"
proof -
  note parts = allowed_parts [OF assms(1) assms(3-5)]
  have ok: "budgetIDsOk gs" "rateIDsOk gs" "keysOk gs" and ids: "\<And>v vk. gs_virtualKeys gs v = Some vk \<Longrightarrow> vk_ID vk \<noteq> []"
    using assms(2) by (auto simp: storeOk_def)
  let ?p = "evq_Provider rq" let ?m = "evq_Model rq"
  consider (provider) "providerRateLimitID gs ?p = Some i"
    | (global) mc where "?m \<noteq> []" "mc \<in> set (collectModelConfigsFor env gs ModelConfigScopeGlobal [] ?m (optProvider ?p))" "mc_RateLimitID mc = Some i"
    | (scoped) vk mc where "?m \<noteq> []" "evq_VirtualKey rq \<noteq> []" "GetVirtualKey gs (evq_VirtualKey rq) = Some vk"
        "mc \<in> set (collectModelConfigsFor env gs ModelConfigScopeVirtualKey (vk_ID vk) ?m (optProvider ?p))" "mc_RateLimitID mc = Some i"
    | (hierarchy) vk where "evq_VirtualKey rq \<noteq> []" "GetVirtualKey gs (evq_VirtualKey rq) = Some vk"
        "i \<in> set (collectRateLimitIDsFromMemory (scopedCustomer c) gs vk ?p)"
    using i unfolding collectApplicable_rates assms(3)
    by (fastforce dest: applicableConfigs_key split: if_splits)
  then show ?thesis
  proof cases
    case provider
    then have "?p \<noteq> []" by (auto simp: providerRateLimitID_def)
    then show ?thesis
      using parts(1) providerRate_within [OF _ provider l] by (simp add: modelAndProvider_allow)
  next
    case global
    then show ?thesis using parts(1) model_within(2) [OF ok(3) global(2) _ global(3) l] by (simp add: modelAndProvider_allow)
  next
    case scoped
    then have "vk_ID vk \<noteq> []" using ids by (simp add: GetVirtualKey_def)
    then show ?thesis
      using parts(2) scoped scopedModel_within(2) [OF ok(3) scopeKey_nonempty _ scoped(4) _ scoped(5) l] by (auto simp: checkKeyLimits_None)
  next
    case hierarchy
    then show ?thesis using parts(2) hierarchy_within(2) [OF ok(1,2) _ hierarchy(3) l] by (auto simp: checkKeyLimits_None)
  qed
qed


text \<open>A key of a team with a budget, a provider with a rate limit and a budget on a model.\<close>

definition demoBudget :: "string \<Rightarrow> int \<Rightarrow> int \<Rightarrow> int budget" where
  "demoBudget i limit used =
     \<lparr>bg_ID = i, bg_MaxLimit = limit, bg_ResetDuration = ''1h'', bg_LastReset = 0, bg_CurrentUsage = used, bg_IsCalendarAligned = False\<rparr>"

definition demoRateLimit :: rate_limit where
  "demoRateLimit =
     \<lparr>rl_ID = ''r1'', rl_TokenMaxLimit = Some 100, rl_TokenResetDuration = Some ''1h'', rl_TokenCurrentUsage = 40,
      rl_TokenLastReset = 0, rl_RequestMaxLimit = None, rl_RequestResetDuration = None, rl_RequestCurrentUsage = 0,
      rl_RequestLastReset = 0, rl_IsCalendarAligned = False\<rparr>"

definition demoCustomer :: customer_table where
  "demoCustomer = \<lparr>cu_ID = ''c1'', cu_Name = ''acme'', cu_Budgets = [''bc''], cu_RateLimitID = None\<rparr>"

definition demoTeam :: team_table where
  "demoTeam = \<lparr>tm_ID = ''t1'', tm_Name = ''team'', tm_Budgets = [''bt''], tm_RateLimitID = None,
     tm_CustomerID = Some ''c1'', tm_Customer = Some demoCustomer\<rparr>"

definition demoKey :: virtual_key where
  "demoKey =
     \<lparr>vk_ID = ''k1'', vk_Name = ''key'', vk_IsActive = None,
      vk_ProviderConfigs = [\<lparr>vp_ID = 1, vp_Provider = ''openai'', vp_AllowedModels = [''*''], vp_BlacklistedModels = [], vp_AllowAllKeys = True,
         vp_Keys = [], vp_Budgets = [], vp_RateLimitID = None\<rparr>],
      vk_Budgets = [], vk_RateLimitID = None, vk_TeamID = Some ''t1'', vk_Team = Some demoTeam, vk_CustomerID = None,
      vk_Customer = None\<rparr>"

definition demoStore :: "int gov_store" where
  "demoStore =
     \<lparr>gs_virtualKeys = [''sk-bf-1'' \<mapsto> demoKey], gs_teams = [''t1'' \<mapsto> demoTeam], gs_customers = [''c1'' \<mapsto> demoCustomer],
      gs_budgets = [''bt'' \<mapsto> demoBudget ''bt'' 10 4, ''bc'' \<mapsto> demoBudget ''bc'' 10 5, ''bm'' \<mapsto> demoBudget ''bm'' 10 6],
      gs_rateLimits = [''r1'' \<mapsto> demoRateLimit],
      gs_modelConfigs = [''gpt-4'' \<mapsto> \<lparr>mc_ID = ''m1'', mc_ModelName = ''gpt-4'', mc_Provider = None, mc_Scope = ''global'',
         mc_ScopeID = None, mc_Budgets = [''bm''], mc_RateLimitID = None\<rparr>],
      gs_providers = [''openai'' \<mapsto> \<lparr>pt_BudgetID = None, pt_RateLimitID = Some ''r1''\<rparr>],
      gs_LastDBUsagesBudgets = Map.empty, gs_LastDBUsagesTokens = Map.empty, gs_LastDBUsagesRequests = Map.empty\<rparr>"

definition demoEnv :: gov_env where
  "demoEnv = \<lparr>gv_now = 5, gv_goParse = (\<lambda>_. Some 100), gv_baseModelName = None, gv_modelAllowed = None, gv_systemPool = None\<rparr>"

definition demoContext :: "string \<Rightarrow> bctx" where
  "demoContext scoped =
     NewBifrostContext (\<lambda>k. if k = BifrostContextKeyVirtualKey then VStr ''sk-bf-1''
                            else if k = BifrostContextKeyRequestID then VStr ''req-1''
                            else if k = BifrostContextKeyGovernanceScopedCustomerID then VStr scoped else VNil)"

definition demoRequest :: eval_request where
  "demoRequest = \<lparr>evq_VirtualKey = ''sk-bf-1'', evq_Provider = ''openai'', evq_Model = ''gpt-4'', evq_UserID = []\<rparr>"

lemma demoStore_ok: "storeOk demoStore"
proof -
  have "budgetIDsOk demoStore" "rateIDsOk demoStore"
    by (auto simp: budgetIDsOk_def rateIDsOk_def demoStore_def demoBudget_def demoRateLimit_def split: if_splits)
  moreover have "keysOk demoStore" by (simp add: keysOk_def demoStore_def)
  ultimately show ?thesis by (auto simp: storeOk_def demoStore_def demoKey_def split: if_splits)
qed

lemma demo_allowed:
  "fst (snd (EvaluateGovernanceRequest \<lparr>gp_isVkMandatory = Some True, gp_isEnterprise = False\<rparr> demoEnv demoStore demoRequest
     ChatCompletionRequest (demoContext []))) = None"
  by code_simp

lemma demo_applicable:
  "CollectApplicableGovernanceIDs demoEnv [] demoStore ''sk-bf-1'' [] ''openai'' ''gpt-4'' = ([''bm'', ''bt'', ''bc''], [''r1''])"
  by code_simp


section \<open>Who is charged\<close>

definition configBudgets :: "gov_env \<Rightarrow> 'f gov_store \<Rightarrow> string \<Rightarrow> string \<Rightarrow> string \<Rightarrow> string \<Rightarrow> string set" where
  "configBudgets env gs scope i model p =
     (\<Union>mc\<in>set (collectModelConfigsFor env gs scope i model (optProvider p)). set (mc_Budgets mc))"

lemma configBudgets_same: "sameConfig gs gs' \<Longrightarrow> configBudgets env gs' scope i model p = configBudgets env gs scope i model p"
  by (simp add: configBudgets_def sameConfig_simps(1))

lemma charges_user:
  assumes "uu_Model u \<noteq> []" "uu_Cost u > 0"
  shows "charges env (uu_Cost u)
      (if uu_UserID u = [] then {} else configBudgets env gs ModelConfigScopeUser (uu_UserID u) (uu_Model u) (uu_Provider u))
      gs (updateUserUsage env u ut ur True gs)"
proof (cases "uu_UserID u = []")
  case False
  define gs1 where "gs1 = UpdateScopedModelRateLimitUsageInMemory env ModelConfigScopeUser (uu_UserID u) (uu_Model u)
    (uu_Provider u) (uu_TokensUsed u) ut ur gs"
  have 1: "charges env (uu_Cost u) {} gs gs1" unfolding gs1_def by (rule charges_scopedRate)
  have "ModelConfigScopeUser \<noteq> []" by (simp add: ModelConfigScopeUser_def)
  from charges_trans [OF 1 charges_scopedBudget [OF this False]] show ?thesis
    using False assms
    by (simp add: updateUserUsage_def Let_def UpdateUserRateLimitUsageInMemory_def UpdateUserBudgetUsageInMemory_def
        gs1_def [symmetric] configBudgets_def sameConfig_simps(1) [OF charges_config [OF 1]])
qed (simp add: updateUserUsage_def charges_none)

lemma charges_key:
  assumes "uu_Model u \<noteq> []" "uu_Cost u > 0" "vk_ID vk \<noteq> []" "budgetIDsOk gs"
  shows "charges env (uu_Cost u)
      (configBudgets env gs ModelConfigScopeVirtualKey (vk_ID vk) (uu_Model u) (uu_Provider u)
       \<union> hierarchyBudgetIDs scoped gs vk (uu_Provider u))
      gs (updateKeyUsage env scoped u ut ur True vk gs)"
proof -
  let ?p = "uu_Provider u"
  define gs1 where "gs1 = UpdateScopedModelRateLimitUsageInMemory env ModelConfigScopeVirtualKey (vk_ID vk) (uu_Model u)
    ?p (uu_TokensUsed u) ut ur gs"
  define gs2 where "gs2 = UpdateScopedModelBudgetUsageInMemory env ModelConfigScopeVirtualKey (vk_ID vk) (uu_Model u)
    ?p (uu_Cost u) gs1"
  define gs3 where "gs3 = (if vk_RateLimitID vk \<noteq> None \<or> vk_ProviderConfigs vk \<noteq> [] \<or> vk_TeamID vk \<noteq> None \<or> vk_CustomerID vk \<noteq> None
    then the (UpdateVirtualKeyRateLimitUsageInMemory env scoped (Some vk) ?p (uu_TokensUsed u) ut ur gs2) else gs2)"
  have 1: "charges env (uu_Cost u) {} gs gs1" unfolding gs1_def by (rule charges_scopedRate)
  have 2: "charges env (uu_Cost u) (configBudgets env gs ModelConfigScopeVirtualKey (vk_ID vk) (uu_Model u) ?p) gs gs2"
    using charges_trans [OF 1 charges_scopedBudget [OF scopeKey_nonempty assms(3)]]
    unfolding gs2_def configBudgets_def by (simp add: sameConfig_simps(1) [OF charges_config [OF 1]])
  have 3: "charges env (uu_Cost u) {} gs2 gs3" by (simp add: gs3_def charges_keyRate charges_none)
  note 23 = charges_trans [OF 2 3]
  have ok: "budgetIDsOk gs3" by (rule charges_budgetIDsOk [OF 23 assms(4)])
  have "updateKeyUsage env scoped u ut ur True vk gs
      = the (UpdateVirtualKeyBudgetUsageInMemory env scoped (Some vk) ?p (uu_Cost u) gs3)"
    using assms(1,2)
    by (simp add: updateKeyUsage_def Let_def gs1_def [symmetric] gs2_def [symmetric] gs3_def
        UpdateVirtualKeyBudgetUsageInMemory_def UpdateVirtualKeyRateLimitUsageInMemory_def)
  with charges_trans [OF 23 charges_keyBudget [OF ok]] show ?thesis
    by (simp add: sameConfig_simps(2) [OF charges_config [OF 23]])
qed

lemma applyUsage_paid:
  assumes "uu_Model u \<noteq> []" "uu_Cost u > 0" "\<not> uu_IsStreaming u \<or> uu_HasUsageData u"
  shows "applyUsage env scoped u gs =
    (let ur = (uu_Success u \<and> (\<not> uu_IsStreaming u \<or> uu_IsFinalChunk u));
         gs1 = UpdateProviderAndModelRateLimitUsageInMemory env (uu_Model u) (uu_Provider u) (uu_TokensUsed u) True ur gs;
         gs2 = UpdateProviderAndModelBudgetUsageInMemory env (uu_Model u) (uu_Provider u) (uu_Cost u) gs1;
         gs3 = updateUserUsage env u True ur True gs2
     in if uu_VirtualKey u = [] then gs3
        else case GetVirtualKey gs3 (uu_VirtualKey u) of None \<Rightarrow> gs3 | Some vk \<Rightarrow> updateKeyUsage env scoped u True ur True vk gs3)"
  using assms by (simp add: applyUsage_def Let_def)

lemma applyUsage_charges:
  assumes "storeOk gs" "uu_Model u \<noteq> []" "uu_Cost u > 0" "\<not> uu_IsStreaming u \<or> uu_HasUsageData u"
  shows "charges env (uu_Cost u)
    (set (fst (CollectApplicableGovernanceIDs env scoped gs (uu_VirtualKey u) (uu_UserID u) (uu_Provider u) (uu_Model u))))
    gs (applyUsage env scoped u gs)"
proof -
  let ?m = "uu_Model u" let ?p = "uu_Provider u" let ?c = "uu_Cost u"
  define ur where "ur = (uu_Success u \<and> (\<not> uu_IsStreaming u \<or> uu_IsFinalChunk u))"
  define gs1 where "gs1 = UpdateProviderAndModelRateLimitUsageInMemory env ?m ?p (uu_TokensUsed u) True ur gs"
  define gs2 where "gs2 = UpdateProviderAndModelBudgetUsageInMemory env ?m ?p ?c gs1"
  define gs3 where "gs3 = updateUserUsage env u True ur True gs2"
  define S2 where "S2 = set_option (providerBudgetID gs ?p) \<union> configBudgets env gs ModelConfigScopeGlobal [] ?m ?p"
  define S3 where "S3 = S2 \<union> (if uu_UserID u = [] then {} else configBudgets env gs ModelConfigScopeUser (uu_UserID u) ?m ?p)"
  have 1: "charges env ?c {} gs gs1" unfolding gs1_def by (rule charges_providerModelRate)
  have 2: "charges env ?c S2 gs gs2"
    using charges_trans [OF 1 charges_providerModelBudget] sameConfig_simps(1,5) [OF charges_config [OF 1]]
    unfolding gs2_def S2_def configBudgets_def by simp
  have 3: "charges env ?c S3 gs gs3"
    using charges_trans [OF 2 charges_user [OF assms(2,3), of env gs2 True ur]]
    by (simp only: gs3_def S3_def configBudgets_same [OF charges_config [OF 2]])
  have applied: "applyUsage env scoped u gs = (if uu_VirtualKey u = [] then gs3
      else case GetVirtualKey gs (uu_VirtualKey u) of None \<Rightarrow> gs3 | Some vk \<Rightarrow> updateKeyUsage env scoped u True ur True vk gs3)"
    unfolding applyUsage_paid [OF assms(2-4)] Let_def ur_def [symmetric] gs1_def [symmetric] gs2_def [symmetric]
      gs3_def [symmetric] sameConfig_simps(4) [OF charges_config [OF 3]] by (rule refl)
  have ok: "budgetIDsOk gs" using assms(1) by (simp add: storeOk_def)
  have configs: "(\<Union>mc\<in>set (applicableConfigs env gs vko (uu_UserID u) ?p ?m). set (mc_Budgets mc))
      = configBudgets env gs ModelConfigScopeGlobal [] ?m ?p
        \<union> (if uu_UserID u = [] then {} else configBudgets env gs ModelConfigScopeUser (uu_UserID u) ?m ?p)
        \<union> (case vko of None \<Rightarrow> {} | Some vk \<Rightarrow> configBudgets env gs ModelConfigScopeVirtualKey (vk_ID vk) ?m ?p)" for vko
    using assms(2)
    by (auto simp: applicableConfigs_def nonGlobalModelConfigScopeChain_def configBudgets_def split: option.splits)
  show ?thesis
  proof (cases "if uu_VirtualKey u = [] then None else GetVirtualKey gs (uu_VirtualKey u)")
    case None
    then have "applyUsage env scoped u gs = gs3" by (auto simp: applied split: if_splits)
    then show ?thesis using 3 by (simp add: collectApplicable_budgets None configs S3_def S2_def Un_assoc)
  next
    case (Some vk)
    then have vk: "applyUsage env scoped u gs = updateKeyUsage env scoped u True ur True vk gs3" "vk_ID vk \<noteq> []"
      using assms(1) by (auto simp: applied storeOk_def GetVirtualKey_def split: if_splits)
    note key = charges_trans [OF 3 charges_key [OF assms(2,3) vk(2) charges_budgetIDsOk [OF 3 ok]]]
    show ?thesis unfolding vk(1)
      by (rule charges_cong [OF key])
        (auto simp: collectApplicable_budgets Some configs S3_def S2_def collectBudgetIDs_set [OF ok]
          configBudgets_same [OF charges_config [OF 3]] sameConfig_simps(2) [OF charges_config [OF 3]] split: if_splits)
  qed
qed

definition settled :: "('f :: {zero, linorder}) usage_update \<Rightarrow> bool" where
  "settled u \<longleftrightarrow> (uu_Success u \<or> uu_TokensUsed u > 0 \<or> uu_Cost u > 0) \<and> (\<not> uu_IsStreaming u \<or> uu_IsFinalChunk u)"

definition unclaimed :: "'f usage_update \<Rightarrow> 'f tracker \<Rightarrow> bool" where
  "unclaimed u tk \<longleftrightarrow> uu_RequestID u = [] \<or> tk_billed tk (billedKey (uu_RequestID u) (uu_AttemptNumber u)) = None"

lemma UpdateUsage_settled:
  assumes "settled u"
  shows "UpdateUsage env scoped u tk =
    (if unclaimed u tk
     then tk\<lparr>tk_store := applyUsage env scoped u (tk_store tk),
             tk_billed := (if uu_RequestID u = [] then tk_billed tk
                           else (tk_billed tk)(billedKey (uu_RequestID u) (uu_AttemptNumber u) \<mapsto> gv_now env))\<rparr>
     else tk)"
  using assms by (auto simp: UpdateUsage_def settled_def unclaimed_def tryClaimBilling_def Let_def)

lemma charges_at:
  assumes "charges env cost S gs gs'" "gs_budgets gs i = Some b"
  shows "\<exists>n. gs_budgets gs' i = Some ((bumpedBudget env cost ^^ n) b) \<and> (n > 0 \<longleftrightarrow> i \<in> S)"
proof -
  obtain n where "gs_budgets gs' i = map_option (bumpedBudget env cost ^^ n) (gs_budgets gs i)" "n > 0 \<longleftrightarrow> i \<in> S"
    using assms(1) unfolding charges_def by metis
  then show ?thesis using assms(2) by auto
qed

lemma UpdateUsage_at:
  assumes "storeOk (tk_store tk)" "settled u" "unclaimed u tk"
    and "uu_Model u \<noteq> []" "uu_Cost u > 0" "\<not> uu_IsStreaming u \<or> uu_HasUsageData u"
    and "gs_budgets (tk_store tk) i = Some b"
  shows "\<exists>n. gs_budgets (tk_store (UpdateUsage env scoped u tk)) i = Some ((bumpedBudget env (uu_Cost u) ^^ n) b)
    \<and> (n > 0 \<longleftrightarrow> i \<in> set (fst (CollectApplicableGovernanceIDs env scoped (tk_store tk) (uu_VirtualKey u) (uu_UserID u)
                                 (uu_Provider u) (uu_Model u))))"
  using charges_at [OF applyUsage_charges [OF assms(1,4-6)] assms(7)] by (simp add: UpdateUsage_settled [OF assms(2)] assms(3))


definition demoUpdate :: "int usage_update" where
  "demoUpdate =
     \<lparr>uu_VirtualKey = ''sk-bf-1'', uu_Provider = ''openai'', uu_Model = ''gpt-4'', uu_Success = True, uu_TokensUsed = 12,
      uu_Cost = 2, uu_RequestID = ''req-1'', uu_UserID = [], uu_IsStreaming = False, uu_IsFinalChunk = False,
      uu_HasUsageData = True, uu_AttemptNumber = 0, uu_BilledReason = ''success''\<rparr>"

definition demoTracker :: "int tracker" where
  "demoTracker = \<lparr>tk_store = demoStore, tk_billed = Map.empty\<rparr>"

lemma demoUpdate_facts:
  "settled demoUpdate" "unclaimed demoUpdate demoTracker" "uu_Model demoUpdate \<noteq> []" "uu_Cost demoUpdate > 0"
  "\<not> uu_IsStreaming demoUpdate \<or> uu_HasUsageData demoUpdate"
  by (simp_all add: settled_def demoUpdate_def unclaimed_def demoTracker_def)



lemma demo_scoped:
  "PostLLMHook demoEnv \<lparr>oc_result = Some [Some 12], oc_billedTokens = None, oc_cost = 2, oc_billedCost = 0\<rparr> ''openai'' ''gpt-4''
     ChatCompletionRequest demoStore (demoContext ''c2'')
   = (attachIDs ([''bm'', ''bt''], [''r1'']) (demoContext ''c2''), Some demoUpdate)"
proof -
  have "CollectApplicableGovernanceIDs demoEnv ''c2'' demoStore ''sk-bf-1'' [] ''openai'' ''gpt-4'' = ([''bm'', ''bt''], [''r1''])"
    by code_simp
  then show ?thesis
    by (simp add: PostLLMHook_def Let_def postHookWorker_def responseTokens_def List.map_filter_def IsStreamRequestType_def
        IsFinalChunk_def GetBoolFromContext_def GetStringFromContext_def GetIntFromContext_def ctxBool_def ctxString_def
        ctxInt_def scopedCustomer_def demoContext_def Value_New demoUpdate_def)
qed


text \<open>Two calls share a claim exactly when they share the request's identifier and the attempt.\<close>

lemma billedKey_inject: "billedKey r a = billedKey r' a' \<longleftrightarrow> r = r' \<and> a = a'"
  using colon_split [OF _ itoa_no_colon itoa_no_colon] by (auto simp: billedKey_def)



section \<open>Rejections\<close>

lemma rejected_writable: "\<not> writeDropped c governanceRejectedContextKey"
  by (simp add: writeDropped_def reservedKeys_def)

lemma ctxBool_SetValue: "\<not> writeDropped c k \<Longrightarrow> ctxBool (SetValue k (VBool b) c) k = Some b"
  by (simp add: ctxBool_def Value_SetValue)

lemma ctxBool_ClearValue: "\<not> writeDropped c k \<Longrightarrow> ctxBool (ClearValue k c) k = None"
  by (simp add: ctxBool_def ClearValue_def)

lemma ctxBool_mark: "ctxBool (markRejected d c) governanceRejectedContextKey = None \<longleftrightarrow> d = DecisionAllow"
  by (auto simp: markRejected_def ctxBool_SetValue ctxBool_ClearValue rejected_writable)

text \<open>
  The answer to an evaluated request: its status follows the decision (503 in place of 403 when a
  pool has no provider or model), a rejection marks the context so that the hook after the response
  charges nothing, and an allowed request clears the mark an earlier attempt left, so that a fallback
  is accounted for.\<close>

theorem rejection_marks_context:
  assumes "EvaluateGovernanceRequest cfg env gs rq t c = (Some r, e, c')"
  shows "(e = None \<longleftrightarrow> er_Decision r = DecisionAllow)
    \<and> (\<forall>g. e = Some g \<longrightarrow> gj_Type g = decisionName (er_Decision r)
         \<and> (gj_StatusCode g = Some 402 \<longleftrightarrow> er_Decision r = DecisionBudgetExceeded)
         \<and> (gj_StatusCode g = Some 429 \<longleftrightarrow> isRateLimitViolation (er_Decision r)))
    \<and> (e \<noteq> None \<longrightarrow> PostLLMHook env out p m t gs c' = (c', None))
    \<and> (e = None \<longrightarrow> ctxBool c' governanceRejectedContextKey = None)"
proof -
  obtain c0 where e: "e = rejectionOf r" and c': "c' = markRejected (er_Decision r) c0"
    using assms by (auto simp: EvaluateGovernanceRequest_def Let_def split: if_splits prod.splits)
  have mark: "ctxBool c' governanceRejectedContextKey = None \<longleftrightarrow> er_Decision r = DecisionAllow"
    unfolding c' by (rule ctxBool_mark)
  have "\<forall>g. rejectionOf r = Some g \<longrightarrow> gj_Type g = decisionName (er_Decision r)
      \<and> (gj_StatusCode g = Some 402 \<longleftrightarrow> er_Decision r = DecisionBudgetExceeded)
      \<and> (gj_StatusCode g = Some 429 \<longleftrightarrow> isRateLimitViolation (er_Decision r))"
    by (cases "er_Decision r") (auto simp: rejectionOf_def rejection_def isRateLimitViolation_def)
  moreover have "rejectionOf r \<noteq> None \<longrightarrow> PostLLMHook env out p m t gs c' = (c', None)"
    by (cases "ctxBool c' governanceRejectedContextKey") (use mark in \<open>simp_all add: PostLLMHook_def Let_def rejectionOf_None\<close>)
  moreover have "rejectionOf r = None \<longrightarrow> ctxBool c' governanceRejectedContextKey = None"
    using mark by (simp add: rejectionOf_None)
  ultimately show ?thesis by (simp add: e rejectionOf_None)
qed

lemma demo_rejected:
  "EvaluateGovernanceRequest \<lparr>gp_isVkMandatory = None, gp_isEnterprise = False\<rparr> demoEnv
     (demoStore\<lparr>gs_budgets := (gs_budgets demoStore)(''bt'' \<mapsto> demoBudget ''bt'' 10 10)\<rparr>) demoRequest ChatCompletionRequest
     (demoContext []) = (Some r, e, c') \<Longrightarrow> er_Decision r = DecisionBudgetExceeded"
proof -
  assume "EvaluateGovernanceRequest \<lparr>gp_isVkMandatory = None, gp_isEnterprise = False\<rparr> demoEnv
     (demoStore\<lparr>gs_budgets := (gs_budgets demoStore)(''bt'' \<mapsto> demoBudget ''bt'' 10 10)\<rparr>) demoRequest ChatCompletionRequest
     (demoContext []) = (Some r, e, c')"
  moreover have "map_option er_Decision (fst (EvaluateGovernanceRequest \<lparr>gp_isVkMandatory = None, gp_isEnterprise = False\<rparr> demoEnv
     (demoStore\<lparr>gs_budgets := (gs_budgets demoStore)(''bt'' \<mapsto> demoBudget ''bt'' 10 10)\<rparr>) demoRequest ChatCompletionRequest
     (demoContext []))) = Some DecisionBudgetExceeded"
    by code_simp
  ultimately show ?thesis by simp
qed

text \<open>The team's budget is used up.\<close>

theorem rejection_marks_context_witness:
  "\<exists>g c'. snd (EvaluateGovernanceRequest \<lparr>gp_isVkMandatory = None, gp_isEnterprise = False\<rparr> demoEnv
     (demoStore\<lparr>gs_budgets := (gs_budgets demoStore)(''bt'' \<mapsto> demoBudget ''bt'' 10 10)\<rparr>) demoRequest ChatCompletionRequest
     (demoContext [])) = (Some g, c') \<and> gj_StatusCode g = Some 402"
proof -
  let ?x = "EvaluateGovernanceRequest \<lparr>gp_isVkMandatory = None, gp_isEnterprise = False\<rparr> demoEnv
     (demoStore\<lparr>gs_budgets := (gs_budgets demoStore)(''bt'' \<mapsto> demoBudget ''bt'' 10 10)\<rparr>) demoRequest ChatCompletionRequest
     (demoContext [])"
  obtain r e c' where x: "?x = (Some r, e, c')"
  proof -
    have "fst ?x \<noteq> None" by code_simp
    then show ?thesis using that by (metis option.exhaust prod.collapse)
  qed
  note m = rejection_marks_context [OF x]
  have d: "er_Decision r = DecisionBudgetExceeded" by (rule demo_rejected [OF x])
  then obtain g where g: "e = Some g" using conjunct1 [OF m] by auto
  have "gj_StatusCode g = Some 402" using conjunct1 [OF conjunct2 [OF m]] g d by blast
  then show ?thesis using g x by auto
qed

section \<open>Calendar windows\<close>

text \<open>
  A monthly budget that is aligned to the calendar and was reset at the start of its month is
  freed on the 31st: thirty days after that start the check lets requests through though the limit is
  reached, and the next charge forgets the month's usage, while the periodic reset, which knows the
  calendar, would leave the budget alone.\<close>

theorem aligned_budget_freed_early:
  fixes b :: "('f :: {zero, plus, linorder}) budget"
  assumes "gv_goParse env ''1h'' = Some (3600 * 1000000000)"
    and "bg_ResetDuration b = ''1M''" "bg_IsCalendarAligned b"
    and "bg_LastReset b = GetCalendarPeriodStart ''1M'' (gv_now env)"
    and "30 * dayNanos \<le> gv_now env - bg_LastReset b"
  shows "fst (CheckBudget env [(e, [b])] noBaselines) = DecisionAllow
    \<and> bg_CurrentUsage (bumpedBudget env cost b) = 0 + cost
    \<and> nextReset env (bg_IsCalendarAligned b) (bg_ResetDuration b) (bg_LastReset b) = None"
proof -
  have "ParseDuration (gv_goParse env) ''1M'' = Some (30 * dayNanos)"
    using assms(1) by (simp add: ParseDuration_def unitHours_def dayNanos_def wrap64_def)
  then have over: "windowOver (gv_goParse env) (gv_now env) ''1M'' (bg_LastReset b)"
    using assms(5) by (simp add: windowOver_def)
  then have "budgetExpired env b" using assms(2) by (simp add: budgetExpired_def)
  then show ?thesis
    using over assms(2-4) by (simp add: CheckBudget_allow withinBudget_def bumpedBudget_def Let_def nextReset_def)
qed

definition monthlyBudget :: "int budget" where
  "monthlyBudget =
     \<lparr>bg_ID = ''b1'', bg_MaxLimit = 100, bg_ResetDuration = ''1M'', bg_LastReset = 0, bg_CurrentUsage = 100, bg_IsCalendarAligned = True\<rparr>"

lemma january_start: "GetCalendarPeriodStart ''1M'' (30 * dayNanos + 1) = 0"
  by (simp add: GetCalendarPeriodStart_def IsCalendarAlignableDuration_def dayNanos_def daysIntoPeriod_def dayOfMonth_def
      monthLengths_def isLeapYear_def civilYear.simps [of 1970] daysInYear_def)

text \<open>A used-up budget of January 1970, on the 31st.\<close>

theorem aligned_budget_freed_early_witness:
  "fst (CheckBudget (demoEnv\<lparr>gv_now := 30 * dayNanos + 1, gv_goParse := \<lambda>_. Some (3600 * 1000000000)\<rparr>)
      [(''VK'', [monthlyBudget])] noBaselines) = DecisionAllow"
proof -
  let ?env = "demoEnv\<lparr>gv_now := 30 * dayNanos + 1, gv_goParse := \<lambda>_. Some (3600 * 1000000000)\<rparr>"
  have "gv_goParse ?env ''1h'' = Some (3600 * 1000000000)" "bg_ResetDuration monthlyBudget = ''1M''"
    "bg_IsCalendarAligned monthlyBudget" "bg_LastReset monthlyBudget = GetCalendarPeriodStart ''1M'' (gv_now ?env)"
    "30 * dayNanos \<le> gv_now ?env - bg_LastReset monthlyBudget"
    by (simp_all add: monthlyBudget_def january_start)
  from aligned_budget_freed_early [OF this, of "''VK''"] show ?thesis by blast
qed

end
