(* ===== verification/GovAdmin.thy ===== *)
theory GovAdmin
  imports Governance
begin

text \<open>
  The administration of the in-memory store of governance (\<^verbatim>\<open>plugins/governance/store.go\<close>): how virtual
  keys, teams, customers, model configurations and providers with their budgets and rate limits are
  published, changed and removed, and how the store is built from the rows of the database.

  A row comes with the budgets and the rate limit it owns (\<open>owned_rows\<close>); the store keeps their
  identifiers in the owner and the rows themselves in its own maps. The relation of a row and its
  foreign key agree, as they do in a row that the database loaded, so \<^verbatim>\<open>RateLimit.ID\<close> and
  \<^verbatim>\<open>RateLimitID\<close> of an owner are one identifier. The legacy column \<^verbatim>\<open>BudgetID\<close> of a model
  configuration is left out. An iteration with \<^verbatim>\<open>Range\<close> that stops early gets its order.
\<close>

section \<open>Rows\<close>

record 'f owned_rows =
  ow_Budgets :: "'f budget list"
  ow_RateLimit :: "rate_limit option"
  ow_CalendarAligned :: bool

record 'f pc_row =
  pw_Config :: vk_provider_config
  pw_Budgets :: "'f budget list"
  pw_RateLimit :: "rate_limit option"

definition stampBudget :: "bool \<Rightarrow> 'f budget \<Rightarrow> 'f budget" where
  "stampBudget a b = b\<lparr>bg_IsCalendarAligned := a\<rparr>"

definition stampRateLimit :: "bool \<Rightarrow> rate_limit \<Rightarrow> rate_limit" where
  "stampRateLimit a r = r\<lparr>rl_IsCalendarAligned := a\<rparr>"

text \<open>Storing a row as it is, or with the counters of the stored one. This is a load followed by a
  store, not the compare-and-swap of \<open>UpsertBudgetConfig\<close>.\<close>

definition storeBudget :: "bool \<Rightarrow> 'f budget \<Rightarrow> 'f gov_store \<Rightarrow> 'f gov_store" where
  "storeBudget a b gs = gs\<lparr>gs_budgets := (gs_budgets gs)(bg_ID b \<mapsto> stampBudget a b)\<rparr>"

definition keepBudget :: "bool \<Rightarrow> 'f budget \<Rightarrow> 'f gov_store \<Rightarrow> 'f gov_store" where
  "keepBudget a b gs =
     storeBudget a (case gs_budgets gs (bg_ID b) of None \<Rightarrow> b | Some old \<Rightarrow> mergeBudget b old) gs"

definition storeRateLimit :: "bool \<Rightarrow> rate_limit \<Rightarrow> 'f gov_store \<Rightarrow> 'f gov_store" where
  "storeRateLimit a r gs = gs\<lparr>gs_rateLimits := (gs_rateLimits gs)(rl_ID r \<mapsto> stampRateLimit a r)\<rparr>"

definition keepRateLimit :: "bool \<Rightarrow> rate_limit \<Rightarrow> 'f gov_store \<Rightarrow> 'f gov_store" where
  "keepRateLimit a r gs =
     storeRateLimit a (case gs_rateLimits gs (rl_ID r) of None \<Rightarrow> r | Some old \<Rightarrow> mergeRateLimit r old) gs"

definition deleteBudgets :: "string list \<Rightarrow> 'f gov_store \<Rightarrow> 'f gov_store" where
  "deleteBudgets is gs = fold DeleteBudget is gs"

definition deleteOptRateLimit :: "string option \<Rightarrow> 'f gov_store \<Rightarrow> 'f gov_store" where
  "deleteOptRateLimit i gs = (case i of None \<Rightarrow> gs | Some r \<Rightarrow> DeleteRateLimit r gs)"

text \<open>The reconciliation of the rate limit of an owner whose stored limit was \<open>old\<close>.\<close>

definition reconcileRateLimit :: "bool \<Rightarrow> string option \<Rightarrow> rate_limit option \<Rightarrow> 'f gov_store \<Rightarrow> 'f gov_store" where
  "reconcileRateLimit a old new gs =
     (case new of
        None \<Rightarrow> deleteOptRateLimit old gs
      | Some r \<Rightarrow>
          (let gs' = keepRateLimit a r gs
           in if old = None \<or> old = Some (rl_ID r) then gs' else deleteOptRateLimit old gs'))"

definition createRows :: "'f owned_rows \<Rightarrow> 'f gov_store \<Rightarrow> 'f gov_store" where
  "createRows rows gs =
     (let gs1 = fold (storeBudget (ow_CalendarAligned rows)) (ow_Budgets rows) gs
      in case ow_RateLimit rows of None \<Rightarrow> gs1 | Some r \<Rightarrow> storeRateLimit (ow_CalendarAligned rows) r gs1)"

section \<open>Teams\<close>

definition CreateTeamInMemory :: "team_table \<Rightarrow> 'f owned_rows \<Rightarrow> 'f gov_store \<Rightarrow> 'f gov_store" where
  "CreateTeamInMemory team rows gs =
     (let gs1 = createRows rows gs in gs1\<lparr>gs_teams := (gs_teams gs1)(tm_ID team \<mapsto> team)\<rparr>)"

text \<open>The budgets that disappeared are deleted in the order of a map, which does not matter.\<close>

definition UpdateTeamInMemory :: "team_table \<Rightarrow> 'f owned_rows \<Rightarrow> 'f gov_store \<Rightarrow> 'f gov_store" where
  "UpdateTeamInMemory team rows gs =
     (case gs_teams gs (tm_ID team) of
        None \<Rightarrow> CreateTeamInMemory team rows gs
      | Some old \<Rightarrow>
          (let a = ow_CalendarAligned rows;
               gs1 = fold (keepBudget a) (ow_Budgets rows) gs;
               gs2 = deleteBudgets (filter (\<lambda>i. i \<notin> bg_ID ` set (ow_Budgets rows)) (tm_Budgets old)) gs1;
               gs3 = reconcileRateLimit a (tm_RateLimitID old) (ow_RateLimit rows) gs2
           in gs3\<lparr>gs_teams := (gs_teams gs3)(tm_ID team \<mapsto> team)\<rparr>))"

definition detachTeam :: "string \<Rightarrow> virtual_key \<Rightarrow> virtual_key" where
  "detachTeam teamID vk = (if vk_TeamID vk = Some teamID then vk\<lparr>vk_TeamID := None, vk_Team := None\<rparr> else vk)"

definition DeleteTeamInMemory :: "string \<Rightarrow> 'f gov_store \<Rightarrow> 'f gov_store" where
  "DeleteTeamInMemory teamID gs =
     (if teamID = [] then gs
      else
        (let gs1 = (case gs_teams gs teamID of
                      None \<Rightarrow> gs
                    | Some team \<Rightarrow> deleteOptRateLimit (tm_RateLimitID team) (deleteBudgets (tm_Budgets team) gs))
         in gs1\<lparr>gs_virtualKeys := (\<lambda>k. map_option (detachTeam teamID) (gs_virtualKeys gs1 k)),
                gs_teams := (gs_teams gs1)(teamID := None)\<rparr>))"

section \<open>Customers\<close>

definition CreateCustomerInMemory :: "customer_table \<Rightarrow> 'f owned_rows \<Rightarrow> 'f gov_store \<Rightarrow> 'f gov_store" where
  "CreateCustomerInMemory customer rows gs =
     (let gs1 = createRows rows gs in gs1\<lparr>gs_customers := (gs_customers gs1)(cu_ID customer \<mapsto> customer)\<rparr>)"

definition UpdateCustomerInMemory :: "customer_table \<Rightarrow> 'f owned_rows \<Rightarrow> 'f gov_store \<Rightarrow> 'f gov_store" where
  "UpdateCustomerInMemory customer rows gs =
     (case gs_customers gs (cu_ID customer) of
        None \<Rightarrow> CreateCustomerInMemory customer rows gs
      | Some old \<Rightarrow>
          (let a = ow_CalendarAligned rows;
               gs1 = fold (keepBudget a) (ow_Budgets rows) gs;
               gs2 = deleteBudgets (filter (\<lambda>i. i \<notin> bg_ID ` set (ow_Budgets rows)) (cu_Budgets old)) gs1;
               gs3 = reconcileRateLimit a (cu_RateLimitID old) (ow_RateLimit rows) gs2
           in gs3\<lparr>gs_customers := (gs_customers gs3)(cu_ID customer \<mapsto> customer)\<rparr>))"

definition detachCustomer :: "string \<Rightarrow> virtual_key \<Rightarrow> virtual_key" where
  "detachCustomer customerID vk =
     (if vk_CustomerID vk = Some customerID then vk\<lparr>vk_CustomerID := None, vk_Customer := None\<rparr> else vk)"

definition detachTeamCustomer :: "string \<Rightarrow> team_table \<Rightarrow> team_table" where
  "detachTeamCustomer customerID team =
     (if tm_CustomerID team = Some customerID then team\<lparr>tm_CustomerID := None, tm_Customer := None\<rparr> else team)"

definition DeleteCustomerInMemory :: "string \<Rightarrow> 'f gov_store \<Rightarrow> 'f gov_store" where
  "DeleteCustomerInMemory customerID gs =
     (if customerID = [] then gs
      else
        (let gs1 = (case gs_customers gs customerID of
                      None \<Rightarrow> gs
                    | Some customer \<Rightarrow> deleteOptRateLimit (cu_RateLimitID customer) (deleteBudgets (cu_Budgets customer) gs))
         in gs1\<lparr>gs_virtualKeys := (\<lambda>k. map_option (detachCustomer customerID) (gs_virtualKeys gs1 k)),
                gs_teams := (\<lambda>t. map_option (detachTeamCustomer customerID) (gs_teams gs1 t)),
                gs_customers := (gs_customers gs1)(customerID := None)\<rparr>))"

section \<open>Model configurations\<close>

text \<open>The counters of the stored limit are kept, the starts of its windows are those of the row.\<close>

definition keepUsage :: "rate_limit \<Rightarrow> rate_limit \<Rightarrow> rate_limit" where
  "keepUsage config old =
     config\<lparr>rl_TokenCurrentUsage := rl_TokenCurrentUsage old, rl_RequestCurrentUsage := rl_RequestCurrentUsage old\<rparr>"

definition publishRateLimit :: "rate_limit \<Rightarrow> 'f gov_store \<Rightarrow> 'f gov_store" where
  "publishRateLimit r gs =
     gs\<lparr>gs_rateLimits := (gs_rateLimits gs)(rl_ID r \<mapsto>
          (case gs_rateLimits gs (rl_ID r) of None \<Rightarrow> r | Some old \<Rightarrow> keepUsage r old))\<rparr>"

definition publishOptRateLimit :: "rate_limit option \<Rightarrow> 'f gov_store \<Rightarrow> 'f gov_store" where
  "publishOptRateLimit r gs = (case r of None \<Rightarrow> gs | Some x \<Rightarrow> publishRateLimit x gs)"

text \<open>The key a configuration is stored under: an all-provider one by the base name of its model.\<close>

definition configStoreKey :: "gov_env \<Rightarrow> model_config \<Rightarrow> string" where
  "configStoreKey env mc =
     (let scopeID = (case mc_ScopeID mc of None \<Rightarrow> [] | Some i \<Rightarrow> i)
      in case mc_Provider mc of
           Some p \<Rightarrow> modelConfigStoreKey (mc_Scope mc) scopeID (mc_ModelName mc) (Some p)
         | None \<Rightarrow>
             modelConfigStoreKey (mc_Scope mc) scopeID
               (case gv_baseModelName env of
                  Some base \<Rightarrow> if mc_ModelName mc = modelConfigWildcard then mc_ModelName mc else base (mc_ModelName mc)
                | None \<Rightarrow> mc_ModelName mc) None)"

definition UpdateModelConfigInMemory ::
  "gov_env \<Rightarrow> model_config \<Rightarrow> 'f owned_rows \<Rightarrow> 'f gov_store \<Rightarrow> 'f gov_store" where
  "UpdateModelConfigInMemory env mc rows gs =
     (let a = ow_CalendarAligned rows;
          gs1 = fold (keepBudget a) (ow_Budgets rows) gs;
          gs2 = publishOptRateLimit (map_option (stampRateLimit a) (ow_RateLimit rows)) gs1
      in gs2\<lparr>gs_modelConfigs := (gs_modelConfigs gs2)(configStoreKey env mc \<mapsto> mc)\<rparr>)"

definition evictConfig :: "string \<Rightarrow> model_config \<Rightarrow> 'f gov_store \<Rightarrow> 'f gov_store" where
  "evictConfig key mc gs =
     (let gs1 = deleteOptRateLimit (mc_RateLimitID mc) (deleteBudgets (mc_Budgets mc) gs)
      in gs1\<lparr>gs_modelConfigs := (gs_modelConfigs gs1)(key := None)\<rparr>)"

text \<open>\<open>order\<close> lists the keys as \<^verbatim>\<open>Range\<close> visits them.\<close>

definition DeleteModelConfigInMemory :: "string list \<Rightarrow> string \<Rightarrow> 'f gov_store \<Rightarrow> 'f gov_store" where
  "DeleteModelConfigInMemory order mcID gs =
     (if mcID = [] then gs
      else
        (case find (\<lambda>k. case gs_modelConfigs gs k of Some mc \<Rightarrow> mc_ID mc = mcID | None \<Rightarrow> False) order of
           None \<Rightarrow> gs
         | Some k \<Rightarrow> evictConfig k (the (gs_modelConfigs gs k)) gs))"

definition evictScoped :: "string \<Rightarrow> string \<Rightarrow> string \<Rightarrow> 'f gov_store \<Rightarrow> 'f gov_store" where
  "evictScoped scope scopeID k gs =
     (case gs_modelConfigs gs k of
        None \<Rightarrow> gs
      | Some mc \<Rightarrow> if mc_Scope mc = scope \<and> mc_ScopeID mc = Some scopeID then evictConfig k mc gs else gs)"

definition DeleteModelConfigsForScopeInMemory :: "string list \<Rightarrow> string \<Rightarrow> string \<Rightarrow> 'f gov_store \<Rightarrow> 'f gov_store" where
  "DeleteModelConfigsForScopeInMemory order scope scopeID gs = fold (evictScoped scope scopeID) order gs"

definition ScopedModelConfigIDs :: "string list \<Rightarrow> string \<Rightarrow> string \<Rightarrow> 'f gov_store \<Rightarrow> string list" where
  "ScopedModelConfigIDs order scope scopeID gs =
     List.map_filter (\<lambda>k. case gs_modelConfigs gs k of
         None \<Rightarrow> None
       | Some mc \<Rightarrow>
           if mc_Scope mc = scope \<and> (case mc_ScopeID mc of None \<Rightarrow> [] | Some i \<Rightarrow> i) = scopeID then Some (mc_ID mc) else None) order"

section \<open>Providers\<close>

text \<open>The window of a provider's budget is that of the row as well.\<close>

definition publishBudget :: "'f budget \<Rightarrow> 'f gov_store \<Rightarrow> 'f gov_store" where
  "publishBudget b gs =
     gs\<lparr>gs_budgets := (gs_budgets gs)(bg_ID b \<mapsto>
          (case gs_budgets gs (bg_ID b) of None \<Rightarrow> b | Some old \<Rightarrow> b\<lparr>bg_CurrentUsage := bg_CurrentUsage old\<rparr>))\<rparr>"

definition UpdateProviderInMemory ::
  "string \<Rightarrow> provider_table \<Rightarrow> 'f budget option \<Rightarrow> rate_limit option \<Rightarrow> 'f gov_store \<Rightarrow> 'f gov_store" where
  "UpdateProviderInMemory name provider b r gs =
     (let gs1 = (case b of None \<Rightarrow> gs | Some x \<Rightarrow> publishBudget x gs);
          gs2 = publishOptRateLimit r gs1
      in gs2\<lparr>gs_providers := (gs_providers gs2)(name \<mapsto> provider)\<rparr>)"

definition DeleteProviderInMemory :: "string \<Rightarrow> 'f gov_store \<Rightarrow> 'f gov_store" where
  "DeleteProviderInMemory name gs =
     (if name = [] then gs
      else
        (let gs1 = (case gs_providers gs name of
                      None \<Rightarrow> gs
                    | Some p \<Rightarrow> deleteOptRateLimit (pt_RateLimitID p)
                        (case pt_BudgetID p of None \<Rightarrow> gs | Some i \<Rightarrow> DeleteBudget i gs))
         in gs1\<lparr>gs_providers := (gs_providers gs1)(name := None)\<rparr>))"

section \<open>Virtual keys\<close>

definition storePC :: "bool \<Rightarrow> 'f pc_row \<Rightarrow> 'f gov_store \<Rightarrow> 'f gov_store" where
  "storePC a pc gs =
     (let gs1 = fold (storeBudget a) (pw_Budgets pc) gs
      in case pw_RateLimit pc of None \<Rightarrow> gs1 | Some r \<Rightarrow> storeRateLimit a r gs1)"

definition pcRows :: "'f pc_row list option \<Rightarrow> 'f pc_row list" where
  "pcRows pcs = (case pcs of None \<Rightarrow> [] | Some ps \<Rightarrow> ps)"

definition CreateVirtualKeyInMemory ::
  "string \<Rightarrow> virtual_key \<Rightarrow> 'f owned_rows \<Rightarrow> 'f pc_row list option \<Rightarrow> 'f gov_store \<Rightarrow> 'f gov_store" where
  "CreateVirtualKeyInMemory val vk rows pcs gs =
     (let gs1 = createRows rows gs;
          gs2 = fold (storePC (ow_CalendarAligned rows)) (pcRows pcs) gs1
      in gs2\<lparr>gs_virtualKeys := (gs_virtualKeys gs2)(val \<mapsto> vk)\<rparr>)"

text \<open>The stored value of the key: the one under its current value if that is the same key, else the
  first one with its identifier.\<close>

definition existingKey :: "string list \<Rightarrow> string \<Rightarrow> string \<Rightarrow> 'f gov_store \<Rightarrow> string option" where
  "existingKey order val vkID gs =
     (let same = (\<lambda>k. case gs_virtualKeys gs k of Some v \<Rightarrow> vk_ID v = vkID | None \<Rightarrow> False)
      in if same val then Some val else find same order)"

text \<open>The last of the stored provider configurations with an identifier.\<close>

definition existingPC :: "virtual_key \<Rightarrow> int \<Rightarrow> vk_provider_config option" where
  "existingPC old i = find (\<lambda>pc. vp_ID pc = i) (rev (vk_ProviderConfigs old))"

definition updatePC :: "bool \<Rightarrow> virtual_key \<Rightarrow> string set \<Rightarrow> 'f pc_row \<Rightarrow> 'f gov_store \<Rightarrow> 'f gov_store" where
  "updatePC a old newBudgets pc gs =
     (let epc = existingPC old (vp_ID (pw_Config pc));
          gs1 = (case pw_RateLimit pc of
                   Some r \<Rightarrow> keepRateLimit a r gs
                 | None \<Rightarrow> deleteOptRateLimit (Option.bind epc vp_RateLimitID) gs);
          gs2 = fold (keepBudget a) (pw_Budgets pc) gs1
      in case epc of
           None \<Rightarrow> gs2
         | Some e \<Rightarrow> deleteBudgets (filter (\<lambda>i. i \<notin> newBudgets) (vp_Budgets e)) gs2)"

definition orphansOfPC :: "string set \<Rightarrow> string set \<Rightarrow> vk_provider_config \<Rightarrow> 'f gov_store \<Rightarrow> 'f gov_store" where
  "orphansOfPC newBudgets newLimits e gs =
     deleteBudgets (filter (\<lambda>i. i \<notin> newBudgets) (vp_Budgets e))
       (case vp_RateLimitID e of
          Some r \<Rightarrow> if r \<in> newLimits then gs else DeleteRateLimit r gs
        | None \<Rightarrow> gs)"

definition newBudgetIDs :: "'f owned_rows \<Rightarrow> 'f pc_row list \<Rightarrow> string set" where
  "newBudgetIDs rows ps = bg_ID ` set (ow_Budgets rows) \<union> (\<Union>pc\<in>set ps. bg_ID ` set (pw_Budgets pc))"

definition newRateLimitIDs :: "'f owned_rows \<Rightarrow> 'f pc_row list \<Rightarrow> string set" where
  "newRateLimitIDs rows ps = rl_ID ` set_option (ow_RateLimit rows) \<union> (\<Union>pc\<in>set ps. rl_ID ` set_option (pw_RateLimit pc))"

definition UpdateVirtualKeyInMemory ::
  "string list \<Rightarrow> string \<Rightarrow> virtual_key \<Rightarrow> 'f owned_rows \<Rightarrow> 'f pc_row list option \<Rightarrow> 'f gov_store \<Rightarrow> 'f gov_store" where
  "UpdateVirtualKeyInMemory order val vk rows pcs gs =
     (case existingKey order val (vk_ID vk) gs of
        None \<Rightarrow> CreateVirtualKeyInMemory val vk rows pcs gs
      | Some k \<Rightarrow>
          (let old = the (gs_virtualKeys gs k);
               a = ow_CalendarAligned rows;
               newB = newBudgetIDs rows (pcRows pcs);
               gs1 = fold (keepBudget a) (ow_Budgets rows) gs;
               gs2 = deleteBudgets (filter (\<lambda>i. i \<notin> newB) (vk_Budgets old)) gs1;
               gs3 = reconcileRateLimit a (vk_RateLimitID old) (ow_RateLimit rows) gs2;
               gs4 = (case pcs of
                        None \<Rightarrow> gs3
                      | Some ps \<Rightarrow>
                          fold (orphansOfPC newB (newRateLimitIDs rows ps)) (vk_ProviderConfigs old)
                            (fold (updatePC a old newB) ps gs3));
               keys = (if k \<noteq> [] \<and> k \<noteq> val then (gs_virtualKeys gs4)(k := None) else gs_virtualKeys gs4)
           in gs4\<lparr>gs_virtualKeys := keys(val \<mapsto> vk)\<rparr>))"

definition deletePC :: "vk_provider_config \<Rightarrow> 'f gov_store \<Rightarrow> 'f gov_store" where
  "deletePC pc gs = deleteOptRateLimit (vp_RateLimitID pc) (deleteBudgets (vp_Budgets pc) gs)"

definition DeleteVirtualKeyInMemory :: "string list \<Rightarrow> string list \<Rightarrow> string \<Rightarrow> 'f gov_store \<Rightarrow> 'f gov_store" where
  "DeleteVirtualKeyInMemory order configOrder vkID gs =
     (if vkID = [] then gs
      else
        (let gs1 =
               (case find (\<lambda>k. case gs_virtualKeys gs k of Some v \<Rightarrow> vk_ID v = vkID | None \<Rightarrow> False) order of
                  None \<Rightarrow> gs
                | Some k \<Rightarrow>
                    (let vk = the (gs_virtualKeys gs k);
                         g1 = deleteOptRateLimit (vk_RateLimitID vk) (deleteBudgets (vk_Budgets vk) gs);
                         g2 = fold deletePC (vk_ProviderConfigs vk) g1
                     in g2\<lparr>gs_virtualKeys := (gs_virtualKeys g2)(k := None)\<rparr>))
         in DeleteModelConfigsForScopeInMemory configOrder ModelConfigScopeVirtualKey vkID gs1))"

section \<open>Loading\<close>

text \<open>The store of a set of rows. The flat lists of budgets and rate limits know no owner; those of
  model configurations and customers are stamped with the alignment of their owner.\<close>

definition loadConfig :: "gov_env \<Rightarrow> model_config \<times> 'f owned_rows \<Rightarrow> 'f gov_store \<Rightarrow> 'f gov_store" where
  "loadConfig env c gs =
     (case c of (mc, rows) \<Rightarrow>
        (let gs1 = createRows rows gs in gs1\<lparr>gs_modelConfigs := (gs_modelConfigs gs1)(configStoreKey env mc \<mapsto> mc)\<rparr>))"

definition loadCustomer :: "customer_table \<times> 'f owned_rows \<Rightarrow> 'f gov_store \<Rightarrow> 'f gov_store" where
  "loadCustomer c gs =
     (case c of (cu, rows) \<Rightarrow>
        (let gs1 = fold (storeBudget (ow_CalendarAligned rows)) (ow_Budgets rows) gs
         in case cu_RateLimitID cu of
              None \<Rightarrow> gs1
            | Some i \<Rightarrow> gs1\<lparr>gs_rateLimits :=
                (gs_rateLimits gs1)(i := map_option (stampRateLimit (ow_CalendarAligned rows)) (gs_rateLimits gs1 i))\<rparr>))"

definition listMap :: "('a \<Rightarrow> string) \<Rightarrow> ('a \<Rightarrow> 'b) \<Rightarrow> 'a list \<Rightarrow> string \<Rightarrow> 'b option" where
  "listMap k f xs = map_of (rev (map (\<lambda>x. (k x, f x)) xs))"

definition rebuildInMemoryStructures ::
  "gov_env \<Rightarrow> (customer_table \<times> 'f owned_rows) list \<Rightarrow> team_table list \<Rightarrow> (string \<times> virtual_key) list \<Rightarrow> 'f budget list
   \<Rightarrow> rate_limit list \<Rightarrow> (model_config \<times> 'f owned_rows) list \<Rightarrow> (string \<times> provider_table) list \<Rightarrow> 'f gov_store" where
  "rebuildInMemoryStructures env customers teams keys budgets limits configs providers =
     (let gs = \<lparr>gs_virtualKeys = listMap fst snd keys, gs_teams = listMap tm_ID id teams,
                gs_customers = listMap (cu_ID \<circ> fst) fst customers,
                gs_budgets = listMap bg_ID id budgets, gs_rateLimits = listMap rl_ID id limits,
                gs_modelConfigs = Map.empty, gs_providers = Map.empty,
                gs_LastDBUsagesBudgets = listMap bg_ID bg_CurrentUsage budgets,
                gs_LastDBUsagesTokens = listMap rl_ID rl_TokenCurrentUsage limits,
                gs_LastDBUsagesRequests = listMap rl_ID rl_RequestCurrentUsage limits\<rparr>;
          gs1 = fold loadCustomer customers (fold (loadConfig env) configs gs)
      in gs1\<lparr>gs_providers := listMap fst snd providers\<rparr>)"

end
