(* ===== verification/GovOwners.thy ===== *)
theory GovOwners
  imports GovAdmin Cells
begin

text \<open>
  What the administration of the governance store keeps: who owns a budget or a rate limit, that no
  operation frees what another owner names, that an update keeps the usage, and where an operation
  leaves an entry behind or loses one.
\<close>

section \<open>Lemmas: owners\<close>

datatype owner = OwnKey string | OwnTeam string | OwnCustomer string | OwnConfig string | OwnProvider string

definition vkBudgetIDs :: "virtual_key \<Rightarrow> string set" where
  "vkBudgetIDs vk = set (vk_Budgets vk) \<union> (\<Union>pc\<in>set (vk_ProviderConfigs vk). set (vp_Budgets pc))"

definition vkRateLimitIDs :: "virtual_key \<Rightarrow> string set" where
  "vkRateLimitIDs vk = set_option (vk_RateLimitID vk) \<union> (\<Union>pc\<in>set (vk_ProviderConfigs vk). set_option (vp_RateLimitID pc))"

definition keysWithID :: "'f gov_store \<Rightarrow> string \<Rightarrow> virtual_key set" where
  "keysWithID gs i = {vk \<in> ran (gs_virtualKeys gs). vk_ID vk = i}"

fun budgetsOf :: "'f gov_store \<Rightarrow> owner \<Rightarrow> string set" where
  "budgetsOf gs (OwnKey i) = (\<Union>vk\<in>keysWithID gs i. vkBudgetIDs vk)"
| "budgetsOf gs (OwnTeam i) = (\<Union>t\<in>set_option (gs_teams gs i). set (tm_Budgets t))"
| "budgetsOf gs (OwnCustomer i) = (\<Union>c\<in>set_option (gs_customers gs i). set (cu_Budgets c))"
| "budgetsOf gs (OwnConfig k) = (\<Union>mc\<in>set_option (gs_modelConfigs gs k). set (mc_Budgets mc))"
| "budgetsOf gs (OwnProvider p) = (\<Union>pt\<in>set_option (gs_providers gs p). set_option (pt_BudgetID pt))"

fun rateLimitsOf :: "'f gov_store \<Rightarrow> owner \<Rightarrow> string set" where
  "rateLimitsOf gs (OwnKey i) = (\<Union>vk\<in>keysWithID gs i. vkRateLimitIDs vk)"
| "rateLimitsOf gs (OwnTeam i) = (\<Union>t\<in>set_option (gs_teams gs i). set_option (tm_RateLimitID t))"
| "rateLimitsOf gs (OwnCustomer i) = (\<Union>c\<in>set_option (gs_customers gs i). set_option (cu_RateLimitID c))"
| "rateLimitsOf gs (OwnConfig k) = (\<Union>mc\<in>set_option (gs_modelConfigs gs k). set_option (mc_RateLimitID mc))"
| "rateLimitsOf gs (OwnProvider p) = (\<Union>pt\<in>set_option (gs_providers gs p). set_option (pt_RateLimitID pt))"

text \<open>Every resource of an owner is stored and belongs to it alone.\<close>

definition owned :: "(owner \<Rightarrow> string set) \<Rightarrow> string set \<Rightarrow> bool" where
  "owned refs D \<longleftrightarrow> (\<forall>o1. refs o1 \<subseteq> D) \<and> (\<forall>o1 o2. o1 \<noteq> o2 \<longrightarrow> refs o1 \<inter> refs o2 = {})"

lemma owned_replace:
  assumes "owned refs D" "\<forall>o'. o' \<noteq> w \<longrightarrow> N \<inter> refs o' = {}" "N \<subseteq> D'" "D - refs w \<subseteq> D'"
  shows "owned (refs(w := N)) D'"
  using assms unfolding owned_def by (auto; blast)

definition idsOk :: "'f gov_store \<Rightarrow> bool" where
  "idsOk gs \<longleftrightarrow> budgetIDsOk gs \<and> rateIDsOk gs"

definition keysUnique :: "'f gov_store \<Rightarrow> bool" where
  "keysUnique gs \<longleftrightarrow> gs_virtualKeys gs [] = None
     \<and> inj_on (\<lambda>k. vk_ID (the (gs_virtualKeys gs k))) (dom (gs_virtualKeys gs))"

definition governed :: "'f gov_store \<Rightarrow> bool" where
  "governed gs \<longleftrightarrow> owned (budgetsOf gs) (dom (gs_budgets gs)) \<and> owned (rateLimitsOf gs) (dom (gs_rateLimits gs))
     \<and> idsOk gs \<and> keysUnique gs"

section \<open>Lemmas: the parts of an operation\<close>

definition ownersOf where
  "ownersOf gs = (gs_virtualKeys gs, gs_teams gs, gs_customers gs, gs_modelConfigs gs, gs_providers gs)"

lemma ownersOf_fields:
  assumes "ownersOf gs' = ownersOf gs"
  shows "gs_virtualKeys gs' = gs_virtualKeys gs" "gs_teams gs' = gs_teams gs" "gs_customers gs' = gs_customers gs"
    "gs_modelConfigs gs' = gs_modelConfigs gs" "gs_providers gs' = gs_providers gs"
  using assms by (simp_all add: ownersOf_def)

text \<open>What an operation on the resources may do: it leaves the owners alone and keeps identifiers in
  order; these are its stored budgets and limits.\<close>

definition touches :: "'f gov_store \<Rightarrow> 'f gov_store \<Rightarrow> string set \<Rightarrow> string set \<Rightarrow> bool" where
  "touches gs gs' B R \<longleftrightarrow> ownersOf gs' = ownersOf gs \<and> (idsOk gs \<longrightarrow> idsOk gs')
     \<and> dom (gs_budgets gs') = B \<and> dom (gs_rateLimits gs') = R"

abbreviation domB :: "'f gov_store \<Rightarrow> string set" where "domB gs \<equiv> dom (gs_budgets gs)"
abbreviation domR :: "'f gov_store \<Rightarrow> string set" where "domR gs \<equiv> dom (gs_rateLimits gs)"

lemma touches_trans:
  "touches gs gs1 B1 R1 \<Longrightarrow> touches gs1 gs2 B2 R2 \<Longrightarrow> touches gs gs2 B2 R2"
  by (simp add: touches_def)

lemma touches_eq: "touches gs gs' B R \<Longrightarrow> B = B' \<Longrightarrow> R = R' \<Longrightarrow> touches gs gs' B' R'"
  by simp

lemma touches_domB: "touches gs gs' B R \<Longrightarrow> domB gs' = B" by (simp add: touches_def)
lemma touches_domR: "touches gs gs' B R \<Longrightarrow> domR gs' = R" by (simp add: touches_def)

lemma touches_refl: "touches gs gs (domB gs) (domR gs)"
  by (simp add: touches_def)

lemmas idsOk_defs = idsOk_def budgetIDsOk_def rateIDsOk_def

lemma touches_storeBudget: "touches gs (storeBudget a b gs) (insert (bg_ID b) (domB gs)) (domR gs)"
  by (auto simp: touches_def ownersOf_def idsOk_defs storeBudget_def stampBudget_def)

lemma touches_keepBudget: "touches gs (keepBudget a b gs) (insert (bg_ID b) (domB gs)) (domR gs)"
proof -
  have "bg_ID (case gs_budgets gs (bg_ID b) of None \<Rightarrow> b | Some old \<Rightarrow> mergeBudget b old) = bg_ID b"
    by (simp add: mergeBudget_def split: option.split)
  then show ?thesis using touches_storeBudget [of gs a "case gs_budgets gs (bg_ID b) of None \<Rightarrow> b | Some old \<Rightarrow> mergeBudget b old"]
    by (simp add: keepBudget_def)
qed

lemma touches_fold:
  assumes "\<And>x gs. touches gs (f x gs) (insert (g x) (domB gs)) (domR gs)"
  shows "touches gs (fold f xs gs) (g ` set xs \<union> domB gs) (domR gs)"
proof (induction xs arbitrary: gs)
  case Nil
  then show ?case by (simp add: touches_refl)
next
  case (Cons x xs)
  from Cons [of "f x gs"] assms [of gs x] show ?case by (auto simp: touches_def)
qed

lemmas touches_storeBudgets = touches_fold [of "storeBudget a" bg_ID for a, OF touches_storeBudget]
lemmas touches_keepBudgets = touches_fold [of "keepBudget a" bg_ID for a, OF touches_keepBudget]

lemma touches_storeRateLimit: "touches gs (storeRateLimit a r gs) (domB gs) (insert (rl_ID r) (domR gs))"
  by (auto simp: touches_def ownersOf_def idsOk_defs storeRateLimit_def stampRateLimit_def)

lemma touches_keepRateLimit: "touches gs (keepRateLimit a r gs) (domB gs) (insert (rl_ID r) (domR gs))"
proof -
  have "rl_ID (case gs_rateLimits gs (rl_ID r) of None \<Rightarrow> r | Some old \<Rightarrow> mergeRateLimit r old) = rl_ID r"
    by (simp add: mergeRateLimit_def split: option.split)
  then show ?thesis using touches_storeRateLimit [of gs a "case gs_rateLimits gs (rl_ID r) of None \<Rightarrow> r | Some old \<Rightarrow> mergeRateLimit r old"]
    by (simp add: keepRateLimit_def)
qed

lemma touches_publishOptRateLimit:
  "touches gs (publishOptRateLimit r gs) (domB gs) (rl_ID ` set_option r \<union> domR gs)"
  by (cases r) (auto simp: touches_def ownersOf_def idsOk_defs publishOptRateLimit_def publishRateLimit_def keepUsage_def split: option.split)

lemma touches_publishBudget: "touches gs (publishBudget b gs) (insert (bg_ID b) (domB gs)) (domR gs)"
  by (auto simp: touches_def ownersOf_def idsOk_defs publishBudget_def split: option.split)

lemma touches_DeleteBudget: "touches gs (DeleteBudget i gs) (domB gs - {i}) (domR gs)"
  by (auto simp: touches_def ownersOf_def idsOk_defs DeleteBudget_def)

lemma touches_deleteBudgets: "touches gs (deleteBudgets is gs) (domB gs - set is) (domR gs)"
proof (induction "is" arbitrary: gs)
  case Nil
  then show ?case by (simp add: touches_refl deleteBudgets_def)
next
  case (Cons i "is")
  from Cons [of "DeleteBudget i gs"] touches_DeleteBudget [of gs i] show ?case
    by (auto simp: touches_def deleteBudgets_def)
qed

lemma touches_deleteOptRateLimit: "touches gs (deleteOptRateLimit i gs) (domB gs) (domR gs - set_option i)"
  by (cases i) (auto simp: touches_def ownersOf_def idsOk_defs deleteOptRateLimit_def DeleteRateLimit_def)

lemma touches_reconcileRateLimit:
  "touches gs (reconcileRateLimit a old new gs) (domB gs)
     (domR gs - (set_option old - rl_ID ` set_option new) \<union> rl_ID ` set_option new)"
proof (cases new)
  case None
  then show ?thesis using touches_deleteOptRateLimit [of gs old] by (simp add: reconcileRateLimit_def)
next
  case (Some r)
  note k = touches_keepRateLimit [of gs a r]
  show ?thesis
  proof (cases "old = None \<or> old = Some (rl_ID r)")
    case True
    then show ?thesis using k Some by (auto simp: reconcileRateLimit_def touches_def)
  next
    case False
    then have "reconcileRateLimit a old new gs = deleteOptRateLimit old (keepRateLimit a r gs)"
      using Some by (auto simp: reconcileRateLimit_def Let_def)
    then show ?thesis
      by (simp only:) (rule touches_eq [OF touches_trans [OF k touches_deleteOptRateLimit]],
        use False Some in \<open>auto simp: touches_domR [OF k] touches_domB [OF k]\<close>)
  qed
qed

lemma touches_createRows:
  "touches gs (createRows rows gs) (bg_ID ` set (ow_Budgets rows) \<union> domB gs) (rl_ID ` set_option (ow_RateLimit rows) \<union> domR gs)"
proof -
  note b = touches_storeBudgets [where a = "ow_CalendarAligned rows" and xs = "ow_Budgets rows" and gs = gs]
  show ?thesis
  proof (cases "ow_RateLimit rows")
    case None
    then show ?thesis using b by (simp add: createRows_def)
  next
    case (Some r)
    from touches_trans [OF b touches_storeRateLimit [where a = "ow_CalendarAligned rows" and r = r]] Some show ?thesis
      by (simp add: createRows_def touches_domB [OF b] touches_domR [OF b])
  qed
qed

text \<open>The update of an owner with one list of budgets and one limit.\<close>

definition updateRows :: "string list \<Rightarrow> string option \<Rightarrow> 'f owned_rows \<Rightarrow> 'f gov_store \<Rightarrow> 'f gov_store" where
  "updateRows oldB oldR rows gs =
     reconcileRateLimit (ow_CalendarAligned rows) oldR (ow_RateLimit rows)
       (deleteBudgets (filter (\<lambda>i. i \<notin> bg_ID ` set (ow_Budgets rows)) oldB)
         (fold (keepBudget (ow_CalendarAligned rows)) (ow_Budgets rows) gs))"

lemma touches_updateRows:
  "touches gs (updateRows oldB oldR rows gs)
     (domB gs - (set oldB - bg_ID ` set (ow_Budgets rows)) \<union> bg_ID ` set (ow_Budgets rows))
     (domR gs - (set_option oldR - rl_ID ` set_option (ow_RateLimit rows)) \<union> rl_ID ` set_option (ow_RateLimit rows))"
proof -
  note k = touches_keepBudgets [where a = "ow_CalendarAligned rows" and xs = "ow_Budgets rows" and gs = gs]
  note d = touches_trans [OF k touches_deleteBudgets [of _ "filter (\<lambda>i. i \<notin> bg_ID ` set (ow_Budgets rows)) oldB"]]
  from touches_trans [OF d touches_reconcileRateLimit [where a = "ow_CalendarAligned rows" and old = oldR and new = "ow_RateLimit rows"]]
  show ?thesis
    unfolding updateRows_def
    by (rule touches_eq) (auto simp: touches_domB [OF d] touches_domR [OF d] touches_domB [OF k] touches_domR [OF k])
qed

section \<open>Lemmas: the operations\<close>

text \<open>An operation that replaces the resources of one owner: it frees the old ones that are not named
  again and stores the new ones.\<close>

definition replaces :: "'f gov_store \<Rightarrow> 'f gov_store \<Rightarrow> owner \<Rightarrow> string set \<Rightarrow> string set \<Rightarrow> bool" where
  "replaces gs gs' w NB NR \<longleftrightarrow>
     budgetsOf gs' = (budgetsOf gs)(w := NB) \<and> rateLimitsOf gs' = (rateLimitsOf gs)(w := NR)
     \<and> NB \<subseteq> domB gs' \<and> domB gs - budgetsOf gs w \<subseteq> domB gs' \<and> NR \<subseteq> domR gs' \<and> domR gs - rateLimitsOf gs w \<subseteq> domR gs'
     \<and> (idsOk gs \<longrightarrow> idsOk gs') \<and> (keysUnique gs \<longrightarrow> keysUnique gs')"

definition unshared :: "'f gov_store \<Rightarrow> owner \<Rightarrow> string set \<Rightarrow> string set \<Rightarrow> bool" where
  "unshared gs w NB NR \<longleftrightarrow> (\<forall>o'. o' \<noteq> w \<longrightarrow> NB \<inter> budgetsOf gs o' = {} \<and> NR \<inter> rateLimitsOf gs o' = {})"

lemma unshared_empty [simp]: "unshared gs w {} {}"
  by (simp add: unshared_def)

lemma governed_replaces:
  assumes "governed gs" "replaces gs gs' w NB NR" "unshared gs w NB NR"
  shows "governed gs'"
proof -
  have "owned ((budgetsOf gs)(w := NB)) (domB gs')" "owned ((rateLimitsOf gs)(w := NR)) (domR gs')"
    by (rule owned_replace [where D = "domB gs"] owned_replace [where D = "domR gs"],
        use assms in \<open>simp_all add: governed_def replaces_def unshared_def\<close>)+
  with assms(1,2) show ?thesis by (simp add: governed_def replaces_def)
qed

lemma CreateTeam_eq:
  "gs_teams gs (tm_ID team) = None \<Longrightarrow> UpdateTeamInMemory team rows gs = CreateTeamInMemory team rows gs"
  by (simp add: UpdateTeamInMemory_def)

lemma UpdateTeam_eq:
  assumes "gs_teams gs (tm_ID team) = Some old"
  shows "UpdateTeamInMemory team rows gs =
    (let gs3 = updateRows (tm_Budgets old) (tm_RateLimitID old) rows gs in gs3\<lparr>gs_teams := (gs_teams gs3)(tm_ID team \<mapsto> team)\<rparr>)"
  using assms by (simp add: UpdateTeamInMemory_def updateRows_def Let_def)

lemma UpdateCustomer_eq:
  assumes "gs_customers gs (cu_ID c) = Some old"
  shows "UpdateCustomerInMemory c rows gs =
    (let gs3 = updateRows (cu_Budgets old) (cu_RateLimitID old) rows gs in gs3\<lparr>gs_customers := (gs_customers gs3)(cu_ID c \<mapsto> c)\<rparr>)"
  using assms by (simp add: UpdateCustomerInMemory_def updateRows_def Let_def)

text \<open>The resources of the owners after one map of owners changed.\<close>

lemma budgetsOf_eq:
  assumes "ownersOf gs' = ownersOf gs"
  shows "budgetsOf (gs'\<lparr>gs_teams := (gs_teams gs')(i := t)\<rparr>) = (budgetsOf gs)(OwnTeam i := (\<Union>t\<in>set_option t. set (tm_Budgets t)))"
    and "budgetsOf (gs'\<lparr>gs_customers := (gs_customers gs')(i := c)\<rparr>) = (budgetsOf gs)(OwnCustomer i := (\<Union>c\<in>set_option c. set (cu_Budgets c)))"
    and "budgetsOf (gs'\<lparr>gs_modelConfigs := (gs_modelConfigs gs')(i := mc)\<rparr>) = (budgetsOf gs)(OwnConfig i := (\<Union>mc\<in>set_option mc. set (mc_Budgets mc)))"
    and "budgetsOf (gs'\<lparr>gs_providers := (gs_providers gs')(i := p)\<rparr>) = (budgetsOf gs)(OwnProvider i := (\<Union>pt\<in>set_option p. set_option (pt_BudgetID pt)))"
  by (rule ext, case_tac x rule: owner.exhaust, simp_all add: ownersOf_fields [OF assms] keysWithID_def)+

lemma rateLimitsOf_eq:
  assumes "ownersOf gs' = ownersOf gs"
  shows "rateLimitsOf (gs'\<lparr>gs_teams := (gs_teams gs')(i := t)\<rparr>) = (rateLimitsOf gs)(OwnTeam i := (\<Union>t\<in>set_option t. set_option (tm_RateLimitID t)))"
    and "rateLimitsOf (gs'\<lparr>gs_customers := (gs_customers gs')(i := c)\<rparr>) = (rateLimitsOf gs)(OwnCustomer i := (\<Union>c\<in>set_option c. set_option (cu_RateLimitID c)))"
    and "rateLimitsOf (gs'\<lparr>gs_modelConfigs := (gs_modelConfigs gs')(i := mc)\<rparr>) = (rateLimitsOf gs)(OwnConfig i := (\<Union>mc\<in>set_option mc. set_option (mc_RateLimitID mc)))"
    and "rateLimitsOf (gs'\<lparr>gs_providers := (gs_providers gs')(i := p)\<rparr>) = (rateLimitsOf gs)(OwnProvider i := (\<Union>pt\<in>set_option p. set_option (pt_RateLimitID pt)))"
  by (rule ext, case_tac x rule: owner.exhaust, simp_all add: ownersOf_fields [OF assms] keysWithID_def)+

lemma keysUnique_cong:
  assumes "ownersOf gs' = ownersOf gs"
  shows "keysUnique gs' = keysUnique gs"
  by (simp add: keysUnique_def ownersOf_fields [OF assms])

lemma detach_owners:
  assumes "\<And>vk. vk_ID (f vk) = vk_ID vk \<and> vk_Budgets (f vk) = vk_Budgets vk \<and> vk_RateLimitID (f vk) = vk_RateLimitID vk
      \<and> vk_ProviderConfigs (f vk) = vk_ProviderConfigs vk"
  shows "budgetsOf (gs\<lparr>gs_virtualKeys := (\<lambda>k. map_option f (gs_virtualKeys gs k))\<rparr>) = budgetsOf gs"
    and "rateLimitsOf (gs\<lparr>gs_virtualKeys := (\<lambda>k. map_option f (gs_virtualKeys gs k))\<rparr>) = rateLimitsOf gs"
    and "keysUnique (gs\<lparr>gs_virtualKeys := (\<lambda>k. map_option f (gs_virtualKeys gs k))\<rparr>) = keysUnique gs"
proof -
  have keys: "keysWithID (gs\<lparr>gs_virtualKeys := (\<lambda>k. map_option f (gs_virtualKeys gs k))\<rparr>) i = f ` keysWithID gs i" for i
    using assms by (auto simp: keysWithID_def ran_def)
  have same: "vkBudgetIDs (f vk) = vkBudgetIDs vk" "vkRateLimitIDs (f vk) = vkRateLimitIDs vk" for vk
    by (simp_all add: vkBudgetIDs_def vkRateLimitIDs_def assms)
  show "budgetsOf (gs\<lparr>gs_virtualKeys := (\<lambda>k. map_option f (gs_virtualKeys gs k))\<rparr>) = budgetsOf gs"
    by (rule ext, case_tac x rule: owner.exhaust) (simp_all add: keys same)
  show "rateLimitsOf (gs\<lparr>gs_virtualKeys := (\<lambda>k. map_option f (gs_virtualKeys gs k))\<rparr>) = rateLimitsOf gs"
    by (rule ext, case_tac x rule: owner.exhaust) (simp_all add: keys same)
  have d: "dom (\<lambda>k. map_option f (gs_virtualKeys gs k)) = dom (gs_virtualKeys gs)" by auto
  have same_id: "k \<in> dom (gs_virtualKeys gs) \<Longrightarrow> vk_ID (the (map_option f (gs_virtualKeys gs k))) = vk_ID (the (gs_virtualKeys gs k))" for k
    by (auto simp: assms)
  show "keysUnique (gs\<lparr>gs_virtualKeys := (\<lambda>k. map_option f (gs_virtualKeys gs k))\<rparr>) = keysUnique gs"
    unfolding keysUnique_def
    using inj_on_cong [of "dom (gs_virtualKeys gs)" "\<lambda>k. vk_ID (the (map_option f (gs_virtualKeys gs k)))"
        "\<lambda>k. vk_ID (the (gs_virtualKeys gs k))", OF same_id]
    by (simp add: d)
qed

text \<open>An operation on the resources that frees at most \<open>FB\<close> and \<open>FR\<close> and stores \<open>NB\<close> and \<open>NR\<close>.\<close>

definition reaches :: "'f gov_store \<Rightarrow> 'f gov_store \<Rightarrow> string set \<Rightarrow> string set \<Rightarrow> string set \<Rightarrow> string set \<Rightarrow> bool" where
  "reaches gs gs' FB FR NB NR \<longleftrightarrow> ownersOf gs' = ownersOf gs \<and> (idsOk gs \<longrightarrow> idsOk gs')
     \<and> NB \<subseteq> domB gs' \<and> domB gs - FB \<subseteq> domB gs' \<and> NR \<subseteq> domR gs' \<and> domR gs - FR \<subseteq> domR gs'"

lemma reaches_touches:
  "touches gs gs' B R \<Longrightarrow> NB \<subseteq> B \<Longrightarrow> domB gs - FB \<subseteq> B \<Longrightarrow> NR \<subseteq> R \<Longrightarrow> domR gs - FR \<subseteq> R \<Longrightarrow> reaches gs gs' FB FR NB NR"
  by (simp add: touches_def reaches_def)

lemma frees_trans:
  "N1 \<subseteq> B1 \<Longrightarrow> B0 - F1 \<subseteq> B1 \<Longrightarrow> N2 \<subseteq> B2 \<Longrightarrow> B1 - F2 \<subseteq> B2 \<Longrightarrow> F1 \<union> F2 \<subseteq> F \<Longrightarrow> N \<subseteq> (N1 - F2) \<union> N2
   \<Longrightarrow> N \<subseteq> B2 \<and> B0 - F \<subseteq> B2" for N :: "'a set"
  by blast

lemma reaches_trans:
  assumes "reaches gs g1 F1 G1 N1 M1" "reaches g1 g2 F2 G2 N2 M2"
    and "F1 \<union> F2 \<subseteq> F" "G1 \<union> G2 \<subseteq> G" "N \<subseteq> (N1 - F2) \<union> N2" "M \<subseteq> (M1 - G2) \<union> M2"
  shows "reaches gs g2 F G N M"
proof -
  from assms(1,2) have "ownersOf g2 = ownersOf gs" "idsOk gs \<longrightarrow> idsOk g2" by (simp_all add: reaches_def)
  moreover have "N \<subseteq> domB g2 \<and> domB gs - F \<subseteq> domB g2"
    by (rule frees_trans [of N1 "domB g1" "domB gs" F1 N2 "domB g2" F2]) (use assms in \<open>simp_all only: reaches_def\<close>)
  moreover have "M \<subseteq> domR g2 \<and> domR gs - G \<subseteq> domR g2"
    by (rule frees_trans [of M1 "domR g1" "domR gs" G1 M2 "domR g2" G2]) (use assms in \<open>simp_all only: reaches_def\<close>)
  ultimately show ?thesis by (simp add: reaches_def)
qed

lemma reaches_fold:
  assumes "\<And>x g. x \<in> set xs \<Longrightarrow> reaches g (f x g) F G (N x) (M x)" "\<And>x. x \<in> set xs \<Longrightarrow> N x \<inter> F = {} \<and> M x \<inter> G = {}"
  shows "reaches g (fold f xs g) F G (\<Union>x\<in>set xs. N x) (\<Union>x\<in>set xs. M x)"
  using assms
proof (induction xs arbitrary: g)
  case Nil
  then show ?case by (auto simp: reaches_def)
next
  case (Cons x xs)
  have "reaches (f x g) (fold f xs (f x g)) F G (\<Union>y\<in>set xs. N y) (\<Union>y\<in>set xs. M y)"
    using Cons.prems by (intro Cons.IH) auto
  note rest = this
  have "reaches g (f x g) F G (N x) (M x)" using Cons.prems by simp
  then have "reaches g (fold f xs (f x g)) F G (\<Union>y\<in>set (x # xs). N y) (\<Union>y\<in>set (x # xs). M y)"
    by (rule reaches_trans [OF _ rest]) (use Cons.prems(2) [of x] in auto)
  then show ?case by simp
qed

lemma reaches_updateRows:
  "reaches gs (updateRows oldB oldR rows gs) (set oldB - bg_ID ` set (ow_Budgets rows)) (set_option oldR)
     (bg_ID ` set (ow_Budgets rows)) (rl_ID ` set_option (ow_RateLimit rows))"
  by (rule reaches_touches [OF touches_updateRows]) auto

lemma reaches_createRows:
  "reaches gs (createRows rows gs) {} {} (bg_ID ` set (ow_Budgets rows)) (rl_ID ` set_option (ow_RateLimit rows))"
  by (rule reaches_touches [OF touches_createRows]) auto

lemma reaches_storePC:
  "reaches gs (storePC a pc gs) {} {} (bg_ID ` set (pw_Budgets pc)) (rl_ID ` set_option (pw_RateLimit pc))"
proof -
  note b = touches_storeBudgets [where a = a and xs = "pw_Budgets pc" and gs = gs]
  show ?thesis
  proof (cases "pw_RateLimit pc")
    case None
    then show ?thesis by (simp add: storePC_def) (rule reaches_touches [OF b]; auto)
  next
    case (Some r)
    then show ?thesis
      by (simp add: storePC_def)
        (rule reaches_touches [OF touches_trans [OF b touches_storeRateLimit]]; auto simp: touches_domB [OF b] touches_domR [OF b])
  qed
qed

lemma existingPC_in: "existingPC old i = Some e \<Longrightarrow> e \<in> set (vk_ProviderConfigs old)"
  using nth_mem [of _ "rev (vk_ProviderConfigs old)"] by (auto simp: existingPC_def find_Some_iff)

lemma reaches_updatePC:
  assumes "bg_ID ` set (pw_Budgets pc) \<subseteq> newB"
  shows "reaches gs (updatePC a old newB pc gs)
    ((\<Union>e\<in>set (vk_ProviderConfigs old). set (vp_Budgets e)) - newB)
    (if pw_RateLimit pc = None then \<Union>e\<in>set_option (existingPC old (vp_ID (pw_Config pc))). set_option (vp_RateLimitID e) else {})
    (bg_ID ` set (pw_Budgets pc)) (rl_ID ` set_option (pw_RateLimit pc))"
proof -
  let ?epc = "existingPC old (vp_ID (pw_Config pc))"
  define g1 where "g1 = (case pw_RateLimit pc of
      Some r \<Rightarrow> keepRateLimit a r gs | None \<Rightarrow> deleteOptRateLimit (Option.bind ?epc vp_RateLimitID) gs)"
  have r: "touches gs g1 (domB gs) (domR gs - (if pw_RateLimit pc = None then set_option (Option.bind ?epc vp_RateLimitID) else {})
      \<union> rl_ID ` set_option (pw_RateLimit pc))"
    using touches_deleteOptRateLimit [of gs "Option.bind ?epc vp_RateLimitID"] touches_keepRateLimit
    by (cases "pw_RateLimit pc") (simp_all add: g1_def del: bind_map_option set_bind_option)
  note k = touches_trans [OF r touches_keepBudgets [where a = a and xs = "pw_Budgets pc"]]
  have e: "set_option (Option.bind ?epc vp_RateLimitID) = (\<Union>e\<in>set_option ?epc. set_option (vp_RateLimitID e))"
    by (cases ?epc) simp_all
  show ?thesis
  proof (cases ?epc)
    case None
    then have "updatePC a old newB pc gs = fold (keepBudget a) (pw_Budgets pc) g1"
      unfolding updatePC_def g1_def Let_def by (simp cong: option.case_cong)
    then show ?thesis
      by (simp only:) (rule reaches_touches [OF k]; auto simp: touches_domB [OF r] touches_domR [OF r] e)
  next
    case (Some x)
    then have "updatePC a old newB pc gs = deleteBudgets (filter (\<lambda>i. i \<notin> newB) (vp_Budgets x)) (fold (keepBudget a) (pw_Budgets pc) g1)"
      unfolding updatePC_def g1_def Let_def by (simp cong: option.case_cong)
    then show ?thesis using assms existingPC_in [OF Some]
      by (simp only:) (rule reaches_touches [OF touches_trans [OF k touches_deleteBudgets]];
        auto simp: touches_domB [OF r] touches_domR [OF r] touches_domB [OF k] touches_domR [OF k] e)
  qed
qed

lemma reaches_orphansOfPC:
  "reaches gs (orphansOfPC newB newR e gs) (set (vp_Budgets e) - newB) (set_option (vp_RateLimitID e) - newR) {} {}"
proof -
  define g1 where "g1 = (case vp_RateLimitID e of Some r \<Rightarrow> if r \<in> newR then gs else DeleteRateLimit r gs | None \<Rightarrow> gs)"
  have "touches gs g1 (domB gs) (domR gs - (set_option (vp_RateLimitID e) - newR))"
    using touches_refl [of gs] touches_deleteOptRateLimit [of gs "vp_RateLimitID e"]
    by (auto simp: g1_def deleteOptRateLimit_def split: option.split elim!: touches_eq)
  note r = this
  have o: "orphansOfPC newB newR e gs = deleteBudgets (filter (\<lambda>i. i \<notin> newB) (vp_Budgets e)) g1"
    by (simp add: orphansOfPC_def g1_def)
  show ?thesis
    by (simp only: o) (rule reaches_touches [OF touches_trans [OF r touches_deleteBudgets]];
      auto simp: touches_domB [OF r] touches_domR [OF r])
qed

text \<open>The resources of the keys after a key was published, or removed.\<close>

definition putKey :: "string option \<Rightarrow> string \<Rightarrow> virtual_key option \<Rightarrow> (string \<Rightarrow> virtual_key option) \<Rightarrow> string \<Rightarrow> virtual_key option" where
  "putKey k val vk m = (case k of None \<Rightarrow> m | Some k' \<Rightarrow> m(k' := None))(val := vk)"

lemma keysUniqueD:
  assumes "keysUnique gs" "gs_virtualKeys gs k = Some v" "gs_virtualKeys gs k' = Some v'" "vk_ID v = vk_ID v'"
  shows "k = k'"
proof -
  have "inj_on (\<lambda>k. vk_ID (the (gs_virtualKeys gs k))) (dom (gs_virtualKeys gs))" using assms(1) by (simp add: keysUnique_def)
  from inj_onD [OF this, of k k'] assms(2-4) show ?thesis by (simp add: domIff)
qed

lemma keysUniqueI:
  assumes "gs_virtualKeys gs [] = None"
    and "\<And>k k' v v'. gs_virtualKeys gs k = Some v \<Longrightarrow> gs_virtualKeys gs k' = Some v' \<Longrightarrow> vk_ID v = vk_ID v' \<Longrightarrow> k = k'"
  shows "keysUnique gs"
  unfolding keysUnique_def by (intro conjI inj_onI assms(1)) (auto intro: assms(2))

text \<open>\<open>k\<close> is where the key with identifier \<open>i\<close> is stored, if it is.\<close>

definition locates :: "'f gov_store \<Rightarrow> string \<Rightarrow> string option \<Rightarrow> bool" where
  "locates gs i k \<longleftrightarrow> (\<forall>k' v. gs_virtualKeys gs k' = Some v \<and> vk_ID v = i \<longrightarrow> k = Some k')
     \<and> (\<forall>k'. k = Some k' \<longrightarrow> (\<exists>v. gs_virtualKeys gs k' = Some v \<and> vk_ID v = i))"

lemma locates_Some:
  assumes "keysUnique gs" "gs_virtualKeys gs k = Some v" "vk_ID v = i"
  shows "locates gs i (Some k)"
  unfolding locates_def
proof (intro conjI allI impI)
  show "Some k = Some k'" if "gs_virtualKeys gs k' = Some v' \<and> vk_ID v' = i" for k' v'
    using keysUniqueD [OF assms(1,2), of k' v'] that assms(3) by simp
  show "\<exists>v. gs_virtualKeys gs k' = Some v \<and> vk_ID v = i" if "Some k = Some k'" for k'
    using that assms by simp
qed

lemma find_locates:
  assumes "keysUnique gs" "set order = dom (gs_virtualKeys gs)"
  shows "locates gs i (find (\<lambda>k. case gs_virtualKeys gs k of Some v \<Rightarrow> vk_ID v = i | None \<Rightarrow> False) order)"
    (is "locates gs i (find ?P order)")
proof (cases "find ?P order")
  case None
  then have none: "\<forall>k\<in>dom (gs_virtualKeys gs). \<not> ?P k" by (simp add: find_None_iff assms(2))
  have "\<not> (gs_virtualKeys gs k' = Some v \<and> vk_ID v = i)" for k' v
    using none by (force simp: dom_def)
  then show ?thesis using None by (simp add: locates_def)
next
  case (Some k)
  then have "?P k" by (auto simp: find_Some_iff)
  then obtain v where v: "gs_virtualKeys gs k = Some v" "vk_ID v = i" by (auto split: option.splits)
  with Some locates_Some [OF assms(1) v] show ?thesis by simp
qed

lemma existingKey_locates:
  assumes "keysUnique gs" "set order = dom (gs_virtualKeys gs)"
  shows "locates gs i (existingKey order val i gs)"
proof (cases "case gs_virtualKeys gs val of Some v \<Rightarrow> vk_ID v = i | None \<Rightarrow> False")
  case True
  then obtain v where v: "gs_virtualKeys gs val = Some v" "vk_ID v = i" by (auto split: option.splits)
  then have "existingKey order val i gs = Some val" by (simp add: existingKey_def)
  with locates_Some [OF assms(1) v] show ?thesis by simp
next
  case False
  then show ?thesis using find_locates [OF assms] by (simp add: existingKey_def)
qed

lemma put_key:
  assumes uniq: "keysUnique gs" and own: "ownersOf g1 = ownersOf gs" and at: "locates gs i k"
    and vk: "\<And>v. vk = Some v \<Longrightarrow> vk_ID v = i \<and> val \<noteq> []"
    and free: "\<And>v. gs_virtualKeys gs val = Some v \<Longrightarrow> vk_ID v = i"
    and gs': "gs' = g1\<lparr>gs_virtualKeys := putKey k val vk (gs_virtualKeys g1)\<rparr>"
  shows "budgetsOf gs' = (budgetsOf gs)(OwnKey i := (\<Union>v\<in>set_option vk. vkBudgetIDs v))"
    and "rateLimitsOf gs' = (rateLimitsOf gs)(OwnKey i := (\<Union>v\<in>set_option vk. vkRateLimitIDs v))"
    and "keysUnique gs'"
proof -
  note o = ownersOf_fields [OF own]
  have m: "gs_virtualKeys gs' = putKey k val vk (gs_virtualKeys gs)" by (simp add: gs' o)
  have at': "gs_virtualKeys gs' k' = Some v \<longleftrightarrow> (k' = val \<and> vk = Some v) \<or> (k' \<noteq> val \<and> gs_virtualKeys gs k' = Some v \<and> vk_ID v \<noteq> i)" for k' v
  proof (cases "k' = val")
    case True
    then show ?thesis by (auto simp: m putKey_def)
  next
    case False
    have "gs_virtualKeys gs' k' = (if k = Some k' then None else gs_virtualKeys gs k')"
      using False by (simp add: m putKey_def split: option.split)
    moreover have "k = Some k' \<longleftrightarrow> (\<exists>v. gs_virtualKeys gs k' = Some v \<and> vk_ID v = i)"
      using at unfolding locates_def by blast
    ultimately show ?thesis using False by auto
  qed
  have keys: "keysWithID gs' j = (if j = i then set_option vk else keysWithID gs j)" for j
  proof (cases "j = i")
    case True
    then show ?thesis using vk by (auto simp: keysWithID_def ran_def at')
  next
    case False
    have "v \<in> keysWithID gs' j \<longleftrightarrow> v \<in> keysWithID gs j" for v
      using False vk free by (auto simp: keysWithID_def ran_def at')
    with False show ?thesis by auto
  qed
  have rest: "gs_teams gs' = gs_teams gs" "gs_customers gs' = gs_customers gs" "gs_modelConfigs gs' = gs_modelConfigs gs"
    "gs_providers gs' = gs_providers gs" by (simp_all add: gs' o)
  show "budgetsOf gs' = (budgetsOf gs)(OwnKey i := (\<Union>v\<in>set_option vk. vkBudgetIDs v))"
    by (rule ext, case_tac x rule: owner.exhaust) (simp_all add: keys rest)
  show "rateLimitsOf gs' = (rateLimitsOf gs)(OwnKey i := (\<Union>v\<in>set_option vk. vkRateLimitIDs v))"
    by (rule ext, case_tac x rule: owner.exhaust) (simp_all add: keys rest)
  show "keysUnique gs'"
  proof (rule keysUniqueI)
    show "gs_virtualKeys gs' [] = None"
    proof (rule ccontr)
      assume "gs_virtualKeys gs' [] \<noteq> None"
      then obtain v where "gs_virtualKeys gs' [] = Some v" by blast
      with vk uniq show False by (auto simp: at' keysUnique_def)
    qed
    show "k1 = k2" if "gs_virtualKeys gs' k1 = Some v" "gs_virtualKeys gs' k2 = Some v'" "vk_ID v = vk_ID v'" for k1 k2 v v'
      using that vk keysUniqueD [OF uniq, of k1 v k2 v'] by (auto simp: at')
  qed
qed

text \<open>A row and the identifiers the store keeps of it agree.\<close>

definition ownRows :: "'f owned_rows \<Rightarrow> string list \<Rightarrow> string option \<Rightarrow> bool" where
  "ownRows rows bs r \<longleftrightarrow> bs = map bg_ID (ow_Budgets rows) \<and> r = map_option rl_ID (ow_RateLimit rows)"

definition keyRows :: "virtual_key \<Rightarrow> 'f owned_rows \<Rightarrow> 'f pc_row list option \<Rightarrow> bool" where
  "keyRows vk rows pcs \<longleftrightarrow> ownRows rows (vk_Budgets vk) (vk_RateLimitID vk)
     \<and> vk_ProviderConfigs vk = map pw_Config (pcRows pcs)
     \<and> (\<forall>pc\<in>set (pcRows pcs). vp_Budgets (pw_Config pc) = map bg_ID (pw_Budgets pc)
          \<and> vp_RateLimitID (pw_Config pc) = map_option rl_ID (pw_RateLimit pc))"

text \<open>No provider configuration of the key gives up a limit that the new key names elsewhere.\<close>

definition noLimitMoved :: "'f gov_store \<Rightarrow> virtual_key \<Rightarrow> 'f owned_rows \<Rightarrow> 'f pc_row list option \<Rightarrow> bool" where
  "noLimitMoved gs vk rows pcs \<longleftrightarrow>
     (\<forall>old\<in>keysWithID gs (vk_ID vk). \<forall>pc\<in>set (pcRows pcs). \<forall>e. pw_RateLimit pc = None
        \<and> existingPC old (vp_ID (pw_Config pc)) = Some e
        \<longrightarrow> set_option (vp_RateLimitID e) \<inter> newRateLimitIDs rows (pcRows pcs) = {})"

lemma newBudgetIDs_row: "keyRows vk rows pcs \<Longrightarrow> newBudgetIDs rows (pcRows pcs) = vkBudgetIDs vk"
  by (auto simp: keyRows_def ownRows_def newBudgetIDs_def vkBudgetIDs_def)

lemma newRateLimitIDs_row: "keyRows vk rows pcs \<Longrightarrow> newRateLimitIDs rows (pcRows pcs) = vkRateLimitIDs vk"
  by (auto simp: keyRows_def ownRows_def newRateLimitIDs_def vkRateLimitIDs_def option.set_map)

lemma replacesI:
  assumes "reaches gs g1 FB FR NB NR" "FB \<subseteq> budgetsOf gs w" "FR \<subseteq> rateLimitsOf gs w"
    and "budgetsOf gs' = (budgetsOf gs)(w := NB)" "rateLimitsOf gs' = (rateLimitsOf gs)(w := NR)"
    and "gs_budgets gs' = gs_budgets g1" "gs_rateLimits gs' = gs_rateLimits g1" "keysUnique gs \<longrightarrow> keysUnique gs'"
  shows "replaces gs gs' w NB NR"
proof -
  have "idsOk gs' = idsOk g1" using assms(6,7) by (simp add: idsOk_defs)
  moreover have "domB gs - budgetsOf gs w \<subseteq> domB g1" "domR gs - rateLimitsOf gs w \<subseteq> domR g1"
    using assms(1-3) Diff_mono [OF subset_refl assms(2), of "domB gs"] Diff_mono [OF subset_refl assms(3), of "domR gs"]
    unfolding reaches_def by blast+
  ultimately show ?thesis using assms unfolding replaces_def reaches_def by simp
qed

lemma reaches_owners: "reaches gs g1 FB FR NB NR \<Longrightarrow> ownersOf g1 = ownersOf gs"
  by (simp add: reaches_def)

lemma replaces_team:
  assumes "reaches gs g1 FB FR NB NR" "FB \<subseteq> budgetsOf gs (OwnTeam i)" "FR \<subseteq> rateLimitsOf gs (OwnTeam i)"
    and "NB = (\<Union>t\<in>set_option t. set (tm_Budgets t))" "NR = (\<Union>t\<in>set_option t. set_option (tm_RateLimitID t))"
  shows "replaces gs (g1\<lparr>gs_teams := (gs_teams g1)(i := t)\<rparr>) (OwnTeam i) NB NR"
  by (rule replacesI [OF assms(1-3)])
    (simp_all only: budgetsOf_eq [OF reaches_owners [OF assms(1)]] rateLimitsOf_eq [OF reaches_owners [OF assms(1)]] assms(4,5),
      simp_all add: keysUnique_def ownersOf_fields [OF reaches_owners [OF assms(1)]])

lemma replaces_customer:
  assumes "reaches gs g1 FB FR NB NR" "FB \<subseteq> budgetsOf gs (OwnCustomer i)" "FR \<subseteq> rateLimitsOf gs (OwnCustomer i)"
    and "NB = (\<Union>c\<in>set_option c. set (cu_Budgets c))" "NR = (\<Union>c\<in>set_option c. set_option (cu_RateLimitID c))"
  shows "replaces gs (g1\<lparr>gs_customers := (gs_customers g1)(i := c)\<rparr>) (OwnCustomer i) NB NR"
  by (rule replacesI [OF assms(1-3)])
    (simp_all only: budgetsOf_eq [OF reaches_owners [OF assms(1)]] rateLimitsOf_eq [OF reaches_owners [OF assms(1)]] assms(4,5),
      simp_all add: keysUnique_def ownersOf_fields [OF reaches_owners [OF assms(1)]])

lemma replaces_config:
  assumes "reaches gs g1 FB FR NB NR" "FB \<subseteq> budgetsOf gs (OwnConfig i)" "FR \<subseteq> rateLimitsOf gs (OwnConfig i)"
    and "NB = (\<Union>c\<in>set_option c. set (mc_Budgets c))" "NR = (\<Union>c\<in>set_option c. set_option (mc_RateLimitID c))"
  shows "replaces gs (g1\<lparr>gs_modelConfigs := (gs_modelConfigs g1)(i := c)\<rparr>) (OwnConfig i) NB NR"
  by (rule replacesI [OF assms(1-3)])
    (simp_all only: budgetsOf_eq [OF reaches_owners [OF assms(1)]] rateLimitsOf_eq [OF reaches_owners [OF assms(1)]] assms(4,5),
      simp_all add: keysUnique_def ownersOf_fields [OF reaches_owners [OF assms(1)]])

lemma replaces_provider:
  assumes "reaches gs g1 FB FR NB NR" "FB \<subseteq> budgetsOf gs (OwnProvider i)" "FR \<subseteq> rateLimitsOf gs (OwnProvider i)"
    and "NB = (\<Union>c\<in>set_option c. set_option (pt_BudgetID c))" "NR = (\<Union>c\<in>set_option c. set_option (pt_RateLimitID c))"
  shows "replaces gs (g1\<lparr>gs_providers := (gs_providers g1)(i := c)\<rparr>) (OwnProvider i) NB NR"
  by (rule replacesI [OF assms(1-3)])
    (simp_all only: budgetsOf_eq [OF reaches_owners [OF assms(1)]] rateLimitsOf_eq [OF reaches_owners [OF assms(1)]] assms(4,5),
      simp_all add: keysUnique_def ownersOf_fields [OF reaches_owners [OF assms(1)]])

lemma replaces_key:
  assumes "reaches gs g1 FB FR NB NR" "FB \<subseteq> budgetsOf gs (OwnKey i)" "FR \<subseteq> rateLimitsOf gs (OwnKey i)"
    and "NB = (\<Union>v\<in>set_option vk. vkBudgetIDs v)" "NR = (\<Union>v\<in>set_option vk. vkRateLimitIDs v)"
    and "keysUnique gs" "locates gs i k" "\<And>v. vk = Some v \<Longrightarrow> vk_ID v = i \<and> val \<noteq> []"
    and "\<And>v. gs_virtualKeys gs val = Some v \<Longrightarrow> vk_ID v = i"
  shows "replaces gs (g1\<lparr>gs_virtualKeys := putKey k val vk (gs_virtualKeys g1)\<rparr>) (OwnKey i) NB NR"
proof -
  note p = put_key [OF assms(6) reaches_owners [OF assms(1)] assms(7-9) refl]
  show ?thesis by (rule replacesI [OF assms(1-3)]) (simp_all add: p assms(4,5))
qed

lemma ownRows_sets:
  assumes "ownRows rows bs r"
  shows "bg_ID ` set (ow_Budgets rows) = set bs" "rl_ID ` set_option (ow_RateLimit rows) = set_option r"
  using assms by (simp_all add: ownRows_def option.set_map)

lemma UpdateTeam_replaces:
  assumes "ownRows rows (tm_Budgets team) (tm_RateLimitID team)"
  shows "replaces gs (UpdateTeamInMemory team rows gs) (OwnTeam (tm_ID team)) (set (tm_Budgets team)) (set_option (tm_RateLimitID team))"
proof (cases "gs_teams gs (tm_ID team)")
  case None
  then show ?thesis
    using replaces_team [OF reaches_createRows [of gs rows], of "tm_ID team" "Some team"] ownRows_sets [OF assms]
    by (simp add: UpdateTeamInMemory_def CreateTeamInMemory_def Let_def)
next
  case (Some old)
  note r = reaches_updateRows [of gs "tm_Budgets old" "tm_RateLimitID old" rows, unfolded ownRows_sets [OF assms]]
  show ?thesis unfolding UpdateTeam_eq [OF Some] Let_def
    by (rule replaces_team [OF r]) (use Some in auto)
qed

lemma UpdateCustomer_replaces:
  assumes "ownRows rows (cu_Budgets c) (cu_RateLimitID c)"
  shows "replaces gs (UpdateCustomerInMemory c rows gs) (OwnCustomer (cu_ID c)) (set (cu_Budgets c)) (set_option (cu_RateLimitID c))"
proof (cases "gs_customers gs (cu_ID c)")
  case None
  then show ?thesis
    using replaces_customer [OF reaches_createRows [of gs rows], of "cu_ID c" "Some c"] ownRows_sets [OF assms]
    by (simp add: UpdateCustomerInMemory_def CreateCustomerInMemory_def Let_def)
next
  case (Some old)
  note r = reaches_updateRows [of gs "cu_Budgets old" "cu_RateLimitID old" rows, unfolded ownRows_sets [OF assms]]
  show ?thesis unfolding UpdateCustomer_eq [OF Some] Let_def
    by (rule replaces_customer [OF r]) (use Some in auto)
qed

lemma reaches_delete:
  "reaches gs (deleteOptRateLimit r (deleteBudgets bs gs)) (set bs) (set_option r) {} {}"
proof -
  note d = touches_deleteBudgets [of gs bs]
  show ?thesis
    by (rule reaches_touches [OF touches_trans [OF d touches_deleteOptRateLimit]]) (auto simp: touches_domB [OF d] touches_domR [OF d])
qed

lemma replaces_cong:
  assumes "replaces gs g w NB NR" "budgetsOf g' = budgetsOf g" "rateLimitsOf g' = rateLimitsOf g" "keysUnique g' = keysUnique g"
    and "gs_budgets g' = gs_budgets g" "gs_rateLimits g' = gs_rateLimits g"
  shows "replaces gs g' w NB NR"
proof -
  have "idsOk g' = idsOk g" by (simp only: idsOk_defs assms(5,6))
  with assms show ?thesis unfolding replaces_def by simp
qed

lemma replaces_detach:
  assumes "replaces gs g w NB NR"
    and "\<And>vk. vk_ID (f vk) = vk_ID vk \<and> vk_Budgets (f vk) = vk_Budgets vk \<and> vk_RateLimitID (f vk) = vk_RateLimitID vk
      \<and> vk_ProviderConfigs (f vk) = vk_ProviderConfigs vk"
  shows "replaces gs (g\<lparr>gs_virtualKeys := (\<lambda>k. map_option f (gs_virtualKeys g k))\<rparr>) w NB NR"
  by (rule replaces_cong [OF assms(1) detach_owners [OF assms(2)]]) simp_all

lemma DeleteTeam_replaces:
  assumes "teamID \<noteq> []"
  shows "replaces gs (DeleteTeamInMemory teamID gs) (OwnTeam teamID) {} {}"
proof -
  define g1 where "g1 = (case gs_teams gs teamID of None \<Rightarrow> gs
      | Some team \<Rightarrow> deleteOptRateLimit (tm_RateLimitID team) (deleteBudgets (tm_Budgets team) gs))"
  have "reaches gs g1 (budgetsOf gs (OwnTeam teamID)) (rateLimitsOf gs (OwnTeam teamID)) {} {}"
    using reaches_delete by (cases "gs_teams gs teamID") (simp_all add: g1_def, simp add: reaches_def)
  note r = replaces_team [OF this, of teamID None, simplified]
  have "DeleteTeamInMemory teamID gs = (let g = g1\<lparr>gs_teams := (gs_teams g1)(teamID := None)\<rparr>
      in g\<lparr>gs_virtualKeys := (\<lambda>k. map_option (detachTeam teamID) (gs_virtualKeys g k))\<rparr>)"
    using assms by (simp add: DeleteTeamInMemory_def g1_def Let_def)
  then show ?thesis unfolding Let_def
    by (simp only:) (rule replaces_detach [OF r], simp add: detachTeam_def)
qed

lemma replaces_detachTeam:
  assumes "replaces gs g w NB NR"
  shows "replaces gs (g\<lparr>gs_teams := (\<lambda>t. map_option (detachTeamCustomer i) (gs_teams g t))\<rparr>) w NB NR"
proof -
  have same: "tm_Budgets (detachTeamCustomer i t) = tm_Budgets t" "tm_RateLimitID (detachTeamCustomer i t) = tm_RateLimitID t" for t
    by (simp_all add: detachTeamCustomer_def)
  have "budgetsOf (g\<lparr>gs_teams := (\<lambda>t. map_option (detachTeamCustomer i) (gs_teams g t))\<rparr>) = budgetsOf g"
    by (rule ext, case_tac x rule: owner.exhaust) (simp_all add: keysWithID_def option.set_map same)
  moreover have "rateLimitsOf (g\<lparr>gs_teams := (\<lambda>t. map_option (detachTeamCustomer i) (gs_teams g t))\<rparr>) = rateLimitsOf g"
    by (rule ext, case_tac x rule: owner.exhaust) (simp_all add: keysWithID_def option.set_map same)
  ultimately show ?thesis
    by (rule replaces_cong [OF assms]) (simp_all add: keysUnique_def)
qed

lemma DeleteCustomer_replaces:
  assumes "customerID \<noteq> []"
  shows "replaces gs (DeleteCustomerInMemory customerID gs) (OwnCustomer customerID) {} {}"
proof -
  define g1 where "g1 = (case gs_customers gs customerID of None \<Rightarrow> gs
      | Some c \<Rightarrow> deleteOptRateLimit (cu_RateLimitID c) (deleteBudgets (cu_Budgets c) gs))"
  have "reaches gs g1 (budgetsOf gs (OwnCustomer customerID)) (rateLimitsOf gs (OwnCustomer customerID)) {} {}"
    using reaches_delete by (cases "gs_customers gs customerID") (simp_all add: g1_def, simp add: reaches_def)
  note r = replaces_customer [OF this, of customerID None, simplified]
  have "DeleteCustomerInMemory customerID gs =
      (let g = g1\<lparr>gs_customers := (gs_customers g1)(customerID := None)\<rparr>;
           g' = g\<lparr>gs_virtualKeys := (\<lambda>k. map_option (detachCustomer customerID) (gs_virtualKeys g k))\<rparr>
       in g'\<lparr>gs_teams := (\<lambda>t. map_option (detachTeamCustomer customerID) (gs_teams g' t))\<rparr>)"
    using assms by (simp add: DeleteCustomerInMemory_def g1_def Let_def)
  then show ?thesis unfolding Let_def
    by (simp only:) (rule replaces_detachTeam [OF replaces_detach [OF r]], simp add: detachCustomer_def)
qed

lemma UpdateModelConfig_replaces:
  assumes "ownRows rows (mc_Budgets mc) (mc_RateLimitID mc)"
  shows "replaces gs (UpdateModelConfigInMemory env mc rows gs) (OwnConfig (configStoreKey env mc)) (set (mc_Budgets mc)) (set_option (mc_RateLimitID mc))"
proof -
  let ?a = "ow_CalendarAligned rows"
  note k = touches_keepBudgets [where a = ?a and xs = "ow_Budgets rows" and gs = gs]
  note t = touches_trans [OF k touches_publishOptRateLimit [of _ "map_option (stampRateLimit ?a) (ow_RateLimit rows)"]]
  have r: "rl_ID ` set_option (map_option (stampRateLimit ?a) (ow_RateLimit rows)) = set_option (mc_RateLimitID mc)"
    using ownRows_sets(2) [OF assms] by (cases "ow_RateLimit rows") (auto simp: stampRateLimit_def)
  have "reaches gs (publishOptRateLimit (map_option (stampRateLimit ?a) (ow_RateLimit rows)) (fold (keepBudget ?a) (ow_Budgets rows) gs))
      {} {} (set (mc_Budgets mc)) (set_option (mc_RateLimitID mc))"
    by (rule reaches_touches [OF t]) (auto simp: touches_domB [OF k] touches_domR [OF k] r ownRows_sets(1) [OF assms])
  from replaces_config [OF this, of "configStoreKey env mc" "Some mc"] show ?thesis
    by (simp add: UpdateModelConfigInMemory_def Let_def)
qed

lemma evictConfig_replaces:
  assumes "gs_modelConfigs gs k = Some mc"
  shows "replaces gs (evictConfig k mc gs) (OwnConfig k) {} {}"
  using replaces_config [OF reaches_delete, of "mc_Budgets mc" gs k "mc_RateLimitID mc" None] assms
  by (simp add: evictConfig_def Let_def)

lemma UpdateProvider_replaces:
  assumes "pt_BudgetID p = map_option bg_ID b" "pt_RateLimitID p = map_option rl_ID r"
  shows "replaces gs (UpdateProviderInMemory name p b r gs) (OwnProvider name) (set_option (pt_BudgetID p)) (set_option (pt_RateLimitID p))"
proof -
  define g1 where "g1 = (case b of None \<Rightarrow> gs | Some x \<Rightarrow> publishBudget x gs)"
  have k: "touches gs g1 (bg_ID ` set_option b \<union> domB gs) (domR gs)"
    using touches_refl [of gs] touches_publishBudget by (cases b) (simp_all add: g1_def)
  have "reaches gs (publishOptRateLimit r g1) {} {} (set_option (pt_BudgetID p)) (set_option (pt_RateLimitID p))"
    by (rule reaches_touches [OF touches_trans [OF k touches_publishOptRateLimit]])
      (auto simp: touches_domB [OF k] touches_domR [OF k] assms option.set_map)
  from replaces_provider [OF this, of name "Some p"] show ?thesis
    by (simp add: UpdateProviderInMemory_def Let_def g1_def)
qed

lemma DeleteProvider_replaces:
  assumes "name \<noteq> []"
  shows "replaces gs (DeleteProviderInMemory name gs) (OwnProvider name) {} {}"
proof -
  define g1 where "g1 = (case gs_providers gs name of None \<Rightarrow> gs
      | Some p \<Rightarrow> deleteOptRateLimit (pt_RateLimitID p) (deleteBudgets (case pt_BudgetID p of None \<Rightarrow> [] | Some i \<Rightarrow> [i]) gs))"
  have "reaches gs g1 (budgetsOf gs (OwnProvider name)) (rateLimitsOf gs (OwnProvider name)) {} {}"
  proof (cases "gs_providers gs name")
    case None
    then show ?thesis by (simp add: g1_def reaches_def)
  next
    case (Some p)
    have "set (case pt_BudgetID p of None \<Rightarrow> [] | Some i \<Rightarrow> [i]) = set_option (pt_BudgetID p)"
      by (cases "pt_BudgetID p") simp_all
    with Some reaches_delete [of gs "pt_RateLimitID p" "case pt_BudgetID p of None \<Rightarrow> [] | Some i \<Rightarrow> [i]"] show ?thesis
      by (simp add: g1_def)
  qed
  from replaces_provider [OF this, of name None] assms show ?thesis
    by (simp add: DeleteProviderInMemory_def g1_def Let_def deleteBudgets_def split: option.split_asm)
qed

text \<open>A virtual key.\<close>

lemma reaches_mono:
  "reaches gs gs' F G N M \<Longrightarrow> F \<subseteq> F' \<Longrightarrow> G \<subseteq> G' \<Longrightarrow> N' \<subseteq> N \<Longrightarrow> M' \<subseteq> M \<Longrightarrow> reaches gs gs' F' G' N' M'"
  unfolding reaches_def by blast

lemma keysWithID_Some:
  assumes "keysUnique gs" "gs_virtualKeys gs k = Some old"
  shows "keysWithID gs (vk_ID old) = {old}"
proof -
  have "v = old" if "gs_virtualKeys gs k' = Some v" "vk_ID v = vk_ID old" for k' v
    using keysUniqueD [OF assms(1) that(1) assms(2) that(2)] that(1) assms(2) by simp
  then show ?thesis using assms(2) by (auto simp: keysWithID_def ran_def)
qed

lemma reaches_keyRows:
  assumes "bg_ID ` set (ow_Budgets rows) \<subseteq> newB"
  shows "reaches gs (reconcileRateLimit a oldR (ow_RateLimit rows)
        (deleteBudgets (filter (\<lambda>i. i \<notin> newB) oldB) (fold (keepBudget a) (ow_Budgets rows) gs)))
     (set oldB - newB) (set_option oldR - rl_ID ` set_option (ow_RateLimit rows))
     (bg_ID ` set (ow_Budgets rows)) (rl_ID ` set_option (ow_RateLimit rows))"
proof -
  note k = touches_keepBudgets [where a = a and xs = "ow_Budgets rows" and gs = gs]
  note d = touches_trans [OF k touches_deleteBudgets [of _ "filter (\<lambda>i. i \<notin> newB) oldB"]]
  show ?thesis
    by (rule reaches_touches [OF touches_trans [OF d touches_reconcileRateLimit]])
      (use assms in \<open>auto simp: touches_domB [OF d] touches_domR [OF d] touches_domB [OF k] touches_domR [OF k]\<close>)
qed

lemma reaches_updatePCs:
  assumes b: "\<And>pc. pc \<in> set ps \<Longrightarrow> bg_ID ` set (pw_Budgets pc) \<subseteq> newB"
    and r: "\<And>pc. pc \<in> set ps \<Longrightarrow> rl_ID ` set_option (pw_RateLimit pc) \<subseteq> newR"
    and kept: "\<And>pc e. pc \<in> set ps \<Longrightarrow> pw_RateLimit pc = None \<Longrightarrow> existingPC old (vp_ID (pw_Config pc)) = Some e
      \<Longrightarrow> set_option (vp_RateLimitID e) \<inter> newR = {}"
  shows "reaches gs (fold (updatePC a old newB) ps gs)
    ((\<Union>e\<in>set (vk_ProviderConfigs old). set (vp_Budgets e)) - newB)
    ((\<Union>e\<in>set (vk_ProviderConfigs old). set_option (vp_RateLimitID e)) - newR)
    (\<Union>pc\<in>set ps. bg_ID ` set (pw_Budgets pc)) (\<Union>pc\<in>set ps. rl_ID ` set_option (pw_RateLimit pc))"
proof (rule reaches_fold)
  fix pc g assume pc: "pc \<in> set ps"
  show "reaches g (updatePC a old newB pc g) ((\<Union>e\<in>set (vk_ProviderConfigs old). set (vp_Budgets e)) - newB)
    ((\<Union>e\<in>set (vk_ProviderConfigs old). set_option (vp_RateLimitID e)) - newR)
    (bg_ID ` set (pw_Budgets pc)) (rl_ID ` set_option (pw_RateLimit pc))"
  proof (rule reaches_mono [OF reaches_updatePC [OF b [OF pc]]])
    show "(if pw_RateLimit pc = None then \<Union>e\<in>set_option (existingPC old (vp_ID (pw_Config pc))). set_option (vp_RateLimitID e) else {})
      \<subseteq> (\<Union>e\<in>set (vk_ProviderConfigs old). set_option (vp_RateLimitID e)) - newR"
    proof (cases "existingPC old (vp_ID (pw_Config pc))")
      case (Some e)
      show ?thesis using kept [OF pc _ Some] existingPC_in [OF Some] by (auto simp: Some)
    qed simp
  qed simp_all
next
  fix pc assume "pc \<in> set ps"
  from b [OF this] r [OF this]
  show "bg_ID ` set (pw_Budgets pc) \<inter> ((\<Union>e\<in>set (vk_ProviderConfigs old). set (vp_Budgets e)) - newB) = {} \<and>
    rl_ID ` set_option (pw_RateLimit pc) \<inter> ((\<Union>e\<in>set (vk_ProviderConfigs old). set_option (vp_RateLimitID e)) - newR) = {}"
    by blast
qed

lemma reaches_orphansOfPCs:
  "reaches gs (fold (orphansOfPC newB newR) es gs) ((\<Union>e\<in>set es. set (vp_Budgets e)) - newB)
     ((\<Union>e\<in>set es. set_option (vp_RateLimitID e)) - newR) {} {}"
proof -
  have "reaches gs (fold (orphansOfPC newB newR) es gs) ((\<Union>e\<in>set es. set (vp_Budgets e)) - newB)
     ((\<Union>e\<in>set es. set_option (vp_RateLimitID e)) - newR) (\<Union>e\<in>set es. {}) (\<Union>e\<in>set es. {})"
    by (rule reaches_fold, rule reaches_mono [OF reaches_orphansOfPC]) auto
  then show ?thesis by simp
qed

lemma CreateVirtualKey_replaces:
  assumes "keysUnique gs" "keyRows vk rows pcs" "val \<noteq> []" "locates gs (vk_ID vk) None"
    and "\<And>v. gs_virtualKeys gs val = Some v \<Longrightarrow> vk_ID v = vk_ID vk"
  shows "replaces gs (CreateVirtualKeyInMemory val vk rows pcs gs) (OwnKey (vk_ID vk)) (vkBudgetIDs vk) (vkRateLimitIDs vk)"
proof -
  have "reaches (createRows rows gs) (fold (storePC (ow_CalendarAligned rows)) (pcRows pcs) (createRows rows gs)) {} {}
      (\<Union>pc\<in>set (pcRows pcs). bg_ID ` set (pw_Budgets pc)) (\<Union>pc\<in>set (pcRows pcs). rl_ID ` set_option (pw_RateLimit pc))"
    by (rule reaches_fold [OF reaches_storePC]) simp
  from reaches_trans [OF reaches_createRows [of gs rows] this, of "{}" "{}" "vkBudgetIDs vk" "vkRateLimitIDs vk"]
  have r: "reaches gs (fold (storePC (ow_CalendarAligned rows)) (pcRows pcs) (createRows rows gs)) {} {} (vkBudgetIDs vk) (vkRateLimitIDs vk)"
    by (simp add: newBudgetIDs_row [OF assms(2), symmetric] newRateLimitIDs_row [OF assms(2), symmetric] newBudgetIDs_def newRateLimitIDs_def)
  have "replaces gs (let g = fold (storePC (ow_CalendarAligned rows)) (pcRows pcs) (createRows rows gs)
      in g\<lparr>gs_virtualKeys := putKey None val (Some vk) (gs_virtualKeys g)\<rparr>) (OwnKey (vk_ID vk)) (vkBudgetIDs vk) (vkRateLimitIDs vk)"
    unfolding Let_def by (rule replaces_key [OF r _ _ _ _ assms(1,4)]) (use assms(3,5) in auto)
  then show ?thesis by (simp add: CreateVirtualKeyInMemory_def putKey_def Let_def)
qed

lemma reaches_updateKey:
  assumes "keyRows vk rows pcs"
    and kept: "\<And>pc e. pc \<in> set (pcRows pcs) \<Longrightarrow> pw_RateLimit pc = None \<Longrightarrow> existingPC old (vp_ID (pw_Config pc)) = Some e
      \<Longrightarrow> set_option (vp_RateLimitID e) \<inter> newRateLimitIDs rows (pcRows pcs) = {}"
    and newB: "newB = newBudgetIDs rows (pcRows pcs)"
    and gs3: "gs3 = reconcileRateLimit a (vk_RateLimitID old) (ow_RateLimit rows)
      (deleteBudgets (filter (\<lambda>i. i \<notin> newB) (vk_Budgets old)) (fold (keepBudget a) (ow_Budgets rows) gs))"
  shows "reaches gs (case pcs of None \<Rightarrow> gs3
      | Some ps \<Rightarrow> fold (orphansOfPC newB (newRateLimitIDs rows ps)) (vk_ProviderConfigs old) (fold (updatePC a old newB) ps gs3))
    (vkBudgetIDs old) (vkRateLimitIDs old) (vkBudgetIDs vk) (vkRateLimitIDs vk)"
proof -
  let ?B = "\<Union>e\<in>set (vk_ProviderConfigs old). set (vp_Budgets e)"
  let ?R = "\<Union>e\<in>set (vk_ProviderConfigs old). set_option (vp_RateLimitID e)"
  have own: "bg_ID ` set (ow_Budgets rows) \<subseteq> newB" by (auto simp: newB newBudgetIDs_def)
  note g3 = reaches_keyRows [OF own, of gs a "vk_RateLimitID old" "vk_Budgets old", folded gs3]
  show ?thesis
  proof (cases pcs)
    case None
    have "vkBudgetIDs vk = bg_ID ` set (ow_Budgets rows)" "vkRateLimitIDs vk = rl_ID ` set_option (ow_RateLimit rows)"
      using newBudgetIDs_row [OF assms(1)] newRateLimitIDs_row [OF assms(1)]
      by (simp_all add: None pcRows_def newBudgetIDs_def newRateLimitIDs_def)
    then show ?thesis unfolding None option.case
      by (intro reaches_mono [OF g3]) (auto simp: vkBudgetIDs_def vkRateLimitIDs_def)
  next
    case (Some ps)
    let ?newR = "newRateLimitIDs rows ps"
    have ps: "pcRows pcs = ps" by (simp add: Some pcRows_def)
    have B: "newB = vkBudgetIDs vk" and R: "?newR = vkRateLimitIDs vk"
      using newBudgetIDs_row [OF assms(1)] newRateLimitIDs_row [OF assms(1)] by (simp_all add: newB ps)
    have split: "newB = bg_ID ` set (ow_Budgets rows) \<union> (\<Union>pc\<in>set ps. bg_ID ` set (pw_Budgets pc))"
      "?newR = rl_ID ` set_option (ow_RateLimit rows) \<union> (\<Union>pc\<in>set ps. rl_ID ` set_option (pw_RateLimit pc))"
      by (simp_all add: newB ps newBudgetIDs_def newRateLimitIDs_def)
    have g4: "reaches gs3 (fold (updatePC a old newB) ps gs3) (?B - newB) (?R - ?newR)
        (\<Union>pc\<in>set ps. bg_ID ` set (pw_Budgets pc)) (\<Union>pc\<in>set ps. rl_ID ` set_option (pw_RateLimit pc))"
      by (rule reaches_updatePCs) (use kept [unfolded ps] in \<open>auto simp: split\<close>)
    have g: "reaches gs (fold (updatePC a old newB) ps gs3) (set (vk_Budgets old) - newB \<union> (?B - newB))
        (set_option (vk_RateLimitID old) - rl_ID ` set_option (ow_RateLimit rows) \<union> (?R - ?newR)) newB ?newR"
      by (rule reaches_trans [OF g3 g4]) (auto simp: split)
    show ?thesis unfolding Some option.case
      by (rule reaches_trans [OF g reaches_orphansOfPCs])
        (auto simp: vkBudgetIDs_def [of old] vkRateLimitIDs_def [of old] B [symmetric] R [symmetric])
  qed
qed

lemma UpdateVirtualKey_replaces:
  assumes "keysUnique gs" "set order = dom (gs_virtualKeys gs)" "keyRows vk rows pcs" "val \<noteq> []"
    and "\<And>v. gs_virtualKeys gs val = Some v \<Longrightarrow> vk_ID v = vk_ID vk" "noLimitMoved gs vk rows pcs"
  shows "replaces gs (UpdateVirtualKeyInMemory order val vk rows pcs gs) (OwnKey (vk_ID vk)) (vkBudgetIDs vk) (vkRateLimitIDs vk)"
proof (cases "existingKey order val (vk_ID vk) gs")
  case None
  with existingKey_locates [OF assms(1,2), of "vk_ID vk" val] have "locates gs (vk_ID vk) None" by simp
  with None CreateVirtualKey_replaces [OF assms(1,3,4) _ assms(5)] show ?thesis
    by (simp add: UpdateVirtualKeyInMemory_def)
next
  case (Some k)
  with existingKey_locates [OF assms(1,2), of "vk_ID vk" val] have at: "locates gs (vk_ID vk) (Some k)" by simp
  then obtain old where old: "gs_virtualKeys gs k = Some old" "vk_ID old = vk_ID vk" by (auto simp: locates_def)
  have keys: "keysWithID gs (vk_ID vk) = {old}" using keysWithID_Some [OF assms(1) old(1)] old(2) by simp
  have k: "k \<noteq> []" using old(1) assms(1) by (auto simp: keysUnique_def)
  define newB where "newB = newBudgetIDs rows (pcRows pcs)"
  define gs3 where "gs3 = reconcileRateLimit (ow_CalendarAligned rows) (vk_RateLimitID old) (ow_RateLimit rows)
      (deleteBudgets (filter (\<lambda>i. i \<notin> newB) (vk_Budgets old)) (fold (keepBudget (ow_CalendarAligned rows)) (ow_Budgets rows) gs))"
  define gs4 where "gs4 = (case pcs of None \<Rightarrow> gs3
      | Some ps \<Rightarrow> fold (orphansOfPC newB (newRateLimitIDs rows ps)) (vk_ProviderConfigs old)
          (fold (updatePC (ow_CalendarAligned rows) old newB) ps gs3))"
  have r: "reaches gs gs4 (vkBudgetIDs old) (vkRateLimitIDs old) (vkBudgetIDs vk) (vkRateLimitIDs vk)"
    unfolding gs4_def
    by (rule reaches_updateKey [OF assms(3) _ newB_def gs3_def]) (use assms(6) keys in \<open>auto simp: noLimitMoved_def\<close>)
  have "UpdateVirtualKeyInMemory order val vk rows pcs gs =
      gs4\<lparr>gs_virtualKeys := (if k \<noteq> val then (gs_virtualKeys gs4)(k := None) else gs_virtualKeys gs4)(val \<mapsto> vk)\<rparr>"
    unfolding UpdateVirtualKeyInMemory_def Some option.case Let_def gs4_def gs3_def newB_def
    using k by (simp only: old(1) option.sel simp_thms)
  also have "\<dots> = gs4\<lparr>gs_virtualKeys := putKey (Some k) val (Some vk) (gs_virtualKeys gs4)\<rparr>"
    by (simp add: putKey_def)
  finally have put: "UpdateVirtualKeyInMemory order val vk rows pcs gs =
      gs4\<lparr>gs_virtualKeys := putKey (Some k) val (Some vk) (gs_virtualKeys gs4)\<rparr>" .
  show ?thesis unfolding put
    by (rule replaces_key [OF r _ _ _ _ assms(1) at _ assms(5)]) (simp_all add: keys assms(4))
qed

lemma reaches_deletePCs:
  "reaches gs (fold deletePC pcs gs) (\<Union>pc\<in>set pcs. set (vp_Budgets pc)) (\<Union>pc\<in>set pcs. set_option (vp_RateLimitID pc)) {} {}"
proof -
  have "reaches gs (fold deletePC pcs gs) (\<Union>pc\<in>set pcs. set (vp_Budgets pc)) (\<Union>pc\<in>set pcs. set_option (vp_RateLimitID pc))
      (\<Union>pc\<in>set pcs. {}) (\<Union>pc\<in>set pcs. {})"
    unfolding deletePC_def [abs_def]
    by (rule reaches_fold, rule reaches_mono [OF reaches_delete]) auto
  then show ?thesis by simp
qed

text \<open>The removal of a key without its model configurations.\<close>

lemma removeKey_replaces:
  assumes "keysUnique gs" "gs_virtualKeys gs k = Some vk"
    and "g = fold deletePC (vk_ProviderConfigs vk) (deleteOptRateLimit (vk_RateLimitID vk) (deleteBudgets (vk_Budgets vk) gs))"
  shows "replaces gs (g\<lparr>gs_virtualKeys := (gs_virtualKeys g)(k := None)\<rparr>) (OwnKey (vk_ID vk)) {} {}"
proof -
  have r: "reaches gs g (vkBudgetIDs vk) (vkRateLimitIDs vk) {} {}" unfolding assms(3)
    by (rule reaches_trans [OF reaches_delete reaches_deletePCs]) (auto simp: vkBudgetIDs_def vkRateLimitIDs_def)
  have only: "vk_ID v = vk_ID vk" if "gs_virtualKeys gs k = Some v" for v using that assms(2) by simp
  have put: "putKey (Some k) k None (gs_virtualKeys g) = (gs_virtualKeys g)(k := None)" by (simp add: putKey_def)
  show ?thesis unfolding put [symmetric]
    by (rule replaces_key [OF r _ _ _ _ assms(1) locates_Some [OF assms(1,2) refl] _ only])
      (simp_all add: keysWithID_Some [OF assms(1,2)])
qed

lemma governed_evictScoped:
  assumes "governed gs"
  shows "governed (evictScoped scope scopeID k gs)"
proof (cases "gs_modelConfigs gs k")
  case (Some mc)
  then show ?thesis
    using governed_replaces [OF assms evictConfig_replaces [OF Some]] assms by (simp add: evictScoped_def)
qed (simp add: evictScoped_def assms)

lemma governed_DeleteScope:
  "governed gs \<Longrightarrow> governed (DeleteModelConfigsForScopeInMemory order scope scopeID gs)"
  unfolding DeleteModelConfigsForScopeInMemory_def
  by (induction order arbitrary: gs) (simp_all add: governed_evictScoped)

lemma governed_DeleteVirtualKey:
  assumes "governed gs"
  shows "governed (DeleteVirtualKeyInMemory order configOrder vkID gs)"
proof -
  let ?P = "\<lambda>k. case gs_virtualKeys gs k of Some v \<Rightarrow> vk_ID v = vkID | None \<Rightarrow> False"
  show ?thesis
  proof (cases "find ?P order")
    case None
    with assms show ?thesis by (simp add: DeleteVirtualKeyInMemory_def governed_DeleteScope)
  next
    case (Some k)
    then have "?P k" by (auto simp: find_Some_iff)
    then obtain vk where vk: "gs_virtualKeys gs k = Some vk" by (auto split: option.splits)
    have uniq: "keysUnique gs" using assms by (simp add: governed_def)
    from governed_replaces [OF assms removeKey_replaces [OF uniq vk refl] unshared_empty] assms show ?thesis
      by (simp add: DeleteVirtualKeyInMemory_def Some vk Let_def governed_DeleteScope)
  qed
qed

lemma governed_DeleteConfig:
  assumes "governed gs"
  shows "governed (DeleteModelConfigInMemory order mcID gs)"
proof -
  let ?P = "\<lambda>k. case gs_modelConfigs gs k of Some mc \<Rightarrow> mc_ID mc = mcID | None \<Rightarrow> False"
  show ?thesis
  proof (cases "find ?P order")
    case None
    with assms show ?thesis by (simp add: DeleteModelConfigInMemory_def)
  next
    case (Some k)
    then have "?P k" by (auto simp: find_Some_iff)
    then obtain mc where mc: "gs_modelConfigs gs k = Some mc" by (auto split: option.splits)
    from governed_replaces [OF assms evictConfig_replaces [OF mc] unshared_empty] assms show ?thesis
      by (simp add: DeleteModelConfigInMemory_def Some mc)
  qed
qed

section \<open>The invariant\<close>

text \<open>The histories of a store: it starts without rows, its owners are published and removed and its
  counters move. A published row agrees with what the store keeps of it, its budgets and limits
  belong to no other owner, and a published key has a value that no other key has and moves no
  limit out of a provider configuration.\<close>

inductive administered :: "gov_env \<Rightarrow> ('f :: {zero, plus}) gov_store \<Rightarrow> bool" for env :: gov_env where
  adm_start: "administered env (rebuildInMemoryStructures env [] [] [] [] [] [] [])"
| adm_team: "administered env gs \<Longrightarrow> ownRows rows (tm_Budgets team) (tm_RateLimitID team)
    \<Longrightarrow> unshared gs (OwnTeam (tm_ID team)) (set (tm_Budgets team)) (set_option (tm_RateLimitID team))
    \<Longrightarrow> administered env (UpdateTeamInMemory team rows gs)"
| adm_customer: "administered env gs \<Longrightarrow> ownRows rows (cu_Budgets cu) (cu_RateLimitID cu)
    \<Longrightarrow> unshared gs (OwnCustomer (cu_ID cu)) (set (cu_Budgets cu)) (set_option (cu_RateLimitID cu))
    \<Longrightarrow> administered env (UpdateCustomerInMemory cu rows gs)"
| adm_config: "administered env gs \<Longrightarrow> ownRows rows (mc_Budgets mc) (mc_RateLimitID mc)
    \<Longrightarrow> unshared gs (OwnConfig (configStoreKey env mc)) (set (mc_Budgets mc)) (set_option (mc_RateLimitID mc))
    \<Longrightarrow> administered env (UpdateModelConfigInMemory env mc rows gs)"
| adm_provider: "administered env gs \<Longrightarrow> pt_BudgetID p = map_option bg_ID b \<Longrightarrow> pt_RateLimitID p = map_option rl_ID r
    \<Longrightarrow> unshared gs (OwnProvider name) (set_option (pt_BudgetID p)) (set_option (pt_RateLimitID p))
    \<Longrightarrow> administered env (UpdateProviderInMemory name p b r gs)"
| adm_key: "administered env gs \<Longrightarrow> set order = dom (gs_virtualKeys gs) \<Longrightarrow> keyRows vk rows pcs \<Longrightarrow> val \<noteq> []
    \<Longrightarrow> (\<forall>v. gs_virtualKeys gs val = Some v \<longrightarrow> vk_ID v = vk_ID vk) \<Longrightarrow> noLimitMoved gs vk rows pcs
    \<Longrightarrow> unshared gs (OwnKey (vk_ID vk)) (vkBudgetIDs vk) (vkRateLimitIDs vk)
    \<Longrightarrow> administered env (UpdateVirtualKeyInMemory order val vk rows pcs gs)"
| adm_drop_team: "administered env gs \<Longrightarrow> administered env (DeleteTeamInMemory i gs)"
| adm_drop_customer: "administered env gs \<Longrightarrow> administered env (DeleteCustomerInMemory i gs)"
| adm_drop_config: "administered env gs \<Longrightarrow> administered env (DeleteModelConfigInMemory order i gs)"
| adm_drop_scope: "administered env gs \<Longrightarrow> administered env (DeleteModelConfigsForScopeInMemory order scope i gs)"
| adm_drop_provider: "administered env gs \<Longrightarrow> administered env (DeleteProviderInMemory name gs)"
| adm_drop_key: "administered env gs \<Longrightarrow> administered env (DeleteVirtualKeyInMemory order configOrder i gs)"
| adm_budget: "administered env gs \<Longrightarrow> administered env (runBudgetOp i x gs)"
| adm_limit: "administered env gs \<Longrightarrow> administered env (runRateOp i y gs)"

lemma governed_touches:
  assumes "touches gs gs' (domB gs) (domR gs)" "governed gs"
  shows "governed gs'"
proof -
  have own: "ownersOf gs' = ownersOf gs" using assms(1) by (simp add: touches_def)
  have keys: "keysWithID gs' i = keysWithID gs i" for i
    by (simp add: keysWithID_def ownersOf_fields [OF own])
  have "budgetsOf gs' = budgetsOf gs" "rateLimitsOf gs' = rateLimitsOf gs"
    by (rule ext, case_tac x rule: owner.exhaust, simp_all add: ownersOf_fields [OF own] keys)+
  with keysUnique_cong [OF own] assms show ?thesis by (simp add: governed_def touches_def)
qed

lemma touches_runBudgetOp: "touches gs (runBudgetOp i x gs) (domB gs) (domR gs)"
  by (cases x) (auto simp: touches_def ownersOf_def idsOk_defs runBudgetOp_def BumpBudgetUsage_def ResetBudgetAt_def
    bumpedBudget_def Let_def split: option.split)

lemma touches_runRateOp: "touches gs (runRateOp i y gs) (domB gs) (domR gs)"
  by (cases y) (auto simp: touches_def ownersOf_def idsOk_defs runRateOp_def BumpRateLimitUsage_def BumpRateLimitUsageBy_def
    ResetRateLimitAt_def bumpedRateLimit_def Let_def split: option.split)

lemma governed_start: "governed (rebuildInMemoryStructures env [] [] [] [] [] [] [])" (is "governed ?gs")
proof -
  have none: "gs_virtualKeys ?gs = Map.empty" "gs_teams ?gs = Map.empty" "gs_customers ?gs = Map.empty"
    "gs_modelConfigs ?gs = Map.empty" "gs_providers ?gs = Map.empty" "gs_budgets ?gs = Map.empty" "gs_rateLimits ?gs = Map.empty"
    by (simp_all add: rebuildInMemoryStructures_def listMap_def Let_def)
  have "budgetsOf ?gs w = {}" "rateLimitsOf ?gs w = {}" for w
    by (cases w; simp add: none keysWithID_def)+
  then show ?thesis by (simp add: governed_def owned_def idsOk_defs keysUnique_def none)
qed


lemma unsharedI:
  assumes "governed gs" "NB \<inter> domB gs \<subseteq> budgetsOf gs w" "NR \<inter> domR gs \<subseteq> rateLimitsOf gs w"
  shows "unshared gs w NB NR"
  unfolding unshared_def
proof (intro allI impI conjI)
  fix o' assume o': "o' \<noteq> w"
  from assms(1) o' have "budgetsOf gs o' \<subseteq> domB gs" "budgetsOf gs o' \<inter> budgetsOf gs w = {}"
    "rateLimitsOf gs o' \<subseteq> domR gs" "rateLimitsOf gs o' \<inter> rateLimitsOf gs w = {}"
    by (simp_all add: governed_def owned_def)
  with assms(2,3) show "NB \<inter> budgetsOf gs o' = {}" "NR \<inter> rateLimitsOf gs o' = {}" by blast+
qed

text \<open>A team, a key with a provider configuration, and the key again under a new value without the
  budget of its provider.\<close>

definition adminEnv :: gov_env where
  "adminEnv = \<lparr>gv_now = 0, gv_goParse = Map.empty, gv_baseModelName = None, gv_modelAllowed = None, gv_systemPool = None\<rparr>"

definition adminBudget :: "string \<Rightarrow> int budget" where
  "adminBudget i = \<lparr>bg_ID = i, bg_MaxLimit = 10, bg_ResetDuration = ''1h'', bg_LastReset = 0, bg_CurrentUsage = 0,
     bg_IsCalendarAligned = False\<rparr>"

definition adminLimit :: "string \<Rightarrow> rate_limit" where
  "adminLimit i = \<lparr>rl_ID = i, rl_TokenMaxLimit = Some 5, rl_TokenResetDuration = Some ''1h'', rl_TokenCurrentUsage = 0,
     rl_TokenLastReset = 0, rl_RequestMaxLimit = None, rl_RequestResetDuration = None, rl_RequestCurrentUsage = 0,
     rl_RequestLastReset = 0, rl_IsCalendarAligned = False\<rparr>"

definition adminRows :: "string list \<Rightarrow> string option \<Rightarrow> int owned_rows" where
  "adminRows bs r = \<lparr>ow_Budgets = map adminBudget bs, ow_RateLimit = map_option adminLimit r, ow_CalendarAligned = True\<rparr>"

definition adminTeam :: team_table where
  "adminTeam = \<lparr>tm_ID = ''t'', tm_Name = [], tm_Budgets = [''bt''], tm_RateLimitID = None, tm_CustomerID = None, tm_Customer = None\<rparr>"

definition adminPC :: "string list \<Rightarrow> string option \<Rightarrow> int pc_row" where
  "adminPC bs r =
     \<lparr>pw_Config = \<lparr>vp_ID = 1, vp_Provider = ''p'', vp_AllowedModels = [''*''], vp_BlacklistedModels = [], vp_AllowAllKeys = True,
        vp_Keys = [], vp_Budgets = bs, vp_RateLimitID = r\<rparr>, pw_Budgets = map adminBudget bs, pw_RateLimit = map_option adminLimit r\<rparr>"

definition adminKey :: "string list \<Rightarrow> string option \<Rightarrow> int pc_row list \<Rightarrow> virtual_key" where
  "adminKey bs r pcs =
     \<lparr>vk_ID = ''k'', vk_Name = [], vk_IsActive = None, vk_ProviderConfigs = map pw_Config pcs, vk_Budgets = bs,
      vk_RateLimitID = r, vk_TeamID = Some ''t'', vk_Team = Some adminTeam, vk_CustomerID = None, vk_Customer = None\<rparr>"

definition adminStore :: "(string \<Rightarrow> virtual_key option) \<Rightarrow> (string \<Rightarrow> team_table option) \<Rightarrow> (string \<Rightarrow> int budget option) \<Rightarrow> (string \<Rightarrow> rate_limit option) \<Rightarrow> int gov_store" where
  "adminStore keys teams budgets limits =
     \<lparr>gs_virtualKeys = keys, gs_teams = teams, gs_customers = Map.empty, gs_budgets = budgets, gs_rateLimits = limits,
      gs_modelConfigs = Map.empty, gs_providers = Map.empty, gs_LastDBUsagesBudgets = Map.empty,
      gs_LastDBUsagesTokens = Map.empty, gs_LastDBUsagesRequests = Map.empty\<rparr>"

abbreviation aligned :: "string \<Rightarrow> int budget" where "aligned i \<equiv> stampBudget True (adminBudget i)"

lemmas admin_defs = adminBudget_def adminLimit_def adminRows_def adminTeam_def adminPC_def adminKey_def adminStore_def
  createRows_def storeBudget_def keepBudget_def storeRateLimit_def keepRateLimit_def stampBudget_def stampRateLimit_def
  deleteBudgets_def deleteOptRateLimit_def DeleteBudget_def DeleteRateLimit_def reconcileRateLimit_def mergeBudget_def
  mergeRateLimit_def storePC_def pcRows_def updatePC_def orphansOfPC_def newBudgetIDs_def newRateLimitIDs_def existingPC_def
  existingKey_def CreateVirtualKeyInMemory_def CreateTeamInMemory_def

definition adminStart :: "int gov_store" where
  "adminStart = adminStore Map.empty Map.empty Map.empty Map.empty"

definition adminTeamed :: "int gov_store" where
  "adminTeamed = adminStore Map.empty [''t'' \<mapsto> adminTeam] [''bt'' \<mapsto> aligned ''bt''] Map.empty"

definition adminKeyed :: "int gov_store" where
  "adminKeyed = adminStore [''sk-1'' \<mapsto> adminKey [''b1''] None [adminPC [''b2''] (Some ''r1'')]] [''t'' \<mapsto> adminTeam]
     [''bt'' \<mapsto> aligned ''bt'', ''b1'' \<mapsto> aligned ''b1'', ''b2'' \<mapsto> aligned ''b2''] [''r1'' \<mapsto> stampRateLimit True (adminLimit ''r1'')]"

definition adminRotated :: "int gov_store" where
  "adminRotated = adminStore [''sk-2'' \<mapsto> adminKey [''b1''] None [adminPC [] (Some ''r1'')]] [''t'' \<mapsto> adminTeam]
     [''bt'' \<mapsto> aligned ''bt'', ''b1'' \<mapsto> aligned ''b1''] [''r1'' \<mapsto> stampRateLimit True (adminLimit ''r1'')]"

lemmas admin_stores = adminStart_def adminTeamed_def adminKeyed_def adminRotated_def

lemma admin_start: "rebuildInMemoryStructures adminEnv [] [] [] [] [] [] [] = adminStart"
  by (simp add: rebuildInMemoryStructures_def listMap_def adminStore_def admin_stores Let_def)

lemma admin_team: "UpdateTeamInMemory adminTeam (adminRows [''bt''] None) adminStart = adminTeamed"
  by (simp add: UpdateTeamInMemory_def admin_defs admin_stores)

lemma admin_key:
  "UpdateVirtualKeyInMemory [] ''sk-1'' (adminKey [''b1''] None [adminPC [''b2''] (Some ''r1'')]) (adminRows [''b1''] None)
     (Some [adminPC [''b2''] (Some ''r1'')]) adminTeamed = adminKeyed"
  by (simp add: UpdateVirtualKeyInMemory_def admin_defs admin_stores)

lemma admin_rotate:
  "UpdateVirtualKeyInMemory [''sk-1''] ''sk-2'' (adminKey [''b1''] None [adminPC [] (Some ''r1'')]) (adminRows [''b1''] None)
     (Some [adminPC [] (Some ''r1'')]) adminKeyed = adminRotated"
  by (simp add: UpdateVirtualKeyInMemory_def admin_defs admin_stores Let_def fun_eq_iff)

lemma adminKeyed_owns:
  "budgetsOf adminKeyed (OwnKey ''k'') = {''b1'', ''b2''}" "rateLimitsOf adminKeyed (OwnKey ''k'') = {''r1''}"
  by (auto simp: adminKeyed_def adminStore_def keysWithID_def ran_def adminKey_def adminPC_def vkBudgetIDs_def vkRateLimitIDs_def
    split: if_splits)

lemma admin_rows:
  "keyRows (adminKey bs r pcs) (adminRows bs r) (Some [adminPC bs' r']) \<longleftrightarrow> map pw_Config pcs = [pw_Config (adminPC bs' r')]"
  by (auto simp: keyRows_def ownRows_def adminKey_def adminRows_def adminPC_def adminBudget_def adminLimit_def pcRows_def
    option.map_comp comp_def option.map_ident)


section \<open>Usage across an update\<close>

definition hasUsage :: "string \<Rightarrow> 'f \<Rightarrow> int \<Rightarrow> 'f gov_store \<Rightarrow> bool" where
  "hasUsage i u t gs \<longleftrightarrow> (\<exists>b. gs_budgets gs i = Some b \<and> bg_CurrentUsage b = u \<and> bg_LastReset b = t)"

lemma hasUsage_keepBudget: "hasUsage i u t gs \<Longrightarrow> hasUsage i u t (keepBudget a b gs)"
  by (cases "gs_budgets gs (bg_ID b)") (auto simp: hasUsage_def keepBudget_def storeBudget_def stampBudget_def mergeBudget_def)

lemma hasUsage_keepBudgets: "hasUsage i u t gs \<Longrightarrow> hasUsage i u t (fold (keepBudget a) bs gs)"
  by (induction bs arbitrary: gs) (simp_all add: hasUsage_keepBudget)

lemma hasUsage_deleteBudgets: "hasUsage i u t gs \<Longrightarrow> i \<notin> set is \<Longrightarrow> hasUsage i u t (deleteBudgets is gs)"
  by (induction "is" arbitrary: gs) (auto simp: deleteBudgets_def hasUsage_def DeleteBudget_def)

lemma hasUsage_limits:
  "hasUsage i u t (keepRateLimit a r gs) = hasUsage i u t gs"
  "hasUsage i u t (deleteOptRateLimit x gs) = hasUsage i u t gs"
  "hasUsage i u t (DeleteRateLimit y gs) = hasUsage i u t gs"
  "hasUsage i u t (reconcileRateLimit a old new gs) = hasUsage i u t gs"
  by (simp_all add: hasUsage_def keepRateLimit_def storeRateLimit_def deleteOptRateLimit_def DeleteRateLimit_def
    reconcileRateLimit_def Let_def split: option.split)

lemma hasUsage_updatePC:
  "hasUsage i u t gs \<Longrightarrow> i \<in> newB \<Longrightarrow> hasUsage i u t (updatePC a old newB pc gs)"
  by (auto simp: updatePC_def Let_def hasUsage_limits intro!: hasUsage_deleteBudgets hasUsage_keepBudgets split: option.split)

lemma hasUsage_orphansOfPC:
  "hasUsage i u t gs \<Longrightarrow> i \<in> newB \<Longrightarrow> hasUsage i u t (orphansOfPC newB newR e gs)"
  by (auto simp: orphansOfPC_def hasUsage_limits intro!: hasUsage_deleteBudgets split: option.split)

lemma hasUsage_fold:
  assumes "\<And>x gs. hasUsage i u t gs \<Longrightarrow> hasUsage i u t (f x gs)" "hasUsage i u t gs"
  shows "hasUsage i u t (fold f xs gs)"
  using assms(2) by (induction xs arbitrary: gs) (simp_all add: assms(1))

text \<open>
  C37. An update of a stored virtual key, under its value or a new one, keeps what every budget that the
  new key still names has used and the start of its window, whether the budget stays where it was or
  moves between the key and its provider configurations, and whatever the row of the database says.
\<close>

theorem key_update_keeps_usage:
  assumes "existingKey order val (vk_ID vk) gs \<noteq> None" "i \<in> newBudgetIDs rows (pcRows pcs)" "gs_budgets gs i = Some b"
  shows "\<exists>b'. gs_budgets (UpdateVirtualKeyInMemory order val vk rows pcs gs) i = Some b'
    \<and> bg_CurrentUsage b' = bg_CurrentUsage b \<and> bg_LastReset b' = bg_LastReset b"
proof -
  from assms(1) obtain k where k: "existingKey order val (vk_ID vk) gs = Some k" by blast
  let ?old = "the (gs_virtualKeys gs k)"
  define newB where "newB = newBudgetIDs rows (pcRows pcs)"
  define gs3 where "gs3 = reconcileRateLimit (ow_CalendarAligned rows) (vk_RateLimitID ?old) (ow_RateLimit rows)
      (deleteBudgets (filter (\<lambda>i. i \<notin> newB) (vk_Budgets ?old)) (fold (keepBudget (ow_CalendarAligned rows)) (ow_Budgets rows) gs))"
  define gs4 where "gs4 = (case pcs of None \<Rightarrow> gs3
      | Some ps \<Rightarrow> fold (orphansOfPC newB (newRateLimitIDs rows ps)) (vk_ProviderConfigs ?old)
          (fold (updatePC (ow_CalendarAligned rows) ?old newB) ps gs3))"
  have i: "i \<in> newB" using assms(2) by (simp add: newB_def)
  have "hasUsage i (bg_CurrentUsage b) (bg_LastReset b) gs" using assms(3) by (simp add: hasUsage_def)
  then have 3: "hasUsage i (bg_CurrentUsage b) (bg_LastReset b) gs3"
    using i by (simp add: gs3_def hasUsage_limits hasUsage_keepBudgets hasUsage_deleteBudgets)
  have "hasUsage i (bg_CurrentUsage b) (bg_LastReset b) gs4"
    using 3 i by (cases pcs) (simp_all add: gs4_def hasUsage_fold hasUsage_updatePC hasUsage_orphansOfPC)
  moreover have "gs_budgets (UpdateVirtualKeyInMemory order val vk rows pcs gs) = gs_budgets gs4"
    unfolding UpdateVirtualKeyInMemory_def k option.case Let_def gs4_def gs3_def newB_def by simp
  ultimately show ?thesis by (simp add: hasUsage_def)
qed

lemma key_update_keeps_usage_witness:
  "let gs = runBudgetOp ''b2'' (OpBump adminEnv 3) adminKeyed
   in bg_CurrentUsage (the (gs_budgets (UpdateVirtualKeyInMemory [''sk-1''] ''sk-2'' (adminKey [''b2''] None []) (adminRows [''b2''] None) None gs) ''b2'')) = 3"
proof -
  define gs where "gs = runBudgetOp ''b2'' (OpBump adminEnv 3) adminKeyed"
  have b: "gs_budgets gs ''b2'' = Some (bumpedBudget adminEnv 3 (aligned ''b2''))"
    by (simp add: gs_def runBudgetOp_def BumpBudgetUsage_def adminKeyed_def adminStore_def)
  have used: "bg_CurrentUsage (bumpedBudget adminEnv 3 (aligned ''b2'')) = 3"
    by (simp add: bumpedBudget_def adminBudget_def stampBudget_def Let_def)
  have k: "existingKey [''sk-1''] ''sk-2'' (vk_ID (adminKey [''b2''] None [])) gs \<noteq> None"
    by (simp add: existingKey_def gs_def runBudgetOp_def BumpBudgetUsage_def adminKeyed_def adminStore_def adminKey_def)
  have "''b2'' \<in> newBudgetIDs (adminRows [''b2''] None) (pcRows None)"
    by (simp add: newBudgetIDs_def adminRows_def adminBudget_def pcRows_def)
  from key_update_keeps_usage [OF k this b] show ?thesis using used by (auto simp: gs_def [symmetric])
qed

section \<open>What goes wrong\<close>

lemma addConfigs_keeps: "set out \<subseteq> set (addConfigs cs out)"
  by (induction cs out rule: addConfigs.induct) auto

lemma publish_configs: "gs_modelConfigs (UpdateModelConfigInMemory env mc rows gs) = (gs_modelConfigs gs)(configStoreKey env mc \<mapsto> mc)"
proof -
  have "ownersOf (fold (keepBudget (ow_CalendarAligned rows)) (ow_Budgets rows) gs) = ownersOf gs"
    using touches_keepBudgets [where a = "ow_CalendarAligned rows" and xs = "ow_Budgets rows" and gs = gs] by (simp add: touches_def)
  then show ?thesis
    by (simp add: UpdateModelConfigInMemory_def Let_def publishOptRateLimit_def publishRateLimit_def ownersOf_def split: option.split)
qed

lemma evictConfig_configs: "gs_modelConfigs (evictConfig k mc gs) = (gs_modelConfigs gs)(k := None)"
  using reaches_owners [OF reaches_delete, of "mc_RateLimitID mc" "mc_Budgets mc" gs]
  by (simp add: evictConfig_def Let_def ownersOf_def)

text \<open>
  C38. A model configuration that gets another model or provider is stored under its new key and stays
  under the old one: a request for the old model at the old provider is still measured against the old
  configuration, and a deletion of the configuration that meets the new key first leaves the old
  entry behind.
\<close>

theorem renamed_config_stays:
  assumes "loadModelConfig gs scope i model (Some p) = Some old" "configStoreKey env new \<noteq> modelConfigStoreKey scope i model (Some p)"
  shows "old \<in> set (collectModelConfigsFor env (UpdateModelConfigInMemory env new rows gs) scope i model (Some p))
    \<and> old \<in> set (collectModelConfigsFor env
      (DeleteModelConfigInMemory (configStoreKey env new # order) (mc_ID new) (UpdateModelConfigInMemory env new rows gs)) scope i model (Some p))"
proof -
  have found: "old \<in> set (collectModelConfigsFor env gs' scope i model (Some p))"
    if "gs_modelConfigs gs' (modelConfigStoreKey scope i model (Some p)) = Some old" for gs' :: "'a gov_store"
    using that addConfigs_keeps [of "[old]"] by (simp add: collectModelConfigsFor_def loadModelConfig_def)
  have updated: "old \<in> set (collectModelConfigsFor env (UpdateModelConfigInMemory env new rows gs) scope i model (Some p))"
    using assms by (intro found) (simp add: publish_configs loadModelConfig_def)
  have "old \<in> set (collectModelConfigsFor env
      (DeleteModelConfigInMemory (configStoreKey env new # order) (mc_ID new) (UpdateModelConfigInMemory env new rows gs)) scope i model (Some p))"
    using assms by (intro found) (simp add: DeleteModelConfigInMemory_def publish_configs loadModelConfig_def evictConfig_configs)
  with updated show ?thesis by simp
qed


definition renamedStore :: "int gov_store" where
  "renamedStore = adminStart\<lparr>gs_modelConfigs := [''gpt-4:openai'' \<mapsto>
     \<lparr>mc_ID = ''m'', mc_ModelName = ''gpt-4'', mc_Provider = Some ''openai'', mc_Scope = ''global'', mc_ScopeID = None,
      mc_Budgets = [''b1''], mc_RateLimitID = None\<rparr>]\<rparr>"

lemma renamed_config_stays_witness:
  "map mc_ModelName (collectModelConfigsFor adminEnv (UpdateModelConfigInMemory adminEnv
     \<lparr>mc_ID = ''m'', mc_ModelName = ''gpt-5'', mc_Provider = Some ''openai'', mc_Scope = ''global'', mc_ScopeID = None,
      mc_Budgets = [''b1''], mc_RateLimitID = None\<rparr> (adminRows [''b1''] None) renamedStore) ''global'' [] ''gpt-4'' (Some ''openai'')) \<noteq> []"
proof -
  let ?new = "\<lparr>mc_ID = ''m'', mc_ModelName = ''gpt-5'', mc_Provider = Some ''openai'', mc_Scope = ''global'', mc_ScopeID = None,
      mc_Budgets = [''b1''], mc_RateLimitID = None\<rparr>"
  have old: "loadModelConfig renamedStore ''global'' [] ''gpt-4'' (Some ''openai'') =
      Some \<lparr>mc_ID = ''m'', mc_ModelName = ''gpt-4'', mc_Provider = Some ''openai'', mc_Scope = ''global'', mc_ScopeID = None,
        mc_Budgets = [''b1''], mc_RateLimitID = None\<rparr>"
    by (simp add: loadModelConfig_def modelConfigStoreKey_def ModelConfigScopeGlobal_def renamedStore_def)
  have key: "configStoreKey adminEnv ?new \<noteq> modelConfigStoreKey ''global'' [] ''gpt-4'' (Some ''openai'')"
    by (simp add: configStoreKey_def modelConfigStoreKey_def ModelConfigScopeGlobal_def)
  from renamed_config_stays [OF old key, of "adminRows [''b1''] None" "[]"] show ?thesis by auto
qed


lemma fold_keeps: "(\<And>x g. x \<in> set xs \<Longrightarrow> h (f x g) = h g) \<Longrightarrow> h (fold f xs g) = h g"
  by (induction xs arbitrary: g) simp_all

lemma storeBudgets_other: "i \<notin> bg_ID ` set bs \<Longrightarrow> gs_budgets (fold (storeBudget a) bs g) i = gs_budgets g i"
  by (rule fold_keeps) (auto simp: storeBudget_def)

lemma loadConfigs_keep:
  assumes "\<forall>(mc, rows)\<in>set configs. i \<notin> bg_ID ` set (ow_Budgets rows)"
  shows "gs_budgets (fold (loadConfig env) configs gs) i = gs_budgets gs i"
proof (rule fold_keeps)
  fix c and g :: "'a gov_store" assume "c \<in> set configs"
  with assms show "gs_budgets (loadConfig env c g) i = gs_budgets g i"
    by (cases c) (auto simp: loadConfig_def createRows_def storeRateLimit_def storeBudgets_other Let_def split: option.split)
qed

lemma loadCustomers_keep:
  assumes "\<forall>(cu, rows)\<in>set customers. i \<notin> bg_ID ` set (ow_Budgets rows)"
  shows "gs_budgets (fold loadCustomer customers gs) i = gs_budgets gs i"
proof (rule fold_keeps)
  fix c and g :: "'a gov_store" assume "c \<in> set customers"
  with assms show "gs_budgets (loadCustomer c g) i = gs_budgets g i"
    by (cases c) (auto simp: loadCustomer_def storeBudgets_other Let_def split: option.split)
qed

lemma storeBudgets_in:
  assumes "i \<in> bg_ID ` set bs"
  shows "\<exists>b. gs_budgets (fold (storeBudget a) bs gs) i = Some b \<and> bg_IsCalendarAligned b = a"
proof -
  have keep: "(\<exists>b. gs_budgets g i = Some b \<and> bg_IsCalendarAligned b = a)
      \<Longrightarrow> \<exists>b. gs_budgets (fold (storeBudget a) xs g) i = Some b \<and> bg_IsCalendarAligned b = a" for xs g
    by (induction xs arbitrary: g) (auto simp: storeBudget_def stampBudget_def)
  from assms show ?thesis
  proof (induction bs arbitrary: gs)
    case (Cons b bs)
    show ?case
    proof (cases "i = bg_ID b")
      case True
      then have "\<exists>b'. gs_budgets (storeBudget a b gs) i = Some b' \<and> bg_IsCalendarAligned b' = a"
        by (simp add: storeBudget_def stampBudget_def)
      from keep [OF this, of bs] show ?thesis by simp
    next
      case False
      with Cons show ?thesis by simp
    qed
  qed simp
qed

text \<open>
  C40. The budget of a calendar-aligned team is stored as aligned when the team is published, and as not
  aligned when the store is built from the rows of the database, as after a restart: the flat row of
  the budget does not carry the alignment, and only the budgets of model configurations and customers
  are stamped again.
\<close>

theorem restart_loses_alignment:
  assumes "b \<in> set budgets" "distinct (map bg_ID budgets)" "\<not> bg_IsCalendarAligned b"
    and "bg_ID b \<in> bg_ID ` set (ow_Budgets rows)" "ow_CalendarAligned rows"
    and "\<forall>(mc, r)\<in>set configs. bg_ID b \<notin> bg_ID ` set (ow_Budgets r)" "\<forall>(cu, r)\<in>set customers. bg_ID b \<notin> bg_ID ` set (ow_Budgets r)"
  shows "(\<exists>b'. gs_budgets (CreateTeamInMemory team rows gs) (bg_ID b) = Some b' \<and> bg_IsCalendarAligned b')
    \<and> gs_budgets (rebuildInMemoryStructures env customers teams keys budgets limits configs providers) (bg_ID b) = Some b"
proof -
  have "gs_budgets (CreateTeamInMemory team rows gs) = gs_budgets (fold (storeBudget True) (ow_Budgets rows) gs)"
    using assms(5) by (simp add: CreateTeamInMemory_def createRows_def storeRateLimit_def Let_def split: option.split)
  with storeBudgets_in [OF assms(4), of True gs]
  have created: "\<exists>b'. gs_budgets (CreateTeamInMemory team rows gs) (bg_ID b) = Some b' \<and> bg_IsCalendarAligned b'" by auto
  have "distinct (map fst (rev (map (\<lambda>b. (bg_ID b, b)) budgets)))" using assms(2) by (simp add: rev_map [symmetric] comp_def)
  then have "listMap bg_ID id budgets (bg_ID b) = Some b" using assms(1) by (simp add: listMap_def)
  then have "gs_budgets (rebuildInMemoryStructures env customers teams keys budgets limits configs providers) (bg_ID b) = Some b"
    by (simp add: rebuildInMemoryStructures_def Let_def loadCustomers_keep [OF assms(7)] loadConfigs_keep [OF assms(6)])
  with created show ?thesis by simp
qed

lemma restart_loses_alignment_witness:
  "bg_IsCalendarAligned (the (gs_budgets (CreateTeamInMemory adminTeam (adminRows [''bt''] None) adminStart) ''bt''))
   \<and> gs_budgets (rebuildInMemoryStructures adminEnv [] [adminTeam] [] [adminBudget ''bt''] [] [] []) ''bt'' = Some (adminBudget ''bt'')"
proof -
  have "bg_ID (adminBudget ''bt'') = ''bt''" by (simp add: adminBudget_def)
  with restart_loses_alignment [of "adminBudget ''bt''" "[adminBudget ''bt'']" "adminRows [''bt''] None" "[]" "[]" adminTeam adminStart adminEnv "[adminTeam]" "[]" "[]" "[]"]
  show ?thesis by (auto simp: adminRows_def adminBudget_def)
qed

end
