(* ===== verification/Models.thy ===== *)
theory Models
  imports Utils
begin

text \<open>
  Lists of models: their pages with opaque cursors (\<^verbatim>\<open>core/schemas/models.go\<close>) and the aggregation of
  the answers of several keys (\<^verbatim>\<open>core/providers/utils/utils.go\<close>). A model is its identifier and a
  payload. The encoding of a cursor as JSON in base64 is a pair of functions. Latency is left out.
\<close>

section \<open>Data\<close>

record 'm model =
  md_ID :: string
  md_payload :: 'm

record key_status =
  ks_KeyID :: string
  ks_Status :: string
  ks_Provider :: string
  ks_Error :: "bifrost_error option"

record 'm list_models_response =
  lm_Data :: "'m model list"
  lm_RawResponses :: "string list"
  lm_NextPageToken :: string
  lm_KeyStatuses :: "key_status list"

definition emptyList :: "'m list_models_response" where
  "emptyList = \<lparr>lm_Data = [], lm_RawResponses = [], lm_NextPageToken = [], lm_KeyStatuses = []\<rparr>"

definition KeyStatusSuccess :: string where "KeyStatusSuccess = ''success''"

definition KeyStatusListModelsFailed :: string where "KeyStatusListModelsFailed = ''list_models_failed''"

definition DefaultPageSize :: int where "DefaultPageSize = 1000"

definition MaxPaginationRequests :: nat where "MaxPaginationRequests = 20"

section \<open>Cursors\<close>

record pagination_cursor =
  pc_Offset :: int
  pc_LastID :: string

definition zeroCursor :: pagination_cursor where
  "zeroCursor = \<lparr>pc_Offset = 0, pc_LastID = []\<rparr>"

text \<open>\<open>enc\<close> may fail; \<open>dec\<close> fails for a token that is not base64 or not a cursor.\<close>

definition encodePaginationCursor :: "(pagination_cursor \<Rightarrow> string option) \<Rightarrow> int \<Rightarrow> string \<Rightarrow> string option" where
  "encodePaginationCursor enc offset lastID =
     (if offset \<le> 0 then Some [] else enc \<lparr>pc_Offset = offset, pc_LastID = lastID\<rparr>)"

definition decodePaginationCursor :: "(string \<Rightarrow> pagination_cursor option) \<Rightarrow> string \<Rightarrow> pagination_cursor" where
  "decodePaginationCursor dec token =
     (if token = [] then zeroCursor
      else (case dec token of
              None \<Rightarrow> zeroCursor
            | Some c \<Rightarrow> if pc_Offset c < 0 then zeroCursor else c))"

definition validatePaginationCursor :: "pagination_cursor \<Rightarrow> 'm model list \<Rightarrow> bool" where
  "validatePaginationCursor c data =
     (if pc_LastID c = [] then True
      else if pc_Offset c \<le> 0 \<or> pc_Offset c > int (length data) then False
      else md_ID (data ! nat (pc_Offset c - 1)) = pc_LastID c)"

section \<open>Pages\<close>

text \<open>\<^verbatim>\<open>data[lo:hi]\<close>; None is the panic of bounds out of range.\<close>

definition sliceOf :: "'a list \<Rightarrow> int \<Rightarrow> int \<Rightarrow> 'a list option" where
  "sliceOf xs lo hi =
     (if 0 \<le> lo \<and> lo \<le> hi \<and> hi \<le> int (length xs) then Some (take (nat hi - nat lo) (drop (nat lo) xs)) else None)"

text \<open>The token after a page that ends at \<open>endIndex\<close>; it stays empty when the cursor cannot be encoded.\<close>

definition nextToken ::
  "(pagination_cursor \<Rightarrow> string option) \<Rightarrow> 'm model list \<Rightarrow> int \<Rightarrow> 'm model list \<Rightarrow> string" where
  "nextToken enc data endIndex page =
     (if endIndex < int (length data) then
        (case encodePaginationCursor enc endIndex (if page = [] then [] else md_ID (last page)) of
           Some t \<Rightarrow> t | None \<Rightarrow> [])
      else [])"

definition ApplyPagination ::
  "(pagination_cursor \<Rightarrow> string option) \<Rightarrow> (string \<Rightarrow> pagination_cursor option) \<Rightarrow> int \<Rightarrow> string
   \<Rightarrow> 'm list_models_response \<Rightarrow> 'm list_models_response option" where
  "ApplyPagination enc dec pageSize pageToken r =
     (let data = lm_Data r; totalItems = int (length data)
      in if pageSize \<le> 0 then Some r
         else
           (let cursor = decodePaginationCursor dec pageToken;
                offset = (if pc_LastID cursor \<noteq> [] \<and> \<not> validatePaginationCursor cursor data then 0 else pc_Offset cursor)
            in if offset \<ge> totalItems then Some (r\<lparr>lm_Data := [], lm_NextPageToken := []\<rparr>)
               else
                 (let end0 = wrap64 (offset + pageSize);
                      endIndex = (if end0 > totalItems then totalItems else end0)
                  in case sliceOf data offset endIndex of
                       None \<Rightarrow> None
                     | Some page \<Rightarrow> Some (r\<lparr>lm_Data := page, lm_NextPageToken := nextToken enc data endIndex page\<rparr>))))"

section \<open>Aggregation over keys\<close>

text \<open>Models in the order of the answers, the first of each identifier.\<close>

fun dedupModels :: "string set \<Rightarrow> 'm model list \<Rightarrow> 'm model list" where
  "dedupModels seen [] = []"
| "dedupModels seen (m # ms) =
     (if md_ID m \<in> seen then dedupModels seen ms else m # dedupModels (insert (md_ID m) seen) ms)"

definition aggregateListModelsResponses :: "'m list_models_response option list \<Rightarrow> 'm list_models_response" where
  "aggregateListModelsResponses responses =
     (let present = map the (filter (\<lambda>r. r \<noteq> None) responses)
      in emptyList\<lparr>lm_Data := sortSlice (\<lambda>a b. md_ID a < md_ID b) (dedupModels {} (concat (map lm_Data present))),
           lm_RawResponses := concat (map lm_RawResponses present)\<rparr>)"

record 'm key_result =
  kr_Response :: "'m list_models_response option"
  kr_Err :: "bifrost_error option"
  kr_KeyID :: string

definition keyStatusOf :: "string \<Rightarrow> 'm key_result \<Rightarrow> key_status" where
  "keyStatusOf provider r =
     \<lparr>ks_KeyID = kr_KeyID r,
      ks_Status = (if kr_Err r = None then KeyStatusSuccess else KeyStatusListModelsFailed),
      ks_Provider = provider, ks_Error = kr_Err r\<rparr>"

text \<open>The answers of the keys in the order they came in: the successful ones, or the last error.\<close>

definition extractSuccessfulListModelsResponses ::
  "'m key_result list \<Rightarrow> string
   \<Rightarrow> 'm list_models_response option list \<times> key_status list \<times> bifrost_error option" where
  "extractSuccessfulListModelsResponses results provider =
     (let successful = map kr_Response (filter (\<lambda>r. kr_Err r = None) results);
          errors = map the (filter (\<lambda>e. e \<noteq> None) (map kr_Err results))
      in (successful, map (keyStatusOf provider) results,
          if successful \<noteq> [] then None
          else if errors \<noteq> [] then Some (last errors)
          else Some (newBifrostErrorFromMsg ''all keys failed to list models'')))"

text \<open>The result with the statuses of the keys, which are attached to an error as well; None is a panic.\<close>

definition HandleMultipleListModelsRequests ::
  "(pagination_cursor \<Rightarrow> string option) \<Rightarrow> (string \<Rightarrow> pagination_cursor option) \<Rightarrow> int \<Rightarrow> string \<Rightarrow> string
   \<Rightarrow> 'm key_result list \<Rightarrow> ((bifrost_error + 'm list_models_response) \<times> key_status list) option" where
  "HandleMultipleListModelsRequests enc dec pageSize pageToken provider results =
     (case extractSuccessfulListModelsResponses results provider of
        (_, statuses, Some e) \<Rightarrow> Some (Inl e, statuses)
      | (responses, statuses, None) \<Rightarrow>
          map_option (\<lambda>r. (Inr (r\<lparr>lm_KeyStatuses := statuses\<rparr>), statuses))
            (ApplyPagination enc dec pageSize pageToken (aggregateListModelsResponses responses)))"

definition HandleKeylessListModelsRequest ::
  "string \<Rightarrow> 'm list_models_response option \<times> bifrost_error option
   \<Rightarrow> 'm list_models_response option \<times> bifrost_error option \<times> key_status list" where
  "HandleKeylessListModelsRequest provider answer =
     (let status = (\<lambda>s e. \<lparr>ks_KeyID = [], ks_Status = s, ks_Provider = provider, ks_Error = e\<rparr>)
      in case answer of
           (_, Some e) \<Rightarrow> (None, Some e, [status KeyStatusListModelsFailed (Some e)])
         | (Some r, None) \<Rightarrow>
             (Some (r\<lparr>lm_KeyStatuses := [status KeyStatusSuccess None]\<rparr>), None, [status KeyStatusSuccess None])
         | (None, None) \<Rightarrow> (None, None, []))"

section \<open>Lemmas\<close>

text \<open>A codec that loses nothing, as base64 over JSON is for cursors with a positive offset.\<close>

definition goodCodec :: "(pagination_cursor \<Rightarrow> string option) \<Rightarrow> (string \<Rightarrow> pagination_cursor option) \<Rightarrow> bool" where
  "goodCodec enc dec \<longleftrightarrow> (\<forall>c. 0 < pc_Offset c \<longrightarrow> (\<exists>t. enc c = Some t \<and> t \<noteq> [] \<and> dec t = Some c))"

text \<open>What a client does with the tokens: ask for pages until the token is empty.\<close>

fun readPages ::
  "(pagination_cursor \<Rightarrow> string option) \<Rightarrow> (string \<Rightarrow> pagination_cursor option) \<Rightarrow> int \<Rightarrow> nat \<Rightarrow> string
   \<Rightarrow> 'm list_models_response \<Rightarrow> 'm model list list option" where
  "readPages enc dec pageSize 0 token r = None"
| "readPages enc dec pageSize (Suc n) token r =
     (case ApplyPagination enc dec pageSize token r of
        None \<Rightarrow> None
      | Some p \<Rightarrow>
          if lm_NextPageToken p = [] then Some [lm_Data p]
          else map_option (Cons (lm_Data p)) (readPages enc dec pageSize n (lm_NextPageToken p) r))"

text \<open>A token of the position \<open>k\<close> in the data.\<close>

definition tokenAt :: "(string \<Rightarrow> pagination_cursor option) \<Rightarrow> 'm model list \<Rightarrow> nat \<Rightarrow> string \<Rightarrow> bool" where
  "tokenAt dec data k t \<longleftrightarrow>
     decodePaginationCursor dec t =
       (if k = 0 then zeroCursor else \<lparr>pc_Offset = int k, pc_LastID = md_ID (data ! (k - 1))\<rparr>)"

lemma tokenAt_valid:
  assumes "tokenAt dec data k t" "k \<le> length data"
  shows "pc_Offset (decodePaginationCursor dec t) = int k"
    and "pc_LastID (decodePaginationCursor dec t) \<noteq> [] \<Longrightarrow> validatePaginationCursor (decodePaginationCursor dec t) data"
  using assms by (cases "k = 0"; simp add: tokenAt_def zeroCursor_def validatePaginationCursor_def nat_diff_distrib)+

lemma sliceOf_page:
  assumes "k < length data" "0 < n"
  shows "sliceOf data (int k) (min (int k + int n) (int (length data))) = Some (take n (drop k data))"
  using assms by (auto simp: sliceOf_def min_def nat_add_distrib)

lemma last_page:
  assumes "k + n < length data" "0 < n"
  shows "last (take n (drop k data)) = data ! (k + n - 1)"
  using assms by (subst last_conv_nth) (auto simp: nth_append)

lemma nextToken_page:
  assumes "goodCodec enc dec" "k < length data" "0 < n"
  shows "if k + n < length data
         then (let t = nextToken enc data (int k + int n) (take n (drop k data)) in t \<noteq> [] \<and> tokenAt dec data (k + n) t)
         else nextToken enc data (min (int k + int n) (int (length data))) page = []"
proof (cases "k + n < length data")
  case True
  let ?c = "\<lparr>pc_Offset = int k + int n, pc_LastID = md_ID (data ! (k + n - 1))\<rparr>"
  from assms(1,3) obtain t where t: "enc ?c = Some t" "t \<noteq> []" "dec t = Some ?c"
    by (auto simp: goodCodec_def dest: spec [of _ ?c])
  have "nextToken enc data (int k + int n) (take n (drop k data)) = t"
    using True assms(3) t(1) by (simp add: nextToken_def encodePaginationCursor_def last_page)
  then show ?thesis using True t assms(3) by (simp add: tokenAt_def decodePaginationCursor_def)
next
  case False
  then show ?thesis by (simp add: nextToken_def)
qed

lemma ApplyPagination_at:
  assumes "tokenAt dec (lm_Data r) k t" "k < length (lm_Data r)" "0 < n" "int (length (lm_Data r)) + int n < 2 ^ 63"
  shows "ApplyPagination enc dec (int n) t r =
    Some (r\<lparr>lm_Data := take n (drop k (lm_Data r)),
           lm_NextPageToken := nextToken enc (lm_Data r) (min (int k + int n) (int (length (lm_Data r)))) (take n (drop k (lm_Data r)))\<rparr>)"
proof -
  have w: "wrap64 (int k + int n) = int k + int n" using assms(2,4) by (intro wrap64_id) auto
  have m: "(if int k + int n > int (length (lm_Data r)) then int (length (lm_Data r)) else int k + int n)
      = min (int k + int n) (int (length (lm_Data r)))" by auto
  let ?c = "decodePaginationCursor dec t"
  have off: "(if pc_LastID ?c \<noteq> [] \<and> \<not> validatePaginationCursor ?c (lm_Data r) then 0 else pc_Offset ?c) = int k"
    using tokenAt_valid [OF assms(1) less_imp_le [OF assms(2)]] by auto
  show ?thesis
    unfolding ApplyPagination_def Let_def off w m using sliceOf_page [OF assms(2,3)] assms(2,3) by simp
qed

lemma readPages_from:
  assumes "goodCodec enc dec" "0 < n" "int (length (lm_Data r)) + int n < 2 ^ 63"
    and "tokenAt dec (lm_Data r) k t" "k < length (lm_Data r)" "length (lm_Data r) - k \<le> fuel"
  shows "\<exists>pages. readPages enc dec (int n) fuel t r = Some pages \<and> concat pages = drop k (lm_Data r)
    \<and> (\<forall>p\<in>set pages. p \<noteq> [] \<and> length p \<le> n)"
  using assms(4-)
proof (induction fuel arbitrary: k t)
  case 0
  then show ?case by simp
next
  case (Suc fuel)
  let ?data = "lm_Data r" let ?page = "take n (drop k ?data)"
  note a = ApplyPagination_at [OF Suc.prems(1,2) assms(2,3), of enc]
  have page: "?page \<noteq> []" using assms(2) Suc.prems(2) by auto
  show ?case
  proof (cases "k + n < length ?data")
    case True
    let ?t = "nextToken enc ?data (int k + int n) ?page"
    have t: "?t \<noteq> []" "tokenAt dec ?data (k + n) ?t"
      using nextToken_page [OF assms(1) Suc.prems(2) assms(2)] True by (simp_all add: Let_def)
    have "length ?data - (k + n) \<le> fuel" using Suc.prems(2,3) assms(2) by linarith
    from Suc.IH [OF t(2) True this] obtain pages
      where p: "readPages enc dec (int n) fuel ?t r = Some pages" "concat pages = drop (k + n) ?data"
        "\<forall>p\<in>set pages. p \<noteq> [] \<and> length p \<le> n" by blast
    have m: "min (int k + int n) (int (length ?data)) = int k + int n" using True by simp
    have "readPages enc dec (int n) (Suc fuel) t r = Some (?page # pages)"
      using a t(1) p(1) by (simp add: m)
    moreover have "concat (?page # pages) = drop k ?data"
      using p(2) by (simp add: add.commute [of k] flip: drop_drop)
    ultimately show ?thesis using page p(3) by auto
  next
    case False
    with nextToken_page [OF assms(1) Suc.prems(2) assms(2)] a page
    have "readPages enc dec (int n) (Suc fuel) t r = Some [?page]" by simp
    then show ?thesis using False page by auto
  qed
qed

lemma dedupModels_facts:
  "distinct (map md_ID (dedupModels seen ms)) \<and> md_ID ` set (dedupModels seen ms) = md_ID ` set ms - seen
   \<and> set (dedupModels seen ms) \<subseteq> set ms"
  by (induction seen ms rule: dedupModels.induct) auto

lemma distinct_map_sortSlice [simp]: "distinct (map f (sortSlice lt xs)) \<longleftrightarrow> distinct (map f xs)"
  by (metis mset_map mset_sortSlice mset_eq_imp_distinct_iff)

lemma sorted_IDs:
  assumes "distinct (map md_ID ms)"
  shows "sorted_wrt (\<lambda>a b. md_ID a < md_ID b) (sortSlice (\<lambda>a b. md_ID a < md_ID b) ms)"
proof -
  let ?s = "sortSlice (\<lambda>a b. md_ID a < md_ID b) ms"
  have d: "distinct (map md_ID ?s)" using assms by simp
  have o: "sorted_wrt (\<lambda>a b. \<not> md_ID b < md_ID a) ?s" by (rule string_key_order.sortSlice_ordered)
  show ?thesis
    unfolding sorted_wrt_iff_nth_less
  proof (intro allI impI)
    fix i j assume ij: "i < j" "j < length ?s"
    then have "\<not> md_ID (?s ! j) < md_ID (?s ! i)" using o by (simp add: sorted_wrt_iff_nth_less)
    moreover have "md_ID (?s ! i) \<noteq> md_ID (?s ! j)"
      using d ij by (auto simp: distinct_conv_nth)
    ultimately show "md_ID (?s ! i) < md_ID (?s ! j)" by simp
  qed
qed

lemma aggregate_IDs:
  "md_ID ` set (lm_Data (aggregateListModelsResponses rs)) =
     (\<Union>r\<in>set rs. case r of None \<Rightarrow> {} | Some x \<Rightarrow> md_ID ` set (lm_Data x))"
proof -
  let ?ms = "concat (map lm_Data (map the (filter (\<lambda>r. r \<noteq> None) rs)))"
  have "md_ID ` set (lm_Data (aggregateListModelsResponses rs)) = md_ID ` set ?ms"
    using dedupModels_facts [of "{}" ?ms] by (simp add: aggregateListModelsResponses_def Let_def emptyList_def)
  moreover have "md_ID ` set ?ms = (\<Union>r\<in>set rs. case r of None \<Rightarrow> {} | Some x \<Rightarrow> md_ID ` set (lm_Data x))"
    by (induction rs) (auto simp: image_Un split: option.splits)
  ultimately show ?thesis by simp
qed

definition overflowToken :: "string \<Rightarrow> pagination_cursor option" where
  "overflowToken t = (if t = ''eyJvIjoxfQ'' then Some \<lparr>pc_Offset = 1, pc_LastID = []\<rparr> else None)"

definition twoModels :: "nat list_models_response" where
  "twoModels = emptyList\<lparr>lm_Data := [\<lparr>md_ID = ''a'', md_payload = 0\<rparr>, \<lparr>md_ID = ''b'', md_payload = 1\<rparr>]\<rparr>"

section \<open>Properties\<close>

text \<open>
  C34. Paging loses and repeats nothing: when the data does not change, a client that starts without a
  token and follows the tokens until there is none gets, after as many requests as there are models
  plus one at most, pages no longer than it asked for whose concatenation is the list.
\<close>

theorem pages_complete:
  assumes "goodCodec enc dec" "0 < n" "int (length (lm_Data r)) + int n < 2 ^ 63"
  shows "\<exists>pages. readPages enc dec (int n) (Suc (length (lm_Data r))) [] r = Some pages
    \<and> concat pages = lm_Data r \<and> (\<forall>p\<in>set pages. length p \<le> n)"
proof (cases "lm_Data r = []")
  case True
  then have "readPages enc dec (int n) (Suc (length (lm_Data r))) [] r = Some [[]]"
    using assms(2) by (simp add: ApplyPagination_def decodePaginationCursor_def zeroCursor_def)
  with True show ?thesis by simp
next
  case False
  have "tokenAt dec (lm_Data r) 0 []" by (simp add: tokenAt_def decodePaginationCursor_def)
  from readPages_from [OF assms this, of "Suc (length (lm_Data r))"] False show ?thesis by fastforce
qed

definition unaryCodec :: "pagination_cursor \<Rightarrow> string option" where
  "unaryCodec c = Some (replicate (nat (pc_Offset c)) (CHR ''o'') @ CHR ''l'' # pc_LastID c)"

definition unaryDecode :: "string \<Rightarrow> pagination_cursor option" where
  "unaryDecode t = Some \<lparr>pc_Offset = int (length (takeWhile (\<lambda>c. c = CHR ''o'') t)),
     pc_LastID = tl (dropWhile (\<lambda>c. c = CHR ''o'') t)\<rparr>"

lemma goodCodec_unary: "goodCodec unaryCodec unaryDecode"
proof -
  have "takeWhile (\<lambda>c. c = x) (replicate m x @ y # ys) = replicate m x"
    "dropWhile (\<lambda>c. c = x) (replicate m x @ y # ys) = y # ys" if "y \<noteq> x" for x y :: char and m ys
    using that by (induction m) auto
  then show ?thesis by (auto simp: goodCodec_def unaryCodec_def unaryDecode_def)
qed

theorem pages_complete_witness:
  "\<exists>pages. readPages unaryCodec unaryDecode (int 1) 3 [] twoModels = Some pages \<and> concat pages = lm_Data twoModels"
  using pages_complete [OF goodCodec_unary, of 1 twoModels]
  by (auto simp: twoModels_def emptyList_def numeral_3_eq_3 numeral_2_eq_2)

text \<open>
  C35. A page size near the largest integer with a token that has an offset ends the process: the end of
  the page wraps around, the clamp to the length does not see it, and the slice bounds are out of range.
\<close>

theorem pagination_overflow:
  assumes "token \<noteq> []" "dec token = Some \<lparr>pc_Offset = k, pc_LastID = []\<rparr>" "0 < k" "k < int (length (lm_Data r))"
    and "int (length (lm_Data r)) < 2 ^ 63" "pageSize < 2 ^ 63" "2 ^ 63 \<le> k + pageSize"
  shows "ApplyPagination enc dec pageSize token r = None"
proof -
  have "(k + pageSize + 2 ^ 63) mod 2 ^ 64 = k + pageSize - 2 ^ 63"
    using assms(4-7) by (subst mod_pos_geq) simp_all
  then have "wrap64 (k + pageSize) < 0" unfolding wrap64_def using assms(4-6) by simp
  moreover have "decodePaginationCursor dec token = \<lparr>pc_Offset = k, pc_LastID = []\<rparr>"
    using assms(1-3) by (simp add: decodePaginationCursor_def)
  ultimately show ?thesis using assms(3-7) by (simp add: ApplyPagination_def Let_def sliceOf_def)
qed

theorem pagination_overflow_witness:
  "ApplyPagination unaryCodec overflowToken 9223372036854775807 ''eyJvIjoxfQ'' twoModels = None"
  by (rule pagination_overflow [where k = 1]) (simp_all add: overflowToken_def twoModels_def emptyList_def)

text \<open>
  The list of models over several keys: it fails exactly when no key succeeded, and then with the
  last key's error; there is one status for each key; and an unpaged list is strictly sorted by
  identifier, so free of duplicates, and has exactly the identifiers some successful key reported.
\<close>

theorem models_aggregated:
  fixes results :: "'m key_result list"
  assumes "HandleMultipleListModelsRequests enc dec 0 token provider results = Some (out, statuses)"
  shows "statuses = map (keyStatusOf provider) results
    \<and> (case out of
         Inl e \<Rightarrow> (\<forall>r\<in>set results. kr_Err r \<noteq> None) \<and> (results \<noteq> [] \<longrightarrow> kr_Err (last results) = Some e)
       | Inr l \<Rightarrow> (\<exists>r\<in>set results. kr_Err r = None) \<and> sorted_wrt (\<lambda>a b. md_ID a < md_ID b) (lm_Data l)
           \<and> md_ID ` set (lm_Data l) =
               (\<Union>r \<in> {r \<in> set results. kr_Err r = None}. case kr_Response r of None \<Rightarrow> {} | Some x \<Rightarrow> md_ID ` set (lm_Data x)))"
proof -
  let ?ok = "filter (\<lambda>r. kr_Err r = None) results"
  let ?agg = "aggregateListModelsResponses (map kr_Response ?ok)"
  show ?thesis
  proof (cases "?ok = []")
    case True
    then have all: "\<forall>r\<in>set results. kr_Err r \<noteq> None" by (simp add: filter_empty_conv)
    then have errs: "filter (\<lambda>e. e \<noteq> None) (map kr_Err results) = map kr_Err results" by (intro filter_True) auto
    have h: "Some (Inl (if results = [] then newBifrostErrorFromMsg ''all keys failed to list models''
          else the (kr_Err (last results))), map (keyStatusOf provider) results) = Some (out, statuses)"
      using assms
      unfolding HandleMultipleListModelsRequests_def extractSuccessfulListModelsResponses_def Let_def errs True
      by (simp add: last_map split: if_splits)
    have "results = [] \<or> kr_Err (last results) \<noteq> None" using all last_in_set by blast
    with h all show ?thesis by auto
  next
    case False
    with assms have "out = Inr (?agg\<lparr>lm_KeyStatuses := map (keyStatusOf provider) results\<rparr>)"
      and st: "statuses = map (keyStatusOf provider) results"
      by (auto simp: HandleMultipleListModelsRequests_def extractSuccessfulListModelsResponses_def Let_def ApplyPagination_def)
    moreover have "sorted_wrt (\<lambda>a b. md_ID a < md_ID b) (lm_Data ?agg)"
      using dedupModels_facts by (auto simp: aggregateListModelsResponses_def Let_def emptyList_def intro: sorted_IDs)
    moreover have "md_ID ` set (lm_Data ?agg) =
        (\<Union>r \<in> {r \<in> set results. kr_Err r = None}. case kr_Response r of None \<Rightarrow> {} | Some x \<Rightarrow> md_ID ` set (lm_Data x))"
      unfolding aggregate_IDs by auto
    moreover have "\<exists>r\<in>set results. kr_Err r = None" using False by (auto simp: filter_empty_conv)
    ultimately show ?thesis by simp
  qed
qed

theorem models_aggregated_witness:
  "let ok = \<lparr>kr_Response = Some twoModels, kr_Err = None, kr_KeyID = ''k1''\<rparr>;
       bad = \<lparr>kr_Response = None, kr_Err = Some (newBifrostErrorFromMsg ''no''), kr_KeyID = ''k2''\<rparr>
   in \<exists>l. HandleMultipleListModelsRequests unaryCodec unaryDecode 0 [] ''openai'' [bad, ok]
        = Some (Inr l, map (keyStatusOf ''openai'') [bad, ok]) \<and> md_ID ` set (lm_Data l) = {''a'', ''b''}"
proof -
  let ?ok = "\<lparr>kr_Response = Some twoModels, kr_Err = None, kr_KeyID = ''k1''\<rparr>"
  let ?bad = "\<lparr>kr_Response = None, kr_Err = Some (newBifrostErrorFromMsg ''no''), kr_KeyID = ''k2''\<rparr>"
  obtain out st where o: "HandleMultipleListModelsRequests unaryCodec unaryDecode 0 [] ''openai'' [?bad, ?ok] = Some (out, st)"
    by (auto simp: HandleMultipleListModelsRequests_def extractSuccessfulListModelsResponses_def Let_def ApplyPagination_def)
  note a = models_aggregated [OF o]
  show ?thesis
  proof (cases out)
    case (Inl e)
    with a show ?thesis by simp
  next
    case (Inr l)
    with a have "md_ID ` set (lm_Data l) = {''a'', ''b''}"
      by (auto simp: twoModels_def emptyList_def split: if_splits)
    with o a Inr show ?thesis by (auto simp: Let_def)
  qed
qed

end
