(* ===== verification/Aliases.thy ===== *)
theory Aliases
  imports Utils
begin

text \<open>
  Model aliases of a key (\<^verbatim>\<open>core/schemas/account.go\<close>): their validation and resolution, the model
  family an attempt is treated as, the model its capabilities are gated on, and the routing
  information of an attempt; the model name tests are in \<^verbatim>\<open>core/schemas/utils.go\<close>. An alias map is
  the list of its entries in the order of one iteration.
\<close>

section \<open>Model names\<close>

definition IsNovaModel :: "string \<Rightarrow> bool" where "IsNovaModel model = strContains model ''nova''"

definition IsNova2Model :: "string \<Rightarrow> bool" where
  "IsNova2Model model \<longleftrightarrow> strContains model ''nova-2'' \<and> (strContains model ''lite'' \<or> strContains model ''sonic'')"

definition IsGLMModel :: "string \<Rightarrow> bool" where "IsGLMModel model = strContains model ''glm''"

definition IsAnthropicModel :: "string \<Rightarrow> bool" where
  "IsAnthropicModel model \<longleftrightarrow> strContains model ''anthropic.'' \<or> strContains model ''claude''"

definition BedrockModelSupportsCachePoints :: "string \<Rightarrow> bool" where
  "BedrockModelSupportsCachePoints model \<longleftrightarrow> IsAnthropicModel model \<or> IsNovaModel model"

definition BedrockModelSupportsExtendedCacheTTL :: "string \<Rightarrow> bool" where
  "BedrockModelSupportsExtendedCacheTTL model = IsAnthropicModel model"

definition IsMistralModel :: "string \<Rightarrow> bool" where
  "IsMistralModel model \<longleftrightarrow> strContains model ''mistral'' \<or> strContains model ''codestral''"

definition IsLlamaModel :: "string \<Rightarrow> bool" where "IsLlamaModel model = strContains model ''llama''"
definition IsGeminiModel :: "string \<Rightarrow> bool" where "IsGeminiModel model = strContains model ''gemini''"
definition IsVeoModel :: "string \<Rightarrow> bool" where "IsVeoModel model = strContains model ''veo''"
definition IsGemmaModel :: "string \<Rightarrow> bool" where "IsGemmaModel model = strContains model ''gemma''"
definition IsImagenModel :: "string \<Rightarrow> bool" where "IsImagenModel model = strContains (toLower model) ''imagen''"
definition IsCohereModel :: "string \<Rightarrow> bool" where "IsCohereModel model = strContains model ''cohere''"
definition IsTitanModel :: "string \<Rightarrow> bool" where "IsTitanModel model = strContains model ''titan''"

section \<open>Families\<close>

definition modelFamilies :: "string list" where
  "modelFamilies = [''anthropic'', ''openai'', ''mistral'', ''cohere'', ''gemini'', ''gemma'', ''llama'', ''imagen'', ''veo'',
     ''nova'', ''titan'']"

definition familyIsValid :: "string option \<Rightarrow> bool" where
  "familyIsValid mf = (case mf of None \<Rightarrow> False | Some f \<Rightarrow> f \<in> set modelFamilies)"

text \<open>The name tests in the order of the \<^verbatim>\<open>switch\<close>; empty: none holds.\<close>

definition familyOfName :: "string \<Rightarrow> string" where
  "familyOfName s =
     (if IsAnthropicModel s then ''anthropic''
      else if IsMistralModel s then ''mistral''
      else if IsImagenModel s then ''imagen''
      else if IsVeoModel s then ''veo''
      else if IsGeminiModel s then ''gemini''
      else if IsGemmaModel s then ''gemma''
      else if IsLlamaModel s then ''llama''
      else if IsNovaModel s then ''nova''
      else if IsTitanModel s then ''titan''
      else if IsCohereModel s then ''cohere''
      else [])"

fun firstFamily :: "string list \<Rightarrow> string" where
  "firstFamily [] = []"
| "firstFamily (s # ss) = (if familyOfName s \<noteq> [] then familyOfName s else firstFamily ss)"

section \<open>Alias maps\<close>

definition isLegacyShape :: "alias_config \<Rightarrow> bool" where
  "isLegacyShape ac \<longleftrightarrow> ac_ModelID ac \<noteq> [] \<and> ac_ModelName ac = None \<and> ac_ModelFamily ac = None \<and> ac_Description ac = []
     \<and> ac_Region ac = None \<and> \<not> ac_Azure ac \<and> \<not> ac_Vertex ac \<and> \<not> ac_Bedrock ac \<and> \<not> ac_Replicate ac"

datatype alias_error =
    AliasSourceEmpty | ModelIDEmpty string | AliasSourcePadded string | ModelIDPadded string | ModelNamePadded string
  | InvalidFamily string string | AzureOnly string string | VertexOnly string string | BedrockOnly string string
  | ReplicateOnly string string | DuplicateAlias string

definition validateAlias :: "string \<Rightarrow> string \<Rightarrow> alias_config \<Rightarrow> alias_error option" where
  "validateAlias providerKey from ac =
     (if trimSpace from = [] then Some AliasSourceEmpty
      else if trimSpace (ac_ModelID ac) = [] then Some (ModelIDEmpty from)
      else if trimSpace from \<noteq> from then Some (AliasSourcePadded from)
      else if trimSpace (ac_ModelID ac) \<noteq> ac_ModelID ac then Some (ModelIDPadded from)
      else if (case ac_ModelName ac of None \<Rightarrow> False | Some n \<Rightarrow> trimSpace n \<noteq> n) then Some (ModelNamePadded from)
      else if ac_ModelFamily ac \<noteq> None \<and> \<not> familyIsValid (ac_ModelFamily ac)
      then Some (InvalidFamily from (the (ac_ModelFamily ac)))
      else if ac_Azure ac \<and> providerKey \<noteq> ''azure'' then Some (AzureOnly from providerKey)
      else if ac_Vertex ac \<and> providerKey \<noteq> ''vertex'' then Some (VertexOnly from providerKey)
      else if ac_Bedrock ac \<and> providerKey \<noteq> ''bedrock'' then Some (BedrockOnly from providerKey)
      else if ac_Replicate ac \<and> providerKey \<noteq> ''replicate'' then Some (ReplicateOnly from providerKey)
      else None)"

fun validateAliases :: "string \<Rightarrow> string list \<Rightarrow> (string \<times> alias_config) list \<Rightarrow> alias_error option" where
  "validateAliases providerKey seen [] = None"
| "validateAliases providerKey seen ((from, ac) # ka) =
     (case validateAlias providerKey from ac of
        Some e \<Rightarrow> Some e
      | None \<Rightarrow> if toLower from \<in> set seen then Some (DuplicateAlias from)
                else validateAliases providerKey (toLower from # seen) ka)"

definition ka_Validate :: "string \<Rightarrow> (string \<times> alias_config) list \<Rightarrow> alias_error option" where
  "ka_Validate providerKey ka = validateAliases providerKey [] ka"

definition ResolveConfig :: "(string \<times> alias_config) list \<Rightarrow> string \<Rightarrow> alias_config option" where
  "ResolveConfig ka model =
     (case map_of ka model of
        Some ac \<Rightarrow> Some ac
      | None \<Rightarrow> map_option snd (find (\<lambda>(k, v). equalFold k model) ka))"

definition Resolve :: "(string \<times> alias_config) list \<Rightarrow> string \<Rightarrow> string" where
  "Resolve ka model = (case ResolveConfig ka model of Some ac \<Rightarrow> ac_ModelID ac | None \<Rightarrow> model)"

section \<open>The alias of an attempt\<close>

definition GetResolvedAlias :: "bctx option \<Rightarrow> (string \<times> alias_config) option" where
  "GetResolvedAlias ctx =
     (case ctx of
        None \<Rightarrow> None
      | Some c \<Rightarrow> (case Value c BifrostContextKeyResolvedAlias of VAlias k ac \<Rightarrow> Some (k, ac) | _ \<Rightarrow> None))"

definition ResolveFamily :: "bctx option \<Rightarrow> string \<Rightarrow> string" where
  "ResolveFamily ctx fallbackModel =
     (case GetResolvedAlias ctx of
        None \<Rightarrow> firstFamily [fallbackModel]
      | Some (k, ac) \<Rightarrow>
          (case ac_ModelFamily ac of
             Some f \<Rightarrow> if f \<noteq> [] then f
                       else firstFamily ((case ac_ModelName ac of None \<Rightarrow> [] | Some n \<Rightarrow> [n]) @ [ac_ModelID ac, k])
           | None \<Rightarrow> firstFamily ((case ac_ModelName ac of None \<Rightarrow> [] | Some n \<Rightarrow> [n]) @ [ac_ModelID ac, k])))"

definition ResolveCanonicalModel :: "bctx option \<Rightarrow> string \<Rightarrow> string" where
  "ResolveCanonicalModel ctx fallbackModel =
     (case GetResolvedAlias ctx of
        None \<Rightarrow> fallbackModel
      | Some (k, ac) \<Rightarrow>
          if ac_ModelName ac \<notin> {None, Some []} then the (ac_ModelName ac)
          else if ac_ModelID ac \<noteq> [] then ac_ModelID ac
          else fallbackModel)"

definition IsModelFamily :: "string \<Rightarrow> bctx option \<Rightarrow> string \<Rightarrow> bool" where
  "IsModelFamily family ctx model \<longleftrightarrow> ResolveFamily ctx model = family"

definition BuildRoutingInfo :: "bctx option \<Rightarrow> string \<Rightarrow> string \<Rightarrow> key \<Rightarrow> routing_info" where
  "BuildRoutingInfo ctx attemptProvider attemptModel attemptKey =
     zeroRoutingInfo\<lparr>ri_Provider := attemptProvider, ri_Model := attemptModel, ri_Key := k_Name attemptKey,
       ri_ResolvedKeyAlias :=
         map_option (\<lambda>(k, ac). \<lparr>ra_ModelID = ac_ModelID ac, ra_ModelName = ac_ModelName ac, ra_ModelFamily = ac_ModelFamily ac\<rparr>)
           (GetResolvedAlias ctx)\<rparr>"

section \<open>Lemmas\<close>

text \<open>A map that passes the validation has no two keys equal up to case.\<close>

lemma validateAliases_sound:
  "validateAliases p seen ka = None \<Longrightarrow>
   distinct (map (toLower \<circ> fst) ka) \<and> (\<forall>(from, ac)\<in>set ka. validateAlias p from ac = None \<and> toLower from \<notin> set seen)"
  by (induction p seen ka rule: validateAliases.induct) (auto split: option.splits if_splits)

lemma folded_key_unique:
  assumes "distinct (map (toLower \<circ> fst) ka)" "(k, v) \<in> set ka" "(k', v') \<in> set ka" "equalFold k k'"
  shows "k = k' \<and> v = v'"
proof -
  from assms(1) have "inj_on (toLower \<circ> fst) (set ka)" by (simp add: distinct_map)
  from inj_onD [OF this _ assms(2,3)] assms(4) show ?thesis by (simp add: equalFold_def)
qed

lemma ResolveConfig_None: "ResolveConfig ka m = None \<longleftrightarrow> (\<forall>(k, ac)\<in>set ka. \<not> equalFold k m)"
proof (cases "map_of ka m")
  case None
  then show ?thesis by (auto simp: ResolveConfig_def find_None_iff)
next
  case (Some ac)
  from map_of_SomeD [OF this] Some show ?thesis by (auto simp: ResolveConfig_def intro!: bexI [of _ "(m, ac)"])
qed

lemma ResolveConfig_sound:
  assumes "ResolveConfig ka m = Some ac"
  shows "\<exists>k. (k, ac) \<in> set ka \<and> equalFold k m"
proof (cases "map_of ka m")
  case (Some ac')
  then show ?thesis using assms map_of_SomeD [OF Some] by (auto simp: ResolveConfig_def)
next
  case None
  with assms obtain k where "find (\<lambda>(k, v). equalFold k m) ka = Some (k, ac)" by (auto simp: ResolveConfig_def)
  then show ?thesis by (force simp: find_Some_iff dest: nth_mem)
qed

lemma ResolveConfig_complete:
  assumes "distinct (map (toLower \<circ> fst) ka)" "(k, ac) \<in> set ka" "equalFold k m"
  shows "ResolveConfig ka m = Some ac"
proof (cases "ResolveConfig ka m")
  case None
  with assms(2,3) show ?thesis by (auto simp: ResolveConfig_None)
next
  case (Some ac')
  then obtain k' where k': "(k', ac') \<in> set ka" "equalFold k' m" using ResolveConfig_sound by blast
  have "equalFold k k'" using assms(3) k'(2) equalFold_sym equalFold_trans by blast
  with folded_key_unique [OF assms(1,2) k'(1)] Some show ?thesis by simp
qed

section \<open>Properties\<close>


definition aliasSample :: alias_config where
  "aliasSample = \<lparr>ac_ModelID = ''gpt-4o'', ac_ModelName = None, ac_ModelFamily = None, ac_Description = [],
     ac_Region = None, ac_Azure = False, ac_Vertex = False, ac_Bedrock = False, ac_Replicate = False\<rparr>"


end
