(* ===== verification/Worker.thy ===== *)
theory Worker
  imports Aliases Dispatch
begin

text \<open>
  The worker of a provider (\<^verbatim>\<open>requestWorker\<close> in \<^verbatim>\<open>core/bifrost.go\<close>) between taking a message off
  its queue and delivering the outcome: the flags it writes for the attempt, the keys, the retry
  loop with the alias of each key, the dispatch of the request to the method of the provider
  (\<^verbatim>\<open>handleProviderRequest\<close>, \<^verbatim>\<open>handleProviderStreamRequest\<close>), the metadata of the outcome, and the
  hooks for a client that has left (\<^verbatim>\<open>billAbandonedTerminal\<close>).

  The provider is a record of its key and its methods. The conversions between kinds of request
  and response (\<^verbatim>\<open>core/schemas/mux.go\<close>) and the back-filling of parameters work on the payloads,
  which are abstract here; they are arguments.
\<close>

section \<open>Gating of operations\<close>

definition GetProviderName :: "string \<Rightarrow> custom_provider_config option \<Rightarrow> string" where
  "GetProviderName defaultProvider customConfig =
     (case customConfig of
        None \<Rightarrow> defaultProvider
      | Some c \<Rightarrow>
          (let k = trimSpace (cpc_CustomProviderKey c) in if k \<noteq> [] then k else defaultProvider))"

definition NewUnsupportedOperationError :: "request_type \<Rightarrow> string \<Rightarrow> bifrost_error" where
  "NewUnsupportedOperationError requestType providerName =
     \<lparr>be_Type = None, be_IsBifrostError = False, be_StatusCode = None,
      be_Error = Some \<lparr>ef_Type = None, ef_Code = Some ''unsupported_operation'',
        ef_Message = requestTypeName requestType @ '' is not supported by '' @ providerName @ '' provider'',
        ef_Error = None\<rparr>,
      be_AllowFallbacks = None,
      be_ExtraFields = zeroExtraFields\<lparr>xf_Provider := providerName, xf_RequestType := Some requestType\<rparr>\<rparr>"

definition CheckOperationAllowed ::
  "string \<Rightarrow> custom_provider_config option \<Rightarrow> request_type \<Rightarrow> bifrost_error option" where
  "CheckOperationAllowed defaultProvider config operation =
     (if (case config of None \<Rightarrow> True | Some c \<Rightarrow> cpc_AllowedRequests c = None) then None
      else if cpc_IsOperationAllowed config operation then None
      else Some (NewUnsupportedOperationError operation (GetProviderName defaultProvider config)))"

section \<open>The interface of a provider\<close>

datatype provider_method =
    MListModels | MTextCompletion | MChatCompletion | MResponses | MCountTokens | MCompaction | MEmbedding
  | MRerank | MOCR | MSpeech | MTranscription | MImageGeneration | MImageEdit | MVideoGeneration
  | MVideoRetrieve | MVideoDownload | MVideoDelete | MVideoList | MVideoRemix | MBatchCreate | MBatchList
  | MBatchRetrieve | MBatchCancel | MBatchDelete | MBatchResults | MFileUpload | MFileList | MFileRetrieve
  | MFileDelete | MFileContent | MCachedContentCreate | MCachedContentList | MCachedContentRetrieve
  | MCachedContentUpdate | MCachedContentDelete | MContainerCreate | MContainerList | MContainerRetrieve
  | MContainerDelete | MContainerFileCreate | MContainerFileList | MContainerFileRetrieve
  | MContainerFileContent | MContainerFileDelete | MPassthrough

datatype stream_method =
    MTextCompletionStream | MChatCompletionStream | MResponsesStream | MSpeechStream | MTranscriptionStream
  | MImageGenerationStream | MImageEditStream | MPassthroughStream

text \<open>A method takes one key or all of them, and returns a sub-response, which may be nil, or an
  error; the number of the attempt stands for the moment of the call. A streaming method also gets
  the post-hook runner of the attempt. The finalizer of the pipeline is left out.\<close>

type_synonym ('p, 'q) runner =
  "'p bifrost_response option \<Rightarrow> bifrost_error option \<Rightarrow> ('p, 'q) pipeline \<Rightarrow> world
   \<Rightarrow> 'p bifrost_response option \<times> bifrost_error option \<times> ('p, 'q) pipeline \<times> world"

datatype key_arg = OneKey key | AllKeys "key list"

record ('p, 'q) provider =
  pv_Key :: string
  pv_call :: "provider_method \<Rightarrow> nat \<Rightarrow> key_arg \<Rightarrow> 'q sub_request option \<Rightarrow> bctx
    \<Rightarrow> 'p sub_response option \<times> bifrost_error option \<times> bctx"
  pv_stream :: "stream_method \<Rightarrow> nat \<Rightarrow> ('p, 'q) runner \<Rightarrow> key \<Rightarrow> 'q sub_request option \<Rightarrow> bctx
    \<Rightarrow> 'p stream_chunk option list option \<times> bifrost_error option \<times> bctx"

record ('p, 'q) conversions =
  cv_textToChat :: "'q sub_request \<Rightarrow> 'q sub_request option"
  cv_chatToResponses :: "'q sub_request option \<Rightarrow> 'q sub_request option"
  cv_chatToText :: "'p sub_response \<Rightarrow> 'p sub_response option"
  cv_responsesToChat :: "'p sub_response \<Rightarrow> 'p sub_response option"
  cv_chunkToChat :: "'p sub_response \<Rightarrow> 'p sub_response option"
  cv_backfill :: "response_slot \<Rightarrow> 'q bifrost_request \<Rightarrow> 'p sub_response \<Rightarrow> 'p sub_response"
  cv_setPath :: "'q sub_request option \<Rightarrow> 'p sub_response \<Rightarrow> 'p sub_response"

section \<open>Dispatch of a request\<close>

text \<open>What a plain case of the \<^verbatim>\<open>switch\<close> does: the method it calls, with the key of the attempt or
  with all keys, the field of the request it passes, whether it back-fills parameters of the request
  into the answer, and the field of the response it stores the answer in.\<close>

datatype op_case = Plain provider_method request_slot response_slot | Backfilled provider_method request_slot response_slot
  | Multi provider_method request_slot response_slot

fun modelCases :: "request_type \<Rightarrow> op_case option" where
  "modelCases ListModelsRequest = Some (Multi MListModels SlotListModels RspListModels)"
| "modelCases ResponsesRequest = Some (Backfilled MResponses SlotResponses RspResponses)"
| "modelCases CountTokensRequest = Some (Plain MCountTokens SlotCountTokens RspCountTokens)"
| "modelCases CompactionRequest = Some (Plain MCompaction SlotCompaction RspCompaction)"
| "modelCases EmbeddingRequest = Some (Backfilled MEmbedding SlotEmbedding RspEmbedding)"
| "modelCases RerankRequest = Some (Plain MRerank SlotRerank RspRerank)"
| "modelCases SpeechRequest = Some (Backfilled MSpeech SlotSpeech RspSpeech)"
| "modelCases TranscriptionRequest = Some (Backfilled MTranscription SlotTranscription RspTranscription)"
| "modelCases ImageGenerationRequest = Some (Backfilled MImageGeneration SlotImageGeneration RspImageGeneration)"
| "modelCases ImageEditRequest = Some (Backfilled MImageEdit SlotImageEdit RspImageGeneration)"
| "modelCases VideoGenerationRequest = Some (Backfilled MVideoGeneration SlotVideoGeneration RspVideoGeneration)"
| "modelCases VideoRetrieveRequest = Some (Plain MVideoRetrieve SlotVideoRetrieve RspVideoGeneration)"
| "modelCases VideoDownloadRequest = Some (Plain MVideoDownload SlotVideoDownload RspVideoDownload)"
| "modelCases VideoListRequest = Some (Plain MVideoList SlotVideoList RspVideoList)"
| "modelCases VideoDeleteRequest = Some (Plain MVideoDelete SlotVideoDelete RspVideoDelete)"
| "modelCases VideoRemixRequest = Some (Plain MVideoRemix SlotVideoRemix RspVideoGeneration)"
| "modelCases t = None"

fun fileCases :: "request_type \<Rightarrow> op_case option" where
  "fileCases FileUploadRequest = Some (Plain MFileUpload SlotFileUpload RspFileUpload)"
| "fileCases FileListRequest = Some (Multi MFileList SlotFileList RspFileList)"
| "fileCases FileRetrieveRequest = Some (Multi MFileRetrieve SlotFileRetrieve RspFileRetrieve)"
| "fileCases FileDeleteRequest = Some (Multi MFileDelete SlotFileDelete RspFileDelete)"
| "fileCases FileContentRequest = Some (Multi MFileContent SlotFileContent RspFileContent)"
| "fileCases CachedContentCreateRequest = Some (Plain MCachedContentCreate SlotCachedContentCreate RspCachedContentCreate)"
| "fileCases CachedContentListRequest = Some (Multi MCachedContentList SlotCachedContentList RspCachedContentList)"
| "fileCases CachedContentRetrieveRequest = Some (Multi MCachedContentRetrieve SlotCachedContentRetrieve RspCachedContentRetrieve)"
| "fileCases CachedContentUpdateRequest = Some (Multi MCachedContentUpdate SlotCachedContentUpdate RspCachedContentUpdate)"
| "fileCases CachedContentDeleteRequest = Some (Multi MCachedContentDelete SlotCachedContentDelete RspCachedContentDelete)"
| "fileCases t = None"

fun batchCases :: "request_type \<Rightarrow> op_case option" where
  "batchCases BatchCreateRequest = Some (Plain MBatchCreate SlotBatchCreate RspBatchCreate)"
| "batchCases BatchListRequest = Some (Multi MBatchList SlotBatchList RspBatchList)"
| "batchCases BatchRetrieveRequest = Some (Multi MBatchRetrieve SlotBatchRetrieve RspBatchRetrieve)"
| "batchCases BatchCancelRequest = Some (Multi MBatchCancel SlotBatchCancel RspBatchCancel)"
| "batchCases BatchDeleteRequest = Some (Multi MBatchDelete SlotBatchDelete RspBatchDelete)"
| "batchCases BatchResultsRequest = Some (Multi MBatchResults SlotBatchResults RspBatchResults)"
| "batchCases t = None"

fun containerCases :: "request_type \<Rightarrow> op_case option" where
  "containerCases ContainerCreateRequest = Some (Plain MContainerCreate SlotContainerCreate RspContainerCreate)"
| "containerCases ContainerListRequest = Some (Multi MContainerList SlotContainerList RspContainerList)"
| "containerCases ContainerRetrieveRequest = Some (Multi MContainerRetrieve SlotContainerRetrieve RspContainerRetrieve)"
| "containerCases ContainerDeleteRequest = Some (Multi MContainerDelete SlotContainerDelete RspContainerDelete)"
| "containerCases ContainerFileCreateRequest = Some (Plain MContainerFileCreate SlotContainerFileCreate RspContainerFileCreate)"
| "containerCases ContainerFileListRequest = Some (Multi MContainerFileList SlotContainerFileList RspContainerFileList)"
| "containerCases ContainerFileRetrieveRequest = Some (Multi MContainerFileRetrieve SlotContainerFileRetrieve RspContainerFileRetrieve)"
| "containerCases ContainerFileContentRequest = Some (Multi MContainerFileContent SlotContainerFileContent RspContainerFileContent)"
| "containerCases ContainerFileDeleteRequest = Some (Multi MContainerFileDelete SlotContainerFileDelete RspContainerFileDelete)"
| "containerCases t = None"

definition plainCase :: "request_type \<Rightarrow> op_case option" where
  "plainCase t =
     (case modelCases t of Some oc \<Rightarrow> Some oc | None \<Rightarrow>
      (case fileCases t of Some oc \<Rightarrow> Some oc | None \<Rightarrow>
       (case batchCases t of Some oc \<Rightarrow> Some oc | None \<Rightarrow> containerCases t)))"

text \<open>A call that failed returns its error alone; otherwise the answer, converted by \<open>f\<close> unless it
  is nil, is stored in its field.\<close>

definition storeAnswer ::
  "response_slot \<Rightarrow> ('p sub_response \<Rightarrow> 'p sub_response option) \<Rightarrow> 'p sub_response option \<times> bifrost_error option \<times> bctx
   \<Rightarrow> 'p bifrost_response option \<times> bifrost_error option \<times> bctx" where
  "storeAnswer s f answer =
     (case answer of
        (_, Some e, c) \<Rightarrow> (None, Some e, c)
      | (resp, None, c) \<Rightarrow> (Some \<lparr>rs_sub = (\<lambda>_. None)(s := Option.bind resp f)\<rparr>, None, c))"

fun callCase ::
  "('p, 'q) provider \<Rightarrow> ('p, 'q) conversions \<Rightarrow> nat \<Rightarrow> 'q bifrost_request \<Rightarrow> key \<Rightarrow> key list \<Rightarrow> op_case \<Rightarrow> bctx
   \<Rightarrow> 'p bifrost_response option \<times> bifrost_error option \<times> bctx" where
  "callCase pv cv n req k ks (Plain m q s) c = storeAnswer s Some (pv_call pv m n (OneKey k) (br_sub req q) c)"
| "callCase pv cv n req k ks (Backfilled m q s) c =
     storeAnswer s (Some \<circ> cv_backfill cv s req) (pv_call pv m n (OneKey k) (br_sub req q) c)"
| "callCase pv cv n req k ks (Multi m q s) c = storeAnswer s Some (pv_call pv m n (AllKeys ks) (br_sub req q) c)"

text \<open>A plugin may ask for a text completion to be served as a chat, and a chat as a Responses
  request.\<close>

definition changeType :: "bctx \<Rightarrow> request_type option" where
  "changeType c = (case Value c BifrostContextKeyChangeRequestType of VReqType t \<Rightarrow> Some t | _ \<Rightarrow> None)"

definition convertedText :: "('p, 'q) conversions \<Rightarrow> 'q bifrost_request \<Rightarrow> bctx \<Rightarrow> 'q sub_request option" where
  "convertedText cv req c =
     (if changeType c = Some ChatCompletionRequest then Option.bind (br_sub req SlotTextCompletion) (cv_textToChat cv) else None)"

definition convertedChat :: "('p, 'q) conversions \<Rightarrow> 'q bifrost_request \<Rightarrow> bctx \<Rightarrow> 'q sub_request option" where
  "convertedChat cv req c =
     (if changeType c = Some ResponsesRequest then cv_chatToResponses cv (br_sub req SlotChat) else None)"

definition textCase ::
  "('p, 'q) provider \<Rightarrow> ('p, 'q) conversions \<Rightarrow> nat \<Rightarrow> 'q bifrost_request \<Rightarrow> key \<Rightarrow> bctx
   \<Rightarrow> 'p bifrost_response option \<times> bifrost_error option \<times> bctx" where
  "textCase pv cv n req k c =
     (case convertedText cv req c of
        Some chatRequest \<Rightarrow>
          storeAnswer RspTextCompletion (cv_chatToText cv) (pv_call pv MChatCompletion n (OneKey k) (Some chatRequest) c)
      | None \<Rightarrow>
          storeAnswer RspTextCompletion Some
            (pv_call pv MTextCompletion n (OneKey k) (br_sub req SlotTextCompletion) c))"

definition chatCase ::
  "('p, 'q) provider \<Rightarrow> ('p, 'q) conversions \<Rightarrow> nat \<Rightarrow> 'q bifrost_request \<Rightarrow> key \<Rightarrow> bctx
   \<Rightarrow> 'p bifrost_response option \<times> bifrost_error option \<times> bctx" where
  "chatCase pv cv n req k c =
     (case convertedChat cv req c of
        Some responsesRequest \<Rightarrow>
          storeAnswer RspChat (cv_responsesToChat cv) (pv_call pv MResponses n (OneKey k) (Some responsesRequest) c)
      | None \<Rightarrow>
          storeAnswer RspChat (Some \<circ> cv_backfill cv RspChat req) (pv_call pv MChatCompletion n (OneKey k) (br_sub req SlotChat) c))"

definition ocrCase ::
  "('p, 'q) provider \<Rightarrow> custom_provider_config option \<Rightarrow> nat \<Rightarrow> 'q bifrost_request \<Rightarrow> key \<Rightarrow> bctx
   \<Rightarrow> 'p bifrost_response option \<times> bifrost_error option \<times> bctx" where
  "ocrCase pv custom n req k c =
     (case CheckOperationAllowed (pv_Key pv) custom OCRRequest of
        Some e \<Rightarrow>
          (None,
           Some (case br_sub req SlotOCR of
                   None \<Rightarrow> e
                 | Some r \<Rightarrow>
                     e\<lparr>be_ExtraFields := (be_ExtraFields e)\<lparr>xf_OriginalModelRequested :=
                          (case sr_Model r of Some m \<Rightarrow> m | None \<Rightarrow> [])\<rparr>\<rparr>), c)
      | None \<Rightarrow> storeAnswer RspOCR Some (pv_call pv MOCR n (OneKey k) (br_sub req SlotOCR) c))"

text \<open>The path of a passthrough request is copied into its answer; with no request that is a nil
  dereference, which \<open>cv_setPath\<close> on None stands for.\<close>

definition passthroughCase ::
  "('p, 'q) provider \<Rightarrow> ('p, 'q) conversions \<Rightarrow> nat \<Rightarrow> 'q bifrost_request \<Rightarrow> key \<Rightarrow> bctx
   \<Rightarrow> 'p bifrost_response option \<times> bifrost_error option \<times> bctx" where
  "passthroughCase pv cv n req k c =
     storeAnswer RspPassthrough (Some \<circ> cv_setPath cv (br_sub req SlotPassthrough))
       (pv_call pv MPassthrough n (OneKey k) (br_sub req SlotPassthrough) c)"

definition unsupportedRequestType :: "string \<Rightarrow> 'q bifrost_request \<Rightarrow> bifrost_error" where
  "unsupportedRequestType providerKey req =
     (case GetRequestFields req of (_, model, _) \<Rightarrow>
        \<lparr>be_Type = None, be_IsBifrostError = False, be_StatusCode = None,
         be_Error = Some \<lparr>ef_Type = None, ef_Code = None,
           ef_Message = ''unsupported request type: '' @ requestTypeName (br_RequestType req), ef_Error = None\<rparr>,
         be_AllowFallbacks = None,
         be_ExtraFields = zeroExtraFields\<lparr>xf_RequestType := Some (br_RequestType req), xf_Provider := providerKey,
           xf_OriginalModelRequested := model, xf_ResolvedModelUsed := model\<rparr>\<rparr>)"

definition handleProviderRequest ::
  "('p, 'q) provider \<Rightarrow> ('p, 'q) conversions \<Rightarrow> custom_provider_config option \<Rightarrow> nat \<Rightarrow> 'q bifrost_request \<Rightarrow> key \<Rightarrow> key list
   \<Rightarrow> bctx \<Rightarrow> 'p bifrost_response option \<times> bifrost_error option \<times> bctx" where
  "handleProviderRequest pv cv custom n req k ks c =
     (if br_RequestType req = TextCompletionRequest then textCase pv cv n req k c
      else if br_RequestType req = ChatCompletionRequest then chatCase pv cv n req k c
      else if br_RequestType req = OCRRequest then ocrCase pv custom n req k c
      else if br_RequestType req = PassthroughRequest then passthroughCase pv cv n req k c
      else
        (case plainCase (br_RequestType req) of
           Some oc \<Rightarrow> callCase pv cv n req k ks oc c
         | None \<Rightarrow> (None, Some (unsupportedRequestType (pv_Key pv) req), c)))"

section \<open>Dispatch of a stream\<close>

definition convertChunk ::
  "('p, 'q) conversions \<Rightarrow> request_type \<Rightarrow> 'p bifrost_response \<Rightarrow> 'p bifrost_response" where
  "convertChunk cv targetType result =
     (if targetType = ChatCompletionRequest then
        (case Option.bind (rs_sub result RspChat) (cv_chatToText cv) of
           Some converted \<Rightarrow> singleResponse RspTextCompletion converted
         | None \<Rightarrow> result)
      else if targetType = ResponsesRequest then
        (case Option.bind (rs_sub result RspResponsesStream) (cv_chunkToChat cv) of
           Some converted \<Rightarrow> singleResponse RspChat converted
         | None \<Rightarrow> result)
      else result)"

definition wrapConvertedStreamPostHookRunner ::
  "('p, 'q) conversions \<Rightarrow> ('p, 'q) runner \<Rightarrow> request_type \<Rightarrow> ('p, 'q) runner" where
  "wrapConvertedStreamPostHookRunner cv postHookRunner targetType result err =
     postHookRunner (map_option (convertChunk cv targetType) result) err"

definition textStreamCase ::
  "('p, 'q) provider \<Rightarrow> ('p, 'q) conversions \<Rightarrow> nat \<Rightarrow> 'q bifrost_request \<Rightarrow> key \<Rightarrow> ('p, 'q) runner \<Rightarrow> bctx
   \<Rightarrow> 'p stream_chunk option list option \<times> bifrost_error option \<times> bctx" where
  "textStreamCase pv cv n req k runner c =
     (case convertedText cv req c of
        Some chatRequest \<Rightarrow>
          pv_stream pv MChatCompletionStream n (wrapConvertedStreamPostHookRunner cv runner ChatCompletionRequest) k
            (Some chatRequest) c
      | None \<Rightarrow> pv_stream pv MTextCompletionStream n runner k (br_sub req SlotTextCompletion) c)"

definition chatStreamCase ::
  "('p, 'q) provider \<Rightarrow> ('p, 'q) conversions \<Rightarrow> nat \<Rightarrow> 'q bifrost_request \<Rightarrow> key \<Rightarrow> ('p, 'q) runner \<Rightarrow> bctx
   \<Rightarrow> 'p stream_chunk option list option \<times> bifrost_error option \<times> bctx" where
  "chatStreamCase pv cv n req k runner c =
     (case convertedChat cv req c of
        Some responsesRequest \<Rightarrow>
          pv_stream pv MResponsesStream n (wrapConvertedStreamPostHookRunner cv runner ResponsesRequest) k
            (Some responsesRequest) c
      | None \<Rightarrow> pv_stream pv MChatCompletionStream n runner k (br_sub req SlotChat) c)"

fun streamCases :: "request_type \<Rightarrow> (stream_method \<times> request_slot) option" where
  "streamCases ResponsesStreamRequest = Some (MResponsesStream, SlotResponses)"
| "streamCases SpeechStreamRequest = Some (MSpeechStream, SlotSpeech)"
| "streamCases TranscriptionStreamRequest = Some (MTranscriptionStream, SlotTranscription)"
| "streamCases ImageGenerationStreamRequest = Some (MImageGenerationStream, SlotImageGeneration)"
| "streamCases ImageEditStreamRequest = Some (MImageEditStream, SlotImageEdit)"
| "streamCases PassthroughStreamRequest = Some (MPassthroughStream, SlotPassthrough)"
| "streamCases t = None"

definition handleProviderStreamRequest ::
  "('p, 'q) provider \<Rightarrow> ('p, 'q) conversions \<Rightarrow> nat \<Rightarrow> 'q bifrost_request \<Rightarrow> key \<Rightarrow> ('p, 'q) runner \<Rightarrow> bctx
   \<Rightarrow> 'p stream_chunk option list option \<times> bifrost_error option \<times> bctx" where
  "handleProviderStreamRequest pv cv n req k runner c =
     (if br_RequestType req = TextCompletionStreamRequest then textStreamCase pv cv n req k runner c
      else if br_RequestType req = ChatCompletionStreamRequest then chatStreamCase pv cv n req k runner c
      else
        (case streamCases (br_RequestType req) of
           Some (m, q) \<Rightarrow> pv_stream pv m n runner k (br_sub req q) c
         | None \<Rightarrow> (None, Some (unsupportedRequestType (pv_Key pv) req), c)))"

section \<open>The flags of an attempt\<close>

definition baseProviderOf :: "string \<Rightarrow> custom_provider_config option \<Rightarrow> string" where
  "baseProviderOf providerKey custom =
     (case custom of
        Some c \<Rightarrow> if cpc_BaseProviderType c \<noteq> [] then cpc_BaseProviderType c else providerKey
      | None \<Rightarrow> providerKey)"

definition clearAnthropicPassthroughForNonNativeProvider :: "string \<Rightarrow> bctx \<Rightarrow> bctx" where
  "clearAnthropicPassthroughForNonNativeProvider baseProvider c =
     (if ctxString c BifrostContextKeyIntegrationType \<noteq> Some ''anthropic'' then c
      else if baseProvider \<in> {Anthropic, Vertex, Azure} then c
      else SetValue BifrostContextKeyPassthroughOverridesPresent (VBool False)
            (SetValue BifrostContextKeySendBackRawResponse (VBool False)
             (SetValue BifrostContextKeyUseRawRequestBody (VBool False) c)))"

record raw_config =
  rc_SendBackRawRequest :: bool
  rc_SendBackRawResponse :: bool
  rc_StoreRawRequestResponse :: bool

text \<open>The configured value of a flag, or that of the request where overrides are allowed.\<close>

definition overridden :: "bool \<Rightarrow> ctxkey \<Rightarrow> bctx \<Rightarrow> bool \<Rightarrow> bool" where
  "overridden allowed k c configured =
     (if allowed then (case ctxBool c k of Some b \<Rightarrow> b | None \<Rightarrow> configured) else configured)"

definition rawOverridesAllowed :: "bctx \<Rightarrow> bool" where
  "rawOverridesAllowed c \<longleftrightarrow>
     GetBoolFromContext c BifrostContextKeyAllowPerRequestRawOverride
     \<or> GetBoolFromContext c BifrostContextKeyPassthroughOverridesPresent"

definition effectiveSendBackReq :: "raw_config \<Rightarrow> bctx \<Rightarrow> bool" where
  "effectiveSendBackReq rc c =
     overridden (rawOverridesAllowed c) BifrostContextKeySendBackRawRequest c (rc_SendBackRawRequest rc)"

definition effectiveSendBackResp :: "raw_config \<Rightarrow> bctx \<Rightarrow> bool" where
  "effectiveSendBackResp rc c =
     overridden (rawOverridesAllowed c) BifrostContextKeySendBackRawResponse c (rc_SendBackRawResponse rc)"

definition effectiveStore :: "raw_config \<Rightarrow> bctx \<Rightarrow> bool" where
  "effectiveStore rc c =
     overridden (GetBoolFromContext c BifrostContextKeyAllowPerRequestStorageOverride)
       BifrostContextKeyStoreRawRequestResponse c (rc_StoreRawRequestResponse rc)"

definition writeRawSignals :: "raw_config \<Rightarrow> bctx \<Rightarrow> bctx" where
  "writeRawSignals rc c =
     (let req = effectiveSendBackReq rc c;
          resp = effectiveSendBackResp rc c;
          store = effectiveStore rc c
      in SetValue BifrostContextKeyShouldStoreRawInLogs (VBool store)
          (SetValue BifrostContextKeyDropRawResponseFromClient (VBool (store \<and> \<not> resp))
           (SetValue BifrostContextKeyDropRawRequestFromClient (VBool (store \<and> \<not> req))
            (SetValue BifrostContextKeyCaptureRawResponse (VBool (resp \<or> store))
             (SetValue BifrostContextKeyCaptureRawRequest (VBool (req \<or> store)) c)))))"

definition prepareContext :: "string \<Rightarrow> raw_config \<Rightarrow> bctx \<Rightarrow> bctx" where
  "prepareContext baseProvider rc c =
     writeRawSignals rc
       (clearAnthropicPassthroughForNonNativeProvider baseProvider
         (SetValue BifrostContextKeyIsCustomProvider (VBool (\<not> IsStandardProvider baseProvider)) c))"

section \<open>The model of an attempt\<close>

text \<open>The alias of the key is looked up for the model the request came with, also on a retry after
  another key had set another model.\<close>

definition attemptModel :: "string \<Rightarrow> key \<Rightarrow> string" where
  "attemptModel original k = Resolve (k_Aliases k) original"

definition attemptContext :: "string \<Rightarrow> key \<Rightarrow> bctx \<Rightarrow> bctx" where
  "attemptContext original k c =
     SetValue BifrostContextKeyResolvedAlias
       (case ResolveConfig (k_Aliases k) original of Some ac \<Rightarrow> VAlias original ac | None \<Rightarrow> VNil) c"

definition attemptRouting :: "string \<Rightarrow> string \<Rightarrow> key \<Rightarrow> bctx \<Rightarrow> routing_info" where
  "attemptRouting providerKey original k c =
     BuildRoutingInfo (Some (attemptContext original k c)) providerKey original k"

text \<open>The variables \<^verbatim>\<open>resolvedModel\<close> and \<^verbatim>\<open>attemptRoutingInfo\<close> after the run: those of the last
  call, or their initial values when no call was made.\<close>

definition lastAttempt ::
  "string \<Rightarrow> string \<Rightarrow> (key \<times> bifrost_error option) list \<Rightarrow> bctx \<Rightarrow> string \<times> routing_info" where
  "lastAttempt providerKey original calls c =
     (if calls = [] then ([], zeroRoutingInfo\<lparr>ri_Provider := providerKey, ri_Model := original\<rparr>)
      else (attemptModel original (fst (last calls)), attemptRouting providerKey original (fst (last calls)) c))"

section \<open>The worker\<close>

record ('p, 'q, 's, 'a) worker_env =
  we_provider :: "('p, 'q) provider"
  we_conv :: "('p, 'q) conversions"
  we_custom :: "custom_provider_config option"
  we_raw :: raw_config
  we_MaxRetries :: int
  we_BackoffInitial :: nanos
  we_BackoffMax :: nanos
  we_pool :: "('s, 'a) pool_env"
  we_keyPoolFilter :: "(nat \<Rightarrow> key list \<Rightarrow> string + key list) option"
  we_keySelector :: "nat \<Rightarrow> key list \<Rightarrow> kp_error + key"
  we_listKeyID :: "'q sub_request \<Rightarrow> string option"
  we_jitter :: "nat \<Rightarrow> int \<Rightarrow> int"
  we_spanID :: "nat \<Rightarrow> ctxval"
  we_dur :: "string \<Rightarrow> nanos"
  we_nowMilli :: "nat \<Rightarrow> int"
  we_now :: "nat \<Rightarrow> ctxval"
  we_plugins :: "('p, 'q) plugin list"

abbreviation we_key :: "('p, 'q, 's, 'a) worker_env \<Rightarrow> string" where
  "we_key env \<equiv> pv_Key (we_provider env)"

definition requestHandler ::
  "('p, 'q, 's, 'a) worker_env \<Rightarrow> 'q bifrost_request \<Rightarrow> string \<Rightarrow> key list \<Rightarrow> nat \<Rightarrow> key \<Rightarrow> bctx
   \<Rightarrow> 'p attempt_result \<times> bifrost_error option \<times> bctx" where
  "requestHandler env req original ks n k c =
     (case handleProviderRequest (we_provider env) (we_conv env) (we_custom env) n (SetModel (attemptModel original k) req) k ks
             (attemptContext original k c) of
        (resp, err, c') \<Rightarrow> (ResponseResult resp, err, c'))"

text \<open>The post-hook runner of a streaming attempt works with the model and the routing information of
  its own attempt.\<close>

definition populateBoth ::
  "request_type \<Rightarrow> string \<Rightarrow> string \<Rightarrow> string \<Rightarrow> routing_info
   \<Rightarrow> 'p bifrost_response option \<times> bifrost_error option \<Rightarrow> 'p bifrost_response option \<times> bifrost_error option" where
  "populateBoth t providerKey original resolved info r =
     (case r of (resp, err) \<Rightarrow>
        (map_option (respPopulateRoutingInfo info \<circ> respPopulateExtraFields t providerKey original resolved) resp,
         map_option (PopulateRoutingInfo info \<circ> errPopulateExtraFields t providerKey original resolved) err))"

definition attemptRunner ::
  "('p, 'q, 's, 'a) worker_env \<Rightarrow> request_type \<Rightarrow> string \<Rightarrow> key \<Rightarrow> bctx \<Rightarrow> ('p, 'q) runner" where
  "attemptRunner env t original k c result err pl w =
     (let populate = populateBoth t (we_key env) original (attemptModel original k) (attemptRouting (we_key env) original k c)
      in case populate (result, err) of (result1, err1) \<Rightarrow>
         (case RunPostLLMHooks (we_spanID env) (we_dur env) result1 err1 (int (length (we_plugins env))) pl w of
            (resp, Some e, pl', w') \<Rightarrow> (None, snd (populate (None, Some e)), pl', w')
          | (resp, None, pl', w') \<Rightarrow> (fst (populate (resp, None)), None, pl', w')))"

definition streamHandler ::
  "('p, 'q, 's, 'a) worker_env \<Rightarrow> 'q bifrost_request \<Rightarrow> string \<Rightarrow> nat \<Rightarrow> key \<Rightarrow> bctx
   \<Rightarrow> (response_slot \<Rightarrow> 'p sub_response option) attempt_result \<times> bifrost_error option \<times> bctx" where
  "streamHandler env req original n k c =
     (case handleProviderStreamRequest (we_provider env) (we_conv env) n (SetModel (attemptModel original k) req) k
             (attemptRunner env (br_RequestType req) original k c) (attemptContext original k c) of
        (chunks, err, c') \<Rightarrow> (StreamResult chunks, err, c'))"

definition retryEnvOf ::
  "('p, 'q, 's, 'a) worker_env \<Rightarrow> 'q bifrost_request \<Rightarrow> string \<Rightarrow> key_provider option
   \<Rightarrow> (nat \<Rightarrow> key \<Rightarrow> bctx \<Rightarrow> 'r attempt_result \<times> bifrost_error option \<times> bctx) \<Rightarrow> 'r attempt_result \<Rightarrow> ('r, 'q) retry_env" where
  "retryEnvOf env req original kp handler zero =
     \<lparr>re_handler = handler, re_keyProvider = kp, re_MaxRetries = we_MaxRetries env,
      re_BackoffInitial = we_BackoffInitial env, re_BackoffMax = we_BackoffMax env, re_jitter = we_jitter env,
      re_spanID = we_spanID env, re_nowMilli = we_nowMilli env, re_now = we_now env, re_zero = zero,
      re_requestType = br_RequestType req, re_provider = we_key env, re_model = original, re_req = Some req,
      re_reqAfter = (\<lambda>k. Some (SetModel (attemptModel original k) req))\<rparr>"

text \<open>The error of a request whose keys could not be had; the error value is attached except when
  the keys are fine and the one key a model list is asked for is not among them.\<close>

definition keysError :: "request_type \<Rightarrow> string \<Rightarrow> string \<Rightarrow> string \<Rightarrow> string option \<Rightarrow> bifrost_error" where
  "keysError t providerKey model msg cause =
     \<lparr>be_Type = None, be_IsBifrostError = False, be_StatusCode = None,
      be_Error = Some \<lparr>ef_Type = None, ef_Code = None, ef_Message = msg, ef_Error = cause\<rparr>,
      be_AllowFallbacks = None,
      be_ExtraFields = zeroExtraFields\<lparr>xf_RequestType := Some t, xf_Provider := providerKey,
        xf_OriginalModelRequested := model, xf_ResolvedModelUsed := model\<rparr>\<rparr>"

text \<open>What the worker does before it asks for keys, and the keys.\<close>

definition prepareWorker :: "('p, 'q, 's, 'a) worker_env \<Rightarrow> world \<Rightarrow> world" where
  "prepareWorker env = onCtx (prepareContext (baseProviderOf (we_key env) (we_custom env)) (we_raw env))"

definition requestKeys ::
  "('p, 'q, 's, 'a) worker_env \<Rightarrow> 'q bifrost_request \<Rightarrow> bctx \<Rightarrow> 's
   \<Rightarrow> (string + key list \<times> key_provider option) \<times> 's" where
  "requestKeys env req c s =
     (case GetRequestFields req of (_, model, _) \<Rightarrow>
        workerKeys (we_pool env) (we_keyPoolFilter env) (we_keySelector env) (we_custom env) c (br_RequestType req)
          (Option.bind (br_sub req SlotListModels) (we_listKeyID env)) (we_key env) model
          (baseProviderOf (we_key env) (we_custom env)) s)"

definition keysCause :: "('p, 'q, 's, 'a) worker_env \<Rightarrow> 'q bifrost_request \<Rightarrow> bctx \<Rightarrow> string \<Rightarrow> string option" where
  "keysCause env req c msg =
     (if br_RequestType req = ListModelsRequest
       then (case getAllSupportedKeys (pe_account (we_pool env)) c (we_key env) (baseProviderOf (we_key env) (we_custom env)) of
               Inl _ \<Rightarrow> Some msg | Inr _ \<Rightarrow> None)
       else Some msg)"

definition finishRequest ::
  "('p, 'q, 's, 'a) worker_env \<Rightarrow> request_type \<Rightarrow> string \<Rightarrow> world \<Rightarrow> 'p bifrost_response option \<times> bifrost_error option \<times> world
   \<Rightarrow> 'p served \<times> world" where
  "finishRequest env t original w0 r =
     (case r of (resp, err, w) \<Rightarrow>
        (case lastAttempt (we_key env) original (drop (length (w_calls w0)) (w_calls w)) (w_ctx w) of (resolved, info) \<Rightarrow>
           (case populateBoth t (we_key env) original resolved info (resp, err) of
              (_, Some e) \<Rightarrow> (Failed e, w)
            | (resp', None) \<Rightarrow> (Responded resp', w))))"

definition processRequest ::
  "('p, 'q, 's, 'a) worker_env \<Rightarrow> 's \<Rightarrow> 'q bifrost_request \<Rightarrow> world \<Rightarrow> 'p served \<times> world" where
  "processRequest env s req w =
     (case GetRequestFields req of (_, model, _) \<Rightarrow>
        (let w1 = prepareWorker env w
         in case requestKeys env req (w_ctx w1) s of
              (Inl msg, _) \<Rightarrow> (Failed (keysError (br_RequestType req) (we_key env) model msg (keysCause env req (w_ctx w1) msg)), w1)
            | (Inr (ks, kp), _) \<Rightarrow>
                (case executeRequestWithRetries
                        (retryEnvOf env req model kp (requestHandler env req model ks) (ResponseResult None)) w1 of
                   (res, err, w2) \<Rightarrow>
                     finishRequest env (br_RequestType req) model w1
                       ((case res of ResponseResult r \<Rightarrow> r | StreamResult _ \<Rightarrow> None), err, w2))))"

text \<open>A provider that returns neither a stream nor an error gives an empty stream here.\<close>

definition processStream ::
  "('p, 'q, 's, 'a) worker_env \<Rightarrow> 's \<Rightarrow> 'q bifrost_request \<Rightarrow> world \<Rightarrow> 'p served_stream \<times> world" where
  "processStream env s req w =
     (case GetRequestFields req of (_, model, _) \<Rightarrow>
        (let w1 = prepareWorker env w
         in case requestKeys env req (w_ctx w1) s of
              (Inl msg, _) \<Rightarrow> (StreamFailed (keysError (br_RequestType req) (we_key env) model msg (keysCause env req (w_ctx w1) msg)), w1)
            | (Inr (ks, kp), _) \<Rightarrow>
                (case executeRequestWithRetries
                        (retryEnvOf env req model kp (streamHandler env req model) (StreamResult None)) w1 of
                   (res, err, w2) \<Rightarrow>
                     (case finishRequest env (br_RequestType req) model w1 (None, err, w2) of
                        (Failed e, w3) \<Rightarrow> (StreamFailed e, w3)
                      | (_, w3) \<Rightarrow>
                          (Streaming (case res of StreamResult (Some chunks) \<Rightarrow> chunks | _ \<Rightarrow> []), w3)))))"

text \<open>The hooks for a non-streaming request whose client has left.\<close>

definition billAbandonedTerminal ::
  "('p, 'q, 's, 'a) worker_env \<Rightarrow> request_type \<Rightarrow> 'p bifrost_response option \<Rightarrow> bifrost_error option \<Rightarrow> world \<Rightarrow> world" where
  "billAbandonedTerminal env t result err w =
     (if IsStreamRequestType t then w
      else
        (let pl = getPluginPipeline (we_plugins env) newPipeline;
             n = int (length (we_plugins env))
         in if err \<noteq> None then
              (case RunPostLLMHooks (we_spanID env) (we_dur env) None err n pl w of (_, _, _, w') \<Rightarrow> w')
            else if result \<noteq> None then
              (case RunPostLLMHooks (we_spanID env) (we_dur env) result None n pl w of (_, _, _, w') \<Rightarrow> w')
            else w))"

section \<open>Lemmas: the calls of a run\<close>

text \<open>The calls that were made between two worlds, with keys of which \<open>K\<close> holds.\<close>

definition callsOf :: "(key \<Rightarrow> bool) \<Rightarrow> world \<Rightarrow> world \<Rightarrow> bool" where
  "callsOf K w w' \<longleftrightarrow> (\<exists>cs. w_calls w' = w_calls w @ cs \<and> (\<forall>c\<in>set cs. K (fst c)))"

lemma callsOf_same: "w_calls w' = w_calls w \<Longrightarrow> callsOf K w w'"
  by (simp add: callsOf_def)

lemma callsOf_trans: "callsOf K w w' \<Longrightarrow> callsOf K w' w'' \<Longrightarrow> callsOf K w w''"
  by (fastforce simp: callsOf_def)

lemma callsOf_drop: "callsOf K w w' \<Longrightarrow> \<forall>c\<in>set (drop (length (w_calls w)) (w_calls w')). K (fst c)"
  by (auto simp: callsOf_def)

definition givesOnly :: "(key \<Rightarrow> bool) \<Rightarrow> key_provider \<Rightarrow> bool" where
  "givesOnly K kp \<longleftrightarrow> (\<forall>n used dead k used'. kp n used dead = (Inr k, used') \<longrightarrow> K k)"

lemma selectKeyStep_calls:
  "case selectKeyStep env n l w of Inl (e, w1) \<Rightarrow> w_calls w1 = w_calls w | Inr (l1, w1) \<Rightarrow> w_calls w1 = w_calls w"
  by (auto simp: selectKeyStep_def Let_def keySelectionSpan_sel split: option.split sum.split prod.split)

lemma selectKeyStep_key:
  assumes "selectKeyStep env n l w = Inr (l1, w1)" "re_keyProvider env = Some kp"
    and "givesOnly K kp" "n = 0 \<or> K (l_currentKey l)"
  shows "K (l_currentKey l1)"
proof (cases "n = 0 \<or> l_lastWasPerKeyFailure l")
  case True
  obtain r used' where kp: "kp n (l_used l) (l_dead l) = (r, used')" by fastforce
  with assms(1,2) True obtain k where "r = Inr k" "l_currentKey l1 = k"
    by (auto simp: selectKeyStep_def Let_def split: sum.splits)
  with kp assms(3) show ?thesis unfolding givesOnly_def by blast
next
  case False
  with assms show ?thesis by (simp add: selectKeyStep_def)
qed

lemma appendTrail_calls: "w_calls (appendTrail env n k w) = w_calls w"
  by (simp add: appendTrail_def)

lemma sendRequest_calls:
  assumes "sendRequest env n l w = (l', w')"
  shows "\<exists>oc. w_calls w' = w_calls w @ [(l_currentKey l, oc)] \<and> l_currentKey l' = l_currentKey l"
  using assms
  by (auto simp: sendRequest_def Let_def split: prod.splits dest!: openAttempt_sel(1) closeAttempt_sel(1))

lemma trackKeyState_key: "l_currentKey (trackKeyState env n e c l) = l_currentKey l"
  by (auto simp: trackKeyState_def Let_def split: option.split)

lemma afterRequest_calls:
  "case afterRequest env n l w of
     EarlyReturn res e w' \<Rightarrow> w_calls w' = w_calls w
   | LeaveLoop l' w' \<Rightarrow> w_calls w' = w_calls w
   | NextAttempt l' w' \<Rightarrow> w_calls w' = w_calls w \<and> l_currentKey l' = l_currentKey l"
  by (auto simp: afterRequest_def Let_def trackKeyState_key split: option.split)

lemma retryAttempt_calls:
  assumes "re_keyProvider env = Some kp" "givesOnly K kp"
    and "n = 0 \<or> K (l_currentKey l)"
  shows "case retryAttempt env n l w of
      EarlyReturn res e w' \<Rightarrow> callsOf K w w'
    | LeaveLoop l' w' \<Rightarrow> callsOf K w w'
    | NextAttempt l' w' \<Rightarrow> callsOf K w w' \<and> K (l_currentKey l')"
proof (cases "selectKeyStep env n l (startOfAttempt env n w)")
  case (Inl x)
  with selectKeyStep_calls [where env = env and n = n and l = l and w = "startOfAttempt env n w"] show ?thesis
    by (cases x) (simp add: retryAttempt_def callsOf_same)
next
  case (Inr x)
  obtain l1 w1 where x: "x = (l1, w1)" by (cases x)
  have w1: "w_calls w1 = w_calls w" using selectKeyStep_calls [where env = env and n = n and l = l and w = "startOfAttempt env n w"] Inr x by simp
  have k: "K (l_currentKey l1)" using selectKeyStep_key [OF Inr [unfolded x] assms] .
  let ?w2 = "retryNote env n l1 (appendTrail env n (l_currentKey l1) w1)"
  have w2: "w_calls ?w2 = w_calls w" by (simp add: appendTrail_calls w1)
  obtain l2 w3 where s: "sendRequest env n l1 ?w2 = (l2, w3)" by fastforce
  from sendRequest_calls [OF s] w2 k have "callsOf K w w3" and l2: "l_currentKey l2 = l_currentKey l1"
    by (auto simp: callsOf_def)
  with afterRequest_calls [where env = env and n = n and l = l2 and w = w3] k
  have "case afterRequest env n l2 w3 of
      EarlyReturn res e w' \<Rightarrow> callsOf K w w' | LeaveLoop l' w' \<Rightarrow> callsOf K w w'
    | NextAttempt l' w' \<Rightarrow> callsOf K w w' \<and> K (l_currentKey l')"
    by (auto simp: callsOf_def split: attempt_end.splits)
  then show ?thesis using Inr x s callsOf_same [OF w2]
    by (cases "hasTracer (w_ctx ?w2)") (simp_all add: retryAttempt_def Let_def)
qed

lemma finishLoop_calls: "finishLoop env n l w = (res, err, m, w') \<Longrightarrow> w_calls w' = w_calls w"
  by (auto simp: finishLoop_def split: if_splits)

lemma retryLoop_calls:
  assumes "re_keyProvider env = Some kp" "givesOnly K kp"
    and "n = 0 \<or> K (l_currentKey l)" "retryLoop env left n l w = (res, err, m, w')"
  shows "callsOf K w w'"
  using assms(3,4)
proof (induction left arbitrary: n l w)
  case 0
  then show ?case by (simp add: callsOf_same finishLoop_calls)
next
  case (Suc left)
  note a = retryAttempt_calls [OF assms(1,2) Suc.prems(1), of w]
  show ?case
  proof (cases "retryAttempt env n l w")
    case (EarlyReturn r e w1)
    with a Suc.prems(2) show ?thesis by simp
  next
    case (LeaveLoop l1 w1)
    with a Suc.prems(2) show ?thesis by (auto dest!: finishLoop_calls simp: callsOf_def)
  next
    case (NextAttempt l1 w1)
    with a Suc.IH [of "Suc n" l1 w1] Suc.prems(2) show ?thesis by (auto intro: callsOf_trans)
  qed
qed

lemma run_calls:
  assumes "re_keyProvider env = Some kp" "givesOnly K kp"
    and "executeRequestWithRetries env w = (res, err, w')"
  shows "callsOf K w w'"
proof -
  obtain m w1 where r: "retryLoop env (nat (re_MaxRetries env + 1)) 0 (initLocals env) w = (res, err, m, w1)"
    and w': "w' = terminalLog env m err w1"
    using assms(3) by (auto simp: executeRequestWithRetries_def split: prod.splits)
  have "w_calls w' = w_calls w1" by (auto simp: w' terminalLog_def split: prod.split)
  with retryLoop_calls [OF assms(1,2) disjI1 r] show ?thesis by (simp add: callsOf_def)
qed

section \<open>Lemmas: the parts of the worker\<close>

lemma SetModel_single:
  assumes "s \<in> set setModelOrder" "sr_Model r \<noteq> None"
  shows "SetModel m (singleRequest t s r) = singleRequest t s (r\<lparr>sr_Model := Some m\<rparr>)"
  using assms by (auto simp: SetModel_def activeIn_single updateSub_single)

lemma ResolvedAlias_writable: "\<not> writeDropped c BifrostContextKeyResolvedAlias"
  by (simp add: writeDropped_def reservedKeys_def)

lemma Value_attemptContext:
  "Value (attemptContext original k c) BifrostContextKeyResolvedAlias =
     (case ResolveConfig (k_Aliases k) original of Some ac \<Rightarrow> VAlias original ac | None \<Rightarrow> VNil)"
  by (simp add: attemptContext_def SetValue_def ResolvedAlias_writable setReservedValue_def Value_def)

lemma GetResolvedAlias_attempt:
  "GetResolvedAlias (Some (attemptContext original k c)) = map_option (Pair original) (ResolveConfig (k_Aliases k) original)"
  by (simp add: GetResolvedAlias_def Value_attemptContext split: option.split)

text \<open>The flags are not reserved, so writing them always succeeds.\<close>

lemmas rawKeys = writeDropped_def reservedKeys_def SetValue_def setReservedValue_def Value_def

lemma GetRequestFields_model: "GetRequestFields r = (p, m, fs) \<Longrightarrow> fst (snd (GetRequestFields r)) = m"
  by simp

lemma requestKeys_pool:
  assumes "requestKeys env req c s = (Inr (ks, Some kp), s')" "GetRequestFields req = (p, model, fs)"
    and "ctxKey c BifrostContextKeyDirectKey = None"
    and selp: "\<And>ks k'. pe_selector (we_pool env) ks (we_key env) model = Inr k' \<Longrightarrow> k' \<in> set ks"
    and sel: "\<And>n ks k. we_keySelector env n ks = Inr k \<Longrightarrow> k \<in> set ks"
    and flt: "\<And>f n ks ks'. we_keyPoolFilter env = Some f \<Longrightarrow> f n ks = Inr ks' \<Longrightarrow> set ks' \<subseteq> set ks"
  shows "givesOnly (\<lambda>k. \<exists>keys. pe_account (we_pool env) (we_key env) = Inr keys
      \<and> eligible (br_RequestType req) model (baseProviderOf (we_key env) (we_custom env)) keys k) kp"
proof -
  let ?bp = "baseProviderOf (we_key env) (we_custom env)"
  from assms(1,2) obtain pool rot s1 k0 ks0
    where pool: "selectKeyFromProviderForModelWithPool (we_pool env) c (br_RequestType req) (we_key env) model ?bp s
        = (Inr (pool, rot), s1)" "pool = k0 # ks0"
      and kp: "kp = (if rot then rotatingKeyProvider (we_keyPoolFilter env) (we_keySelector env) (we_key env) pool
                     else fixedKeyProvider k0)"
    by (auto simp: requestKeys_def workerKeys_def Let_def split: if_splits sum.splits option.splits prod.splits list.splits)
  have "k \<in> set pool" if "kp n used dead = (Inr k, used')" for n used dead k used'
  proof (cases rot)
    case True
    with that kp have "rotatingKeyProvider (we_keyPoolFilter env) (we_keySelector env) (we_key env) pool n used dead
        = (Inr k, used')" by simp
    then show ?thesis by (rule rotating_from_pool) (fact sel, fact flt)
  next
    case False
    with that kp pool(2) show ?thesis by (simp add: fixedKeyProvider_def split: if_splits)
  qed
  moreover have "\<exists>keys. pe_account (we_pool env) (we_key env) = Inr keys \<and> eligible (br_RequestType req) model ?bp keys k"
    if "k \<in> set pool" for k
    by (rule selected_pool_eligible [where s = s and rot = rot, OF _ assms(3) that selp]) (use pool(1) in simp_all)
  ultimately show ?thesis unfolding givesOnly_def by blast
qed

lemma ctxKey_prepareWorker: "ctxKey (w_ctx (prepareWorker env w)) BifrostContextKeyDirectKey = ctxKey (w_ctx w) BifrostContextKeyDirectKey"
  by (simp add: prepareWorker_def prepareContext_def writeRawSignals_def Let_def ctxKey_def
      clearAnthropicPassthroughForNonNativeProvider_def Value_SetValue_other)

lemma w_calls_prepareWorker: "w_calls (prepareWorker env w) = w_calls w"
  by (simp add: prepareWorker_def)

lemma requestKeys_keyed:
  assumes "requestKeys env req c s = (Inr (ks, kp), s')" "br_RequestType req \<noteq> ListModelsRequest"
    and "\<not> isMultiKeyOp (br_RequestType req)" "providerRequiresKey (we_custom env)"
    and "ctxBool c BifrostContextKeySkipKeySelection \<noteq> Some True"
  shows "kp \<noteq> None"
proof -
  obtain pool rot s1 where sel: "selectKeyFromProviderForModelWithPool (we_pool env) c (br_RequestType req) (we_key env)
      (fst (snd (GetRequestFields req))) (baseProviderOf (we_key env) (we_custom env)) s = (Inr (pool, rot), s1)"
    and kp: "pool \<noteq> [] \<Longrightarrow> kp \<noteq> None"
    using assms(1-4)
    by (auto simp: requestKeys_def workerKeys_def split: if_splits sum.splits option.splits prod.splits list.splits)
  have "pool \<noteq> []"
    using sel assms(5)
    by (auto simp: selectKeyFromProviderForModelWithPool_def selectFromSupported_def supportedKeysFor_def Let_def
        split: if_splits sum.splits option.splits prod.splits)
  then show ?thesis by (rule kp)
qed

lemma processed_calls:
  assumes "requestKeys env req (w_ctx (prepareWorker env w)) s = (Inr (ks, Some kp), s')" "givesOnly K kp"
    and "w' = snd (processRequest env s req w) \<or> w' = snd (processStream env s req w)"
  shows "callsOf K w w'"
proof -
  have fin: "snd (finishRequest env t m w0 (r, e, w2)) = w2" for t m w0 r e w2
    by (auto simp: finishRequest_def split: prod.splits option.splits)
  have stream: "snd (case finishRequest env t m w0 (r, e, w2) of
      (Failed e, w3) \<Rightarrow> (StreamFailed e, w3) | (_, w3) \<Rightarrow> (f w3, w3)) = w2" for t m w0 r e w2 f
    using fin [of t m w0 r e w2] by (auto split: prod.splits served.splits)
  have kp: "re_keyProvider (retryEnvOf env req m (Some kp) h z) = Some kp" for m h z by (simp add: retryEnvOf_def)
  have "callsOf K (prepareWorker env w) w'"
    using assms(3)
  proof
    assume "w' = snd (processRequest env s req w)"
    then show ?thesis
      by (cases "GetRequestFields req")
        (auto simp: processRequest_def assms(1) fin Let_def split: prod.splits intro: run_calls [OF kp assms(2)])
  next
    assume "w' = snd (processStream env s req w)"
    then show ?thesis
      by (cases "GetRequestFields req")
        (auto simp: processStream_def assms(1) stream Let_def split: prod.splits intro: run_calls [OF kp assms(2)])
  qed
  then show ?thesis by (simp add: callsOf_def w_calls_prepareWorker)
qed

lemma ctxBool_prepareWorker:
  "ctxBool (w_ctx (prepareWorker env w)) BifrostContextKeySkipKeySelection = ctxBool (w_ctx w) BifrostContextKeySkipKeySelection"
  by (simp add: prepareWorker_def prepareContext_def writeRawSignals_def Let_def ctxBool_def
      clearAnthropicPassthroughForNonNativeProvider_def Value_SetValue_other)

lemma block_clearAnthropic [simp]:
  "bc_blockRestrictedWrites (clearAnthropicPassthroughForNonNativeProvider b c) = bc_blockRestrictedWrites c"
  by (simp add: clearAnthropicPassthroughForNonNativeProvider_def)

lemma block_prepareContext [simp]: "bc_blockRestrictedWrites (prepareContext b rc c) = bc_blockRestrictedWrites c"
  by (simp add: prepareContext_def writeRawSignals_def Let_def)

lemma Value_SetValue_open: "\<not> bc_blockRestrictedWrites c \<Longrightarrow> Value (SetValue k v c) k' = (if k' = k then v else Value c k')"
  by (simp add: Value_SetValue writeDropped_def)

lemma Value_writeRawSignals:
  assumes "\<not> bc_blockRestrictedWrites c"
  shows "Value (writeRawSignals rc c) k =
    (if k = BifrostContextKeyShouldStoreRawInLogs then VBool (effectiveStore rc c)
     else if k = BifrostContextKeyDropRawResponseFromClient then VBool (effectiveStore rc c \<and> \<not> effectiveSendBackResp rc c)
     else if k = BifrostContextKeyDropRawRequestFromClient then VBool (effectiveStore rc c \<and> \<not> effectiveSendBackReq rc c)
     else if k = BifrostContextKeyCaptureRawResponse then VBool (effectiveSendBackResp rc c \<or> effectiveStore rc c)
     else if k = BifrostContextKeyCaptureRawRequest then VBool (effectiveSendBackReq rc c \<or> effectiveStore rc c)
     else Value c k)"
  using assms by (simp only: writeRawSignals_def Let_def Value_SetValue_open block_SetValue simp_thms if_False if_True split: if_split)

lemma Value_clearAnthropic:
  assumes "\<not> bc_blockRestrictedWrites c"
  shows "Value (clearAnthropicPassthroughForNonNativeProvider b c) k =
    (if ctxString c BifrostContextKeyIntegrationType = Some ''anthropic'' \<and> b \<notin> {Anthropic, Vertex, Azure}
        \<and> k \<in> {BifrostContextKeyPassthroughOverridesPresent, BifrostContextKeySendBackRawResponse, BifrostContextKeyUseRawRequestBody}
     then VBool False else Value c k)"
  using assms by (simp add: clearAnthropicPassthroughForNonNativeProvider_def Value_SetValue_open)

abbreviation passthroughKeys :: "ctxkey set" where
  "passthroughKeys \<equiv> {BifrostContextKeyPassthroughOverridesPresent, BifrostContextKeySendBackRawResponse, BifrostContextKeyUseRawRequestBody}"

abbreviation signalKeys :: "ctxkey set" where
  "signalKeys \<equiv> {BifrostContextKeyShouldStoreRawInLogs, BifrostContextKeyDropRawResponseFromClient,
     BifrostContextKeyDropRawRequestFromClient, BifrostContextKeyCaptureRawResponse, BifrostContextKeyCaptureRawRequest,
     BifrostContextKeyIsCustomProvider}"

lemma Value_prepareContext:
  assumes "\<not> bc_blockRestrictedWrites c" "ctxString c BifrostContextKeyIntegrationType = Some ''anthropic''" "k \<notin> signalKeys"
  shows "Value (prepareContext b rc c) k =
    (if b \<notin> {Anthropic, Vertex, Azure} \<and> k \<in> passthroughKeys then VBool False else Value c k)"
proof -
  let ?c = "SetValue BifrostContextKeyIsCustomProvider (VBool (\<not> IsStandardProvider b)) c"
  have "ctxString ?c BifrostContextKeyIntegrationType = Some ''anthropic''"
    using assms(2) by (simp add: ctxString_def Value_SetValue_other)
  moreover have "Value ?c k = Value c k" using assms(3) by (simp add: Value_SetValue_other)
  moreover have "Value (prepareContext b rc c) k = Value (clearAnthropicPassthroughForNonNativeProvider b ?c) k"
    using assms(1,3) by (simp add: prepareContext_def Value_writeRawSignals)
  ultimately show ?thesis using assms(1) by (simp only: Value_clearAnthropic block_SetValue simp_thms)
qed

section \<open>Properties\<close>


definition sampleSub :: "nat sub_request" where
  "sampleSub = \<lparr>sr_Provider = ''openai'', sr_Model = Some ''best'', sr_Fallbacks = [], sr_RawRequestBody = None, sr_payload = 0\<rparr>"


text \<open>
  C30. The provider is never called with a key the configuration does not allow for the request: for a
  request served with one key (no direct key, keys required and not skipped) every call the worker's
  run makes, streaming or not, on the first attempt or after any rotation, uses an enabled and valid
  key of the account whose lists admit the requested model. The selectors and the filter may choose
  among the keys they are given only.
\<close>

theorem worker_calls_eligible_keys:
  assumes run: "w' = snd (processRequest env s req w) \<or> w' = snd (processStream env s req w)"
    and req: "GetRequestFields req = (p, model, fs)" "br_RequestType req \<noteq> ListModelsRequest" "\<not> isMultiKeyOp (br_RequestType req)"
    and ctx: "ctxKey (w_ctx w) BifrostContextKeyDirectKey = None"
      "ctxBool (w_ctx w) BifrostContextKeySkipKeySelection \<noteq> Some True"
    and keyed: "providerRequiresKey (we_custom env)"
    and selp: "\<And>ks k'. pe_selector (we_pool env) ks (we_key env) model = Inr k' \<Longrightarrow> k' \<in> set ks"
    and sel: "\<And>n ks k. we_keySelector env n ks = Inr k \<Longrightarrow> k \<in> set ks"
    and flt: "\<And>f n ks ks'. we_keyPoolFilter env = Some f \<Longrightarrow> f n ks = Inr ks' \<Longrightarrow> set ks' \<subseteq> set ks"
  shows "\<forall>c\<in>set (drop (length (w_calls w)) (w_calls w')). \<exists>keys. pe_account (we_pool env) (we_key env) = Inr keys
    \<and> eligible (br_RequestType req) model (baseProviderOf (we_key env) (we_custom env)) keys (fst c)"
proof -
  let ?K = "\<lambda>k. \<exists>keys. pe_account (we_pool env) (we_key env) = Inr keys
    \<and> eligible (br_RequestType req) model (baseProviderOf (we_key env) (we_custom env)) keys k"
  let ?w1 = "prepareWorker env w"
  have "callsOf ?K w w'"
  proof (cases "requestKeys env req (w_ctx ?w1) s")
    case (Pair r s')
    show ?thesis
    proof (cases r)
      case (Inl msg)
      then have "w' = ?w1" using run req(1) Pair by (auto simp: processRequest_def processStream_def Let_def)
      then show ?thesis by (simp add: callsOf_same w_calls_prepareWorker)
    next
      case (Inr kk)
      obtain ks kp where k: "requestKeys env req (w_ctx ?w1) s = (Inr (ks, kp), s')" using Inr Pair by (cases kk) simp
      from requestKeys_keyed [OF k req(2,3) keyed] ctx(2) obtain kp' where kp: "kp = Some kp'"
        by (auto simp: ctxBool_prepareWorker)
      have "givesOnly ?K kp'"
        by (rule requestKeys_pool [OF k [unfolded kp] req(1) _ selp]) (simp_all add: ctxKey_prepareWorker ctx(1), (fact sel flt)+)
      with k [unfolded kp] show ?thesis using run by (rule processed_calls)
    qed
  qed
  then show ?thesis by (rule callsOf_drop)
qed

text \<open>A worker of one provider with one key; every method of the provider answers with the ID of the
  key it was called with.\<close>

definition echoProvider :: "(string, nat) provider" where
  "echoProvider = \<lparr>pv_Key = OpenAI,
     pv_call = (\<lambda>m n ka r c. (Some \<lparr>sp_Extra = zeroExtraFields,
        sp_payload = (case ka of OneKey k \<Rightarrow> k_ID k | AllKeys ks \<Rightarrow> concat (map k_ID ks))\<rparr>, None, c)),
     pv_stream = (\<lambda>m n run k r c. (Some [], None, c))\<rparr>"

definition plainConversions :: "(string, nat) conversions" where
  "plainConversions = \<lparr>cv_textToChat = Some, cv_chatToResponses = id, cv_chatToText = Some, cv_responsesToChat = Some,
     cv_chunkToChat = Some, cv_backfill = (\<lambda>s q r. r), cv_setPath = (\<lambda>q r. r)\<rparr>"

definition sampleWorker :: "(string, nat, nat kv_store, nat) worker_env" where
  "sampleWorker = \<lparr>we_provider = echoProvider, we_conv = plainConversions, we_custom = None,
     we_raw = \<lparr>rc_SendBackRawRequest = False, rc_SendBackRawResponse = False, rc_StoreRawRequestResponse = True\<rparr>,
     we_MaxRetries = 0, we_BackoffInitial = 500, we_BackoffMax = 5000, we_pool = pool_sample_env,
     we_keyPoolFilter = None, we_keySelector = (\<lambda>n ks. case ks of [] \<Rightarrow> Inl (KPOther ''none'') | k # _ \<Rightarrow> Inr k),
     we_listKeyID = (\<lambda>_. None), we_jitter = (\<lambda>_ b. b), we_spanID = VOther, we_dur = (\<lambda>_. 0),
     we_nowMilli = int, we_now = VOther, we_plugins = []\<rparr>"

theorem worker_calls_eligible_keys_witness:
  "list_all (\<lambda>c. eligible EmbeddingRequest ''best'' OpenAI
        [zeroKey\<lparr>k_ID := ''a'', k_Value := ''sk'', k_Models := [''*'']\<rparr>] (fst c))
     (w_calls (snd (processRequest sampleWorker kv_sample
        (singleRequest EmbeddingRequest SlotEmbedding sampleSub) retry_world)))"
proof -
  let ?req = "singleRequest EmbeddingRequest SlotEmbedding sampleSub"
  have f: "GetRequestFields ?req = (''openai'', ''best'', [])" by code_simp
  have ctx: "ctxKey (w_ctx retry_world) BifrostContextKeyDirectKey = None"
    "ctxBool (w_ctx retry_world) BifrostContextKeySkipKeySelection \<noteq> Some True"
    by (simp_all add: retry_world_def ctxKey_def ctxBool_def Value_SetValue_other Value_New)
  have fields: "we_pool sampleWorker = pool_sample_env" "we_custom sampleWorker = None" "we_key sampleWorker = OpenAI"
    "we_keyPoolFilter sampleWorker = None"
    and picks: "we_keySelector sampleWorker n ks = Inr k \<Longrightarrow> k \<in> set ks" for n ks k
    by (cases ks; simp add: sampleWorker_def echoProvider_def)+
  have selp: "pe_selector (we_pool sampleWorker) ks (we_key sampleWorker) ''best'' = Inr k \<Longrightarrow> k \<in> set ks" for ks k
    by (cases ks) (simp_all add: fields pool_sample_env_def)
  have keyed: "providerRequiresKey (we_custom sampleWorker)" by (simp add: fields providerRequiresKey_def)
  have calls: "w_calls retry_world = []" by (simp add: retry_world_def)
  have t: "br_RequestType ?req = EmbeddingRequest" by (simp add: singleRequest_def)
  have "\<not> isMultiKeyOp EmbeddingRequest" by code_simp
  then have "\<forall>c\<in>set (drop (length (w_calls retry_world))
        (w_calls (snd (processRequest sampleWorker kv_sample ?req retry_world)))).
      \<exists>keys. pe_account (we_pool sampleWorker) (we_key sampleWorker) = Inr keys
        \<and> eligible (br_RequestType ?req) ''best'' (baseProviderOf (we_key sampleWorker) (we_custom sampleWorker)) keys (fst c)"
    by (intro worker_calls_eligible_keys [OF disjI1 [OF refl] f _ _ ctx keyed])
      (use selp picks in \<open>simp_all add: t fields\<close>)
  then show ?thesis by (simp add: list_all_iff fields calls t baseProviderOf_def) (simp add: pool_sample_env_def)
qed


end
