(* ===== verification/Api.thy ===== *)
theory Api
  imports Worker Fallback
begin

text \<open>
  The public methods of \<^verbatim>\<open>core/bifrost.go\<close>, one per kind of request: the checks of the request in
  their order, the errors they give, the field of the request union the method sets, and the field
  of the response union it returns. Of a request struct the model keeps what the checks read, and
  the rest in its \<open>sub_request\<close>; a slice is given by its length or by whether it is nil. The context
  is not nil here. An outcome None is the nil dereference that ends the process.
\<close>

section \<open>Fields of the unions\<close>

text \<open>For each request type: the field of \<^verbatim>\<open>BifrostRequest\<close> its method sets, and the field of
  \<^verbatim>\<open>BifrostResponse\<close> it returns; streams return the channel.\<close>

fun apiFields :: "request_type \<Rightarrow> (request_slot \<times> response_slot option) option" where
  "apiFields ListModelsRequest = Some (SlotListModels, Some RspListModels)"
| "apiFields TextCompletionRequest = Some (SlotTextCompletion, Some RspTextCompletion)"
| "apiFields TextCompletionStreamRequest = Some (SlotTextCompletion, None)"
| "apiFields ChatCompletionRequest = Some (SlotChat, Some RspChat)"
| "apiFields ChatCompletionStreamRequest = Some (SlotChat, None)"
| "apiFields ResponsesRequest = Some (SlotResponses, Some RspResponses)"
| "apiFields ResponsesStreamRequest = Some (SlotResponses, None)"
| "apiFields EmbeddingRequest = Some (SlotEmbedding, Some RspEmbedding)"
| "apiFields SpeechRequest = Some (SlotSpeech, Some RspSpeech)"
| "apiFields SpeechStreamRequest = Some (SlotSpeech, None)"
| "apiFields TranscriptionRequest = Some (SlotTranscription, Some RspTranscription)"
| "apiFields TranscriptionStreamRequest = Some (SlotTranscription, None)"
| "apiFields ImageGenerationRequest = Some (SlotImageGeneration, Some RspImageGeneration)"
| "apiFields ImageGenerationStreamRequest = Some (SlotImageGeneration, None)"
| "apiFields ImageEditRequest = Some (SlotImageEdit, Some RspImageGeneration)"
| "apiFields ImageEditStreamRequest = Some (SlotImageEdit, None)"
| "apiFields VideoGenerationRequest = Some (SlotVideoGeneration, Some RspVideoGeneration)"
| "apiFields VideoRetrieveRequest = Some (SlotVideoRetrieve, Some RspVideoGeneration)"
| "apiFields VideoDownloadRequest = Some (SlotVideoDownload, Some RspVideoDownload)"
| "apiFields VideoDeleteRequest = Some (SlotVideoDelete, Some RspVideoDelete)"
| "apiFields VideoListRequest = Some (SlotVideoList, Some RspVideoList)"
| "apiFields VideoRemixRequest = Some (SlotVideoRemix, Some RspVideoGeneration)"
| "apiFields BatchCreateRequest = Some (SlotBatchCreate, Some RspBatchCreate)"
| "apiFields BatchListRequest = Some (SlotBatchList, Some RspBatchList)"
| "apiFields BatchRetrieveRequest = Some (SlotBatchRetrieve, Some RspBatchRetrieve)"
| "apiFields BatchCancelRequest = Some (SlotBatchCancel, Some RspBatchCancel)"
| "apiFields BatchResultsRequest = Some (SlotBatchResults, Some RspBatchResults)"
| "apiFields BatchDeleteRequest = Some (SlotBatchDelete, Some RspBatchDelete)"
| "apiFields FileUploadRequest = Some (SlotFileUpload, Some RspFileUpload)"
| "apiFields FileListRequest = Some (SlotFileList, Some RspFileList)"
| "apiFields FileRetrieveRequest = Some (SlotFileRetrieve, Some RspFileRetrieve)"
| "apiFields FileDeleteRequest = Some (SlotFileDelete, Some RspFileDelete)"
| "apiFields FileContentRequest = Some (SlotFileContent, Some RspFileContent)"
| "apiFields CachedContentCreateRequest = Some (SlotCachedContentCreate, Some RspCachedContentCreate)"
| "apiFields CachedContentListRequest = Some (SlotCachedContentList, Some RspCachedContentList)"
| "apiFields CachedContentRetrieveRequest = Some (SlotCachedContentRetrieve, Some RspCachedContentRetrieve)"
| "apiFields CachedContentUpdateRequest = Some (SlotCachedContentUpdate, Some RspCachedContentUpdate)"
| "apiFields CachedContentDeleteRequest = Some (SlotCachedContentDelete, Some RspCachedContentDelete)"
| "apiFields ContainerCreateRequest = Some (SlotContainerCreate, Some RspContainerCreate)"
| "apiFields ContainerListRequest = Some (SlotContainerList, Some RspContainerList)"
| "apiFields ContainerRetrieveRequest = Some (SlotContainerRetrieve, Some RspContainerRetrieve)"
| "apiFields ContainerDeleteRequest = Some (SlotContainerDelete, Some RspContainerDelete)"
| "apiFields ContainerFileCreateRequest = Some (SlotContainerFileCreate, Some RspContainerFileCreate)"
| "apiFields ContainerFileListRequest = Some (SlotContainerFileList, Some RspContainerFileList)"
| "apiFields ContainerFileRetrieveRequest = Some (SlotContainerFileRetrieve, Some RspContainerFileRetrieve)"
| "apiFields ContainerFileContentRequest = Some (SlotContainerFileContent, Some RspContainerFileContent)"
| "apiFields ContainerFileDeleteRequest = Some (SlotContainerFileDelete, Some RspContainerFileDelete)"
| "apiFields RerankRequest = Some (SlotRerank, Some RspRerank)"
| "apiFields OCRRequest = Some (SlotOCR, Some RspOCR)"
| "apiFields CountTokensRequest = Some (SlotCountTokens, Some RspCountTokens)"
| "apiFields CompactionRequest = Some (SlotCompaction, Some RspCompaction)"
| "apiFields PassthroughRequest = Some (SlotPassthrough, Some RspPassthrough)"
| "apiFields PassthroughStreamRequest = Some (SlotPassthrough, None)"
| "apiFields UnknownRequest = None"

section \<open>Errors and answers\<close>

text \<open>The four kinds of errors of the methods, by what they say about the request.\<close>

definition bareError :: "string \<Rightarrow> bifrost_error" where
  "bareError msg = newBifrostErrorFromMsg msg"

definition typedError :: "request_type \<Rightarrow> string \<Rightarrow> bifrost_error" where
  "typedError t msg = (bareError msg)\<lparr>be_ExtraFields := zeroExtraFields\<lparr>xf_RequestType := Some t\<rparr>\<rparr>"

definition providerError :: "request_type \<Rightarrow> 'q sub_request \<Rightarrow> string \<Rightarrow> bifrost_error" where
  "providerError t r msg =
     (bareError msg)\<lparr>be_ExtraFields := zeroExtraFields\<lparr>xf_RequestType := Some t, xf_Provider := sr_Provider r\<rparr>\<rparr>"

definition modelOf :: "'q sub_request \<Rightarrow> string" where
  "modelOf r = (case sr_Model r of Some m \<Rightarrow> m | None \<Rightarrow> [])"

definition requestError :: "request_type \<Rightarrow> 'q sub_request \<Rightarrow> string \<Rightarrow> bifrost_error" where
  "requestError t r msg =
     (bareError msg)\<lparr>be_ExtraFields := zeroExtraFields\<lparr>xf_RequestType := Some t, xf_Provider := sr_Provider r,
        xf_OriginalModelRequested := modelOf r, xf_ResolvedModelUsed := modelOf r\<rparr>\<rparr>"

type_synonym 'r api_outcome = "('r option \<times> bifrost_error option \<times> world) option"

definition refuse :: "bifrost_error \<Rightarrow> world \<Rightarrow> 'r api_outcome" where
  "refuse e w = Some (None, Some e, w)"

definition buildRequest :: "request_type \<Rightarrow> 'q sub_request \<Rightarrow> 'q bifrost_request" where
  "buildRequest t r =
     (case apiFields t of
        Some (q, _) \<Rightarrow> singleRequest t q r
      | None \<Rightarrow> \<lparr>br_RequestType = t, br_sub = (\<lambda>_. None)\<rparr>)"

definition returnField ::
  "request_type \<Rightarrow> 'p bifrost_response api_outcome \<Rightarrow> 'p sub_response api_outcome" where
  "returnField t out =
     (case out of
        None \<Rightarrow> None
      | Some (_, Some e, w) \<Rightarrow> refuse e w
      | Some (None, None, w) \<Rightarrow> None
      | Some (Some resp, None, w) \<Rightarrow>
          Some ((case apiFields t of Some (_, Some s) \<Rightarrow> rs_sub resp s | _ \<Rightarrow> None), None, w))"

text \<open>Some methods return an error instead of a nil answer.\<close>

definition returnFieldOr ::
  "bifrost_error \<Rightarrow> request_type \<Rightarrow> 'p bifrost_response api_outcome \<Rightarrow> 'p sub_response api_outcome" where
  "returnFieldOr nilError t out =
     (case out of
        None \<Rightarrow> None
      | Some (_, Some e, w) \<Rightarrow> refuse e w
      | Some (None, None, w) \<Rightarrow> refuse nilError w
      | Some (Some resp, None, w) \<Rightarrow>
          (case (case apiFields t of Some (_, Some s) \<Rightarrow> rs_sub resp s | _ \<Rightarrow> None) of
             None \<Rightarrow> refuse nilError w
           | Some x \<Rightarrow> Some (Some x, None, w)))"

definition callRequest ::
  "('p, 'q) route_env \<Rightarrow> request_type \<Rightarrow> 'q sub_request \<Rightarrow> world \<Rightarrow> 'p sub_response api_outcome" where
  "callRequest env t r w = returnField t (handleRequest env (buildRequest t r) w)"

definition callRequestOr ::
  "bifrost_error \<Rightarrow> ('p, 'q) route_env \<Rightarrow> request_type \<Rightarrow> 'q sub_request \<Rightarrow> world \<Rightarrow> 'p sub_response api_outcome" where
  "callRequestOr nilError env t r w = returnFieldOr nilError t (handleRequest env (buildRequest t r) w)"

definition callStream ::
  "('p, 'q) route_env \<Rightarrow> request_type \<Rightarrow> 'q sub_request \<Rightarrow> world \<Rightarrow> 'p stream api_outcome" where
  "callStream env t r w = handleStreamRequest env (buildRequest t r) w"

definition isLargePayloadPassthrough :: "bctx \<Rightarrow> bool" where
  "isLargePayloadPassthrough c \<longleftrightarrow>
     GetBoolFromContext c BifrostContextKeyLargePayloadMode \<and> Value c BifrostContextKeyLargePayloadReader \<noteq> VNil"

abbreviation largePayload :: "world \<Rightarrow> bool" where
  "largePayload w \<equiv> isLargePayloadPassthrough (w_ctx w)"

section \<open>Models, completions and chats\<close>

text \<open>The list of models runs in a context of its own, which inherits the caller's and lifts the
  budget and rate limits.\<close>

definition listModelsContext :: "bctx \<Rightarrow> bctx" where
  "listModelsContext c = SetValue BifrostContextKeySkipBudgetAndRateLimits (VBool True) (NewBifrostContext (Value c))"

definition restoreContext :: "bctx \<Rightarrow> 'r api_outcome \<Rightarrow> 'r api_outcome" where
  "restoreContext c out = map_option (\<lambda>(r, e, w). (r, e, w\<lparr>w_ctx := c\<rparr>)) out"

definition api_ListModelsRequest :: "('p, 'q) route_env \<Rightarrow> 'q sub_request option \<Rightarrow> world \<Rightarrow> 'p sub_response api_outcome" where
  "api_ListModelsRequest env req w =
     (case req of
        None \<Rightarrow> refuse (typedError ListModelsRequest ''list models request is nil'') w
      | Some r \<Rightarrow>
          if sr_Provider r = []
            then refuse (typedError ListModelsRequest ''provider is required for list models request'') w
          else restoreContext (w_ctx w) (callRequest env ListModelsRequest r (w\<lparr>w_ctx := listModelsContext (w_ctx w)\<rparr>)))"

text \<open>\<^verbatim>\<open>Input\<close> with its \<^verbatim>\<open>PromptStr\<close> and \<^verbatim>\<open>PromptArray\<close>.\<close>

record 'q text_request =
  tq_Input :: "(string option \<times> string list option) option"
  tq_sub :: "'q sub_request"

definition promptMissing :: "(string option \<times> string list option) option \<Rightarrow> bool" where
  "promptMissing i = (case i of None \<Rightarrow> True | Some (s, a) \<Rightarrow> s = None \<and> a = None)"

definition api_TextCompletionRequest :: "('p, 'q) route_env \<Rightarrow> 'q text_request option \<Rightarrow> world \<Rightarrow> 'p sub_response api_outcome" where
  "api_TextCompletionRequest env req w =
     (case req of
        None \<Rightarrow> refuse (typedError TextCompletionRequest ''text completion request is nil'') w
      | Some r \<Rightarrow>
          if promptMissing (tq_Input r) \<and> \<not> largePayload w
            then refuse (requestError TextCompletionRequest (tq_sub r) ''prompt not provided for text completion request'') w
          else callRequest env TextCompletionRequest (tq_sub r) w)"

definition api_TextCompletionStreamRequest :: "('p, 'q) route_env \<Rightarrow> 'q text_request option \<Rightarrow> world \<Rightarrow> 'p stream api_outcome" where
  "api_TextCompletionStreamRequest env req w =
     (case req of
        None \<Rightarrow> refuse (typedError TextCompletionStreamRequest ''text completion stream request is nil'') w
      | Some r \<Rightarrow>
          if promptMissing (tq_Input r) \<and> \<not> largePayload w
            then refuse (requestError TextCompletionStreamRequest (tq_sub r) ''text not provided for text completion stream request'') w
          else callStream env TextCompletionStreamRequest (tq_sub r) w)"

text \<open>A chat, Responses or token-count request: whether \<^verbatim>\<open>Input\<close> is nil.\<close>

record 'q input_request =
  iq_InputNil :: "bool"
  iq_sub :: "'q sub_request"

definition api_ChatCompletionRequest :: "('p, 'q) route_env \<Rightarrow> 'q input_request option \<Rightarrow> world \<Rightarrow> 'p sub_response api_outcome" where
  "api_ChatCompletionRequest env req w =
     (case req of
        None \<Rightarrow> refuse (typedError ChatCompletionRequest ''chat completion request is nil'') w
      | Some r \<Rightarrow>
          if iq_InputNil r \<and> \<not> largePayload w
            then refuse (requestError ChatCompletionRequest (iq_sub r) ''chats not provided for chat completion request'') w
          else callRequest env ChatCompletionRequest (iq_sub r) w)"

definition api_ChatCompletionStreamRequest :: "('p, 'q) route_env \<Rightarrow> 'q input_request option \<Rightarrow> world \<Rightarrow> 'p stream api_outcome" where
  "api_ChatCompletionStreamRequest env req w =
     (case req of
        None \<Rightarrow> refuse (typedError ChatCompletionStreamRequest ''chat completion stream request is nil'') w
      | Some r \<Rightarrow>
          if iq_InputNil r \<and> \<not> largePayload w
            then refuse (requestError ChatCompletionStreamRequest (iq_sub r) ''chats not provided for chat completion request'') w
          else callStream env ChatCompletionStreamRequest (iq_sub r) w)"

definition api_ResponsesRequest :: "('p, 'q) route_env \<Rightarrow> 'q input_request option \<Rightarrow> world \<Rightarrow> 'p sub_response api_outcome" where
  "api_ResponsesRequest env req w =
     (case req of
        None \<Rightarrow> refuse (typedError ResponsesRequest ''responses request is nil'') w
      | Some r \<Rightarrow>
          if iq_InputNil r \<and> \<not> GetBoolFromContext (w_ctx w) BifrostContextKeyLargePayloadMode
            then refuse (requestError ResponsesRequest (iq_sub r) ''responses not provided for responses request'') w
          else callRequest env ResponsesRequest (iq_sub r) w)"

definition api_ResponsesStreamRequest :: "('p, 'q) route_env \<Rightarrow> 'q input_request option \<Rightarrow> world \<Rightarrow> 'p stream api_outcome" where
  "api_ResponsesStreamRequest env req w =
     (case req of
        None \<Rightarrow> refuse (typedError ResponsesStreamRequest ''responses stream request is nil'') w
      | Some r \<Rightarrow>
          if iq_InputNil r \<and> \<not> GetBoolFromContext (w_ctx w) BifrostContextKeyLargePayloadMode
            then refuse (requestError ResponsesStreamRequest (iq_sub r) ''responses not provided for responses stream request'') w
          else callStream env ResponsesStreamRequest (iq_sub r) w)"

definition api_CountTokensRequest :: "('p, 'q) route_env \<Rightarrow> 'q input_request option \<Rightarrow> world \<Rightarrow> 'p sub_response api_outcome" where
  "api_CountTokensRequest env req w =
     (case req of
        None \<Rightarrow> refuse (typedError CountTokensRequest ''count tokens request is nil'') w
      | Some r \<Rightarrow>
          if iq_InputNil r \<and> \<not> largePayload w
            then refuse (requestError CountTokensRequest (iq_sub r) ''input not provided for count tokens request'') w
          else callRequest env CountTokensRequest (iq_sub r) w)"

record 'q compaction_request =
  cq_InputLen :: "nat"
  cq_PreviousResponseID :: "string option"
  cq_sub :: "'q sub_request"

definition api_CompactionRequest :: "('p, 'q) route_env \<Rightarrow> 'q compaction_request option \<Rightarrow> world \<Rightarrow> 'p sub_response api_outcome" where
  "api_CompactionRequest env req w =
     (case req of
        None \<Rightarrow> refuse (typedError CompactionRequest ''compaction request is nil'') w
      | Some r \<Rightarrow>
          if cq_InputLen r = 0 \<and> cq_PreviousResponseID r = None \<and> \<not> largePayload w
            then refuse (requestError CompactionRequest (cq_sub r) ''input not provided for compaction request'') w
          else callRequest env CompactionRequest (cq_sub r) w)"

section \<open>Embeddings, ranking and documents\<close>

record embedding_input =
  ei_Text :: "string option"
  ei_Texts :: "string list option"
  ei_EmbeddingNil :: bool
  ei_EmbeddingsNil :: bool

text \<open>\<^verbatim>\<open>ExtraParams\<close> is given by its keys with a value.\<close>

record 'q embedding_request =
  eq_Input :: "embedding_input option"
  eq_ExtraParams :: "string list"
  eq_sub :: "'q sub_request"

definition api_EmbeddingRequest :: "('p, 'q) route_env \<Rightarrow> 'q embedding_request option \<Rightarrow> world \<Rightarrow> 'p sub_response api_outcome" where
  "api_EmbeddingRequest env req w =
     (case req of
        None \<Rightarrow> refuse (typedError EmbeddingRequest ''embedding request is nil'') w
      | Some r \<Rightarrow>
          if (case eq_Input r of
                None \<Rightarrow> True
              | Some i \<Rightarrow> ei_Text i = None \<and> ei_Texts i = None \<and> ei_EmbeddingNil i \<and> ei_EmbeddingsNil i)
             \<and> \<not> (''inputs'' \<in> set (eq_ExtraParams r) \<or> ''images'' \<in> set (eq_ExtraParams r)) \<and> \<not> largePayload w
            then refuse (requestError EmbeddingRequest (eq_sub r) ''embedding input not provided for embedding request'') w
          else callRequest env EmbeddingRequest (eq_sub r) w)"

text \<open>A document is its text.\<close>

record 'q rerank_request =
  rq_Query :: "string"
  rq_Documents :: "string list"
  rq_sub :: "'q sub_request"

fun firstBlank :: "nat \<Rightarrow> string list \<Rightarrow> nat option" where
  "firstBlank i [] = None"
| "firstBlank i (d # ds) = (if trimSpace d = [] then Some i else firstBlank (Suc i) ds)"

definition api_RerankRequest :: "('p, 'q) route_env \<Rightarrow> 'q rerank_request option \<Rightarrow> world \<Rightarrow> 'p sub_response api_outcome" where
  "api_RerankRequest env req w =
     (case req of
        None \<Rightarrow> refuse (typedError RerankRequest ''rerank request is nil'') w
      | Some r \<Rightarrow>
          if trimSpace (rq_Query r) = []
            then refuse (requestError RerankRequest (rq_sub r) ''query not provided for rerank request'') w
          else if rq_Documents r = []
            then refuse (requestError RerankRequest (rq_sub r) ''documents not provided for rerank request'') w
          else if firstBlank 0 (rq_Documents r) \<noteq> None
            then refuse (requestError RerankRequest (rq_sub r) (''document text is empty at index '' @ itoa (int (the (firstBlank 0 (rq_Documents r)))))) w
          else callRequest env RerankRequest (rq_sub r) w)"

record 'q ocr_request =
  oq_Type :: "string"
  oq_DocumentURL :: "string option"
  oq_ImageURL :: "string option"
  oq_sub :: "'q sub_request"

definition absentOrBlank :: "string option \<Rightarrow> bool" where
  "absentOrBlank u = (case u of None \<Rightarrow> True | Some s \<Rightarrow> trimSpace s = [])"

definition api_OCRRequest :: "('p, 'q) route_env \<Rightarrow> 'q ocr_request option \<Rightarrow> world \<Rightarrow> 'p sub_response api_outcome" where
  "api_OCRRequest env req w =
     (case req of
        None \<Rightarrow> refuse (typedError OCRRequest ''ocr request is nil'') w
      | Some r \<Rightarrow>
          if trimSpace (oq_Type r) = []
            then refuse (requestError OCRRequest (oq_sub r) ''document type not provided for ocr request'') w
          else if oq_Type r = ''document_url'' \<and> absentOrBlank (oq_DocumentURL r)
            then refuse (requestError OCRRequest (oq_sub r) ''document_url not provided for document_url type ocr request'') w
          else if oq_Type r = ''image_url'' \<and> absentOrBlank (oq_ImageURL r)
            then refuse (requestError OCRRequest (oq_sub r) ''image_url not provided for image_url type ocr request'') w
          else callRequest env OCRRequest (oq_sub r) w)"

section \<open>Speech, images and video\<close>

text \<open>\<^verbatim>\<open>Input\<close> with its text.\<close>

record 'q speech_request =
  sq_Input :: "string option"
  sq_sub :: "'q sub_request"

definition api_SpeechRequest :: "('p, 'q) route_env \<Rightarrow> 'q speech_request option \<Rightarrow> world \<Rightarrow> 'p sub_response api_outcome" where
  "api_SpeechRequest env req w =
     (case req of
        None \<Rightarrow> refuse (typedError SpeechRequest ''speech request is nil'') w
      | Some r \<Rightarrow>
          if sq_Input r \<in> {None, Some []} \<and> \<not> largePayload w
            then refuse (requestError SpeechRequest (sq_sub r) ''speech input not provided for speech request'') w
          else callRequest env SpeechRequest (sq_sub r) w)"

definition api_SpeechStreamRequest :: "('p, 'q) route_env \<Rightarrow> 'q speech_request option \<Rightarrow> world \<Rightarrow> 'p stream api_outcome" where
  "api_SpeechStreamRequest env req w =
     (case req of
        None \<Rightarrow> refuse (typedError SpeechStreamRequest ''speech stream request is nil'') w
      | Some r \<Rightarrow>
          if sq_Input r \<in> {None, Some []} \<and> \<not> largePayload w
            then refuse (requestError SpeechStreamRequest (sq_sub r) ''speech input not provided for speech stream request'') w
          else callStream env SpeechStreamRequest (sq_sub r) w)"

text \<open>\<^verbatim>\<open>Input\<close> with its file, which may be nil.\<close>

record 'q transcription_request =
  nq_Input :: "string option option"
  nq_sub :: "'q sub_request"

definition api_TranscriptionRequest :: "('p, 'q) route_env \<Rightarrow> 'q transcription_request option \<Rightarrow> world \<Rightarrow> 'p sub_response api_outcome" where
  "api_TranscriptionRequest env req w =
     (case req of
        None \<Rightarrow> refuse (typedError TranscriptionRequest ''transcription request is nil'') w
      | Some r \<Rightarrow>
          if nq_Input r \<in> {None, Some None} \<and> \<not> largePayload w
            then refuse (requestError TranscriptionRequest (nq_sub r) ''transcription input not provided for transcription request'') w
          else callRequest env TranscriptionRequest (nq_sub r) w)"

definition api_TranscriptionStreamRequest :: "('p, 'q) route_env \<Rightarrow> 'q transcription_request option \<Rightarrow> world \<Rightarrow> 'p stream api_outcome" where
  "api_TranscriptionStreamRequest env req w =
     (case req of
        None \<Rightarrow> refuse (typedError TranscriptionStreamRequest ''transcription stream request is nil'') w
      | Some r \<Rightarrow>
          if nq_Input r \<in> {None, Some None} \<and> \<not> largePayload w
            then refuse (requestError TranscriptionStreamRequest (nq_sub r) ''transcription input not provided for transcription stream request'') w
          else callStream env TranscriptionStreamRequest (nq_sub r) w)"

text \<open>\<^verbatim>\<open>Input\<close> with its prompt.\<close>

record 'q prompt_request =
  pq_Prompt :: "string option"
  pq_sub :: "'q sub_request"

definition api_ImageGenerationRequest :: "('p, 'q) route_env \<Rightarrow> 'q prompt_request option \<Rightarrow> world \<Rightarrow> 'p sub_response api_outcome" where
  "api_ImageGenerationRequest env req w =
     (case req of
        None \<Rightarrow> refuse (typedError ImageGenerationRequest ''image generation request is nil'') w
      | Some r \<Rightarrow>
          if pq_Prompt r \<in> {None, Some []} \<and> \<not> largePayload w
            then refuse (requestError ImageGenerationRequest (pq_sub r) ''prompt not provided for image generation request'') w
          else callRequestOr (requestError ImageGenerationRequest (pq_sub r) ''received nil response from provider'') env ImageGenerationRequest (pq_sub r) w)"

definition api_ImageGenerationStreamRequest :: "('p, 'q) route_env \<Rightarrow> 'q prompt_request option \<Rightarrow> world \<Rightarrow> 'p stream api_outcome" where
  "api_ImageGenerationStreamRequest env req w =
     (case req of
        None \<Rightarrow> refuse (typedError ImageGenerationStreamRequest ''image generation stream request is nil'') w
      | Some r \<Rightarrow>
          if pq_Prompt r \<in> {None, Some []} \<and> \<not> largePayload w
            then refuse (requestError ImageGenerationStreamRequest (pq_sub r) ''prompt not provided for image generation stream request'') w
          else callStream env ImageGenerationStreamRequest (pq_sub r) w)"

text \<open>\<^verbatim>\<open>Input\<close> with the number of its images and its prompt; \<^verbatim>\<open>Params.Type\<close>.\<close>

record 'q image_edit_request =
  gq_Input :: "(nat \<times> string) option"
  gq_Type :: "string option"
  gq_sub :: "'q sub_request"

definition api_ImageEditRequest :: "('p, 'q) route_env \<Rightarrow> 'q image_edit_request option \<Rightarrow> world \<Rightarrow> 'p sub_response api_outcome" where
  "api_ImageEditRequest env req w =
     (case req of
        None \<Rightarrow> refuse (typedError ImageEditRequest ''image edit request is nil'') w
      | Some r \<Rightarrow>
          if (case gq_Input r of None \<Rightarrow> True | Some (images, _) \<Rightarrow> images = 0) \<and> \<not> largePayload w
            then refuse (requestError ImageEditRequest (gq_sub r) ''images not provided for image edit request'') w
          else if \<not> isPromptOptionalImageEditType (gq_Type r)
             \<and> (case gq_Input r of None \<Rightarrow> True | Some (_, prompt) \<Rightarrow> prompt = []) \<and> \<not> largePayload w
            then refuse (requestError ImageEditRequest (gq_sub r) ''prompt not provided for image edit request'') w
          else callRequestOr (requestError ImageEditRequest (gq_sub r) ''received nil response from provider'') env ImageEditRequest (gq_sub r) w)"

definition api_ImageEditStreamRequest :: "('p, 'q) route_env \<Rightarrow> 'q image_edit_request option \<Rightarrow> world \<Rightarrow> 'p stream api_outcome" where
  "api_ImageEditStreamRequest env req w =
     (case req of
        None \<Rightarrow> refuse (typedError ImageEditStreamRequest ''image edit stream request is nil'') w
      | Some r \<Rightarrow>
          if (case gq_Input r of None \<Rightarrow> True | Some (images, _) \<Rightarrow> images = 0) \<and> \<not> largePayload w
            then refuse (requestError ImageEditStreamRequest (gq_sub r) ''images not provided for image edit stream request'') w
          else if \<not> isPromptOptionalImageEditType (gq_Type r)
             \<and> (case gq_Input r of None \<Rightarrow> True | Some (_, prompt) \<Rightarrow> prompt = []) \<and> \<not> largePayload w
            then refuse (requestError ImageEditStreamRequest (gq_sub r) ''prompt not provided for image edit stream request'') w
          else callStream env ImageEditStreamRequest (gq_sub r) w)"

definition api_VideoGenerationRequest :: "('p, 'q) route_env \<Rightarrow> 'q prompt_request option \<Rightarrow> world \<Rightarrow> 'p sub_response api_outcome" where
  "api_VideoGenerationRequest env req w =
     (case req of
        None \<Rightarrow> refuse (typedError VideoGenerationRequest ''video generation request is nil'') w
      | Some r \<Rightarrow>
          if pq_Prompt r \<in> {None, Some []}
            then refuse (requestError VideoGenerationRequest (pq_sub r) ''prompt not provided for video generation request'') w
          else callRequestOr (requestError VideoGenerationRequest (pq_sub r) ''received nil response from provider'') env VideoGenerationRequest (pq_sub r) w)"

text \<open>A request about one object: its \<^verbatim>\<open>ID\<close>, \<^verbatim>\<open>BatchID\<close>, \<^verbatim>\<open>FileID\<close>, \<^verbatim>\<open>ContainerID\<close> or \<^verbatim>\<open>Name\<close>.\<close>

record 'q id_request =
  dq_ID :: "string"
  dq_sub :: "'q sub_request"

definition api_VideoRetrieveRequest :: "('p, 'q) route_env \<Rightarrow> 'q id_request option \<Rightarrow> world \<Rightarrow> 'p sub_response api_outcome" where
  "api_VideoRetrieveRequest env req w =
     (case req of
        None \<Rightarrow> refuse (typedError VideoRetrieveRequest ''video retrieve request is nil'') w
      | Some r \<Rightarrow>
          if sr_Provider (dq_sub r) = []
            then refuse (typedError VideoRetrieveRequest ''provider is required for video retrieve request'') w
          else if dq_ID r = []
            then refuse (providerError VideoRetrieveRequest (dq_sub r) ''video_id is required for video retrieve request'') w
          else callRequestOr (providerError VideoRetrieveRequest (dq_sub r) ''received nil response from provider'') env VideoRetrieveRequest (dq_sub r) w)"

definition api_VideoDownloadRequest :: "('p, 'q) route_env \<Rightarrow> 'q id_request option \<Rightarrow> world \<Rightarrow> 'p sub_response api_outcome" where
  "api_VideoDownloadRequest env req w =
     (case req of
        None \<Rightarrow> refuse (typedError VideoDownloadRequest ''video download request is nil'') w
      | Some r \<Rightarrow>
          if sr_Provider (dq_sub r) = []
            then refuse (typedError VideoDownloadRequest ''provider is required for video download request'') w
          else if dq_ID r = []
            then refuse (providerError VideoDownloadRequest (dq_sub r) ''video_id is required for video download request'') w
          else callRequest env VideoDownloadRequest (dq_sub r) w)"

record 'q remix_request =
  vq_ID :: "string"
  vq_Prompt :: "string option"
  vq_sub :: "'q sub_request"

definition api_VideoRemixRequest :: "('p, 'q) route_env \<Rightarrow> 'q remix_request option \<Rightarrow> world \<Rightarrow> 'p sub_response api_outcome" where
  "api_VideoRemixRequest env req w =
     (case req of
        None \<Rightarrow> refuse (typedError VideoRemixRequest ''video remix request is nil'') w
      | Some r \<Rightarrow>
          if sr_Provider (vq_sub r) = []
            then refuse (typedError VideoRemixRequest ''provider is required for video remix request'') w
          else if vq_ID r = []
            then refuse (providerError VideoRemixRequest (vq_sub r) ''video_id is required for video remix request'') w
          else if vq_Prompt r \<in> {None, Some []}
            then refuse (providerError VideoRemixRequest (vq_sub r) ''prompt is required for video remix request'') w
          else callRequestOr (providerError VideoRemixRequest (vq_sub r) ''received nil response from provider'') env VideoRemixRequest (vq_sub r) w)"

definition api_VideoListRequest :: "('p, 'q) route_env \<Rightarrow> 'q sub_request option \<Rightarrow> world \<Rightarrow> 'p sub_response api_outcome" where
  "api_VideoListRequest env req w =
     (case req of
        None \<Rightarrow> refuse (typedError VideoListRequest ''video list request is nil'') w
      | Some r \<Rightarrow>
          if sr_Provider r = []
            then refuse (typedError VideoListRequest ''provider is required for video list request'') w
          else callRequest env VideoListRequest r w)"

definition api_VideoDeleteRequest :: "('p, 'q) route_env \<Rightarrow> 'q id_request option \<Rightarrow> world \<Rightarrow> 'p sub_response api_outcome" where
  "api_VideoDeleteRequest env req w =
     (case req of
        None \<Rightarrow> refuse (typedError VideoDeleteRequest ''video delete request is nil'') w
      | Some r \<Rightarrow>
          if sr_Provider (dq_sub r) = []
            then refuse (typedError VideoDeleteRequest ''provider is required for video delete request'') w
          else if dq_ID r = []
            then refuse (providerError VideoDeleteRequest (dq_sub r) ''video_id is required for video delete request'') w
          else callRequest env VideoDeleteRequest (dq_sub r) w)"

section \<open>Batches and files\<close>

text \<open>The number of its requests.\<close>

record 'q batch_create_request =
  hq_InputFileID :: "string"
  hq_Requests :: "nat"
  hq_InputBlob :: "string option"
  hq_sub :: "'q sub_request"

text \<open>The provider has to be initialised or configured (\<^verbatim>\<open>getProviderByKey\<close>).\<close>

definition api_BatchCreateRequest :: "(string \<Rightarrow> bool) \<Rightarrow> ('p, 'q) route_env \<Rightarrow> 'q batch_create_request option \<Rightarrow> world \<Rightarrow> 'p sub_response api_outcome" where
  "api_BatchCreateRequest hasProvider env req w =
     (case req of
        None \<Rightarrow> refuse (bareError ''batch create request is nil'') w
      | Some r \<Rightarrow>
          if sr_Provider (hq_sub r) = []
            then refuse (bareError ''provider is required for batch create request'') w
          else if hq_InputFileID r = [] \<and> hq_Requests r = 0 \<and> absentOrBlank (hq_InputBlob r)
            then refuse (bareError ''either input_file_id, input_blob, or requests is required for batch create request'') w
          else if \<not> hasProvider (sr_Provider (hq_sub r))
            then refuse (bareError ''provider not found for batch create request'') w
          else callRequest env BatchCreateRequest (hq_sub r) w)"

definition api_BatchListRequest :: "('p, 'q) route_env \<Rightarrow> 'q sub_request option \<Rightarrow> world \<Rightarrow> 'p sub_response api_outcome" where
  "api_BatchListRequest env req w =
     (case req of
        None \<Rightarrow> refuse (bareError ''batch list request is nil'') w
      | Some r \<Rightarrow>
          if sr_Provider r = []
            then refuse (bareError ''provider is required for batch list request'') w
          else callRequest env BatchListRequest r w)"

definition api_BatchRetrieveRequest :: "('p, 'q) route_env \<Rightarrow> 'q id_request option \<Rightarrow> world \<Rightarrow> 'p sub_response api_outcome" where
  "api_BatchRetrieveRequest env req w =
     (case req of
        None \<Rightarrow> refuse (bareError ''batch retrieve request is nil'') w
      | Some r \<Rightarrow>
          if sr_Provider (dq_sub r) = []
            then refuse (bareError ''provider is required for batch retrieve request'') w
          else if dq_ID r = []
            then refuse (bareError ''batch_id is required for batch retrieve request'') w
          else callRequest env BatchRetrieveRequest (dq_sub r) w)"

definition api_BatchCancelRequest :: "('p, 'q) route_env \<Rightarrow> 'q id_request option \<Rightarrow> world \<Rightarrow> 'p sub_response api_outcome" where
  "api_BatchCancelRequest env req w =
     (case req of
        None \<Rightarrow> refuse (bareError ''batch cancel request is nil'') w
      | Some r \<Rightarrow>
          if sr_Provider (dq_sub r) = []
            then refuse (bareError ''provider is required for batch cancel request'') w
          else if dq_ID r = []
            then refuse (bareError ''batch_id is required for batch cancel request'') w
          else callRequest env BatchCancelRequest (dq_sub r) w)"

definition api_BatchDeleteRequest :: "('p, 'q) route_env \<Rightarrow> 'q id_request option \<Rightarrow> world \<Rightarrow> 'p sub_response api_outcome" where
  "api_BatchDeleteRequest env req w =
     (case req of
        None \<Rightarrow> refuse (bareError ''batch delete request is nil'') w
      | Some r \<Rightarrow>
          if sr_Provider (dq_sub r) = []
            then refuse (bareError ''provider is required for batch delete request'') w
          else if dq_ID r = []
            then refuse (bareError ''batch_id is required for batch delete request'') w
          else callRequest env BatchDeleteRequest (dq_sub r) w)"

definition api_BatchResultsRequest :: "('p, 'q) route_env \<Rightarrow> 'q id_request option \<Rightarrow> world \<Rightarrow> 'p sub_response api_outcome" where
  "api_BatchResultsRequest env req w =
     (case req of
        None \<Rightarrow> refuse (typedError BatchResultsRequest ''batch results request is nil'') w
      | Some r \<Rightarrow>
          if sr_Provider (dq_sub r) = []
            then refuse (typedError BatchResultsRequest ''provider is required for batch results request'') w
          else if dq_ID r = []
            then refuse (providerError BatchResultsRequest (dq_sub r) ''batch_id is required for batch results request'') w
          else callRequest env BatchResultsRequest (dq_sub r) w)"

record 'q file_upload_request =
  uq_FileLen :: "nat"
  uq_sub :: "'q sub_request"

definition api_FileUploadRequest :: "('p, 'q) route_env \<Rightarrow> 'q file_upload_request option \<Rightarrow> world \<Rightarrow> 'p sub_response api_outcome" where
  "api_FileUploadRequest env req w =
     (case req of
        None \<Rightarrow> refuse (typedError FileUploadRequest ''file upload request is nil'') w
      | Some r \<Rightarrow>
          if sr_Provider (uq_sub r) = []
            then refuse (typedError FileUploadRequest ''provider is required for file upload request'') w
          else if uq_FileLen r = 0 \<and> sr_Provider (uq_sub r) \<noteq> Vertex
            then refuse (providerError FileUploadRequest (uq_sub r) ''file content is required for file upload request'') w
          else callRequest env FileUploadRequest (uq_sub r) w)"

definition api_FileListRequest :: "('p, 'q) route_env \<Rightarrow> 'q sub_request option \<Rightarrow> world \<Rightarrow> 'p sub_response api_outcome" where
  "api_FileListRequest env req w =
     (case req of
        None \<Rightarrow> refuse (typedError FileListRequest ''file list request is nil'') w
      | Some r \<Rightarrow>
          if sr_Provider r = []
            then refuse (typedError FileListRequest ''provider is required for file list request'') w
          else callRequest env FileListRequest r w)"

definition api_FileRetrieveRequest :: "('p, 'q) route_env \<Rightarrow> 'q id_request option \<Rightarrow> world \<Rightarrow> 'p sub_response api_outcome" where
  "api_FileRetrieveRequest env req w =
     (case req of
        None \<Rightarrow> refuse (bareError ''file retrieve request is nil'') w
      | Some r \<Rightarrow>
          if sr_Provider (dq_sub r) = []
            then refuse (bareError ''provider is required for file retrieve request'') w
          else if dq_ID r = []
            then refuse (bareError ''file_id is required for file retrieve request'') w
          else callRequest env FileRetrieveRequest (dq_sub r) w)"

definition api_FileDeleteRequest :: "('p, 'q) route_env \<Rightarrow> 'q id_request option \<Rightarrow> world \<Rightarrow> 'p sub_response api_outcome" where
  "api_FileDeleteRequest env req w =
     (case req of
        None \<Rightarrow> refuse (bareError ''file delete request is nil'') w
      | Some r \<Rightarrow>
          if sr_Provider (dq_sub r) = []
            then refuse (bareError ''provider is required for file delete request'') w
          else if dq_ID r = []
            then refuse (bareError ''file_id is required for file delete request'') w
          else callRequest env FileDeleteRequest (dq_sub r) w)"

definition api_FileContentRequest :: "('p, 'q) route_env \<Rightarrow> 'q id_request option \<Rightarrow> world \<Rightarrow> 'p sub_response api_outcome" where
  "api_FileContentRequest env req w =
     (case req of
        None \<Rightarrow> refuse (bareError ''file content request is nil'') w
      | Some r \<Rightarrow>
          if sr_Provider (dq_sub r) = []
            then refuse (bareError ''provider is required for file content request'') w
          else if dq_ID r = []
            then refuse (bareError ''file_id is required for file content request'') w
          else callRequest env FileContentRequest (dq_sub r) w)"

section \<open>Cached contents and passthrough\<close>

definition api_CachedContentCreateRequest :: "('p, 'q) route_env \<Rightarrow> 'q sub_request option \<Rightarrow> world \<Rightarrow> 'p sub_response api_outcome" where
  "api_CachedContentCreateRequest env req w =
     (case req of
        None \<Rightarrow> refuse (bareError ''cached content create request is nil'') w
      | Some r \<Rightarrow>
          if sr_Provider r = []
            then refuse (bareError ''provider is required for cached content create request'') w
          else if modelOf r = []
            then refuse (bareError ''model is required for cached content create request'') w
          else callRequest env CachedContentCreateRequest r w)"

definition api_CachedContentListRequest :: "('p, 'q) route_env \<Rightarrow> 'q sub_request option \<Rightarrow> world \<Rightarrow> 'p sub_response api_outcome" where
  "api_CachedContentListRequest env req w =
     (case req of
        None \<Rightarrow> refuse (bareError ''cached content list request is nil'') w
      | Some r \<Rightarrow>
          if sr_Provider r = []
            then refuse (bareError ''provider is required for cached content list request'') w
          else callRequest env CachedContentListRequest r w)"

definition api_CachedContentRetrieveRequest :: "('p, 'q) route_env \<Rightarrow> 'q id_request option \<Rightarrow> world \<Rightarrow> 'p sub_response api_outcome" where
  "api_CachedContentRetrieveRequest env req w =
     (case req of
        None \<Rightarrow> refuse (bareError ''cached content retrieve request is nil'') w
      | Some r \<Rightarrow>
          if sr_Provider (dq_sub r) = []
            then refuse (bareError ''provider is required for cached content retrieve request'') w
          else if dq_ID r = []
            then refuse (bareError ''name is required for cached content retrieve request'') w
          else callRequest env CachedContentRetrieveRequest (dq_sub r) w)"

definition api_CachedContentUpdateRequest :: "('p, 'q) route_env \<Rightarrow> 'q id_request option \<Rightarrow> world \<Rightarrow> 'p sub_response api_outcome" where
  "api_CachedContentUpdateRequest env req w =
     (case req of
        None \<Rightarrow> refuse (bareError ''cached content update request is nil'') w
      | Some r \<Rightarrow>
          if sr_Provider (dq_sub r) = []
            then refuse (bareError ''provider is required for cached content update request'') w
          else if dq_ID r = []
            then refuse (bareError ''name is required for cached content update request'') w
          else callRequest env CachedContentUpdateRequest (dq_sub r) w)"

definition api_CachedContentDeleteRequest :: "('p, 'q) route_env \<Rightarrow> 'q id_request option \<Rightarrow> world \<Rightarrow> 'p sub_response api_outcome" where
  "api_CachedContentDeleteRequest env req w =
     (case req of
        None \<Rightarrow> refuse (bareError ''cached content delete request is nil'') w
      | Some r \<Rightarrow>
          if sr_Provider (dq_sub r) = []
            then refuse (bareError ''provider is required for cached content delete request'') w
          else if dq_ID r = []
            then refuse (bareError ''name is required for cached content delete request'') w
          else callRequest env CachedContentDeleteRequest (dq_sub r) w)"

definition statusError :: "int \<Rightarrow> string \<Rightarrow> bifrost_error" where
  "statusError sc msg = (bareError msg)\<lparr>be_StatusCode := Some sc\<rparr>"

definition api_Passthrough :: "string \<Rightarrow> ('p, 'q) route_env \<Rightarrow> 'q sub_request option \<Rightarrow> world \<Rightarrow> 'p sub_response api_outcome" where
  "api_Passthrough provider env req w =
     (case req of
        None \<Rightarrow> refuse (statusError 400 ''passthrough request is nil'') w
      | Some r \<Rightarrow>
          callRequestOr (statusError 502 ''provider returned nil passthrough response'') env PassthroughRequest
            (r\<lparr>sr_Provider := provider\<rparr>) w)"

definition api_PassthroughStream :: "string \<Rightarrow> ('p, 'q) route_env \<Rightarrow> 'q sub_request option \<Rightarrow> world \<Rightarrow> 'p stream api_outcome" where
  "api_PassthroughStream provider env req w =
     (case req of
        None \<Rightarrow> refuse (statusError 400 ''passthrough request is nil'') w
      | Some r \<Rightarrow>
          callStream env PassthroughStreamRequest (r\<lparr>sr_Provider := provider\<rparr>) w)"

section \<open>Containers\<close>

definition api_ContainerCreateRequest :: "('p, 'q) route_env \<Rightarrow> 'q id_request option \<Rightarrow> world \<Rightarrow> 'p sub_response api_outcome" where
  "api_ContainerCreateRequest env req w =
     (case req of
        None \<Rightarrow> refuse (bareError ''container create request is nil'') w
      | Some r \<Rightarrow>
          if sr_Provider (dq_sub r) = []
            then refuse (bareError ''provider is required for container create request'') w
          else if dq_ID r = []
            then refuse (bareError ''name is required for container create request'') w
          else callRequest env ContainerCreateRequest (dq_sub r) w)"

definition api_ContainerListRequest :: "('p, 'q) route_env \<Rightarrow> 'q sub_request option \<Rightarrow> world \<Rightarrow> 'p sub_response api_outcome" where
  "api_ContainerListRequest env req w =
     (case req of
        None \<Rightarrow> refuse (bareError ''container list request is nil'') w
      | Some r \<Rightarrow>
          if sr_Provider r = []
            then refuse (bareError ''provider is required for container list request'') w
          else callRequest env ContainerListRequest r w)"

definition api_ContainerRetrieveRequest :: "('p, 'q) route_env \<Rightarrow> 'q id_request option \<Rightarrow> world \<Rightarrow> 'p sub_response api_outcome" where
  "api_ContainerRetrieveRequest env req w =
     (case req of
        None \<Rightarrow> refuse (bareError ''container retrieve request is nil'') w
      | Some r \<Rightarrow>
          if sr_Provider (dq_sub r) = []
            then refuse (bareError ''provider is required for container retrieve request'') w
          else if dq_ID r = []
            then refuse (bareError ''container_id is required for container retrieve request'') w
          else callRequest env ContainerRetrieveRequest (dq_sub r) w)"

definition api_ContainerDeleteRequest :: "('p, 'q) route_env \<Rightarrow> 'q id_request option \<Rightarrow> world \<Rightarrow> 'p sub_response api_outcome" where
  "api_ContainerDeleteRequest env req w =
     (case req of
        None \<Rightarrow> refuse (bareError ''container delete request is nil'') w
      | Some r \<Rightarrow>
          if sr_Provider (dq_sub r) = []
            then refuse (bareError ''provider is required for container delete request'') w
          else if dq_ID r = []
            then refuse (bareError ''container_id is required for container delete request'') w
          else callRequest env ContainerDeleteRequest (dq_sub r) w)"

record 'q container_file_create_request =
  xq_ContainerID :: "string"
  xq_FileLen :: "nat"
  xq_FileID :: "string option"
  xq_Path :: "string option"
  xq_sub :: "'q sub_request"

definition api_ContainerFileCreateRequest :: "('p, 'q) route_env \<Rightarrow> 'q container_file_create_request option \<Rightarrow> world \<Rightarrow> 'p sub_response api_outcome" where
  "api_ContainerFileCreateRequest env req w =
     (case req of
        None \<Rightarrow> refuse (bareError ''container file create request is nil'') w
      | Some r \<Rightarrow>
          if sr_Provider (xq_sub r) = []
            then refuse (bareError ''provider is required for container file create request'') w
          else if xq_ContainerID r = []
            then refuse (bareError ''container_id is required for container file create request'') w
          else if xq_FileLen r = 0 \<and> absentOrBlank (xq_FileID r) \<and> absentOrBlank (xq_Path r)
            then refuse (bareError ''one of file, file_id, or path is required for container file create request'') w
          else callRequest env ContainerFileCreateRequest (xq_sub r) w)"

definition api_ContainerFileListRequest :: "('p, 'q) route_env \<Rightarrow> 'q id_request option \<Rightarrow> world \<Rightarrow> 'p sub_response api_outcome" where
  "api_ContainerFileListRequest env req w =
     (case req of
        None \<Rightarrow> refuse (bareError ''container file list request is nil'') w
      | Some r \<Rightarrow>
          if sr_Provider (dq_sub r) = []
            then refuse (bareError ''provider is required for container file list request'') w
          else if dq_ID r = []
            then refuse (bareError ''container_id is required for container file list request'') w
          else callRequest env ContainerFileListRequest (dq_sub r) w)"

record 'q container_file_request =
  fq_ContainerID :: "string"
  fq_FileID :: "string"
  fq_sub :: "'q sub_request"

definition api_ContainerFileRetrieveRequest :: "('p, 'q) route_env \<Rightarrow> 'q container_file_request option \<Rightarrow> world \<Rightarrow> 'p sub_response api_outcome" where
  "api_ContainerFileRetrieveRequest env req w =
     (case req of
        None \<Rightarrow> refuse (bareError ''container file retrieve request is nil'') w
      | Some r \<Rightarrow>
          if sr_Provider (fq_sub r) = []
            then refuse (bareError ''provider is required for container file retrieve request'') w
          else if fq_ContainerID r = []
            then refuse (bareError ''container_id is required for container file retrieve request'') w
          else if fq_FileID r = []
            then refuse (bareError ''file_id is required for container file retrieve request'') w
          else callRequest env ContainerFileRetrieveRequest (fq_sub r) w)"

definition api_ContainerFileContentRequest :: "('p, 'q) route_env \<Rightarrow> 'q container_file_request option \<Rightarrow> world \<Rightarrow> 'p sub_response api_outcome" where
  "api_ContainerFileContentRequest env req w =
     (case req of
        None \<Rightarrow> refuse (bareError ''container file content request is nil'') w
      | Some r \<Rightarrow>
          if sr_Provider (fq_sub r) = []
            then refuse (bareError ''provider is required for container file content request'') w
          else if fq_ContainerID r = []
            then refuse (bareError ''container_id is required for container file content request'') w
          else if fq_FileID r = []
            then refuse (bareError ''file_id is required for container file content request'') w
          else callRequest env ContainerFileContentRequest (fq_sub r) w)"

definition api_ContainerFileDeleteRequest :: "('p, 'q) route_env \<Rightarrow> 'q container_file_request option \<Rightarrow> world \<Rightarrow> 'p sub_response api_outcome" where
  "api_ContainerFileDeleteRequest env req w =
     (case req of
        None \<Rightarrow> refuse (bareError ''container file delete request is nil'') w
      | Some r \<Rightarrow>
          if sr_Provider (fq_sub r) = []
            then refuse (bareError ''provider is required for container file delete request'') w
          else if fq_ContainerID r = []
            then refuse (bareError ''container_id is required for container file delete request'') w
          else if fq_FileID r = []
            then refuse (bareError ''file_id is required for container file delete request'') w
          else callRequest env ContainerFileDeleteRequest (fq_sub r) w)"

section \<open>Lemmas\<close>

lemma storeAnswer_typed:
  assumes "storeAnswer s f a = (resp, err, c')"
  shows "(resp = None \<longleftrightarrow> err \<noteq> None) \<and> (\<forall>x s'. resp = Some x \<and> rs_sub x s' \<noteq> None \<longrightarrow> s' = s) \<and> snd a = (err, c')"
  using assms by (cases a; cases "fst (snd a)") (auto simp: storeAnswer_def split: if_splits)

text \<open>What an outcome of the dispatcher owes to the provider: the answer is in field \<open>s\<close>, and the error
  and the context are those of one call of a method.\<close>

definition servedBy ::
  "('p, 'q) provider \<Rightarrow> nat \<Rightarrow> bctx \<Rightarrow> response_slot \<Rightarrow> 'p bifrost_response option \<times> bifrost_error option \<times> bctx \<Rightarrow> bool" where
  "servedBy pv n c s out \<longleftrightarrow>
     (case out of (resp, err, c') \<Rightarrow>
        (resp = None \<longleftrightarrow> err \<noteq> None) \<and> (\<forall>x s'. resp = Some x \<and> rs_sub x s' \<noteq> None \<longrightarrow> s' = s)
        \<and> (\<exists>m ka a. snd (pv_call pv m n ka a c) = (err, c')))"

lemma servedBy_store: "servedBy pv n c s (storeAnswer s f (pv_call pv m n ka a c))"
  unfolding servedBy_def by (auto split: prod.split dest!: storeAnswer_typed)

fun caseField :: "op_case \<Rightarrow> response_slot" where
  "caseField (Plain m q s) = s"
| "caseField (Backfilled m q s) = s"
| "caseField (Multi m q s) = s"

lemma servedBy_callCase: "servedBy pv n c (caseField oc) (callCase pv cv n req k ks oc c)"
  by (cases oc) (simp_all add: servedBy_store)

lemma buildRequest_type [simp]: "br_RequestType (buildRequest t r) = t"
  by (cases t) (simp_all add: buildRequest_def singleRequest_def)

lemma plainCase_field:
  assumes "apiFields t = Some (q, Some s)"
    and "t \<notin> {TextCompletionRequest, ChatCompletionRequest, OCRRequest, PassthroughRequest}"
  shows "\<exists>oc. plainCase t = Some oc \<and> caseField oc = s"
  using assms by (cases t) (simp_all add: plainCase_def)

lemma stream_types: "apiFields t = Some (q, f) \<Longrightarrow> IsStreamRequestType t \<longleftrightarrow> f = None"
  by (cases t) (auto simp: IsStreamRequestType_def)

lemma processRequest_extra:
  assumes "processRequest env s req w = (Responded (Some r), w1)" "GetRequestFields req = (p, m, fs)"
    and "calls = drop (length (w_calls w)) (w_calls w1)" "calls \<noteq> []" "activeResponse getExtraOrder r \<noteq> None"
  shows "\<exists>x c. GetExtraFields r = syncDeprecatedFromRoutingInfo (attemptRouting (we_key env) m (fst (last calls)) c)
    (x\<lparr>xf_RoutingInfo := attemptRouting (we_key env) m (fst (last calls)) c\<rparr>)"
proof -
  obtain r0 err w2 where fin: "finishRequest env (br_RequestType req) m (prepareWorker env w) (r0, err, w2) = (Responded (Some r), w1)"
    using assms(1,2) by (auto simp: processRequest_def Let_def split: sum.splits prod.splits)
  then have "w2 = w1" by (auto simp: finishRequest_def split: prod.splits option.splits)
  with fin show ?thesis
    using assms(3-5)
    by (auto simp: finishRequest_def w_calls_prepareWorker lastAttempt_def populateBoth_def respPopulateRoutingInfo_def
        GetExtraFields_updateExtra split: prod.splits option.splits) (intro exI, rule refl)
qed

lemma GetExtraFields_populate:
  assumes "activeResponse getExtraOrder r = Some sl" "activeResponse populateOrder r = Some sl"
  shows "GetExtraFields (respPopulateExtraFields t p m um r) = extraPopulate t p m um (GetExtraFields r)"
  using GetExtraFields_updateExtra [of r "extraPopulate t p m um"] assms
  by (simp add: respPopulateExtraFields_def updateExtra_def)

section \<open>Properties\<close>




definition aliasKey :: key where
  "aliasKey = zeroKey\<lparr>k_ID := ''a'', k_Value := ''sk'', k_Models := [''*''], k_Aliases := [(''best'', aliasSample)]\<rparr>"

definition aliasWorker :: "(string, nat, nat kv_store, nat) worker_env" where
  "aliasWorker = sampleWorker\<lparr>we_pool := pool_sample_env\<lparr>pe_account := \<lambda>_. Inr [aliasKey]\<rparr>\<rparr>"

definition aliasDispatch :: "(string, nat) dispatch_env" where
  "aliasDispatch = \<lparr>de_queueError = (\<lambda>_. None), de_hasTracer = True, de_plugins = [], de_pluginCount = 0,
     de_spanID = VOther, de_dur = (\<lambda>_. 0), de_closing = False, de_rerouted = False, de_trySend = Some Sent,
     de_dropExcess = False, de_closingAgain = False, de_blockingSend = Sent,
     de_serve = processRequest aliasWorker kv_sample, de_serveStream = processStream aliasWorker kv_sample,
     de_traceID = [], de_respType = (\<lambda>_. [])\<rparr>"

end
