(* ===== verification/Spec2Isabelle.thy ===== *)
theory Spec2Isabelle
  imports KVStore Fallback Lifecycle Gate Cells Resolver GovOwners Models Api
begin

text \<open>
  Bifrost Lite is a gateway in front of many providers of language models: a request names a
  provider and a model, the core (\<^verbatim>\<open>core/\<close>) runs plugins around it, puts it into the queue of the
  provider, a worker of that queue picks an API key, calls the provider and retries, and when the
  provider fails for good the core falls back to the next one. This development models the logic
  of that core and of the store it shares state through; what a provider does on the wire is a
  parameter.

  \<^bold>\<open>Theories, from the bottom\<close>

  \<^item> \<open>Prelude\<close>: byte strings as Go's \<^verbatim>\<open>strings\<close> package treats them (on ASCII), 64-bit wrap-around,
    stable sorting by a strict weak order (a locale), association lists.
  \<^item> \<open>KVStore\<close>: \<^verbatim>\<open>framework/kvstore/kvstore.go\<close>, the in-memory store with expiry, write-if-absent,
    lazy decoding and replication through a delegate.
  \<^item> \<open>Schemas\<close>, \<open>Response\<close>, \<open>Context\<close>: \<^verbatim>\<open>core/schemas\<close>, the tagged request and response, errors and
    routing information, keys with their lists, and the request context with its reserved keys.
  \<^item> \<open>Utils\<close>: \<^verbatim>\<open>core/utils.go\<close> and \<^verbatim>\<open>core/network\<close>, the predicates, errors, backoff and URL checks.
  \<^item> \<open>KeyPool\<close>: \<^verbatim>\<open>core/keyselectors\<close> and the key gathering, pinning and stickiness of \<^verbatim>\<open>core/bifrost.go\<close>.
  \<^item> \<open>RetryPolicy\<close>, \<open>Retry\<close>: \<^verbatim>\<open>executeRequestWithRetries\<close>, its decisions and its loop.
  \<^item> \<open>SpanFilter\<close>: \<^verbatim>\<open>core/schemas/span_filter.go\<close>; \<open>Plugins\<close>: the plugin pipeline.
  \<^item> \<open>Dispatch\<close>: \<^verbatim>\<open>tryRequest\<close>, \<^verbatim>\<open>tryStreamRequest\<close>; \<open>Fallback\<close>: \<^verbatim>\<open>handleRequest\<close>, \<^verbatim>\<open>handleStreamRequest\<close>.
  \<^item> \<open>Lifecycle\<close>: queues, workers, update and removal of a provider as interleaved steps.
  \<^item> \<open>Gate\<close>: \<^verbatim>\<open>framework/streaming/gate.go\<close>, the pause, resume and end of a stream, as interleaved steps.
  \<^item> \<open>Calendar\<close>: the reset windows of \<^verbatim>\<open>framework/configstore/tables/utils.go\<close> on the proleptic calendar.
  \<^item> \<open>Governance\<close>, \<open>Resolver\<close>: \<^verbatim>\<open>plugins/governance\<close>, the loaded budgets and rate limits, what is
    attached to a request, the checks, the decision, the hooks and the settlement of a call;
    \<open>Cells\<close>: the load and compare-and-swap steps of its counters, interleaved.
  \<^item> \<open>GovAdmin\<close>, \<open>GovOwners\<close>: the same store as it is administered: the keys, teams, customers, model
    configurations and providers with the budgets and limits they own, and what keeps them apart.
  \<^item> \<open>Aliases\<close>: \<^verbatim>\<open>core/schemas/account.go\<close>, the aliases of a key and the routing information.
  \<^item> \<open>Worker\<close>: \<^verbatim>\<open>requestWorker\<close>, \<^verbatim>\<open>handleProviderRequest\<close>, \<^verbatim>\<open>handleProviderStreamRequest\<close>: one message from
    the flags of its attempt and its keys to the metadata of its result; \<open>Api\<close>: the public methods.
  \<^item> \<open>Models\<close>: the lists of models, their pages and their aggregation over keys.

  The parts meet as in the code: a method of \<open>Api\<close> builds the request and calls \<open>Fallback\<close>, which
  runs \<open>Dispatch\<close> once per provider; \<open>Dispatch\<close> runs the hooks of \<open>Plugins\<close> and hands the message to
  \<open>de_serve\<close>, which \<open>Worker\<close> provides (\<open>processRequest\<close>, \<open>processStream\<close>) out of \<open>KeyPool\<close> and \<open>Retry\<close>.

  \<^bold>\<open>What the properties show\<close>

  \<^item> The store: write-if-absent is atomic, the invariant of every reachable store, no live value is
    evicted, replicas converge.
  \<^item> Keys: the race of two requests of a session, the exclusion of dead and used keys, and that the
    provider is only ever called with a key the configuration allows.
  \<^item> Retries: the loop ends, dead keys are not used again, exhausted credentials are reported.
  \<^item> Hooks and attempts: every hook that ran is unwound, raw payloads are withheld, fallbacks follow
    their specification, each kind of request is served by its method.
  \<^item> Queues and streams: no message is lost or answered twice, chunks are delivered in order and
    completely, wake-ups are not lost.
  \<^item> Governance: an allowed request is within its limits, a settled call is charged once and to what
    applies to it, concurrent charges are those of a sequence, and whatever the history of the
    store is, what an owner names is stored and is its own.
  \<^item> Some properties state a defect: what the code does on an input where it does not do what its
    comments promise (an alias lost from a response, a passthrough lost on a fallback, an overflow).

  \<^bold>\<open>Conventions\<close>

  A Go struct is a record with a prefix per type, a pointer that may be nil an option, a map a
  function or an association list whose order stands for one iteration order, \<^verbatim>\<open>error\<close> and
  \<^verbatim>\<open>*BifrostError\<close> results are options, a panic is None of an extra option. Time, randomness, the
  provider's answer, hooks of plugins and the account are arguments or fields of an environment
  record, so a theorem holds for all of them. The world (\<open>world\<close>) that is passed along holds the
  context, the tracer's events, the waits and the provider calls made so far. Selects and
  interleavings are resolved by the environment (\<open>Dispatch\<close>) or by the list of events
  (\<open>Lifecycle\<close>, \<open>Gate\<close>, \<open>Cells\<close>).

  \<^bold>\<open>Bounds and fuel\<close>

  The retry loop runs on \<open>MaxRetries + 1\<close> rounds, which is the bound of the \<^verbatim>\<open>for\<close> loop itself;
  every other recursion is structural or over an explicit list of events. Integers that can
  overflow are wrapped to 64 bits where they are computed (\<open>wrap64\<close>).

  \<^bold>\<open>Not modelled\<close>

  The provider implementations and the conversions between their formats, the HTTP transport and
  the web interface, the databases, the content of accumulated streams, the routing rules and scores
  of governance, tracing and logging. They are I/O, formats of external services, or floating point;
  where the modelled code calls them they are parameters. Strings are bytes, and case folding is
  that of ASCII.
\<close>

end
